(* ===== verification/Prelude.thy ===== *)
theory Prelude
  imports Main "HOL-Library.Word" "HOL-Library.Sublist" "HOL-Library.AList"
begin

text \<open>
  Shared vocabulary of the development: the pieces of the Rust language and of its
  standard library that the modelled sources use (wrapping signed arithmetic, \<open>str\<close>
  operations on UTF-8 bytes, integer parsing and printing, hash maps as association
  lists), and three interfaces stated as locales: a machine with an invariant, an
  encoder with a decoder, and the string option store of \<open>hbb_common\<close>.
\<close>

named_theorems rust_str "evaluation and characterisation of the string operations"
named_theorems store_simps "reads after writes in the option store"


section \<open>Integers\<close>

text \<open>
  The release profile of the program compiles arithmetic without overflow checks, so a
  signed 64-bit operation wraps around. \<open>wrap64\<close> reduces a mathematical result to
  the value an \<open>i64\<close> holds.
\<close>

definition wrap64 :: "int \<Rightarrow> int" where
  "wrap64 x = (x + 2 ^ 63) mod 2 ^ 64 - 2 ^ 63"

abbreviation in_i64 :: "int \<Rightarrow> bool" where
  "in_i64 x \<equiv> - (2 ^ 63) \<le> x \<and> x < 2 ^ 63"

lemma wrap64_id: "in_i64 x \<Longrightarrow> wrap64 x = x"
  by (simp add: wrap64_def)

lemma wrap64_range: "in_i64 (wrap64 x)"
proof -
  have "0 \<le> (x + 2 ^ 63) mod (2 ^ 64 :: int)" and "(x + 2 ^ 63) mod (2 ^ 64 :: int) < 2 ^ 64"
    by simp_all
  then show ?thesis
    by (simp add: wrap64_def)
qed

abbreviation u32_max :: nat where
  "u32_max \<equiv> 4294967295"

abbreviation u64_max :: nat where
  "u64_max \<equiv> 18446744073709551615"

abbreviation u16_max :: nat where
  "u16_max \<equiv> 65535"

text \<open>\<open>clamp\<close> of \<open>Ord\<close> panics when the bounds cross; \<open>None\<close> is the panic.\<close>

definition clamp_checked :: "'a::linorder \<Rightarrow> 'a \<Rightarrow> 'a \<Rightarrow> 'a option" where
  "clamp_checked lo hi x =
     (if lo \<le> hi then Some (if x < lo then lo else if hi < x then hi else x) else None)"

lemma clamp_checked_Some [simp]:
  "lo \<le> hi \<Longrightarrow> clamp_checked lo hi x = Some (max lo (min hi x))"
  by (auto simp: clamp_checked_def max_def min_def)

lemma clamp_checked_None: "clamp_checked lo hi x = None \<longleftrightarrow> hi < lo"
  by (auto simp: clamp_checked_def)


section \<open>Strings\<close>

text \<open>
  A Rust \<open>str\<close> is its UTF-8 bytes, one \<^typ>\<open>char\<close> per byte. Whitespace is Unicode's
  \<open>White_Space\<close> property: the ASCII blanks and the multi-byte encodings of U+0085,
  U+00A0, U+1680, U+2000 to U+200A, U+2028, U+2029, U+202F, U+205F and U+3000.
\<close>

abbreviation byte :: "char \<Rightarrow> nat" where
  "byte c \<equiv> of_char c"

definition ascii_ws :: "char \<Rightarrow> bool" where
  "ascii_ws c \<longleftrightarrow> byte c \<in> {9, 10, 11, 12, 13, 32}"

definition ws2 :: "char \<Rightarrow> char \<Rightarrow> bool" where
  "ws2 a b \<longleftrightarrow> byte a = 194 \<and> byte b \<in> {133, 160}"

definition ws3 :: "char \<Rightarrow> char \<Rightarrow> char \<Rightarrow> bool" where
  "ws3 a b c \<longleftrightarrow>
     (byte a = 225 \<and> byte b = 154 \<and> byte c = 128)
   \<or> (byte a = 226 \<and> byte b = 128 \<and> (128 \<le> byte c \<and> byte c \<le> 138 \<or> byte c \<in> {168, 169, 175}))
   \<or> (byte a = 226 \<and> byte b = 129 \<and> byte c = 159)
   \<or> (byte a = 227 \<and> byte b = 128 \<and> byte c = 128)"

text \<open>The rest of the string after one leading whitespace character, if it has one.\<close>

fun drop_ws :: "string \<Rightarrow> string option" where
  "drop_ws [] = None"
| "drop_ws (a # s) =
     (if ascii_ws a then Some s
      else case s of
        [] \<Rightarrow> None
      | b # s' \<Rightarrow>
          if ws2 a b then Some s'
          else (case s' of [] \<Rightarrow> None | c # s'' \<Rightarrow> if ws3 a b c then Some s'' else None))"

lemma drop_ws_shorter: "drop_ws s = Some r \<Longrightarrow> length r < length s"
  by (cases s rule: drop_ws.cases) (auto split: if_splits list.splits)

function trim_start :: "string \<Rightarrow> string" where
  "trim_start s = (case drop_ws s of None \<Rightarrow> s | Some r \<Rightarrow> trim_start r)"
  by pat_completeness auto
termination
  by (relation "measure length") (auto dest: drop_ws_shorter)

declare trim_start.simps [simp del]

text \<open>The same at the end, on the reversed bytes.\<close>

fun drop_ws_rev :: "string \<Rightarrow> string option" where
  "drop_ws_rev [] = None"
| "drop_ws_rev (a # s) =
     (if ascii_ws a then Some s
      else case s of
        [] \<Rightarrow> None
      | b # s' \<Rightarrow>
          if ws2 b a then Some s'
          else (case s' of [] \<Rightarrow> None | c # s'' \<Rightarrow> if ws3 c b a then Some s'' else None))"

lemma drop_ws_rev_shorter: "drop_ws_rev s = Some r \<Longrightarrow> length r < length s"
  by (cases s rule: drop_ws_rev.cases) (auto split: if_splits list.splits)

function trim_start_rev :: "string \<Rightarrow> string" where
  "trim_start_rev s = (case drop_ws_rev s of None \<Rightarrow> s | Some r \<Rightarrow> trim_start_rev r)"
  by pat_completeness auto
termination
  by (relation "measure length") (auto dest: drop_ws_rev_shorter)

declare trim_start_rev.simps [simp del]

definition trim :: "string \<Rightarrow> string" where
  "trim s = rev (trim_start_rev (rev (trim_start s)))"

lemma trim_start_drop_ws: "drop_ws (trim_start s) = None"
proof (induction s rule: trim_start.induct)
  case (1 s)
  then show ?case
    by (subst trim_start.simps) (auto split: option.splits)
qed

lemma trim_start_fix: "drop_ws s = None \<Longrightarrow> trim_start s = s"
  by (simp add: trim_start.simps)

lemma trim_start_rev_fix: "drop_ws_rev s = None \<Longrightarrow> trim_start_rev s = s"
  by (simp add: trim_start_rev.simps)

lemma trim_start_Nil [simp]: "trim_start [] = []" and trim_start_rev_Nil [simp]: "trim_start_rev [] = []"
  by (simp_all add: trim_start.simps trim_start_rev.simps)

lemma trim_Nil [simp]: "trim [] = []"
  by (simp add: trim_def)

text \<open>A string of visible ASCII has nothing to trim.\<close>

definition visible_ascii :: "char \<Rightarrow> bool" where
  "visible_ascii c \<longleftrightarrow> 32 < byte c \<and> byte c < 127"

lemma trim_visible:
  assumes "list_all visible_ascii s"
  shows "trim s = s"
proof -
  have "drop_ws s = None"
    using assms by (cases s rule: drop_ws.cases)
      (auto simp: visible_ascii_def ascii_ws_def ws2_def ws3_def split: list.splits)
  moreover have "drop_ws_rev (rev s) = None"
  proof -
    have "list_all visible_ascii (rev s)" using assms by simp
    then show ?thesis
      by (cases "rev s" rule: drop_ws_rev.cases)
        (auto simp: visible_ascii_def ascii_ws_def ws2_def ws3_def split: list.splits)
  qed
  ultimately show ?thesis
    by (simp add: trim_def trim_start_fix trim_start_rev_fix)
qed

fun split_on :: "char \<Rightarrow> string \<Rightarrow> string list" where
  "split_on d [] = [[]]"
| "split_on d (c # s) =
     (if c = d then [] # split_on d s
      else (case split_on d s of [] \<Rightarrow> [[c]] | p # ps \<Rightarrow> (c # p) # ps))"

lemma split_on_not_Nil [simp]: "split_on d s \<noteq> []"
  by (induction s) (auto split: list.splits)

lemma split_on_no_sep: "d \<notin> set s \<Longrightarrow> split_on d s = [s]"
  by (induction s) auto

lemma split_on_append_sep: "d \<notin> set p \<Longrightarrow> split_on d (p @ d # s) = p # split_on d s"
  by (induction p) auto

fun split_once :: "char \<Rightarrow> string \<Rightarrow> (string \<times> string) option" where
  "split_once d [] = None"
| "split_once d (c # s) =
     (if c = d then Some ([], s)
      else map_option (\<lambda>(a, b). (c # a, b)) (split_once d s))"

lemma split_once_append: "d \<notin> set p \<Longrightarrow> split_once d (p @ d # s) = Some (p, s)"
  by (induction p) auto

lemma split_once_Some: "split_once d s = Some (a, b) \<Longrightarrow> s = a @ d # b \<and> d \<notin> set a"
  by (induction s arbitrary: a b) (auto split: if_splits)

text \<open>\<open>splitn n d\<close>: at most \<open>n\<close> pieces, the last one keeps its separators.\<close>

fun splitn :: "nat \<Rightarrow> char \<Rightarrow> string \<Rightarrow> string list" where
  "splitn 0 d s = []"
| "splitn (Suc 0) d s = [s]"
| "splitn (Suc (Suc n)) d s =
     (case split_once d s of None \<Rightarrow> [s] | Some (a, b) \<Rightarrow> a # splitn (Suc n) d b)"

text \<open>\<open>split\<close> at a non-empty string pattern.\<close>

function split_str_from :: "string \<Rightarrow> string \<Rightarrow> string \<Rightarrow> string list" where
  "split_str_from pat acc [] = [rev acc]"
| "split_str_from pat acc (c # s) =
     (if pat \<noteq> [] \<and> prefix pat (c # s) then rev acc # split_str_from pat [] (drop (length pat) (c # s))
      else split_str_from pat (c # acc) s)"
  by pat_completeness auto
termination
  by (relation "measure (\<lambda>(_, _, s). length s)") (auto simp: diff_less_Suc prefix_def)

definition split_str :: "string \<Rightarrow> string \<Rightarrow> string list" where
  "split_str pat s = split_str_from pat [] s"

definition trim_start_matches :: "char \<Rightarrow> string \<Rightarrow> string" where
  "trim_start_matches c s = dropWhile (\<lambda>x. x = c) s"

definition trim_end_matches :: "char \<Rightarrow> string \<Rightarrow> string" where
  "trim_end_matches c s = rev (dropWhile (\<lambda>x. x = c) (rev s))"

definition trim_matches :: "char \<Rightarrow> string \<Rightarrow> string" where
  "trim_matches c s = trim_end_matches c (trim_start_matches c s)"

text \<open>\<open>lines\<close>: pieces ended by a newline, a trailing carriage return dropped.\<close>

definition strip_cr :: "string \<Rightarrow> string" where
  "strip_cr l = (if l \<noteq> [] \<and> last l = CHR 0x0D then butlast l else l)"

definition lines :: "string \<Rightarrow> string list" where
  "lines s =
     (let ps = split_on (CHR 0x0A) s
      in map strip_cr (butlast ps) @ (if last ps = [] then [] else [last ps]))"

fun take_word :: "string \<Rightarrow> string \<times> string" where
  "take_word [] = ([], [])"
| "take_word (c # s) =
     (if drop_ws (c # s) \<noteq> None then ([], c # s)
      else (let (w, r) = take_word s in (c # w, r)))"

lemma take_word_length: "length (snd (take_word s)) \<le> length s"
  by (induction s rule: take_word.induct) (auto simp del: drop_ws.simps split: prod.splits)

lemma trim_start_length: "length (trim_start s) \<le> length s"
proof (induction s rule: trim_start.induct)
  case (1 s)
  show ?case
  proof (cases "drop_ws s")
    case None
    then show ?thesis by (simp add: trim_start_fix)
  next
    case (Some r)
    with 1 have "length (trim_start r) \<le> length r" by simp
    with drop_ws_shorter [OF Some] Some show ?thesis
      by (simp add: trim_start.simps [of s])
  qed
qed

function split_whitespace :: "string \<Rightarrow> string list" where
  "split_whitespace s =
     (if trim_start s = [] then []
      else fst (take_word (trim_start s)) # split_whitespace (snd (take_word (trim_start s))))"
  by pat_completeness auto
termination
proof (relation "measure length", goal_cases)
  case 1
  show ?case by simp
next
  case (2 s)
  then obtain c r where cr: "trim_start s = c # r"
    by (cases "trim_start s") auto
  have "drop_ws (c # r) = None"
    using trim_start_drop_ws [of s] by (simp add: cr del: drop_ws.simps)
  then have "snd (take_word (c # r)) = snd (take_word r)"
    by (simp del: drop_ws.simps split: prod.splits)
  then have "length (snd (take_word (trim_start s))) < length (trim_start s)"
    using take_word_length [of r] by (simp add: cr del: drop_ws.simps take_word.simps)
  then show ?case
    using trim_start_length [of s] by simp
qed

declare split_whitespace.simps [simp del]

definition is_ascii_digit :: "char \<Rightarrow> bool" where
  "is_ascii_digit c \<longleftrightarrow> 48 \<le> byte c \<and> byte c \<le> 57"

definition is_ascii_hexdigit :: "char \<Rightarrow> bool" where
  "is_ascii_hexdigit c \<longleftrightarrow>
     is_ascii_digit c \<or> (65 \<le> byte c \<and> byte c \<le> 70) \<or> (97 \<le> byte c \<and> byte c \<le> 102)"

definition is_ascii_alphanumeric :: "char \<Rightarrow> bool" where
  "is_ascii_alphanumeric c \<longleftrightarrow>
     is_ascii_digit c \<or> (65 \<le> byte c \<and> byte c \<le> 90) \<or> (97 \<le> byte c \<and> byte c \<le> 122)"

definition ascii_lower :: "char \<Rightarrow> char" where
  "ascii_lower c = (if 65 \<le> byte c \<and> byte c \<le> 90 then char_of (byte c + 32) else c)"

definition to_ascii_lowercase :: "string \<Rightarrow> string" where
  "to_ascii_lowercase s = map ascii_lower s"

definition eq_ignore_ascii_case :: "string \<Rightarrow> string \<Rightarrow> bool" where
  "eq_ignore_ascii_case a b \<longleftrightarrow> to_ascii_lowercase a = to_ascii_lowercase b"

definition ends_with :: "string \<Rightarrow> string \<Rightarrow> bool" where
  "ends_with s t \<longleftrightarrow> suffix t s"

fun contains_str :: "string \<Rightarrow> string \<Rightarrow> bool" where
  "contains_str [] pat \<longleftrightarrow> pat = []"
| "contains_str (c # s) pat \<longleftrightarrow> prefix pat (c # s) \<or> contains_str s pat"

lemma contains_str_sublist: "contains_str s pat \<longleftrightarrow> sublist pat s"
  by (induction s) (auto simp: sublist_Cons_right)

definition strip_prefix :: "string \<Rightarrow> string \<Rightarrow> string option" where
  "strip_prefix p s = (if prefix p s then Some (drop (length p) s) else None)"


section \<open>Reading and printing unsigned integers\<close>

text \<open>
  \<open>str::parse\<close> at an unsigned type: an optional plus sign, then at least one ASCII
  digit and nothing else, \<open>None\<close> when the value does not fit.
\<close>

fun digits_val :: "nat \<Rightarrow> string \<Rightarrow> nat option" where
  "digits_val acc [] = Some acc"
| "digits_val acc (c # s) =
     (if is_ascii_digit c then digits_val (10 * acc + (byte c - 48)) s else None)"

definition parse_uint :: "nat \<Rightarrow> string \<Rightarrow> nat option" where
  "parse_uint mx s =
     (let t = (case s of [] \<Rightarrow> [] | c # r \<Rightarrow> if c = CHR ''+'' then r else s)
      in if t = [] then None
         else case digits_val 0 t of
           None \<Rightarrow> None
         | Some v \<Rightarrow> if v \<le> mx then Some v else None)"

lemma parse_uint_le: "parse_uint mx s = Some v \<Longrightarrow> v \<le> mx"
  by (auto simp: parse_uint_def Let_def split: list.splits if_splits option.splits)

lemma parse_uint_Nil [simp]: "parse_uint mx [] = None"
  by (simp add: parse_uint_def)

definition digit_char :: "nat \<Rightarrow> char" where
  "digit_char d = char_of (48 + d)"

fun show_nat :: "nat \<Rightarrow> string" where
  "show_nat n = (if n < 10 then [digit_char n] else show_nat (n div 10) @ [digit_char (n mod 10)])"

declare show_nat.simps [simp del]

lemma byte_digit_char [simp]: "d < 10 \<Longrightarrow> byte (digit_char d) = 48 + d"
  by (simp add: digit_char_def)

lemma is_ascii_digit_digit_char [simp]: "d < 10 \<Longrightarrow> is_ascii_digit (digit_char d)"
  by (simp add: is_ascii_digit_def)

lemma digits_val_append:
  "digits_val acc (s @ t) = (case digits_val acc s of None \<Rightarrow> None | Some v \<Rightarrow> digits_val v t)"
  by (induction s arbitrary: acc) auto

lemma digits_val_show_nat: "digits_val 0 (show_nat n) = Some n"
proof (induction n rule: show_nat.induct)
  case (1 n)
  show ?case
  proof (cases "n < 10")
    case True
    then show ?thesis by (subst show_nat.simps) simp
  next
    case False
    then show ?thesis
      by (subst show_nat.simps) (simp add: digits_val_append 1)
  qed
qed

lemma show_nat_not_Nil [simp]: "show_nat n \<noteq> []"
  by (subst show_nat.simps) simp

lemma show_nat_digits: "list_all is_ascii_digit (show_nat n)"
proof (induction n rule: show_nat.induct)
  case (1 n)
  then show ?case
    by (subst show_nat.simps) simp
qed

lemma show_nat_no_sep: "\<not> is_ascii_digit d \<Longrightarrow> d \<notin> set (show_nat n)"
  using show_nat_digits [of n] by (auto simp: list_all_iff)

lemma show_nat_visible: "list_all visible_ascii (show_nat n)"
  using show_nat_digits [of n] by (auto simp: list_all_iff is_ascii_digit_def visible_ascii_def)

lemma not_digit [rust_str]: "\<not> is_ascii_digit CHR ''+''" "\<not> is_ascii_digit CHR '':''"
  "\<not> is_ascii_digit CHR ''.''" "\<not> is_ascii_digit CHR ''|''"
  by (simp_all add: is_ascii_digit_def)

text \<open>A printed number is read back, provided it fits.\<close>

lemma parse_show_nat:
  assumes "n \<le> mx"
  shows "parse_uint mx (show_nat n) = Some n"
proof -
  obtain c r where cr: "show_nat n = c # r"
    by (cases "show_nat n") auto
  then have "is_ascii_digit c"
    using show_nat_digits [of n] by simp
  then have "c \<noteq> CHR ''+''"
    using not_digit(1) by auto
  then show ?thesis
    using digits_val_show_nat [of n] assms by (simp add: parse_uint_def cr)
qed


section \<open>Interfaces\<close>

text \<open>
  A machine: which states it starts in, what an event does, which events the
  environment may produce, and an invariant that holds at the start and survives every
  such event. The invariant then holds after every run.
\<close>

definition run :: "('s \<Rightarrow> 'e \<Rightarrow> 's) \<Rightarrow> 's \<Rightarrow> 'e list \<Rightarrow> 's" where
  "run step s es = foldl step s es"

lemma run_simps [simp]:
  "run step s [] = s"
  "run step s (e # es) = run step (step s e) es"
  by (simp_all add: run_def)

lemma run_append [simp]: "run step s (es @ fs) = run step (run step s es) fs"
  by (simp add: run_def)

locale machine =
  fixes start :: "'s \<Rightarrow> bool"
    and step :: "'s \<Rightarrow> 'e \<Rightarrow> 's"
    and enabled :: "'e \<Rightarrow> bool"
    and inv :: "'s \<Rightarrow> bool"
  assumes start_inv: "start s \<Longrightarrow> inv s"
    and step_inv: "inv s \<Longrightarrow> enabled e \<Longrightarrow> inv (step s e)"
begin

lemma run_from_inv: "inv s \<Longrightarrow> list_all enabled es \<Longrightarrow> inv (run step s es)"
  by (induction es arbitrary: s) (auto intro: step_inv)

lemma run_inv: "start s \<Longrightarrow> list_all enabled es \<Longrightarrow> inv (run step s es)"
  by (blast intro: run_from_inv start_inv)

end

text \<open>
  An encoder with its decoder, as \<open>serde\<close> provides for a structure that derives
  \<open>Serialize\<close> and \<open>Deserialize\<close>: what was written is read back.
\<close>

locale codec =
  fixes enc :: "'a \<Rightarrow> 'f"
    and dec :: "'f \<Rightarrow> 'a option"
  assumes dec_enc: "dec (enc x) = Some x"

interpretation plain_codec: codec "\<lambda>x. x" Some
  by unfold_locales simp

text \<open>
  \<open>LocalConfig\<close> of \<open>hbb_common\<close>, a dependency of the program: \<open>get_option\<close> returns
  the last value \<open>set_option\<close> stored under a key. Its representation is a parameter of
  every definition that uses it.
\<close>

record 'c option_ops =
  get_option :: "'c \<Rightarrow> string \<Rightarrow> string"
  set_option :: "'c \<Rightarrow> string \<Rightarrow> string \<Rightarrow> 'c"

locale option_store =
  fixes ops :: "'c option_ops"
  assumes get_set: "get_option ops (set_option ops c k v) k' = (if k' = k then v else get_option ops c k')"
begin

lemma get_set_same [store_simps]: "get_option ops (set_option ops c k v) k = v"
  by (simp add: get_set)

lemma get_set_other [store_simps]: "k' \<noteq> k \<Longrightarrow> get_option ops (set_option ops c k v) k' = get_option ops c k'"
  by (simp add: get_set)

end

text \<open>A store that keeps its options in a function, for concrete runs.\<close>

definition fun_store :: "(string \<Rightarrow> string) option_ops" where
  "fun_store = \<lparr>get_option = (\<lambda>c k. c k), set_option = (\<lambda>c k v. c(k := v))\<rparr>"

lemma fun_store_simps [simp]:
  "get_option fun_store c k = c k"
  "set_option fun_store c k v = c(k := v)"
  by (simp_all add: fun_store_def)

interpretation fun_store: option_store fun_store
  by unfold_locales simp

text \<open>
  A report latch: a flag the owner raises and a reporter lowers after it was delivered.
  The owner's own steps never lower it, so a raised flag survives every step up to the
  acknowledgement.
\<close>

locale report_latch =
  fixes peek :: "'s \<Rightarrow> bool"
    and ack :: "'s \<Rightarrow> 's"
    and own :: "'s \<Rightarrow> 'e \<Rightarrow> 's"
  assumes own_keeps: "peek s \<Longrightarrow> peek (own s e)"
    and ack_lowers: "\<not> peek (ack s)"
begin

lemma run_keeps: "peek s \<Longrightarrow> peek (run own s es)"
  by (induction es arbitrary: s) (auto intro: own_keeps)

end

end
