(* ===== verification/Sched.thy ===== *)
theory Sched
  imports Prelude
begin

text \<open>
  Scheduled remote access, \<open>src/src/chainremote_sched.rs\<close>, with the callers that open
  and close a window: the answer of the shop owner (\<open>ui_cm_interface.rs\<close>), the login
  branch and the close path of a connection (\<open>server/connection.rs\<close>).

  The state is one marker file. Its text type is a parameter \<^typ>\<open>'f\<close>, and the
  serializer and parser of \<open>serde_json\<close> are the parameters \<open>enc\<close> and \<open>dec\<close> of the
  definitions. Clock readings are arguments. Writes that the operating system refuses
  are ignored by the code and are outside the model.
\<close>

definition MAX_WINDOW_SECS :: int where
  "MAX_WINDOW_SECS = 24 * 60 * 60"

definition IDLE_CLOSE_SECS :: int where
  "IDLE_CLOSE_SECS = 15 * 60"

record sched_window =
  sw_start :: int
  sw_end :: int
  granted_at :: int
  label :: string
  last_session_end :: "int option"
  in_session :: bool

type_synonym 'f marker = "'f option"


section \<open>The operations\<close>

definition sched_read :: "('f \<Rightarrow> sched_window option) \<Rightarrow> 'f marker \<Rightarrow> sched_window option" where
  "sched_read dec f = (case f of None \<Rightarrow> None | Some raw \<Rightarrow> dec raw)"

definition sched_write :: "(sched_window \<Rightarrow> 'f) \<Rightarrow> sched_window \<Rightarrow> 'f marker" where
  "sched_write enc w = Some (enc w)"

definition sched_clear :: "'f marker" where
  "sched_clear = None"

text \<open>
  \<open>grant\<close> returns the new marker and the values of its log line: the label, the clock
  skew, and the window as stored.
\<close>

definition grant ::
  "(sched_window \<Rightarrow> 'f) \<Rightarrow> int \<Rightarrow> int \<Rightarrow> int \<Rightarrow> int \<Rightarrow> string \<Rightarrow> 'f marker \<times> (string \<times> int \<times> int \<times> int)" where
  "grant enc local_now start fin hq_now lbl =
     (let skew = wrap64 (hq_now - local_now);
          w = \<lparr>sw_start = wrap64 (start - skew), sw_end = wrap64 (fin - skew),
               granted_at = local_now, label = lbl, last_session_end = None, in_session = False\<rparr>;
          cap = wrap64 (local_now + MAX_WINDOW_SECS);
          w = (if cap < sw_end w then w\<lparr>sw_end := cap\<rparr> else w);
          w = (if sw_start w < local_now then w\<lparr>sw_start := local_now\<rparr> else w)
      in (sched_write enc w, (lbl, skew, sw_start w, sw_end w)))"

text \<open>\<open>is_open\<close> answers whether a login passes without the accept card, and deletes the
  marker of a window that is over.\<close>

definition is_open :: "('f \<Rightarrow> sched_window option) \<Rightarrow> int \<Rightarrow> 'f marker \<Rightarrow> bool \<times> 'f marker" where
  "is_open dec t f =
     (case sched_read dec f of
        None \<Rightarrow> (False, f)
      | Some w \<Rightarrow>
          if t < sw_start w \<or> sw_end w \<le> t then
            (False, if sw_end w \<le> t then sched_clear else f)
          else if MAX_WINDOW_SECS \<le> wrap64 (t - granted_at w) then (False, sched_clear)
          else if \<not> in_session w \<and>
                  (case last_session_end w of None \<Rightarrow> False
                   | Some t0 \<Rightarrow> IDLE_CLOSE_SECS \<le> wrap64 (t - t0))
            then (False, sched_clear)
          else (True, f))"

definition status :: "('f \<Rightarrow> sched_window option) \<Rightarrow> int \<Rightarrow> 'f marker \<Rightarrow> sched_window option \<times> 'f marker" where
  "status dec t f =
     (case sched_read dec f of
        None \<Rightarrow> (None, f)
      | Some w \<Rightarrow>
          if sw_end w \<le> t then (None, sched_clear)
          else if MAX_WINDOW_SECS \<le> wrap64 (t - granted_at w) then (None, sched_clear)
          else (Some w, f))"

text \<open>\<open>is_active_now\<close> reads the clock once in \<open>status\<close> and once more afterwards.\<close>

definition is_active_now :: "('f \<Rightarrow> sched_window option) \<Rightarrow> int \<Rightarrow> int \<Rightarrow> 'f marker \<Rightarrow> bool \<times> 'f marker" where
  "is_active_now dec t t' f =
     (case status dec t f of
        (None, f') \<Rightarrow> (False, f')
      | (Some w, f') \<Rightarrow> (sw_start w \<le> t', f'))"

definition note_session_start ::
  "(sched_window \<Rightarrow> 'f) \<Rightarrow> ('f \<Rightarrow> sched_window option) \<Rightarrow> 'f marker \<Rightarrow> 'f marker" where
  "note_session_start enc dec f =
     (case sched_read dec f of
        None \<Rightarrow> f
      | Some w \<Rightarrow> sched_write enc (w\<lparr>in_session := True\<rparr>))"

definition note_session_end ::
  "(sched_window \<Rightarrow> 'f) \<Rightarrow> ('f \<Rightarrow> sched_window option) \<Rightarrow> int \<Rightarrow> 'f marker \<Rightarrow> 'f marker" where
  "note_session_end enc dec t f =
     (case sched_read dec f of
        None \<Rightarrow> f
      | Some w \<Rightarrow> sched_write enc (w\<lparr>in_session := False, last_session_end := Some t\<rparr>))"


section \<open>The callers\<close>

text \<open>
  \<open>cr_sched_answer\<close>: the owner pressed a button on the time card. \<open>client\<close> is the
  connection's \<open>authorized\<close> flag in the table of the connection manager, \<open>None\<close> when
  the connection is gone. The result is the new marker, the reply sent to the technician
  if any, and what happens to the waiting connection.
\<close>

datatype card_action = Authorize | CloseConn | LeaveConn

definition cr_sched_answer ::
  "(sched_window \<Rightarrow> 'f) \<Rightarrow> ('f \<Rightarrow> sched_window option) \<Rightarrow> int \<Rightarrow> int \<Rightarrow> bool \<Rightarrow> int \<Rightarrow> int \<Rightarrow> int \<Rightarrow> string
   \<Rightarrow> bool option \<Rightarrow> 'f marker \<Rightarrow> 'f marker \<times> (bool \<times> int) option \<times> card_action" where
  "cr_sched_answer enc dec now now' accepted start fin hq_now lbl client f =
     (let f1 = (if accepted then fst (grant enc now start fin hq_now lbl) else f);
          (w, f2) = status dec now' f1;
          open_until = (case w of None \<Rightarrow> 0 | Some w \<Rightarrow> sw_end w);
          reply = (case client of None \<Rightarrow> None | Some _ \<Rightarrow> Some (accepted, open_until));
          pending = (case client of None \<Rightarrow> False | Some authorized \<Rightarrow> \<not> authorized)
      in (f2, reply, if pending then (if accepted then Authorize else CloseConn) else LeaveConn))"

text \<open>
  \<open>send_cr_sched_state\<close>: the message with the end of the open window, or nothing.
\<close>

definition send_cr_sched_state ::
  "('f \<Rightarrow> sched_window option) \<Rightarrow> int \<Rightarrow> bool \<Rightarrow> bool \<Rightarrow> 'f marker \<Rightarrow> (int \<times> bool) option \<times> 'f marker" where
  "send_cr_sched_state dec t always via_window f =
     (let (w, f') = status dec t f;
          open_until = (case w of None \<Rightarrow> 0 | Some w \<Rightarrow> sw_end w)
      in (if open_until = 0 \<and> \<not> always then None else Some (open_until, via_window), f'))"

text \<open>
  The steps the rest of the program performs on the marker: the owner answers, a login
  request reaches the window branch (and marks the session when it passes), a session of
  the window closes, headquarters or the panel closes the window, a screen asks for the
  status.
\<close>

datatype sched_event =
    Answer int int bool int int int string
      \<comment> \<open>local clock at the grant and at the reply, accepted, start, end, clock of headquarters, label\<close>
  | Login int
  | SessionClosed int
  | CloseWindow
  | AskStatus int

fun sched_step ::
  "(sched_window \<Rightarrow> 'f) \<Rightarrow> ('f \<Rightarrow> sched_window option) \<Rightarrow> 'f marker \<Rightarrow> sched_event \<Rightarrow> 'f marker" where
  "sched_step enc dec f (Answer now now' accepted s e h l) =
     fst (cr_sched_answer enc dec now now' accepted s e h l None f)"
| "sched_step enc dec f (Login t) =
     (let (ok, f') = is_open dec t f in if ok then note_session_start enc dec f' else f')"
| "sched_step enc dec f (SessionClosed t) = note_session_end enc dec t f"
| "sched_step enc dec f CloseWindow = sched_clear"
| "sched_step enc dec f (AskStatus t) = snd (status dec t f)"


section \<open>The window invariant\<close>

text \<open>Clock readings between 1970 and a date far beyond any calendar in use.\<close>

definition sane_clock :: "int \<Rightarrow> bool" where
  "sane_clock t \<longleftrightarrow> 0 \<le> t \<and> t < 2 ^ 62"

text \<open>
  A well-formed marker was granted at one of the times in \<open>G\<close>, does not begin before it
  and ends within a day of it.
\<close>

definition window_ok :: "int set \<Rightarrow> sched_window \<Rightarrow> bool" where
  "window_ok G w \<longleftrightarrow>
     granted_at w \<in> G \<and> sane_clock (granted_at w) \<and> granted_at w \<le> sw_start w
     \<and> sw_end w \<le> granted_at w + MAX_WINDOW_SECS"

definition sched_inv :: "('f \<Rightarrow> sched_window option) \<Rightarrow> int set \<Rightarrow> 'f marker \<Rightarrow> bool" where
  "sched_inv dec G f \<longleftrightarrow> (\<forall>w. sched_read dec f = Some w \<longrightarrow> window_ok G w)"

text \<open>The accepted answers of a history, by the local clock at which they were given.\<close>

definition accepted_times :: "sched_event list \<Rightarrow> int set" where
  "accepted_times es = {now. \<exists>now' s e h l. Answer now now' True s e h l \<in> set es}"

fun sched_enabled :: "int set \<Rightarrow> sched_event \<Rightarrow> bool" where
  "sched_enabled G (Answer now now' accepted s e h l) \<longleftrightarrow> accepted \<longrightarrow> sane_clock now \<and> now \<in> G"
| "sched_enabled G _ \<longleftrightarrow> True"

text \<open>The bounds of a fresh window in local time, and \<open>is_open\<close> without its day cap.\<close>

definition granted_start :: "int \<Rightarrow> int \<Rightarrow> int \<Rightarrow> int" where
  "granted_start now s h = max now (s - (h - now))"

definition granted_end :: "int \<Rightarrow> int \<Rightarrow> int \<Rightarrow> int" where
  "granted_end now e h = min (now + MAX_WINDOW_SECS) (e - (h - now))"

definition is_open_without_cap :: "('f \<Rightarrow> sched_window option) \<Rightarrow> int \<Rightarrow> 'f marker \<Rightarrow> bool \<times> 'f marker" where
  "is_open_without_cap dec t f =
     (case sched_read dec f of
        None \<Rightarrow> (False, f)
      | Some w \<Rightarrow>
          if t < sw_start w \<or> sw_end w \<le> t then
            (False, if sw_end w \<le> t then sched_clear else f)
          else if \<not> in_session w \<and>
                  (case last_session_end w of None \<Rightarrow> False
                   | Some t0 \<Rightarrow> IDLE_CLOSE_SECS \<le> wrap64 (t - t0))
            then (False, sched_clear)
          else (True, f))"

lemma sched_inv_clear [simp]: "sched_inv dec G sched_clear"
  by (simp add: sched_inv_def sched_read_def sched_clear_def)

lemma status_marker: "snd (status dec t f) = f \<or> snd (status dec t f) = sched_clear"
  by (auto simp: status_def split: option.splits)

lemma is_open_marker: "snd (is_open dec t f) = f \<or> snd (is_open dec t f) = sched_clear"
  by (auto simp: is_open_def split: option.splits)

lemma status_inv [simp]: "sched_inv dec G f \<Longrightarrow> sched_inv dec G (snd (status dec t f))"
  using status_marker [of dec t f] by auto

lemma is_open_inv [simp]: "sched_inv dec G f \<Longrightarrow> sched_inv dec G (snd (is_open dec t f))"
  using is_open_marker [of dec t f] by auto

lemma is_open_keeps: "fst (is_open dec t f) \<Longrightarrow> snd (is_open dec t f) = f"
  by (auto simp: is_open_def split: option.splits if_splits)

text \<open>What an open window means, read off the checks of \<open>is_open\<close>.\<close>

lemma is_open_True:
  "fst (is_open dec t f) \<longleftrightarrow>
     (\<exists>w. sched_read dec f = Some w \<and> sw_start w \<le> t \<and> t < sw_end w
        \<and> wrap64 (t - granted_at w) < MAX_WINDOW_SECS
        \<and> (in_session w \<or> (case last_session_end w of None \<Rightarrow> True
                            | Some t0 \<Rightarrow> wrap64 (t - t0) < IDLE_CLOSE_SECS)))"
  by (auto simp: is_open_def not_le not_less split: option.splits)

locale sched_store = codec enc dec
  for enc :: "sched_window \<Rightarrow> 'f" and dec :: "'f \<Rightarrow> sched_window option"
begin

lemma read_write [simp]: "sched_read dec (sched_write enc w) = Some w"
  by (simp add: sched_read_def sched_write_def dec_enc)

lemma grant_window:
  assumes "sane_clock now"
  obtains w where "sched_read dec (fst (grant enc now s e h l)) = Some w"
    and "granted_at w = now" and "now \<le> sw_start w" and "sw_end w \<le> now + MAX_WINDOW_SECS"
    and "last_session_end w = None" and "\<not> in_session w" and "label w = l"
proof
  define w where "w = the (sched_read dec (fst (grant enc now s e h l)))"
  have cap: "wrap64 (now + MAX_WINDOW_SECS) = now + MAX_WINDOW_SECS"
    using assms by (intro wrap64_id) (simp add: sane_clock_def MAX_WINDOW_SECS_def)
  show "sched_read dec (fst (grant enc now s e h l)) = Some w"
    by (simp add: w_def grant_def Let_def)
  show "granted_at w = now" "now \<le> sw_start w" "last_session_end w = None" "\<not> in_session w" "label w = l"
    by (simp_all add: w_def grant_def Let_def)
  show "sw_end w \<le> now + MAX_WINDOW_SECS"
    by (simp add: w_def grant_def Let_def cap)
qed

lemma grant_inv: "sane_clock now \<Longrightarrow> now \<in> G \<Longrightarrow> sched_inv dec G (fst (grant enc now s e h l))"
  by (rule grant_window [of now s e h l]) (auto simp: sched_inv_def window_ok_def)

lemma note_start_inv: "sched_inv dec G f \<Longrightarrow> sched_inv dec G (note_session_start enc dec f)"
  by (auto simp: note_session_start_def sched_inv_def window_ok_def split: option.splits)

lemma note_end_inv: "sched_inv dec G f \<Longrightarrow> sched_inv dec G (note_session_end enc dec t f)"
  by (auto simp: note_session_end_def sched_inv_def window_ok_def split: option.splits)

lemma answer_inv:
  "sched_inv dec G f \<Longrightarrow> accepted \<longrightarrow> sane_clock now \<and> now \<in> G \<Longrightarrow>
   sched_inv dec G (fst (cr_sched_answer enc dec now now' accepted s e h l c f))"
  by (simp add: cr_sched_answer_def Let_def grant_inv case_prod_beta)

lemma sched_step_inv: "sched_inv dec G f \<Longrightarrow> sched_enabled G e \<Longrightarrow> sched_inv dec G (sched_step enc dec f e)"
  by (cases e) (simp_all add: answer_inv note_start_inv note_end_inv Let_def case_prod_beta)

end

sublocale sched_store \<subseteq> win: machine "\<lambda>f. f = None" "sched_step enc dec" "sched_enabled G" "sched_inv dec G" for G
  by unfold_locales (auto simp: sched_inv_def [of dec G None] sched_read_def intro: sched_step_inv)

interpretation plain_sched: sched_store "\<lambda>w. w" Some
  by unfold_locales

text \<open>An accepted answer is given at a plausible local time.\<close>

fun answer_clock_ok :: "sched_event \<Rightarrow> bool" where
  "answer_clock_ok (Answer now now' accepted s e h l) \<longleftrightarrow> accepted \<longrightarrow> sane_clock now"
| "answer_clock_ok _ \<longleftrightarrow> True"

lemma accepted_timesI: "Answer g g' True s e h l \<in> set es \<Longrightarrow> g \<in> accepted_times es"
  unfolding accepted_times_def by blast

lemma answers_enabled:
  assumes "list_all answer_clock_ok es"
  shows "list_all (sched_enabled (accepted_times es)) es"
proof -
  have "sched_enabled (accepted_times es) e" if "e \<in> set es" "answer_clock_ok e" for e
    using that by - (cases e, auto intro: accepted_timesI)
  with assms show ?thesis by (auto simp: list_all_iff)
qed

context sched_store
begin

lemma run_window_ok:
  "list_all answer_clock_ok es \<Longrightarrow> sched_inv dec (accepted_times es) (run (sched_step enc dec) None es)"
  by (rule win.run_inv [OF refl answers_enabled])

end

lemma sched_storeI: "codec enc dec \<Longrightarrow> sched_store enc dec"
  by (simp add: sched_store_def)


section \<open>Properties\<close>

text \<open>
  C1. Only the owner's acceptance opens a window, and only for a day. Whatever sequence of
  answers, logins, session ends, closings and status questions the program goes through
  from an absent marker, a login that passes without the accept card at local time \<open>t\<close>
  was preceded by an accepted answer given at most 24 hours earlier.
\<close>

theorem sched_login_needs_acceptance:
  assumes "codec enc dec" and "list_all answer_clock_ok es"
    and "fst (is_open dec t (run (sched_step enc dec) None es))"
  shows "\<exists>g. g \<in> accepted_times es \<and> g \<le> t \<and> t < g + MAX_WINDOW_SECS"
proof -
  have "sched_inv dec (accepted_times es) (run (sched_step enc dec) None es)"
    by (rule sched_store.run_window_ok [OF sched_storeI [OF assms(1)] assms(2)])
  with assms(3) show ?thesis
    by (fastforce simp: is_open_True sched_inv_def window_ok_def)
qed

theorem sched_login_needs_acceptance_witness:
  "\<exists>g. g \<in> accepted_times [Answer 1000 1000 True 1000 5000 1000 ''today'', Login 1200] \<and> g \<le> 1500
       \<and> 1500 < g + MAX_WINDOW_SECS"
  by (rule sched_login_needs_acceptance [where enc = "\<lambda>w. w" and dec = Some])
    (simp_all add: plain_codec.codec_axioms sane_clock_def cr_sched_answer_def grant_def status_def is_open_def
      sched_read_def sched_write_def note_session_start_def MAX_WINDOW_SECS_def IDLE_CLOSE_SECS_def wrap64_def)

lemma sane_wrap:
  assumes "sane_clock a" and "sane_clock b" and "sane_clock c"
  shows "wrap64 (a - b) = a - b" and "wrap64 (b - c) = b - c" and "wrap64 (a - (b - c)) = a - (b - c)"
    and "wrap64 (a + MAX_WINDOW_SECS) = a + MAX_WINDOW_SECS"
  using assms by (auto intro!: wrap64_id simp: sane_clock_def MAX_WINDOW_SECS_def)

context sched_store
begin

lemma grant_exact:
  assumes "sane_clock now" "sane_clock s" "sane_clock e" "sane_clock h"
  shows "sched_read dec (fst (grant enc now s e h l)) =
    Some \<lparr>sw_start = granted_start now s h, sw_end = granted_end now e h, granted_at = now,
          label = l, last_session_end = None, in_session = False\<rparr>"
  using assms
  by (simp add: grant_def Let_def sane_wrap granted_start_def granted_end_def max_def min_def)

end

text \<open>
  C35. What an acceptance opens. With clock values in the plausible range, a login that
  comes before any session of the new window passes exactly between the agreed start and
  the agreed end, both moved from the clock of headquarters to the local one, the start
  raised to the moment of acceptance and the end lowered to 24 hours after it. The reply to
  the technician carries that end, or 0 when the window is already over.
\<close>

theorem sched_grant_exact:
  assumes "codec enc dec" and "sane_clock now" "sane_clock s" "sane_clock e" "sane_clock h"
    and "sane_clock t" "now \<le> t"
  shows "(fst (is_open dec t (fst (grant enc now s e h l))) \<longleftrightarrow>
            granted_start now s h \<le> t \<and> t < granted_end now e h)
       \<and> fst (snd (cr_sched_answer enc dec now t True s e h l (Some a) f)) =
            Some (True, if t < granted_end now e h then granted_end now e h else 0)"
proof -
  note ex = sched_store.grant_exact [OF sched_storeI [OF assms(1)] assms(2-5)]
  have w: "wrap64 (t - now) = t - now"
    by (rule sane_wrap) (use assms in auto)
  have cap: "granted_end now e h \<le> now + MAX_WINDOW_SECS"
    by (simp add: granted_end_def)
  have "fst (is_open dec t (fst (grant enc now s e h l))) \<longleftrightarrow> granted_start now s h \<le> t \<and> t < granted_end now e h"
    using cap by (auto simp: is_open_True ex w)
  moreover have "fst (snd (cr_sched_answer enc dec now t True s e h l (Some a) f)) =
      Some (True, if t < granted_end now e h then granted_end now e h else 0)"
    using cap by (simp add: cr_sched_answer_def Let_def status_def ex w case_prod_beta)
  ultimately show ?thesis by blast
qed

theorem sched_grant_exact_witness:
  "fst (is_open Some 900 (fst (grant (\<lambda>w. w) 500 1000 9000 600 ''night'')))
   \<and> fst (snd (cr_sched_answer (\<lambda>w. w) Some 500 900 True 1000 9000 600 ''night'' (Some False) None)) = Some (True, 8900)"
  using sched_grant_exact [of "\<lambda>w. w" Some 500 1000 9000 600 900 "''night''" False None]
  by (simp add: plain_codec.codec_axioms sane_clock_def granted_start_def granted_end_def MAX_WINDOW_SECS_def)

text \<open>
  The idle rule. Once a session of the window has ended at \<open>c\<close> and nobody has
  connected since, a login 15 minutes or more later is refused, and from the start of the
  window on the marker is gone; a login before that passes if and only if it lies inside
  the window and within its day.
\<close>

theorem sched_idle_close:
  assumes "codec enc dec" and "sched_read dec f = Some w" and "sane_clock c" "sane_clock t"
  shows "if c + IDLE_CLOSE_SECS \<le> t
         then \<not> fst (is_open dec t (note_session_end enc dec c f))
            \<and> (snd (is_open dec t (note_session_end enc dec c f)) = None \<or> t < sw_start w)
         else fst (is_open dec t (note_session_end enc dec c f)) =
            (sw_start w \<le> t \<and> t < sw_end w \<and> wrap64 (t - granted_at w) < MAX_WINDOW_SECS)"
proof -
  have rd: "sched_read dec (note_session_end enc dec c f) = Some (w\<lparr>in_session := False, last_session_end := Some c\<rparr>)"
    by (simp add: note_session_end_def assms(2) sched_store.read_write [OF sched_storeI [OF assms(1)]])
  have w: "wrap64 (t - c) = t - c"
    by (rule sane_wrap) (use assms in auto)
  show ?thesis
    by (auto simp: is_open_def rd w sched_clear_def)
qed

theorem sched_idle_close_witness:
  "snd (is_open Some 3000 (note_session_end (\<lambda>w. w) Some 2000
      (fst (grant (\<lambda>w. w) 500 1000 9000 600 ''night'')))) = None"
  using sched_idle_close [where t = 3000 and c = 2000 and f = "fst (grant (\<lambda>w. w) 500 1000 9000 600 ''night'')"
      and enc = "\<lambda>w. w" and dec = Some
      and w = "\<lparr>sw_start = 900, sw_end = 8900, granted_at = 500, label = ''night'',
        last_session_end = None, in_session = False\<rparr>"]
  by (simp add: plain_codec.codec_axioms sane_clock_def IDLE_CLOSE_SECS_def grant_def wrap64_def
      MAX_WINDOW_SECS_def sched_read_def sched_write_def)

text \<open>
  C36. The day cap of \<open>is_open\<close> never decides anything for a window that \<open>grant\<close> wrote: the
  stored end is already within a day of the acceptance, so in every reachable state the
  function answers and deletes exactly as it would without that check.
\<close>

theorem sched_day_cap_redundant:
  assumes "codec enc dec" and "list_all answer_clock_ok es" and "sane_clock t"
  shows "is_open dec t (run (sched_step enc dec) None es) = is_open_without_cap dec t (run (sched_step enc dec) None es)"
proof -
  let ?f = "run (sched_step enc dec) None es"
  have inv: "sched_inv dec (accepted_times es) ?f"
    by (rule sched_store.run_window_ok [OF sched_storeI [OF assms(1)] assms(2)])
  have "wrap64 (t - granted_at w) < MAX_WINDOW_SECS"
    if "sched_read dec ?f = Some w" "t < sw_end w" for w
    using that inv sane_wrap(1) [OF assms(3), of "granted_at w" "granted_at w"]
    by (auto simp: sched_inv_def window_ok_def)
  then show ?thesis
    by (auto simp: is_open_def is_open_without_cap_def split: option.splits)
qed

theorem sched_day_cap_redundant_witness:
  "is_open Some 2000 (run (sched_step (\<lambda>w. w) Some) None [Answer 1000 1000 True 1000 5000 1000 ''today''])
   = is_open_without_cap Some 2000 (run (sched_step (\<lambda>w. w) Some) None [Answer 1000 1000 True 1000 5000 1000 ''today''])"
  by (rule sched_day_cap_redundant) (simp_all add: plain_codec.codec_axioms sane_clock_def)

text \<open>
  Two sessions share one \<open>in_session\<close> flag. When a second technician who entered
  through the window leaves, the idle clock starts although the first one is still
  connected, and a reconnection of the first one 15 minutes later finds the window closed
  and deletes it.
\<close>

theorem sched_second_session_starts_idle_clock:
  "let f = run (sched_step (\<lambda>w. w) Some) None
             [Answer 1000 1000 True 1000 50000 1000 ''night'', Login 1100, Login 1200, SessionClosed 1300]
   in is_open Some 2200 f = (False, None)"
  by (simp add: cr_sched_answer_def grant_def status_def is_open_def sched_read_def sched_write_def
      note_session_start_def note_session_end_def MAX_WINDOW_SECS_def IDLE_CLOSE_SECS_def wrap64_def sched_clear_def)

end
