(* ===== verification/Update_Common.thy ===== *)
theory Update_Common
  imports Prelude
begin

text \<open>
  The logic shared by the two update channels, \<open>src/src/chainremote_update_common.rs\<close>:
  version strings, their order, and the check of a downloaded file against the hash of
  its manifest. SHA-256 is the parameter \<open>sha256\<close> from bytes to digest bytes.
\<close>

datatype update_error =
    Malformed        \<comment> \<open>fewer than three parts\<close>
  | BadNumber        \<comment> \<open>a part that is not a \<open>u32\<close>\<close>
  | InvalidExpected  \<comment> \<open>the manifest's hash is not 64 hexadecimal digits\<close>
  | IoError
  | Mismatch string string

type_synonym version = "nat \<times> nat \<times> nat"

section \<open>Versions\<close>

definition parse_u32 :: "string \<Rightarrow> update_error + nat" where
  "parse_u32 s = (case parse_uint u32_max s of None \<Rightarrow> Inl BadNumber | Some v \<Rightarrow> Inr v)"

definition parse_version :: "string \<Rightarrow> update_error + version" where
  "parse_version s =
     (case split_on (CHR ''.'') (trim s) of
        p0 # p1 # p2 # _ \<Rightarrow>
          (case parse_u32 p0 of Inl e \<Rightarrow> Inl e | Inr major \<Rightarrow>
          (case parse_u32 p1 of Inl e \<Rightarrow> Inl e | Inr minor \<Rightarrow>
             (let build_str = takeWhile is_ascii_digit p2
              in case (if build_str = [] then Inr 0 else parse_u32 build_str) of
                   Inl e \<Rightarrow> Inl e
                 | Inr build \<Rightarrow> Inr (major, minor, build))))
      | _ \<Rightarrow> Inl Malformed)"

fun is_newer :: "version \<Rightarrow> version \<Rightarrow> bool" where
  "is_newer (a1, a2, a3) (b1, b2, b3) \<longleftrightarrow> b1 < a1 \<or> b1 = a1 \<and> (b2 < a2 \<or> b2 = a2 \<and> b3 < a3)"

definition is_newer_str :: "string \<Rightarrow> string \<Rightarrow> update_error + bool" where
  "is_newer_str a b =
     (case parse_version a of Inl e \<Rightarrow> Inl e | Inr va \<Rightarrow>
     (case parse_version b of Inl e \<Rightarrow> Inl e | Inr vb \<Rightarrow> Inr (is_newer va vb)))"

section \<open>Hashes\<close>

definition is_valid_sha256_hex :: "string \<Rightarrow> bool" where
  "is_valid_sha256_hex expected_hex \<longleftrightarrow>
     length (trim expected_hex) = 64 \<and> list_all is_ascii_hexdigit (trim expected_hex)"

definition hex_digit :: "nat \<Rightarrow> char" where
  "hex_digit n = char_of (if n < 10 then 48 + n else 87 + n)"

definition hex_encode :: "string \<Rightarrow> string" where
  "hex_encode bs = concat (map (\<lambda>b. [hex_digit (byte b div 16), hex_digit (byte b mod 16)]) bs)"

text \<open>
  The reading loop: the results of the successive calls of \<open>read\<close>, the bytes collected
  so far (a hasher's digest depends on the concatenation of its updates only). A read of
  no bytes ends the file.
\<close>

fun read_loop :: "string \<Rightarrow> string option list \<Rightarrow> update_error + string" where
  "read_loop acc [] = Inr acc"
| "read_loop acc (None # rs) = Inl IoError"
| "read_loop acc (Some chunk # rs) = (if chunk = [] then Inr acc else read_loop (acc @ chunk) rs)"

text \<open>
  \<open>verify_sha256\<close>: the result, and whether the file is removed. \<open>opened\<close> is \<open>None\<close>
  when the file cannot be opened, else the results of its reads.
\<close>

definition verify_sha256 ::
  "(string \<Rightarrow> string) \<Rightarrow> string option list option \<Rightarrow> string \<Rightarrow> (update_error + unit) \<times> bool" where
  "verify_sha256 sha256 opened expected_hex =
     (if \<not> is_valid_sha256_hex expected_hex then (Inl InvalidExpected, False)
      else case opened of
        None \<Rightarrow> (Inl IoError, False)
      | Some reads \<Rightarrow>
          (case read_loop [] reads of
             Inl e \<Rightarrow> (Inl e, False)
           | Inr content \<Rightarrow>
               (let got = hex_encode (sha256 content);
                    expected = to_ascii_lowercase (trim expected_hex)
                in if got \<noteq> expected then (Inl (Mismatch expected got), True) else (Inr (), False))))"

section \<open>Lemmas\<close>

lemma parse_u32_le: "parse_u32 s = Inr v \<Longrightarrow> v \<le> u32_max"
  by (auto simp: parse_u32_def dest: parse_uint_le split: option.splits)

lemma parse_u32_show: "n \<le> u32_max \<Longrightarrow> parse_u32 (show_nat n) = Inr n"
  by (simp add: parse_u32_def parse_show_nat)

lemma parse_version_le:
  "parse_version s = Inr (a, b, c) \<Longrightarrow> a \<le> u32_max \<and> b \<le> u32_max \<and> c \<le> u32_max"
  by (auto simp: parse_version_def Let_def dest: parse_u32_le
      split: list.splits sum.splits if_splits)

lemma is_newer_irrefl [simp]: "\<not> is_newer v v"
  by (cases v) auto

lemma is_newer_trans: "is_newer a b \<Longrightarrow> is_newer b c \<Longrightarrow> is_newer a c"
  by (cases a; cases b; cases c) auto

lemma is_newer_total: "a \<noteq> b \<Longrightarrow> is_newer a b \<or> is_newer b a"
  by (cases a; cases b) auto

lemma is_newer_asym: "is_newer a b \<Longrightarrow> \<not> is_newer b a"
  using is_newer_trans is_newer_irrefl by blast

lemma is_newer_str_True:
  "is_newer_str a b = Inr True \<longleftrightarrow>
     (\<exists>va vb. parse_version a = Inr va \<and> parse_version b = Inr vb \<and> is_newer va vb)"
  by (auto simp: is_newer_str_def split: sum.splits)

lemma takeWhile_digits:
  "list_all is_ascii_digit d \<Longrightarrow> (s = [] \<or> \<not> is_ascii_digit (hd s)) \<Longrightarrow> takeWhile is_ascii_digit (d @ s) = d"
  by (cases s) (auto simp: list_all_iff takeWhile_append)

text \<open>The third piece of a version string: the build number, then the suffix up to the next dot.\<close>

lemma split_on_head:
  "CHR ''.'' \<notin> set d \<Longrightarrow> \<exists>t ps. split_on (CHR ''.'') (d @ s) = (d @ t) # ps \<and> (t = [] \<or> s \<noteq> [] \<and> hd t = hd s)"
proof (induction d)
  case Nil
  show ?case
    by (cases s) (auto split: list.splits)
next
  case (Cons c d)
  then show ?case by auto
qed

lemma read_loop_chunks:
  "read_loop acc rs = Inr content \<Longrightarrow> \<exists>cs. content = acc @ concat cs \<and> map Some cs = take (length cs) rs"
proof (induction acc rs rule: read_loop.induct)
  case (1 acc)
  then show ?case by (intro exI [of _ "[]"]) simp
next
  case (3 acc chunk rs)
  show ?case
  proof (cases "chunk = []")
    case True
    with 3 show ?thesis by (intro exI [of _ "[]"]) simp
  next
    case False
    with 3 obtain cs where "content = (acc @ chunk) @ concat cs" "map Some cs = take (length cs) rs"
      by auto
    then show ?thesis by (intro exI [of _ "chunk # cs"]) simp
  qed
qed simp

section \<open>Properties\<close>

text \<open>
  Versions round-trip: a version printed with dots, whatever visible suffix without a
  leading digit follows the build number, is read back as the same three numbers.
\<close>

theorem parse_version_roundtrip:
  assumes "a \<le> u32_max" "b \<le> u32_max" "c \<le> u32_max"
    and "list_all visible_ascii sfx" and "sfx = [] \<or> \<not> is_ascii_digit (hd sfx)"
  shows "parse_version (show_nat a @ ''.'' @ show_nat b @ ''.'' @ show_nat c @ sfx) = Inr (a, b, c)"
proof -
  have dots: "CHR ''.'' \<notin> set (show_nat n)" for n
    by (rule show_nat_no_sep) (simp add: rust_str)
  obtain t ps where t: "split_on (CHR ''.'') (show_nat c @ sfx) = (show_nat c @ t) # ps"
    and hd: "t = [] \<or> sfx \<noteq> [] \<and> hd t = hd sfx"
    using split_on_head [OF dots [of c], of sfx] by blast
  have "trim (show_nat a @ ''.'' @ show_nat b @ ''.'' @ show_nat c @ sfx)
        = show_nat a @ ''.'' @ show_nat b @ ''.'' @ show_nat c @ sfx"
    by (rule trim_visible) (use assms in \<open>simp add: show_nat_visible visible_ascii_def [of "CHR ''.''"]\<close>)
  moreover have "takeWhile is_ascii_digit (show_nat c @ t) = show_nat c"
    using hd assms(5) by (intro takeWhile_digits show_nat_digits) auto
  ultimately show ?thesis
    using assms(1-3) by (simp add: parse_version_def split_on_append_sep dots t parse_u32_show)
qed

theorem parse_version_roundtrip_witness:
  "parse_version (show_nat 1 @ ''.'' @ show_nat 4 @ ''.'' @ show_nat 141 @ ''-rc'') = Inr (1, 4, 141)"
  by (rule parse_version_roundtrip) (simp_all add: visible_ascii_def is_ascii_digit_def)

text \<open>
  The hash check, on every outcome. It succeeds exactly when the manifest's hash is 64
  hexadecimal digits, the file is read to its end and its hash in lower case is that of
  the manifest; and it deletes the file exactly when the hash is well formed, the file was
  read to its end and the hashes differ. A defective manifest never deletes a file.
\<close>

theorem verify_sha256_outcomes:
  "(fst (verify_sha256 sha opened h) = Inr () \<longleftrightarrow>
      is_valid_sha256_hex h \<and> (\<exists>reads content. opened = Some reads \<and> read_loop [] reads = Inr content
        \<and> hex_encode (sha content) = to_ascii_lowercase (trim h)))
   \<and> (snd (verify_sha256 sha opened h) \<longleftrightarrow>
      is_valid_sha256_hex h \<and> (\<exists>reads content. opened = Some reads \<and> read_loop [] reads = Inr content
        \<and> hex_encode (sha content) \<noteq> to_ascii_lowercase (trim h)))"
  by (auto simp: verify_sha256_def Let_def split: option.splits sum.splits)

end
