(* ===== verification/Client_Connect.thy ===== *)
theory Client_Connect
  imports Prelude
begin

text \<open>
  The viewer's connection to a peer: the aged record of direct-connection failures
  (\<open>src/src/chainremote_direct.rs\<close>), the choice of the waiting window and of the
  transport (\<open>Client::connect\<close> and its caller \<open>Client::start\<close> in \<open>src/src/client.rs\<close>),
  and the key exchange (\<open>Client::secure_connection\<close>, with its helpers in
  \<open>src/src/common.rs\<close>).

  Network and clock are arguments: which attempts succeed and in which order, whether the
  relay answers, what the peer sends. Cryptography and the protobuf parser are the fields
  of a record of parameters.
\<close>

section \<open>The failure record\<close>

record peer_config =
  direct_failures :: int
  ui_flutter :: "string \<rightharpoonup> string"

text \<open>The handler keeps the peer's configuration in memory and on disk.\<close>

record login_config_handler =
  lch_config :: peer_config
  lch_stored :: peer_config

definition RETRY_AFTER_SECS :: nat where "RETRY_AFTER_SECS = 6 * 60 * 60"
definition DIRECT_WINDOW_MS :: nat where "DIRECT_WINDOW_MS = 3000"
definition DIRECT_KEY :: string where "DIRECT_KEY = ''cr-direct-fail-at''"

definition stamp :: "nat \<Rightarrow> bool \<Rightarrow> peer_config \<Rightarrow> peer_config" where
  "stamp now keep cfg =
     (if keep then cfg\<lparr>ui_flutter := (ui_flutter cfg)(DIRECT_KEY \<mapsto> show_nat now)\<rparr>
      else cfg\<lparr>ui_flutter := (ui_flutter cfg)(DIRECT_KEY := None)\<rparr>)"

definition stamped_at :: "peer_config \<Rightarrow> nat option" where
  "stamped_at cfg = (case ui_flutter cfg DIRECT_KEY of None \<Rightarrow> None | Some v \<Rightarrow> parse_uint u64_max v)"

definition is_retry_due :: "nat \<Rightarrow> peer_config \<Rightarrow> bool" where
  "is_retry_due now cfg =
     (case stamped_at cfg of
        None \<Rightarrow> True
      | Some at \<Rightarrow> now < at \<or> RETRY_AFTER_SECS \<le> now - at)"

definition save_config :: "peer_config \<Rightarrow> login_config_handler \<Rightarrow> login_config_handler" where
  "save_config cfg h = h\<lparr>lch_stored := cfg, lch_config := cfg\<rparr>"

definition note_direct_retry :: "nat \<Rightarrow> login_config_handler \<Rightarrow> login_config_handler" where
  "note_direct_retry now h = save_config (stamp now True (lch_stored h)) h"

definition set_direct_failure :: "nat \<Rightarrow> int \<Rightarrow> login_config_handler \<Rightarrow> login_config_handler" where
  "set_direct_failure now v h = save_config (stamp now (0 < v) ((lch_stored h)\<lparr>direct_failures := v\<rparr>)) h"

section \<open>The waiting window\<close>

datatype nat_type = UNKNOWN_NAT | ASYMMETRIC | SYMMETRIC

definition MIN_TIMEOUT :: nat where "MIN_TIMEOUT = 1000"

text \<open>
  \<open>CONNECT_TIMEOUT\<close> is a constant of \<open>hbb_common\<close>. The product of the punching time is
  taken at the width of \<open>u64\<close>. \<open>probed\<close> is the answer of the connection manager when the
  own NAT type is unknown.
\<close>

definition mul_u64 :: "nat \<Rightarrow> nat \<Rightarrow> nat" where
  "mul_u64 a b = (a * b) mod 2 ^ 64"

definition asymmetric_timeout :: "nat \<Rightarrow> nat_type \<Rightarrow> nat_type \<Rightarrow> nat_type \<Rightarrow> nat \<Rightarrow> int \<Rightarrow> nat" where
  "asymmetric_timeout CONNECT_TIMEOUT peer_nat my_nat probed punch failures =
     (if peer_nat = ASYMMETRIC then
        (let my = (if my_nat = UNKNOWN_NAT then probed else my_nat)
         in if my = ASYMMETRIC then (if 0 < failures then mul_u64 punch 6 else CONNECT_TIMEOUT)
            else if my = SYMMETRIC then MIN_TIMEOUT
            else 0)
      else 0)"

definition connect_timeout ::
  "nat \<Rightarrow> bool \<Rightarrow> nat_type \<Rightarrow> nat_type \<Rightarrow> nat_type \<Rightarrow> string \<Rightarrow> nat \<Rightarrow> int \<Rightarrow> nat" where
  "connect_timeout CONNECT_TIMEOUT is_local peer_nat my_nat probed relay_server punch failures =
     (let t = (if is_local \<or> peer_nat = SYMMETRIC then MIN_TIMEOUT
               else
                 let t = (if relay_server = [] then CONNECT_TIMEOUT
                          else
                            let t = asymmetric_timeout CONNECT_TIMEOUT peer_nat my_nat probed punch failures
                            in if t = 0 then mul_u64 punch (if 0 < failures then 3 else 6) else t)
                 in if t < MIN_TIMEOUT then MIN_TIMEOUT else t)
      in if relay_server \<noteq> [] then min t DIRECT_WINDOW_MS else t)"

section \<open>The key exchange\<close>

type_synonym bytes = string

record crypto =
  decode64 :: "string \<Rightarrow> bytes option"
  sign_verify :: "bytes \<Rightarrow> bytes \<Rightarrow> bytes option"   \<comment> \<open>signed message, public key\<close>
  parse_id_pk :: "bytes \<Rightarrow> (string \<times> bytes) option"
  box_seal :: "bytes \<Rightarrow> bytes \<Rightarrow> bytes \<Rightarrow> bytes \<Rightarrow> bytes"  \<comment> \<open>key, nonce, their public key, our secret key\<close>

definition get_pk :: "bytes \<Rightarrow> bytes option" where
  "get_pk pk = (if length pk = 32 then Some pk else None)"

definition get_rs_pk :: "crypto \<Rightarrow> string \<Rightarrow> bytes option" where
  "get_rs_pk cr str_base64 = (case decode64 cr str_base64 of None \<Rightarrow> None | Some pk \<Rightarrow> get_pk pk)"

definition decode_id_pk :: "crypto \<Rightarrow> bytes \<Rightarrow> bytes \<Rightarrow> (string \<times> bytes) option" where
  "decode_id_pk cr signed_msg key =
     (case sign_verify cr signed_msg key of
        None \<Rightarrow> None
      | Some msg \<Rightarrow>
          (case parse_id_pk cr msg of
             None \<Rightarrow> None
           | Some (pid, pk) \<Rightarrow> map_option (\<lambda>p. (pid, p)) (get_pk pk)))"

text \<open>The fresh values of one exchange: our key pair and the symmetric key.\<close>

record fresh_keys =
  our_pk_b :: bytes
  out_sk_b :: bytes
  gen_key :: bytes

definition create_symmetric_key_msg :: "crypto \<Rightarrow> fresh_keys \<Rightarrow> bytes \<Rightarrow> bytes \<times> bytes \<times> bytes" where
  "create_symmetric_key_msg cr fk their_pk_b =
     (our_pk_b fk, box_seal cr (gen_key fk) (replicate 24 (CHR 0x00)) their_pk_b (out_sk_b fk), gen_key fk)"

datatype peer_read =
    ReadTimeout | Closed | ReadError | BadFormat | OtherMessage | SignedId bytes

datatype out_msg = EmptyMessage | PublicKey bytes bytes | EmptyPublicKey

datatype secure_error = SendFailed | ReadFailed | ResetByPeer

record secure_result =
  sec_result :: "secure_error + bytes option"
  sec_sent :: "out_msg list"
  sec_key :: "bytes option"       \<comment> \<open>the key given to the stream, if any\<close>

text \<open>The public key the rendezvous server vouches for, if it does so for this peer.\<close>

definition vouched_pk :: "crypto \<Rightarrow> string \<Rightarrow> string \<Rightarrow> string \<Rightarrow> bytes \<Rightarrow> bytes option" where
  "vouched_pk cr RS_PUB_KEY peer_id key signed_id_pk =
     (if signed_id_pk = [] then None
      else case get_rs_pk cr (if key = [] then RS_PUB_KEY else key) of
        None \<Rightarrow> None
      | Some rs_pk \<Rightarrow>
          (case decode_id_pk cr signed_id_pk rs_pk of
             None \<Rightarrow> None
           | Some (pid, pk) \<Rightarrow> if pid = peer_id then Some pk else None))"

text \<open>
  \<open>send_ok\<close> says whether the one message the exchange sends gets out. A message is
  reported as sent when it does.
\<close>

definition send_and_return :: "bool \<Rightarrow> out_msg \<Rightarrow> bytes option \<Rightarrow> bytes option \<Rightarrow> secure_result" where
  "send_and_return send_ok m key_to_set pk =
     (if send_ok then \<lparr>sec_result = Inr pk, sec_sent = [m], sec_key = key_to_set\<rparr>
      else \<lparr>sec_result = Inl SendFailed, sec_sent = [], sec_key = None\<rparr>)"

definition secure_connection ::
  "crypto \<Rightarrow> string \<Rightarrow> fresh_keys \<Rightarrow> bool \<Rightarrow> peer_read \<Rightarrow> string \<Rightarrow> bytes \<Rightarrow> string \<Rightarrow> secure_result" where
  "secure_connection cr RS_PUB_KEY fk send_ok reply peer_id signed_id_pk key =
     (case vouched_pk cr RS_PUB_KEY peer_id key signed_id_pk of
        None \<Rightarrow> send_and_return send_ok EmptyMessage None None
      | Some sign_pk \<Rightarrow>
          (case reply of
             ReadTimeout \<Rightarrow> \<lparr>sec_result = Inl ReadFailed, sec_sent = [], sec_key = None\<rparr>
           | ReadError \<Rightarrow> \<lparr>sec_result = Inl ReadFailed, sec_sent = [], sec_key = None\<rparr>
           | Closed \<Rightarrow> \<lparr>sec_result = Inl ResetByPeer, sec_sent = [], sec_key = None\<rparr>
           | BadFormat \<Rightarrow> send_and_return send_ok EmptyMessage None (Some sign_pk)
           | OtherMessage \<Rightarrow> send_and_return send_ok EmptyMessage None (Some sign_pk)
           | SignedId si \<Rightarrow>
               (case decode_id_pk cr si sign_pk of
                  Some (pid, their_pk_b) \<Rightarrow>
                    if pid = peer_id then
                      (let (asymmetric_value, symmetric_value, k) = create_symmetric_key_msg cr fk their_pk_b
                       in send_and_return send_ok (PublicKey asymmetric_value symmetric_value) (Some k) (Some sign_pk))
                    else send_and_return send_ok EmptyMessage None (Some sign_pk)
                | None \<Rightarrow> send_and_return send_ok EmptyPublicKey None (Some sign_pk))))"

section \<open>Connecting\<close>

record connect_args =
  peer_id_of :: string
  signed_id_pk_of :: bytes
  relay_server_of :: string
  punch_time_used :: nat
  peer_nat_type :: nat_type
  my_nat_type :: nat_type
  is_local_of :: bool
  key_of :: string
  force_relay :: bool
  upnp_endpoint :: string    \<comment> \<open>the open door of the peer, \<open>chainremote_data::upnp_endpoint_of\<close>\<close>
  has_udp_nat :: bool
  has_udp_v6 :: bool

text \<open>What the network does: the attempts that succeed, in the order in which they finish,
  the relay's answer, and the inputs of the key exchange.\<close>

record connect_env =
  probed_nat :: nat_type
  finish_order :: "string list"
  relay_ok :: bool
  exchange_send_ok :: bool
  exchange_reply :: peer_read
  exchange_keys :: fresh_keys

datatype connect_error = RelayFailed | DirectFailed | HandshakeFailed secure_error

record connect_out =
  co_handler :: login_config_handler
  co_retry :: bool                  \<comment> \<open>the aged failure record was set aside\<close>
  co_timeout :: nat
  co_update_direct :: "bool option" \<comment> \<open>argument of \<open>update_direct\<close> on an error path\<close>
  co_result :: "connect_error + bool \<times> bytes option \<times> string"
  co_key :: "bytes option"

definition candidates :: "connect_args \<Rightarrow> string list" where
  "candidates a =
     (if upnp_endpoint a \<noteq> [] then [''UPnP''] else []) @ [''TCP'']
     @ (if has_udp_nat a then [''UDP''] else []) @ (if has_udp_v6 a then [''IPv6''] else [])"

text \<open>\<open>select_ok\<close>: the first of the candidates to succeed.\<close>

definition select_ok :: "string list \<Rightarrow> string list \<Rightarrow> string option" where
  "select_ok cands finished = find (\<lambda>t. t \<in> set cands) finished"

text \<open>The transport: a direct one if there is one and the relay is not forced, else the relay.\<close>

definition pick_transport :: "connect_args \<Rightarrow> connect_env \<Rightarrow> connect_error + bool \<times> string" where
  "pick_transport a env =
     (let relayed = (if relay_server_of a \<noteq> [] then
                       (if relay_ok env then Inr (False, ''Relay'') else Inl RelayFailed)
                     else Inl DirectFailed)
      in case select_ok (candidates a) (finish_order env) of
           None \<Rightarrow> relayed
         | Some typ \<Rightarrow> if force_relay a then relayed else Inr (True, typ))"

definition connect ::
  "crypto \<Rightarrow> string \<Rightarrow> nat \<Rightarrow> nat \<Rightarrow> connect_args \<Rightarrow> connect_env \<Rightarrow> login_config_handler \<Rightarrow> connect_out" where
  "connect cr RS_PUB_KEY CONNECT_TIMEOUT now a env h =
     (let due = 0 < direct_failures (lch_config h) \<and> is_retry_due now (lch_config h);
          h' = (if due then note_direct_retry now h else h);
          failures = (if due then 0 else direct_failures (lch_config h));
          tmo = connect_timeout CONNECT_TIMEOUT (is_local_of a) (peer_nat_type a) (my_nat_type a) (probed_nat env)
                  (relay_server_of a) (punch_time_used a) failures;
          out = \<lparr>co_handler = h', co_retry = due, co_timeout = tmo, co_update_direct = None,
                 co_result = Inl DirectFailed, co_key = None\<rparr>
      in case pick_transport a env of
           Inl RelayFailed \<Rightarrow> out\<lparr>co_update_direct := Some False, co_result := Inl RelayFailed\<rparr>
         | Inl e \<Rightarrow> out\<lparr>co_result := Inl e\<rparr>
         | Inr (direct, typ) \<Rightarrow>
             (let r = secure_connection cr RS_PUB_KEY (exchange_keys env) (exchange_send_ok env)
                        (exchange_reply env) (peer_id_of a) (signed_id_pk_of a) (key_of a)
              in case sec_result r of
                   Inl e \<Rightarrow> out\<lparr>co_update_direct := Some direct, co_result := Inl (HandshakeFailed e)\<rparr>
                 | Inr pk \<Rightarrow> out\<lparr>co_result := Inr (direct, pk, typ), co_key := sec_key r\<rparr>))"

text \<open>
  The update of the record after a successful connection, in \<open>start\<close>; \<open>now'\<close> is the
  clock at that moment.
\<close>

definition start_update :: "nat \<Rightarrow> bool \<Rightarrow> bool \<Rightarrow> login_config_handler \<Rightarrow> login_config_handler" where
  "start_update now' forced direct h =
     (if \<not> forced \<and> ((direct_failures (lch_config h) = 0) \<noteq> direct)
      then set_direct_failure now' (if direct then 0 else 1) h else h)"

definition start_connect ::
  "crypto \<Rightarrow> string \<Rightarrow> nat \<Rightarrow> nat \<Rightarrow> nat \<Rightarrow> connect_args \<Rightarrow> connect_env \<Rightarrow> login_config_handler \<Rightarrow> connect_out" where
  "start_connect cr RS_PUB_KEY CONNECT_TIMEOUT now now' a env h =
     (let out = connect cr RS_PUB_KEY CONNECT_TIMEOUT now a env h
      in case co_result out of
           Inl _ \<Rightarrow> out
         | Inr (direct, _, _) \<Rightarrow> out\<lparr>co_handler := start_update now' (force_relay a) direct (co_handler out)\<rparr>)"

text \<open>A connection attempt as an event: the clock at its start and end, its arguments and network.\<close>

type_synonym attempt = "nat \<times> nat \<times> connect_args \<times> connect_env"

definition attempt_out :: "crypto \<Rightarrow> string \<Rightarrow> nat \<Rightarrow> login_config_handler \<Rightarrow> attempt \<Rightarrow> connect_out" where
  "attempt_out cr rs ct h e = (case e of (now, now', a, env) \<Rightarrow> start_connect cr rs ct now now' a env h)"

definition attempt_step :: "crypto \<Rightarrow> string \<Rightarrow> nat \<Rightarrow> login_config_handler \<Rightarrow> attempt \<Rightarrow> login_config_handler" where
  "attempt_step cr rs ct h e = co_handler (attempt_out cr rs ct h e)"

section \<open>Lemmas\<close>

lemma stamped_at_stamp [simp]: "now \<le> u64_max \<Longrightarrow> stamped_at (stamp now True cfg) = Some now"
  by (simp add: stamped_at_def stamp_def parse_show_nat)

lemma direct_failures_stamp [simp]: "direct_failures (stamp now b cfg) = direct_failures cfg"
  by (simp add: stamp_def)

lemma connect_fields:
  "co_handler (connect cr rs ct now a env h) =
     (if 0 < direct_failures (lch_config h) \<and> is_retry_due now (lch_config h) then note_direct_retry now h else h)"
  "co_retry (connect cr rs ct now a env h) \<longleftrightarrow>
     0 < direct_failures (lch_config h) \<and> is_retry_due now (lch_config h)"
  by (auto simp: connect_def Let_def split: sum.splits connect_error.splits prod.splits)

lemma start_retry: "co_retry (start_connect cr rs ct now now' a env h) = co_retry (connect cr rs ct now a env h)"
  by (auto simp: start_connect_def Let_def split: sum.splits prod.splits)

text \<open>
  The record between two moments: in memory and on disk alike, and while failures are
  recorded, stamped between them.
\<close>

definition stamped_between :: "nat \<Rightarrow> nat \<Rightarrow> login_config_handler \<Rightarrow> bool" where
  "stamped_between t1 t2 h \<longleftrightarrow> lch_config h = lch_stored h \<and>
     (0 < direct_failures (lch_config h) \<longrightarrow>
        (\<exists>at. stamped_at (lch_config h) = Some at \<and> t1 \<le> at \<and> at \<le> t2))"

definition attempt_within :: "nat \<Rightarrow> nat \<Rightarrow> attempt \<Rightarrow> bool" where
  "attempt_within t1 t2 e = (case e of (now, now', a, env) \<Rightarrow> t1 \<le> now \<and> now \<le> now' \<and> now' \<le> t2 \<and> t2 \<le> u64_max)"

lemma note_retry_between:
  "lch_config h = lch_stored h \<Longrightarrow> t1 \<le> now \<Longrightarrow> now \<le> t2 \<Longrightarrow> t2 \<le> u64_max \<Longrightarrow>
   stamped_between t1 t2 (note_direct_retry now h)"
  by (auto simp: stamped_between_def note_direct_retry_def save_config_def)

lemma start_update_between:
  "stamped_between t1 t2 h \<Longrightarrow> t1 \<le> now \<Longrightarrow> now \<le> t2 \<Longrightarrow> t2 \<le> u64_max \<Longrightarrow>
   stamped_between t1 t2 (start_update now f d h)"
  by (auto simp: stamped_between_def start_update_def set_direct_failure_def save_config_def)

lemma connect_between:
  "stamped_between t1 t2 h \<Longrightarrow> t1 \<le> now \<Longrightarrow> now \<le> t2 \<Longrightarrow> t2 \<le> u64_max \<Longrightarrow>
   stamped_between t1 t2 (co_handler (connect cr rs ct now a env h))"
  using note_retry_between [of h t1 now t2] by (auto simp: connect_fields stamped_between_def [of t1 t2 h])

lemma start_handler:
  "co_handler (start_connect cr rs ct now now' a env h) = co_handler (connect cr rs ct now a env h)
   \<or> (\<exists>d. co_handler (start_connect cr rs ct now now' a env h) =
         start_update now' (force_relay a) d (co_handler (connect cr rs ct now a env h)))"
  by (auto simp: start_connect_def Let_def split: sum.splits prod.splits)

lemma attempt_between:
  assumes "stamped_between t1 t2 h" and "attempt_within t1 t2 e"
  shows "stamped_between t1 t2 (attempt_step cr rs ct h e)"
proof -
  obtain now now' a env where e: "e = (now, now', a, env)" by (cases e) auto
  have t: "t1 \<le> now" "now \<le> now'" "now' \<le> t2" "t2 \<le> u64_max"
    using assms(2) by (simp_all add: attempt_within_def e)
  have "stamped_between t1 t2 (co_handler (connect cr rs ct now a env h))"
    using assms(1) t by (intro connect_between) auto
  moreover from this have "stamped_between t1 t2 (start_update now' f d (co_handler (connect cr rs ct now a env h)))" for f d
    using t by (intro start_update_between) auto
  ultimately show ?thesis
    using start_handler [of cr rs ct now now' a env h] by (auto simp: attempt_step_def attempt_out_def e)
qed

interpretation failure_record: machine "stamped_between t1 t2" "attempt_step cr rs ct" "attempt_within t1 t2" "stamped_between t1 t2"
  for t1 t2 cr rs ct
  by unfold_locales (simp_all add: attempt_between)

lemma retry_stamps:
  assumes "co_retry (attempt_out cr rs ct h e)" "lch_config h = lch_stored h" "attempt_within t1 t2 e"
  shows "stamped_between t1 t2 (attempt_step cr rs ct h e)"
proof -
  obtain now now' a env where e: "e = (now, now', a, env)" by (cases e) auto
  have t: "t1 \<le> now" "now \<le> now'" "now' \<le> t2" "t2 \<le> u64_max"
    using assms(3) by (simp_all add: attempt_within_def e)
  have "stamped_between t1 t2 (co_handler (connect cr rs ct now a env h))"
    using assms(1,2) t by (auto simp: attempt_out_def e start_retry connect_fields intro!: note_retry_between)
  moreover from this have "stamped_between t1 t2 (start_update now' f d (co_handler (connect cr rs ct now a env h)))" for f d
    using t by (intro start_update_between) auto
  ultimately show ?thesis
    using start_handler [of cr rs ct now now' a env h] by (auto simp: attempt_step_def attempt_out_def e)
qed

lemma select_ok_cases:
  "case select_ok cands fin of None \<Rightarrow> set cands \<inter> set fin = {} | Some t \<Rightarrow> t \<in> set cands \<and> t \<in> set fin"
  by (auto simp: select_ok_def find_None_iff find_Some_iff split: option.splits)

lemma pick_transport_cases:
  "case pick_transport a env of
     Inr (direct, typ) \<Rightarrow>
       (if direct then \<not> force_relay a \<and> typ \<in> set (candidates a) \<and> typ \<in> set (finish_order env)
        else typ = ''Relay'' \<and> relay_server_of a \<noteq> [] \<and> relay_ok env)
   | Inl DirectFailed \<Rightarrow> relay_server_of a = [] \<and> (force_relay a \<or> set (candidates a) \<inter> set (finish_order env) = {})
   | Inl RelayFailed \<Rightarrow> \<not> relay_ok env \<and> relay_server_of a \<noteq> []
   | Inl (HandshakeFailed e) \<Rightarrow> False"
  using select_ok_cases [of "candidates a" "finish_order env"]
  by (auto simp: pick_transport_def Let_def split: option.splits)

section \<open>Properties\<close>

text \<open>
  A failing peer costs at most one full window in six hours. If the aged record was
  set aside in an attempt that started at \<open>t1\<close>, then after any sequence of further
  attempts, whatever the network did in them, it is set aside again only in an attempt
  that starts at least \<open>RETRY_AFTER_SECS\<close> later, as long as the clock does not run
  backwards.
\<close>

theorem direct_retry_spacing:
  assumes "lch_config h = lch_stored h" and "attempt_within t1 t2 (t1, u1, a1, env1)"
    and "co_retry (attempt_out cr rs ct h (t1, u1, a1, env1))"
    and "list_all (attempt_within t1 t2) es"
    and "co_retry (attempt_out cr rs ct (run (attempt_step cr rs ct) (attempt_step cr rs ct h (t1, u1, a1, env1)) es)
           (t2, u2, a2, env2))"
  shows "t1 + RETRY_AFTER_SECS \<le> t2"
proof -
  let ?h = "run (attempt_step cr rs ct) (attempt_step cr rs ct h (t1, u1, a1, env1)) es"
  have "stamped_between t1 t2 ?h"
    by (rule failure_record.run_from_inv [OF retry_stamps [OF assms(3,1,2)] assms(4)])
  with assms(5) show ?thesis
    by (auto simp: attempt_out_def start_retry connect_fields is_retry_due_def stamped_between_def)
qed

definition sample_args :: connect_args where
  "sample_args = \<lparr>peer_id_of = ''123456789'', signed_id_pk_of = ''signed'', relay_server_of = ''relay'', punch_time_used = 189,
     peer_nat_type = ASYMMETRIC, my_nat_type = ASYMMETRIC, is_local_of = False, key_of = [], force_relay = False,
     upnp_endpoint = [], has_udp_nat = True, has_udp_v6 = False\<rparr>"

definition sample_keys :: fresh_keys where
  "sample_keys = \<lparr>our_pk_b = ''our'', out_sk_b = ''out'', gen_key = ''key''\<rparr>"

definition sample_env :: "string list \<Rightarrow> connect_env" where
  "sample_env fin = \<lparr>probed_nat = UNKNOWN_NAT, finish_order = fin, relay_ok = True, exchange_send_ok = True,
     exchange_reply = SignedId ''reply'', exchange_keys = sample_keys\<rparr>"

definition sample_crypto :: crypto where
  "sample_crypto = \<lparr>decode64 = (\<lambda>s. Some (replicate 32 (CHR ''k''))),
     sign_verify = (\<lambda>m k. if m = ''signed'' \<or> m = ''reply'' then Some m else None),
     parse_id_pk = (\<lambda>m. Some (''123456789'', replicate 32 (CHR ''p''))),
     box_seal = (\<lambda>k n p s. k @ p)\<rparr>"

definition failed_peer :: login_config_handler where
  "failed_peer = (let c = \<lparr>direct_failures = 1, ui_flutter = Map.empty\<rparr> in \<lparr>lch_config = c, lch_stored = c\<rparr>)"

lemmas connect_eval = attempt_out_def attempt_step_def start_connect_def connect_def Let_def pick_transport_def
  select_ok_def candidates_def secure_connection_def vouched_pk_def get_rs_pk_def get_pk_def decode_id_pk_def
  create_symmetric_key_msg_def send_and_return_def start_update_def is_retry_due_def stamped_at_def stamp_def
  note_direct_retry_def set_direct_failure_def save_config_def failed_peer_def sample_args_def sample_env_def
  sample_crypto_def sample_keys_def RETRY_AFTER_SECS_def

theorem direct_retry_spacing_witness: "1000 + RETRY_AFTER_SECS \<le> 30000"
proof (rule direct_retry_spacing [where h = failed_peer and cr = sample_crypto and rs = "''rs''" and ct = 18000
      and es = "[]" and ?u1.0 = 1004 and ?u2.0 = 30003 and ?a1.0 = sample_args and ?a2.0 = sample_args
      and ?env1.0 = "sample_env []" and ?env2.0 = "sample_env []"])
  show "co_retry (attempt_out sample_crypto ''rs'' 18000
      (run (attempt_step sample_crypto ''rs'' 18000)
        (attempt_step sample_crypto ''rs'' 18000 failed_peer (1000, 1004, sample_args, sample_env [])) [])
      (30000, 30003, sample_args, sample_env []))"
    using parse_show_nat [of 1000 u64_max] by (simp add: connect_eval)
qed (simp_all add: attempt_within_def connect_eval)

text \<open>
  The waiting window. With a relay to fall back on, it lies between one and three
  seconds for every punching time, however large (the product may wrap around), and it is
  never zero in any configuration.
\<close>

theorem connect_timeout_bounds:
  "(relay \<noteq> [] \<longrightarrow> connect_timeout ct loc pn mn pr relay punch fl \<le> DIRECT_WINDOW_MS)
   \<and> MIN_TIMEOUT \<le> connect_timeout ct loc pn mn pr relay punch fl"
  by (auto simp: connect_timeout_def Let_def MIN_TIMEOUT_def DIRECT_WINDOW_MS_def)

theorem connect_timeout_bounds_witness:
  "connect_timeout 18000 False ASYMMETRIC ASYMMETRIC UNKNOWN_NAT ''relay'' 189 0 \<le> 3000"
  using connect_timeout_bounds [of "''relay''" 18000 False ASYMMETRIC ASYMMETRIC UNKNOWN_NAT 189 0]
  by (simp add: DIRECT_WINDOW_MS_def)

text \<open>
  Whom the session key reaches. The stream is given a key exactly when the rendezvous
  server's signature vouches for a public key of the requested peer, the peer's answer is
  signed with that key, names the same peer and carries a box key of the right length, and
  the sealed key could be sent; what is sent then is that key sealed for the box key of the
  answer. In every other case the stream stays without a key.
\<close>

theorem secure_connection_key:
  "sec_key (secure_connection cr rs fk ok reply peer signed_msg key) = Some k \<longleftrightarrow>
     ok \<and> k = gen_key fk \<and>
     (\<exists>rs_pk pk si their.
        signed_msg \<noteq> [] \<and> get_rs_pk cr (if key = [] then rs else key) = Some rs_pk
        \<and> decode_id_pk cr signed_msg rs_pk = Some (peer, pk)
        \<and> reply = SignedId si \<and> decode_id_pk cr si pk = Some (peer, their)
        \<and> sec_sent (secure_connection cr rs fk ok reply peer signed_msg key) =
            [PublicKey (our_pk_b fk) (box_seal cr (gen_key fk) (replicate 24 (CHR 0x00)) their (out_sk_b fk))])"
  by (cases reply) (auto simp: secure_connection_def vouched_pk_def send_and_return_def
      create_symmetric_key_msg_def split: option.splits)

text \<open>
  Which transport a connection reports. A successful attempt is direct only over one of
  the candidates that finished and only if the relay was not forced; a relayed one had a
  relay server; and without a relay server and without a finished candidate the attempt
  fails.
\<close>

theorem connect_transport:
  "case co_result (connect cr rs ct now a env h) of
     Inr (direct, pk, typ) \<Rightarrow>
       (if direct then \<not> force_relay a \<and> typ \<in> set (candidates a) \<and> typ \<in> set (finish_order env)
        else typ = ''Relay'' \<and> relay_server_of a \<noteq> [] \<and> relay_ok env)
   | Inl DirectFailed \<Rightarrow> relay_server_of a = [] \<and> (force_relay a \<or> set (candidates a) \<inter> set (finish_order env) = {})
   | Inl RelayFailed \<Rightarrow> \<not> relay_ok env \<and> relay_server_of a \<noteq> []
   | Inl (HandshakeFailed e) \<Rightarrow> co_key (connect cr rs ct now a env h) = None"
  using pick_transport_cases [where a = a and env = env]
  by (auto simp: connect_def Let_def split: sum.splits prod.splits connect_error.splits)

end
