(* ===== verification/Van.thy ===== *)
theory Van
  imports Prelude
begin

text \<open>
  The watchdog of the card payment daemon, \<open>src/src/chainremote_van.rs\<close>. Its statics are
  the record \<open>van_state\<close>; the option store of \<open>hbb_common\<close> is the parameter \<open>ops\<close>;
  everything the thread asks the operating system during one tick (the output of
  \<open>netstat\<close>, \<open>tasklist\<close> and \<open>wmic\<close>, existing files, the clock, the outcome of a
  launch) is the record \<open>van_obs\<close>. A tick returns the new state, the new store and the
  actions it performed on the machine.
\<close>

record daemon =
  d_kind :: string
  d_process :: string
  d_port :: nat
  d_fallbacks :: "string list"

text \<open>A Windows path from its parts, joined by backslashes.\<close>

definition win_path :: "string list \<Rightarrow> string" where
  "win_path ps = tl (concat (map (\<lambda>p. CHR 0x5C # p) ps))"

definition ksnet :: daemon where
  "ksnet = \<lparr>d_kind = ''ksnet'', d_process = ''KSCAT.exe'', d_port = 27015,
     d_fallbacks = map win_path [[''C:'', ''KSCAT'', ''KSCAT.exe''], [''C:'', ''Program Files'', ''KSCAT'', ''KSCAT.exe''],
       [''C:'', ''Program Files (x86)'', ''KSCAT'', ''KSCAT.exe''], [''C:'', ''KSNET'', ''KSCAT.exe''],
       [''D:'', ''KSCAT'', ''KSCAT.exe'']]\<rparr>"

definition DAEMONS :: "daemon list" where
  "DAEMONS = [ksnet]"

record van_state =
  van_kind :: string
  restarted_pending :: bool
  last_ok :: bool
  ever_ok :: bool
  waiting_logged :: bool
  gave_up :: bool
  not_installed :: bool
  failures :: nat
  bad_streak :: nat
  quiet_until :: "nat option"

definition van_init :: van_state where
  "van_init = \<lparr>van_kind = [], restarted_pending = False, last_ok = False, ever_ok = False,
     waiting_logged = False, gave_up = False, not_installed = False, failures = 0, bad_streak = 0,
     quiet_until = None\<rparr>"

definition START_GRACE :: nat where "START_GRACE = 60"
definition MAX_FAILURES :: nat where "MAX_FAILURES = 3"
definition BAD_STREAK_NEEDED :: nat where "BAD_STREAK_NEEDED = 2"
definition KIND_CACHE_KEY :: string where "KIND_CACHE_KEY = ''chainremote-van-kind''"
definition PATH_CACHE_KEY :: string where "PATH_CACHE_KEY = ''chainremote-van-path''"

record van_obs =
  netstat :: "string option"
  tasklist_tick :: "string option"     \<comment> \<open>asked by \<open>tick\<close>\<close>
  tasklist_recover :: "string option"  \<comment> \<open>asked again by \<open>recover\<close>\<close>
  wmic :: "string option"
  path_exists :: "string \<Rightarrow> bool"
  session_id :: nat
  run_exe_ok :: bool
  now_quiet :: nat
  now_launch :: nat

datatype van_action = Kill nat | Launch string

section \<open>Reading the command outputs\<close>

record port_state =
  listening :: bool
  established :: nat

text \<open>The state column of one line of \<open>netstat -an\<close>, if the line is TCP at the port.\<close>

definition netstat_line :: "nat \<Rightarrow> string \<Rightarrow> string option" where
  "netstat_line port line =
     (let f = split_whitespace line
      in if length f < 4 \<or> \<not> eq_ignore_ascii_case (f ! 0) ''TCP'' then None
         else case parse_uint u16_max (last (split_on (CHR '':'') (f ! 1))) of
           None \<Rightarrow> None
         | Some p \<Rightarrow> if p \<noteq> port then None else Some (f ! 3))"

definition probe_line :: "nat \<Rightarrow> port_state \<Rightarrow> string \<Rightarrow> port_state" where
  "probe_line port st line =
     (case netstat_line port line of
        None \<Rightarrow> st
      | Some s \<Rightarrow>
          if eq_ignore_ascii_case s ''LISTENING'' then st\<lparr>listening := True\<rparr>
          else if eq_ignore_ascii_case s ''ESTABLISHED'' then st\<lparr>established := established st + 1\<rparr>
          else st)"

definition probe_port :: "nat \<Rightarrow> string option \<Rightarrow> port_state option" where
  "probe_port port netstat_out =
     map_option (\<lambda>out. foldl (probe_line port) \<lparr>listening = False, established = 0\<rparr> (lines out)) netstat_out"

text \<open>The process id in one line of the CSV output of \<open>tasklist\<close>.\<close>

definition tasklist_line :: "string \<Rightarrow> string \<Rightarrow> nat option" where
  "tasklist_line name line =
     (case split_str [CHR 0x22, CHR '','', CHR 0x22] line of
        img # pid # _ \<Rightarrow>
          if eq_ignore_ascii_case (trim_start_matches (CHR 0x22) img) name
          then parse_uint u32_max (trim_matches (CHR 0x22) pid) else None
      | _ \<Rightarrow> None)"

fun first_some :: "('a \<Rightarrow> 'b option) \<Rightarrow> 'a list \<Rightarrow> 'b option" where
  "first_some f [] = None"
| "first_some f (x # xs) = (case f x of None \<Rightarrow> first_some f xs | Some y \<Rightarrow> Some y)"

definition find_pid :: "string \<Rightarrow> string option \<Rightarrow> nat option" where
  "find_pid name tasklist_out =
     (case tasklist_out of None \<Rightarrow> None | Some out \<Rightarrow> first_some (tasklist_line name) (lines out))"

section \<open>The daemon's path\<close>

definition cached_path :: "'c option_ops \<Rightarrow> (string \<Rightarrow> bool) \<Rightarrow> 'c \<Rightarrow> string option" where
  "cached_path ops ex c =
     (let p = get_option ops c PATH_CACHE_KEY in if p \<noteq> [] \<and> ex p then Some p else None)"

definition daemon_path :: "'c option_ops \<Rightarrow> daemon \<Rightarrow> (string \<Rightarrow> bool) \<Rightarrow> 'c \<Rightarrow> string option \<times> 'c" where
  "daemon_path ops d ex c =
     (case cached_path ops ex c of
        Some p \<Rightarrow> (Some p, c)
      | None \<Rightarrow>
          (case find ex (d_fallbacks d) of
             Some p \<Rightarrow> (Some p, set_option ops c PATH_CACHE_KEY p)
           | None \<Rightarrow> (None, c)))"

definition cache_path_if_missing ::
  "'c option_ops \<Rightarrow> daemon \<Rightarrow> (string \<Rightarrow> bool) \<Rightarrow> string option \<Rightarrow> 'c \<Rightarrow> 'c" where
  "cache_path_if_missing ops d ex wmic_out c =
     (if cached_path ops ex c \<noteq> None then c
      else case wmic_out of
        None \<Rightarrow> c
      | Some out \<Rightarrow>
          (case find (\<lambda>t. ends_with (to_ascii_lowercase t) (to_ascii_lowercase (d_process d))) (map trim (lines out)) of
             None \<Rightarrow> c
           | Some t \<Rightarrow> set_option ops c PATH_CACHE_KEY t))"

definition launch_in_user_session :: "nat \<Rightarrow> bool \<Rightarrow> bool" where
  "launch_in_user_session sid run_ok \<longleftrightarrow> sid \<noteq> u32_max \<and> run_ok"

section \<open>The watchdog\<close>

definition note_failure :: "van_state \<Rightarrow> van_state" where
  "note_failure s =
     (let n = (failures s + 1) mod 2 ^ 32;
          s' = s\<lparr>failures := n\<rparr>
      in if MAX_FAILURES \<le> n then s'\<lparr>gave_up := True\<rparr> else s')"

definition in_quiet_period :: "nat \<Rightarrow> van_state \<Rightarrow> bool" where
  "in_quiet_period now s = (case quiet_until s of None \<Rightarrow> False | Some t \<Rightarrow> now < t)"

definition set_quiet :: "nat \<Rightarrow> nat \<Rightarrow> van_state \<Rightarrow> van_state" where
  "set_quiet now dur s = s\<lparr>quiet_until := Some (now + dur)\<rparr>"

definition recover ::
  "'c option_ops \<Rightarrow> daemon \<Rightarrow> van_obs \<Rightarrow> van_state \<Rightarrow> 'c \<Rightarrow> van_state \<times> 'c \<times> van_action list" where
  "recover ops d obs s c =
     (let pid = find_pid (d_process d) (tasklist_recover obs);
          c1 = (if pid \<noteq> None then cache_path_if_missing ops d (path_exists obs) (wmic obs) c else c);
          (path, c2) = daemon_path ops d (path_exists obs) c1
      in case path of
           None \<Rightarrow>
             if pid = None then (s\<lparr>not_installed := True, gave_up := True\<rparr>, c2, [])
             else (note_failure s, c2, [])
         | Some path \<Rightarrow>
             (let kills = (case pid of None \<Rightarrow> [] | Some p \<Rightarrow> [Kill p])
              in if launch_in_user_session (session_id obs) (run_exe_ok obs)
                 then (set_quiet (now_launch obs) START_GRACE (s\<lparr>restarted_pending := True\<rparr>), c2, kills @ [Launch path])
                 else (note_failure s, c2, kills)))"

definition tick ::
  "'c option_ops \<Rightarrow> daemon \<Rightarrow> van_obs \<Rightarrow> van_state \<Rightarrow> 'c \<Rightarrow> van_state \<times> 'c \<times> van_action list" where
  "tick ops d obs s c =
     (case probe_port (d_port d) (netstat obs) of
        None \<Rightarrow> (s\<lparr>bad_streak := 0\<rparr>, c, [])
      | Some st \<Rightarrow>
          if listening st then
            (s\<lparr>last_ok := True, failures := 0, bad_streak := 0, gave_up := False, not_installed := False,
               ever_ok := True\<rparr>,
             cache_path_if_missing ops d (path_exists obs) (wmic obs) c, [])
          else
            let s1 = s\<lparr>last_ok := False\<rparr> in
            if 0 < established st then (s1\<lparr>bad_streak := 0\<rparr>, c, [])
            else if gave_up s1 then (s1, c, [])
            else if in_quiet_period (now_quiet obs) s1 then (s1, c, [])
            else if find_pid (d_process d) (tasklist_tick obs) \<noteq> None \<and> \<not> ever_ok s1
              then (s1\<lparr>waiting_logged := True\<rparr>, c, [])
            else
              let streak = (bad_streak s1 + 1) mod 2 ^ 32 in
              if streak < BAD_STREAK_NEEDED then (s1\<lparr>bad_streak := streak\<rparr>, c, [])
              else recover ops d obs (s1\<lparr>bad_streak := 0\<rparr>) c)"

section \<open>Control and reports\<close>

definition set_kind :: "'c option_ops \<Rightarrow> string \<Rightarrow> van_state \<Rightarrow> 'c \<Rightarrow> van_state \<times> 'c" where
  "set_kind ops kind0 s c =
     (let kind = trim kind0;
          s' = (if van_kind s \<noteq> kind then
                  s\<lparr>van_kind := kind, gave_up := False, ever_ok := False, waiting_logged := False,
                    not_installed := False, failures := 0\<rparr>
                else s)
      in (s', if get_option ops c KIND_CACHE_KEY \<noteq> kind then set_option ops c KIND_CACHE_KEY kind else c))"

definition is_on :: "van_state \<Rightarrow> bool" where
  "is_on s \<longleftrightarrow> van_kind s \<noteq> []"

definition current_ok :: "van_state \<Rightarrow> bool option" where
  "current_ok s =
     (if \<not> is_on s then None
      else if last_ok s then Some True
      else if \<not> ever_ok s \<and> \<not> not_installed s then None
      else Some False)"

definition clear_restarted :: "van_state \<Rightarrow> van_state" where
  "clear_restarted s = s\<lparr>restarted_pending := False\<rparr>"

definition current_daemon :: "van_state \<Rightarrow> daemon option" where
  "current_daemon s = (if van_kind s = [] then None else find (\<lambda>d. d_kind d = van_kind s) DAEMONS)"

text \<open>\<open>start_watch\<close>: the state at boot, and one turn of the thread's loop.\<close>

definition start_watch :: "'c option_ops \<Rightarrow> 'c \<Rightarrow> van_state \<Rightarrow> van_state" where
  "start_watch ops c s =
     (let cached = get_option ops c KIND_CACHE_KEY in if cached \<noteq> [] then s\<lparr>van_kind := cached\<rparr> else s)"

definition watch_turn ::
  "'c option_ops \<Rightarrow> van_obs \<Rightarrow> van_state \<Rightarrow> 'c \<Rightarrow> van_state \<times> 'c \<times> van_action list" where
  "watch_turn ops obs s c =
     (case current_daemon s of None \<Rightarrow> (s, c, []) | Some d \<Rightarrow> tick ops d obs s c)"

text \<open>
  The watchdog among its callers: turns of the loop, the control value of a heartbeat
  answer, the acknowledgement of a restart report. The third component collects the
  actions.
\<close>

datatype van_event = Turn van_obs | SetKind string | ClearRestarted

fun van_step ::
  "'c option_ops \<Rightarrow> van_state \<times> 'c \<times> van_action list \<Rightarrow> van_event \<Rightarrow> van_state \<times> 'c \<times> van_action list" where
  "van_step ops (s, c, acts) (Turn obs) = (let (s', c', a) = watch_turn ops obs s c in (s', c', acts @ a))"
| "van_step ops (s, c, acts) (SetKind k) = (let (s', c') = set_kind ops k s c in (s', c', acts))"
| "van_step ops (s, c, acts) ClearRestarted = (clear_restarted s, c, acts)"

section \<open>Specifications\<close>

text \<open>A definite failure: the probe worked, nothing listens and nobody is connected.\<close>

definition definitely_down :: "daemon \<Rightarrow> van_obs \<Rightarrow> bool" where
  "definitely_down d obs \<longleftrightarrow>
     (case probe_port (d_port d) (netstat obs) of
        None \<Rightarrow> False
      | Some st \<Rightarrow> \<not> listening st \<and> established st = 0)"

definition seen_listening :: "daemon \<Rightarrow> van_obs \<Rightarrow> bool" where
  "seen_listening d obs \<longleftrightarrow>
     (case probe_port (d_port d) (netstat obs) of None \<Rightarrow> False | Some st \<Rightarrow> listening st)"

text \<open>Events that leave a given-up watchdog alone: the control value stays, nothing listens.\<close>

fun no_revival :: "string \<Rightarrow> van_event \<Rightarrow> bool" where
  "no_revival k (Turn obs) \<longleftrightarrow> list_all (\<lambda>d. \<not> seen_listening d obs) DAEMONS"
| "no_revival k (SetKind k') \<longleftrightarrow> trim k' = k"
| "no_revival k ClearRestarted \<longleftrightarrow> True"

definition resting :: "string \<Rightarrow> van_action list \<Rightarrow> van_state \<times> 'c \<times> van_action list \<Rightarrow> bool" where
  "resting k acts x = (case x of (s, c, a) \<Rightarrow> gave_up s \<and> van_kind s = k \<and> a = acts)"

text \<open>A daemon that can be launched but never opens its port, observed at time \<open>t\<close>.\<close>

definition deaf_obs :: "nat \<Rightarrow> van_obs" where
  "deaf_obs t = (let l = [CHR 0x22] @ ''KSCAT.exe'' @ [CHR 0x22, CHR '','', CHR 0x22] @ ''3384'' @ [CHR 0x22] in
     \<lparr>netstat = Some [], tasklist_tick = Some l, tasklist_recover = Some l, wmic = None,
      path_exists = (\<lambda>_. True), session_id = 1, run_exe_ok = True, now_quiet = t, now_launch = t\<rparr>)"

definition deaf_round :: "nat \<Rightarrow> van_event list" where
  "deaf_round n = [Turn (deaf_obs (90 * n + 30)), Turn (deaf_obs (90 * n + 60)), Turn (deaf_obs (90 * n + 90))]"

definition deaf_start :: van_state where
  "deaf_start = van_init\<lparr>van_kind := ''ksnet'', ever_ok := True, quiet_until := Some 60\<rparr>"

definition deaf_store :: "string \<Rightarrow> string" where
  "deaf_store = (\<lambda>_. [])(PATH_CACHE_KEY := ''kscat'')"

fun is_kill :: "van_action \<Rightarrow> bool" where
  "is_kill (Kill _) \<longleftrightarrow> True"
| "is_kill (Launch _) \<longleftrightarrow> False"


section \<open>Lemmas\<close>

lemma probe_fold:
  "foldl (probe_line port) st ls =
     st\<lparr>listening := listening st \<or> (\<exists>l\<in>set ls. \<exists>s. netstat_line port l = Some s \<and> eq_ignore_ascii_case s ''LISTENING''),
       established := established st + length (filter (\<lambda>l. \<exists>s. netstat_line port l = Some s
          \<and> \<not> eq_ignore_ascii_case s ''LISTENING'' \<and> eq_ignore_ascii_case s ''ESTABLISHED'') ls)\<rparr>"
  by (induction ls arbitrary: st) (auto simp: probe_line_def split: option.splits)

lemma recover_actions:
  "case recover ops d obs s c of (s', c', acts) \<Rightarrow>
     acts = [] \<or>
     (\<exists>path. fst (daemon_path ops d (path_exists obs)
          (if find_pid (d_process d) (tasklist_recover obs) \<noteq> None
           then cache_path_if_missing ops d (path_exists obs) (wmic obs) c else c)) = Some path
        \<and> set acts \<subseteq> {Launch path} \<union> Kill ` {p. find_pid (d_process d) (tasklist_recover obs) = Some p})"
  by (auto simp: recover_def Let_def case_prod_beta split: option.splits)

lemma recover_kind: "case recover ops d obs s c of (s', _) \<Rightarrow> van_kind s' = van_kind s \<and> bad_streak s' = bad_streak s"
  by (auto simp: recover_def Let_def note_failure_def set_quiet_def case_prod_beta split: option.splits)

lemma tick_kind: "case tick ops d obs s c of (s', _) \<Rightarrow> van_kind s' = van_kind s"
  using recover_kind [where ops = ops and d = d and obs = obs and s = "s\<lparr>last_ok := False, bad_streak := 0\<rparr>" and c = c]
  by (auto simp: tick_def Let_def split: option.splits)

lemma tick_acts:
  assumes "tick ops d obs s c = (s', c', acts)" and "acts \<noteq> []"
  shows "definitely_down d obs" "\<not> gave_up s" "\<not> in_quiet_period (now_quiet obs) s"
    "find_pid (d_process d) (tasklist_tick obs) = None \<or> ever_ok s" "bad_streak s \<noteq> 0"
    "recover ops d obs (s\<lparr>last_ok := False, bad_streak := 0\<rparr>) c = (s', c', acts)"
  using assms by (auto simp: tick_def Let_def definitely_down_def in_quiet_period_def BAD_STREAK_NEEDED_def
      split: option.splits if_splits)

lemma tick_streak:
  assumes "\<not> definitely_down d obs"
  shows "case tick ops d obs s c of (s', c', acts) \<Rightarrow> bad_streak s' = 0 \<and> acts = []"
  using assms by (auto simp: tick_def Let_def definitely_down_def split: option.splits)

lemma tick_resting:
  "gave_up s \<Longrightarrow> \<not> seen_listening d obs \<Longrightarrow>
   (case tick ops d obs s c of (s', c', acts) \<Rightarrow> gave_up s' \<and> van_kind s' = van_kind s \<and> acts = [])"
  by (auto simp: tick_def seen_listening_def Let_def split: option.splits)

lemma current_daemon_known: "current_daemon s = Some d \<Longrightarrow> d \<in> set DAEMONS"
  by (auto simp: current_daemon_def find_Some_iff split: if_splits)

lemma van_step_resting: "resting k acts x \<Longrightarrow> no_revival k e \<Longrightarrow> resting k acts (van_step ops x e)"
proof (cases e)
  case (Turn obs)
  assume r: "resting k acts x" and n: "no_revival k e"
  obtain s c a where x: "x = (s, c, a)" by (cases x) auto
  show ?thesis
  proof (cases "current_daemon s")
    case None
    with r show ?thesis by (simp add: Turn x watch_turn_def)
  next
    case (Some d)
    with n have "\<not> seen_listening d obs"
      using current_daemon_known [OF Some] by (auto simp: Turn list_all_iff)
    with r tick_resting [where s = s and d = d and obs = obs and ops = ops and c = c] Some show ?thesis
      by (auto simp: Turn x watch_turn_def resting_def)
  qed
qed (auto simp: resting_def set_kind_def clear_restarted_def Let_def)

interpretation resting_van: machine "resting k acts" "van_step ops" "no_revival k" "resting k acts"
  for k acts ops
  by unfold_locales (simp_all add: van_step_resting)

text \<open>
  The restart flag as a report latch: turns of the loop and control values never lower it.
\<close>

lemma recover_restarted: "restarted_pending s \<Longrightarrow> restarted_pending (fst (recover ops d obs s c))"
  by (auto simp: recover_def Let_def note_failure_def set_quiet_def case_prod_beta split: option.splits)

lemma watch_turn_restarted: "restarted_pending s \<Longrightarrow> restarted_pending (fst (watch_turn ops obs s c))"
  by (auto simp: watch_turn_def tick_def Let_def intro!: recover_restarted split: option.splits)

definition van_owner_step ::
  "'c option_ops \<Rightarrow> van_state \<times> 'c \<times> van_action list \<Rightarrow> van_obs + string \<Rightarrow> van_state \<times> 'c \<times> van_action list" where
  "van_owner_step ops x e = van_step ops x (case e of Inl obs \<Rightarrow> Turn obs | Inr k \<Rightarrow> SetKind k)"

lemma set_kind_restarted [simp]: "restarted_pending (fst (set_kind ops k s c)) = restarted_pending s"
  by (simp add: set_kind_def Let_def)

interpretation van_latch: report_latch "\<lambda>x. restarted_pending (fst x)" "\<lambda>x. van_step ops x ClearRestarted" "van_owner_step ops"
  for ops
proof (unfold_locales, goal_cases)
  case (1 x e)
  then show ?case
    using watch_turn_restarted [where ops = ops and s = "fst x" and c = "fst (snd x)"]
    by (cases x; cases e) (auto simp: van_owner_step_def set_kind_def Let_def case_prod_beta)
next
  case (2 x)
  show ?case
    by (cases x) (simp add: clear_restarted_def)
qed

lemma deaf_pid: "find_pid (d_process ksnet) (tasklist_tick (deaf_obs t)) = Some 3384"
  "find_pid (d_process ksnet) (tasklist_recover (deaf_obs t)) = Some 3384"
  by (simp_all add: deaf_obs_def Let_def find_pid_def lines_def tasklist_line_def split_str_def ksnet_def
      eq_ignore_ascii_case_def trim_start_matches_def trim_matches_def trim_end_matches_def
      parse_uint_def is_ascii_digit_def)

lemma deaf_probe: "probe_port p (netstat (deaf_obs t)) = Some \<lparr>listening = False, established = 0\<rparr>"
  by (simp add: deaf_obs_def Let_def probe_port_def lines_def)

lemma deaf_path: "cached_path fun_store (path_exists (deaf_obs t)) deaf_store = Some ''kscat''"
  by (simp add: cached_path_def deaf_store_def deaf_obs_def Let_def)

lemma deaf_turn:
  assumes "van_kind s = ''ksnet''" "ever_ok s" "\<not> gave_up s"
  shows "watch_turn fun_store (deaf_obs t) s deaf_store =
    (if in_quiet_period t s then (s\<lparr>last_ok := False\<rparr>, deaf_store, [])
     else if (bad_streak s + 1) mod 2 ^ 32 < BAD_STREAK_NEEDED
       then (s\<lparr>last_ok := False, bad_streak := (bad_streak s + 1) mod 2 ^ 32\<rparr>, deaf_store, [])
     else (s\<lparr>last_ok := False, bad_streak := 0, restarted_pending := True, quiet_until := Some (t + START_GRACE)\<rparr>,
           deaf_store, [Kill 3384, Launch ''kscat'']))"
proof -
  have d: "current_daemon s = Some ksnet"
    using assms(1) by (simp add: current_daemon_def DAEMONS_def ksnet_def)
  have q: "in_quiet_period (now_quiet (deaf_obs t)) (s\<lparr>last_ok := False\<rparr>) = in_quiet_period t s"
    by (simp add: deaf_obs_def in_quiet_period_def Let_def)
  have l: "launch_in_user_session (session_id (deaf_obs t)) (run_exe_ok (deaf_obs t))" "now_launch (deaf_obs t) = t"
    by (simp_all add: deaf_obs_def launch_in_user_session_def Let_def)
  show ?thesis
    using assms by (simp add: watch_turn_def d tick_def deaf_probe Let_def q recover_def deaf_pid deaf_path
        cache_path_if_missing_def daemon_path_def l set_quiet_def)
qed

text \<open>What holds at the end of a round: the daemon was just restarted.\<close>

definition deaf_state :: "nat \<Rightarrow> van_state \<Rightarrow> bool" where
  "deaf_state n s \<longleftrightarrow> van_kind s = ''ksnet'' \<and> ever_ok s \<and> \<not> gave_up s \<and> bad_streak s = 0 \<and> failures s = 0
     \<and> quiet_until s = Some (90 * n + 60)"

lemma deaf_round_step:
  assumes "deaf_state n s"
  shows "\<exists>s'. run (van_step fun_store) (s, deaf_store, acts) (deaf_round n) =
      (s', deaf_store, acts @ [Kill 3384, Launch ''kscat'']) \<and> deaf_state (Suc n) s'"
  using assms by (simp add: deaf_round_def deaf_turn deaf_state_def in_quiet_period_def BAD_STREAK_NEEDED_def START_GRACE_def)

lemma deaf_rounds:
  "\<exists>s. run (van_step fun_store) (deaf_start, deaf_store, []) (concat (map deaf_round [0..<n])) =
      (s, deaf_store, concat (replicate n [Kill 3384, Launch ''kscat''])) \<and> deaf_state n s"
proof (induction n)
  case 0
  show ?case by (simp add: deaf_state_def deaf_start_def van_init_def)
next
  case (Suc n)
  then obtain s where r: "run (van_step fun_store) (deaf_start, deaf_store, []) (concat (map deaf_round [0..<n])) =
      (s, deaf_store, concat (replicate n [Kill 3384, Launch ''kscat'']))" and d: "deaf_state n s"
    by blast
  obtain s' where "run (van_step fun_store) (s, deaf_store, concat (replicate n [Kill 3384, Launch ''kscat'']))
      (deaf_round n) = (s', deaf_store, concat (replicate n [Kill 3384, Launch ''kscat'']) @ [Kill 3384, Launch ''kscat''])"
    and "deaf_state (Suc n) s'"
    using deaf_round_step [OF d] by blast
  moreover have "concat (replicate n xs) @ xs = concat (replicate (Suc n) xs)" for xs :: "van_action list"
    by (induction n) auto
  ultimately show ?case
    using r by auto
qed

section \<open>Properties\<close>

text \<open>
  C17. When the watchdog may kill the payment daemon. A turn that kills a process saw the
  probe succeed with nothing listening and no payment in progress, had not given up, was
  past the grace period and past a first bad check, knew a path from which to start the
  daemon again, and killed only the process of that daemon; and the daemon had been healthy
  since the watchdog was switched on unless the process list of this turn did not show it.
\<close>

theorem van_kill_only_when_down:
  assumes "watch_turn ops obs s c = (s', c', acts)" and "Kill p \<in> set acts"
  shows "\<exists>d. current_daemon s = Some d \<and> definitely_down d obs \<and> \<not> gave_up s
     \<and> \<not> in_quiet_period (now_quiet obs) s \<and> bad_streak s \<noteq> 0
     \<and> find_pid (d_process d) (tasklist_recover obs) = Some p
     \<and> fst (daemon_path ops d (path_exists obs) (cache_path_if_missing ops d (path_exists obs) (wmic obs) c)) \<noteq> None
     \<and> (ever_ok s \<or> find_pid (d_process d) (tasklist_tick obs) = None)"
proof -
  obtain d where d: "current_daemon s = Some d" and t: "tick ops d obs s c = (s', c', acts)"
    using assms by (auto simp: watch_turn_def split: option.splits)
  have ne: "acts \<noteq> []" using assms(2) by auto
  note facts = tick_acts [OF t ne]
  have "find_pid (d_process d) (tasklist_recover obs) = Some p"
    and "fst (daemon_path ops d (path_exists obs) (cache_path_if_missing ops d (path_exists obs) (wmic obs) c)) \<noteq> None"
    using recover_actions [where ops = ops and d = d and obs = obs and s = "s\<lparr>last_ok := False, bad_streak := 0\<rparr>" and c = c] facts(6) assms(2) ne
    by (auto split: if_splits)
  with d facts show ?thesis by auto
qed

theorem van_kill_only_when_down_witness:
  "\<not> gave_up (deaf_start\<lparr>bad_streak := 1\<rparr>)
   \<and> (\<exists>d. current_daemon (deaf_start\<lparr>bad_streak := 1\<rparr>) = Some d \<and> definitely_down d (deaf_obs 100))"
proof -
  have w: "watch_turn fun_store (deaf_obs 100) (deaf_start\<lparr>bad_streak := 1\<rparr>) deaf_store =
    (deaf_start\<lparr>last_ok := False, bad_streak := 0, restarted_pending := True, quiet_until := Some 160\<rparr>,
     deaf_store, [Kill 3384, Launch ''kscat''])"
    by (subst deaf_turn) (simp_all add: deaf_start_def van_init_def in_quiet_period_def BAD_STREAK_NEEDED_def START_GRACE_def)
  show ?thesis
    using van_kill_only_when_down [OF w, of 3384] by auto
qed

text \<open>
  One bad reading never touches the daemon. If a turn could not read the ports, saw the
  daemon listening or saw a payment in progress, the next turn neither kills nor launches
  anything, whatever it observes.
\<close>

theorem van_debounce:
  assumes "current_daemon s = Some d" and "\<not> definitely_down d obs1"
    and "watch_turn ops obs1 s c = (s1, c1, acts1)" and "watch_turn ops obs2 s1 c1 = (s2, c2, acts2)"
  shows "acts1 = [] \<and> acts2 = []"
proof -
  have t1: "tick ops d obs1 s c = (s1, c1, acts1)"
    using assms(1,3) by (simp add: watch_turn_def)
  have k: "bad_streak s1 = 0" "acts1 = []" "van_kind s1 = van_kind s"
    using tick_streak [OF assms(2), where ops = ops and s = s and c = c] tick_kind [where ops = ops and d = d and obs = obs1 and s = s and c = c] t1 by auto
  then have "current_daemon s1 = Some d"
    using assms(1) by (simp add: current_daemon_def split: if_splits)
  with assms(4) have t2: "tick ops d obs2 s1 c1 = (s2, c2, acts2)"
    by (simp add: watch_turn_def)
  have "acts2 = []"
    using tick_acts(5) [OF t2] k(1) by blast
  with k(2) show ?thesis by simp
qed

theorem van_debounce_witness:
  "snd (snd (watch_turn fun_store (deaf_obs 100) (deaf_start\<lparr>bad_streak := 0\<rparr>) deaf_store)) = []"
proof -
  have d: "current_daemon deaf_start = Some ksnet"
    by (simp add: current_daemon_def deaf_start_def DAEMONS_def ksnet_def)
  have n: "\<not> definitely_down ksnet (deaf_obs 100\<lparr>netstat := None\<rparr>)"
    by (simp add: definitely_down_def probe_port_def)
  have w: "watch_turn fun_store (deaf_obs 100\<lparr>netstat := None\<rparr>) deaf_start deaf_store
      = (deaf_start\<lparr>bad_streak := 0\<rparr>, deaf_store, [])"
    by (simp add: watch_turn_def d tick_def probe_port_def)
  obtain s2 c2 a2 where "watch_turn fun_store (deaf_obs 100) (deaf_start\<lparr>bad_streak := 0\<rparr>) deaf_store = (s2, c2, a2)"
    by (cases "watch_turn fun_store (deaf_obs 100) (deaf_start\<lparr>bad_streak := 0\<rparr>) deaf_store") auto
  with van_debounce [OF d n w this] show ?thesis by simp
qed

text \<open>
  Giving up is final until something changes. Once the watchdog has given up, no
  sequence of turns in which no daemon listens, of heartbeat answers that repeat the control
  value and of acknowledged reports makes it act again.
\<close>

theorem van_gives_up_for_good:
  assumes "gave_up s" and "list_all (no_revival (van_kind s)) es"
  shows "\<exists>s' c'. run (van_step ops) (s, c, []) es = (s', c', []) \<and> gave_up s'"
proof -
  have "resting (van_kind s) [] (s, c, [])"
    using assms(1) by (simp add: resting_def)
  then have "resting (van_kind s) [] (run (van_step ops) (s, c, []) es)"
    by (rule resting_van.run_from_inv [OF _ assms(2)])
  then show ?thesis
    by (cases "run (van_step ops) (s, c, []) es") (auto simp: resting_def)
qed

theorem van_gives_up_for_good_witness:
  "\<exists>s' c'. run (van_step fun_store) (deaf_start\<lparr>gave_up := True\<rparr>, deaf_store, [])
     [Turn (deaf_obs 100), SetKind ''ksnet'', Turn (deaf_obs 130)] = (s', c', []) \<and> gave_up s'"
  by (rule van_gives_up_for_good)
    (simp_all add: deaf_start_def DAEMONS_def seen_listening_def deaf_probe trim_visible visible_ascii_def)

text \<open>
  A daemon that starts but never opens its port is restarted without end. Only a
  failed launch is counted as a failure, so after any number of rounds of 90 seconds the
  watchdog has killed and launched the daemon once per round, its failure count is still 0
  and it has not given up.
\<close>

theorem van_restarts_deaf_daemon_forever:
  "\<exists>s c acts. run (van_step fun_store) (deaf_start, deaf_store, []) (concat (map deaf_round [0..<n])) = (s, c, acts)
     \<and> length (filter is_kill acts) = n \<and> failures s = 0 \<and> \<not> gave_up s"
proof -
  have "length (filter is_kill (concat (replicate n [Kill 3384, Launch ''kscat'']))) = n"
    by (induction n) auto
  then show ?thesis
    using deaf_rounds [of n] by (auto simp: deaf_state_def)
qed

end
