(* ===== verification/Push_Agent.thy ===== *)
theory Push_Agent
  imports Update_Common
begin

text \<open>
  The push channel of the agent, \<open>src/src/chainremote_push_agent.rs\<close>: one poll (\<open>tick\<close>)
  asks the server for a pending push, guards it, downloads and checks the installer,
  launches it, and reports the outcome, keeping a report that could not be sent.

  Memory between polls lives in the option store only (parameter \<open>ops\<close>). What a poll
  learns from outside (network answers, the clock, the local hour, the connections registered in its own
  process, the contents read from the pending file) is the record \<open>push_obs\<close>; what it does is the list
  of \<open>push_action\<close>. Further parameters are SHA-256, the hash of the standard library's
  \<open>DefaultHasher\<close>, \<open>is_valid_custom_id\<close> of \<open>hbb_common\<close>, and the printing of an error.
\<close>

definition CHAINREMOTE_VERSION :: string where
  "CHAINREMOTE_VERSION = ''1.4.141''"

definition TOKEN_KEY :: string where "TOKEN_KEY = ''chainremote-heartbeat-token''"
definition FIRST_SEEN_PREFIX :: string where "FIRST_SEEN_PREFIX = ''push-first-seen:''"
definition DL_ATTEMPT_PREFIX :: string where "DL_ATTEMPT_PREFIX = ''push-dl-attempt:''"
definition VERIFY_PREFIX :: string where "VERIFY_PREFIX = ''push-verify:''"
definition PENDING_REPORT_KEY :: string where "PENDING_REPORT_KEY = ''push-pending-report''"
definition REPORT_RETRY :: nat where "REPORT_RETRY = 3"
definition DL_MAX_ATTEMPTS :: nat where "DL_MAX_ATTEMPTS = 5"
definition INSTALL_VERIFY_SECS :: nat where "INSTALL_VERIFY_SECS = 30 * 60"

lemmas push_keys = TOKEN_KEY_def FIRST_SEEN_PREFIX_def DL_ATTEMPT_PREFIX_def VERIFY_PREFIX_def PENDING_REPORT_KEY_def

record pending_response =
  pr_id :: "string option"
  target_version :: string
  asset_url :: string
  asset_sha256 :: string
  asset_size :: nat
  window_start_hour :: nat
  window_end_hour :: nat
  randomize_max_sec :: nat

text \<open>The defaults \<open>serde\<close> fills in for absent fields.\<close>

definition default_end_hour :: nat where "default_end_hour = 7"
definition default_randomize_max_sec :: nat where "default_randomize_max_sec = 25200"

record push_obs =
  po_remote_id :: string
  po_report_ok :: "nat \<Rightarrow> bool"      \<comment> \<open>outcome of the n-th report of this poll\<close>
  po_fetch :: "string + pending_response"
  po_hour :: nat
  po_now_verify :: nat
  po_now :: nat
  po_now_deadline :: nat
  po_own_conns :: nat                \<comment> \<open>\<open>alive_conns\<close> of the process of the thread\<close>
  po_dir :: "string + unit"
  po_existing :: "string option list option option"  \<comment> \<open>\<open>None\<close>: the pending file does not exist\<close>
  po_download :: "string + unit"
  po_downloaded :: "string option list option"
  po_spawn :: "string + unit"

datatype push_action =
    Report string string string bool   \<comment> \<open>push, status, reason, whether the server took it\<close>
  | Download string
  | DeletePending
  | LaunchInstall

record push_env =
  env_sha256 :: "string \<Rightarrow> string"
  env_hash :: "string \<Rightarrow> nat"
  env_valid_custom_id :: "string \<Rightarrow> bool"
  env_show_error :: "update_error \<Rightarrow> string"

section \<open>Values kept per push\<close>

definition first_seen_at :: "'c option_ops \<Rightarrow> string \<Rightarrow> nat \<Rightarrow> 'c \<Rightarrow> nat \<times> 'c" where
  "first_seen_at ops push_id now c =
     (let key = FIRST_SEEN_PREFIX @ push_id; stored = get_option ops c key
      in case (if stored \<noteq> [] then parse_uint u64_max stored else None) of
           Some v \<Rightarrow> (v, c)
         | None \<Rightarrow> (now, set_option ops c key (show_nat now)))"

definition bump_dl_attempt :: "'c option_ops \<Rightarrow> string \<Rightarrow> 'c \<Rightarrow> nat \<times> 'c" where
  "bump_dl_attempt ops push_id c =
     (let key = DL_ATTEMPT_PREFIX @ push_id;
          n = ((case parse_uint u32_max (get_option ops c key) of None \<Rightarrow> 0 | Some v \<Rightarrow> v) + 1) mod 2 ^ 32
      in (n, set_option ops c key (show_nat n)))"

definition clear_dl_attempt :: "'c option_ops \<Rightarrow> string \<Rightarrow> 'c \<Rightarrow> 'c" where
  "clear_dl_attempt ops push_id c = set_option ops c (DL_ATTEMPT_PREFIX @ push_id) []"

definition set_install_verify :: "'c option_ops \<Rightarrow> string \<Rightarrow> nat \<Rightarrow> 'c \<Rightarrow> 'c" where
  "set_install_verify ops push_id deadline c = set_option ops c (VERIFY_PREFIX @ push_id) (show_nat deadline)"

definition get_install_verify :: "'c option_ops \<Rightarrow> string \<Rightarrow> 'c \<Rightarrow> nat option" where
  "get_install_verify ops push_id c = parse_uint u64_max (get_option ops c (VERIFY_PREFIX @ push_id))"

definition clear_install_verify :: "'c option_ops \<Rightarrow> string \<Rightarrow> 'c \<Rightarrow> 'c" where
  "clear_install_verify ops push_id c = set_option ops c (VERIFY_PREFIX @ push_id) []"

definition clear_first_seen :: "'c option_ops \<Rightarrow> string \<Rightarrow> 'c \<Rightarrow> 'c" where
  "clear_first_seen ops push_id c = set_option ops c (FIRST_SEEN_PREFIX @ push_id) []"

definition compute_delay :: "(string \<Rightarrow> nat) \<Rightarrow> string \<Rightarrow> nat \<Rightarrow> nat" where
  "compute_delay hash push_id max_sec = (if max_sec = 0 then 0 else hash push_id mod max_sec)"

definition within_business_window :: "nat \<Rightarrow> nat \<Rightarrow> nat \<Rightarrow> bool" where
  "within_business_window hour start_hour end_hour =
     (if start_hour \<le> end_hour then start_hour \<le> hour \<and> hour < end_hour
      else start_hour \<le> hour \<or> hour < end_hour)"

section \<open>Reports\<close>

definition save_pending_report :: "'c option_ops \<Rightarrow> string \<Rightarrow> string \<Rightarrow> string \<Rightarrow> 'c \<Rightarrow> 'c" where
  "save_pending_report ops push_id st reason c =
     set_option ops c PENDING_REPORT_KEY (push_id @ ''|'' @ st @ ''|'' @ reason)"

definition clear_pending_report :: "'c option_ops \<Rightarrow> 'c \<Rightarrow> 'c" where
  "clear_pending_report ops c = set_option ops c PENDING_REPORT_KEY []"

text \<open>The retry loop: \<open>n\<close> attempts left, \<open>k\<close> the number of the next report of this poll.\<close>

fun report_loop :: "(nat \<Rightarrow> bool) \<Rightarrow> nat \<Rightarrow> nat \<Rightarrow> string \<Rightarrow> string \<Rightarrow> string \<Rightarrow> bool \<times> push_action list" where
  "report_loop ok 0 k push_id st reason = (False, [])"
| "report_loop ok (Suc n) k push_id st reason =
     (if ok k then (True, [Report push_id st reason True])
      else (let (r, acts) = report_loop ok n (Suc k) push_id st reason
            in (r, Report push_id st reason False # acts)))"

definition finish_report ::
  "'c option_ops \<Rightarrow> (nat \<Rightarrow> bool) \<Rightarrow> string \<Rightarrow> string \<Rightarrow> string \<Rightarrow> 'c \<Rightarrow> 'c \<times> push_action list" where
  "finish_report ops ok push_id st reason c =
     (let c1 = clear_install_verify ops push_id (clear_dl_attempt ops push_id (clear_first_seen ops push_id c));
          (sent, acts) = report_loop ok REPORT_RETRY 1 push_id st reason
      in if sent then (clear_pending_report ops c1, acts)
         else (save_pending_report ops push_id st reason c1, acts))"

definition flush_pending_report :: "'c option_ops \<Rightarrow> (nat \<Rightarrow> bool) \<Rightarrow> 'c \<Rightarrow> 'c \<times> push_action list" where
  "flush_pending_report ops ok c =
     (let raw = get_option ops c PENDING_REPORT_KEY
      in if raw = [] then (c, [])
         else case splitn 3 (CHR ''|'') raw of
           [push_id, st, reason] \<Rightarrow>
             if ok 0 then (clear_pending_report ops c, [Report push_id st reason True])
             else (c, [Report push_id st reason False])
         | _ \<Rightarrow> (clear_pending_report ops c, []))"

section \<open>One poll\<close>

text \<open>Download and check of the installer, unless the pending file is already right.\<close>

definition existing_file_valid :: "push_env \<Rightarrow> push_obs \<Rightarrow> pending_response \<Rightarrow> bool \<times> push_action list" where
  "existing_file_valid env obs p =
     (case po_existing obs of
        None \<Rightarrow> (False, [])
      | Some opened \<Rightarrow>
          (let (r, deleted) = verify_sha256 (env_sha256 env) opened (asset_sha256 p)
           in (r = Inr (), if deleted then [DeletePending] else [])))"

definition download_and_verify :: "push_env \<Rightarrow> push_obs \<Rightarrow> pending_response \<Rightarrow> (string + unit) \<times> push_action list" where
  "download_and_verify env obs p =
     (case po_download obs of
        Inl e \<Rightarrow> (Inl (''download failed: '' @ e), [Download (asset_url p)])
      | Inr _ \<Rightarrow>
          (let (r, deleted) = verify_sha256 (env_sha256 env) (po_downloaded obs) (asset_sha256 p);
               acts = Download (asset_url p) # (if deleted then [DeletePending] else [])
           in case r of
                Inl e \<Rightarrow> (Inl (''sha mismatch (manifest expected='' @ trim (asset_sha256 p) @ ''): '' @ env_show_error env e), acts)
              | Inr _ \<Rightarrow> (Inr (), acts)))"

text \<open>The end of a poll whose guards all passed: \<open>(result, store, actions)\<close>.\<close>

type_synonym 'c push_result = "(string + unit) \<times> 'c \<times> push_action list"

definition install :: "'c option_ops \<Rightarrow> push_obs \<Rightarrow> string \<Rightarrow> 'c \<Rightarrow> 'c push_result" where
  "install ops obs push_id c =
     (case po_spawn obs of
        Inr _ \<Rightarrow> (Inr (), set_install_verify ops push_id ((po_now_deadline obs + INSTALL_VERIFY_SECS) mod 2 ^ 64) c,
                  [LaunchInstall])
      | Inl e \<Rightarrow> (let (c', acts) = finish_report ops (po_report_ok obs) push_id ''failed'' e c in (Inr (), c', acts)))"

definition fetch_and_install ::
  "'c option_ops \<Rightarrow> push_env \<Rightarrow> push_obs \<Rightarrow> string \<Rightarrow> pending_response \<Rightarrow> 'c \<Rightarrow> 'c push_result" where
  "fetch_and_install ops env obs push_id p c =
     (case po_dir obs of
        Inl e \<Rightarrow> (Inl e, c, [])
      | Inr _ \<Rightarrow>
          (let (valid, acts0) = existing_file_valid env obs p
           in if valid then (let (r, c', acts) = install ops obs push_id c in (r, c', acts0 @ acts))
              else
                (let (outcome, acts1) = download_and_verify env obs p
                 in case outcome of
                      Inl msg \<Rightarrow>
                        (let (n, c1) = bump_dl_attempt ops push_id c
                         in if n < DL_MAX_ATTEMPTS then (Inr (), c1, acts0 @ acts1)
                            else (let (c2, acts) = finish_report ops (po_report_ok obs) push_id ''failed''
                                         (msg @ '' (after '' @ show_nat n @ '' attempts)'') c1
                                  in (Inr (), c2, acts0 @ acts1 @ acts)))
                    | Inr _ \<Rightarrow>
                        (let (r, c', acts) = install ops obs push_id (clear_dl_attempt ops push_id c)
                         in (r, c', acts0 @ acts1 @ acts)))))"

text \<open>
  The guards of time, of the delay and of the connections registered in the thread's own
  process, which is \<open>--service\<close>; what they protect is in \<open>Service_Process\<close>.
\<close>

definition guarded_install ::
  "'c option_ops \<Rightarrow> push_env \<Rightarrow> push_obs \<Rightarrow> string \<Rightarrow> pending_response \<Rightarrow> 'c \<Rightarrow> 'c push_result" where
  "guarded_install ops env obs push_id p c =
     (if \<not> within_business_window (po_hour obs) (window_start_hour p) (window_end_hour p) then (Inr (), c, [])
      else
        (let (first_seen, c1) = first_seen_at ops push_id (po_now obs) c;
             delay = compute_delay (env_hash env) push_id (randomize_max_sec p);
             ready = (first_seen + delay) mod 2 ^ 64
         in if po_now obs < ready then (Inr (), c1, [])
            else if po_own_conns obs \<noteq> 0 then (Inr (), c1, [])
            else fetch_and_install ops env obs push_id p c1))"

text \<open>A push that is there: version, pending verification, hash format, then the rest.\<close>

definition handle_push ::
  "'c option_ops \<Rightarrow> push_env \<Rightarrow> push_obs \<Rightarrow> string \<Rightarrow> pending_response \<Rightarrow> 'c \<Rightarrow> 'c push_result" where
  "handle_push ops env obs push_id p c =
     (let finish = (\<lambda>st reason. let (c', acts) = finish_report ops (po_report_ok obs) push_id st reason c
                               in (Inr (), c', acts))
      in case is_newer_str (target_version p) CHAINREMOTE_VERSION of
           Inr False \<Rightarrow> finish ''applied'' ''already up to date''
         | Inl _ \<Rightarrow> finish ''failed'' ''unparseable target_version''
         | Inr True \<Rightarrow>
             (case get_install_verify ops push_id c of
                Some deadline \<Rightarrow>
                  if po_now_verify obs < deadline then (Inr (), c, [])
                  else finish ''failed'' (''installer ran but version is still v'' @ CHAINREMOTE_VERSION
                                        @ '' after '' @ show_nat INSTALL_VERIFY_SECS @ ''s'')
              | None \<Rightarrow>
                  if \<not> is_valid_sha256_hex (asset_sha256 p)
                  then finish ''failed'' ''invalid asset_sha256 in push manifest''
                  else guarded_install ops env obs push_id p c))"

definition fetch_pending :: "push_env \<Rightarrow> push_obs \<Rightarrow> string + pending_response" where
  "fetch_pending env obs =
     (let rid = po_remote_id obs;
          is_legacy_numeric_id = rid \<noteq> [] \<and> list_all is_ascii_digit rid
      in if \<not> is_legacy_numeric_id \<and> \<not> env_valid_custom_id env rid
         then Inl (''remote_id has unrecognized/unsafe format: '' @ rid)
         else po_fetch obs)"

definition push_tick :: "'c option_ops \<Rightarrow> push_env \<Rightarrow> push_obs \<Rightarrow> 'c \<Rightarrow> 'c push_result" where
  "push_tick ops env obs c =
     (if po_remote_id obs = [] then (Inl ''remote_id empty (hbbs registration pending)'', c, [])
      else if get_option ops c TOKEN_KEY = []
        then (Inl ''no heartbeat token yet (waiting for heartbeat module to register)'', c, [])
      else
        (let (c1, acts0) = flush_pending_report ops (po_report_ok obs) c
         in case fetch_pending env obs of
              Inl e \<Rightarrow> (Inl e, c1, acts0)
            | Inr p \<Rightarrow>
                (case pr_id p of
                   None \<Rightarrow> (Inr (), c1, acts0)
                 | Some push_id \<Rightarrow>
                     (let (r, c2, acts) = handle_push ops env obs push_id p c1 in (r, c2, acts0 @ acts)))))"

section \<open>Lemmas\<close>

lemma report_loop_actions: "set (snd (report_loop ok n k push_id st reason)) \<subseteq> range (Report push_id st reason)"
  by (induction n arbitrary: k) (auto simp: case_prod_beta Let_def)

lemma finish_report_actions:
  "set (snd (finish_report ops ok push_id st reason c)) \<subseteq> range (Report push_id st reason)"
  using report_loop_actions [of ok REPORT_RETRY 1 push_id st reason]
  by (auto simp: finish_report_def Let_def split: prod.splits)

lemma finish_no_launch: "LaunchInstall \<notin> set (snd (finish_report ops ok push_id st reason c))"
  using finish_report_actions [of ops ok push_id st reason c] by blast

lemma flush_no_launch: "LaunchInstall \<notin> set (snd (flush_pending_report ops ok c))"
  by (auto simp: flush_pending_report_def Let_def split: list.splits)

lemma splitn_report:
  "CHR ''|'' \<notin> set push_id \<Longrightarrow> CHR ''|'' \<notin> set st \<Longrightarrow>
   splitn 3 (CHR ''|'') (push_id @ ''|'' @ st @ ''|'' @ reason) = [push_id, st, reason]"
  by (simp add: eval_nat_numeral split_once_append)

text \<open>The installer is launched with a file whose hash is the manifest's.\<close>

definition checked_file :: "push_env \<Rightarrow> push_obs \<Rightarrow> pending_response \<Rightarrow> bool" where
  "checked_file env obs p \<longleftrightarrow>
     (\<exists>opened. (po_existing obs = Some opened \<or> po_downloaded obs = opened \<and> po_download obs = Inr ())
        \<and> fst (verify_sha256 (env_sha256 env) opened (asset_sha256 p)) = Inr ())"

lemma fetch_and_install_launch:
  "LaunchInstall \<in> set (snd (snd (fetch_and_install ops env obs push_id p c))) \<Longrightarrow> checked_file env obs p"
  using finish_no_launch
  by (force simp: fetch_and_install_def existing_file_valid_def download_and_verify_def install_def checked_file_def
      Let_def case_prod_beta split: sum.splits option.splits if_splits)

lemma guarded_install_launch:
  "LaunchInstall \<in> set (snd (snd (guarded_install ops env obs push_id p c))) \<Longrightarrow>
   within_business_window (po_hour obs) (window_start_hour p) (window_end_hour p) \<and> po_own_conns obs = 0
   \<and> (fst (first_seen_at ops push_id (po_now obs) c) + compute_delay (env_hash env) push_id (randomize_max_sec p)) mod 2 ^ 64
       \<le> po_now obs
   \<and> checked_file env obs p"
  using fetch_and_install_launch [of ops env obs push_id p]
  by (auto simp: guarded_install_def Let_def case_prod_beta not_less split: if_splits)

lemma handle_push_launch:
  "LaunchInstall \<in> set (snd (snd (handle_push ops env obs push_id p c))) \<Longrightarrow>
   is_newer_str (target_version p) CHAINREMOTE_VERSION = Inr True \<and> get_install_verify ops push_id c = None
   \<and> is_valid_sha256_hex (asset_sha256 p)
   \<and> LaunchInstall \<in> set (snd (snd (guarded_install ops env obs push_id p c)))"
  using finish_no_launch [of ops "po_report_ok obs" push_id]
  by (auto simp: handle_push_def Let_def case_prod_beta split: sum.splits bool.splits option.splits if_splits)

lemma push_tick_launch:
  assumes "LaunchInstall \<in> set (snd (snd (push_tick ops env obs c)))"
  obtains p push_id where "fetch_pending env obs = Inr p" "pr_id p = Some push_id"
    "LaunchInstall \<in> set (snd (snd (handle_push ops env obs push_id p
        (fst (flush_pending_report ops (po_report_ok obs) c)))))"
  using assms flush_no_launch [of ops "po_report_ok obs" c]
  by (auto simp: push_tick_def Let_def case_prod_beta split: sum.splits option.splits if_splits)

text \<open>A launch stores its deadline, and nothing is written after that.\<close>

definition launch_deadline :: "push_obs \<Rightarrow> nat" where
  "launch_deadline obs = (po_now_deadline obs + INSTALL_VERIFY_SECS) mod 2 ^ 64"

lemma fetch_and_install_deadline:
  "LaunchInstall \<in> set (snd (snd (fetch_and_install ops env obs push_id p c))) \<Longrightarrow>
   \<exists>c0. fst (snd (fetch_and_install ops env obs push_id p c)) = set_install_verify ops push_id (launch_deadline obs) c0"
  using finish_no_launch
  by (force simp: fetch_and_install_def existing_file_valid_def download_and_verify_def install_def launch_deadline_def
      Let_def case_prod_beta split: sum.splits option.splits if_splits)

lemma push_tick_deadline:
  assumes "LaunchInstall \<in> set (snd (snd (push_tick ops env obs c)))"
    and "po_fetch obs = Inr p" "pr_id p = Some push_id"
  shows "\<exists>c0. fst (snd (push_tick ops env obs c)) = set_install_verify ops push_id (launch_deadline obs) c0"
proof -
  let ?c1 = "fst (flush_pending_report ops (po_report_ok obs) c)"
  have tick: "push_tick ops env obs c = (let (r, c2, acts) = handle_push ops env obs push_id p ?c1
      in (r, c2, snd (flush_pending_report ops (po_report_ok obs) c) @ acts))"
    using assms flush_no_launch [of ops "po_report_ok obs" c]
    by (auto simp: push_tick_def fetch_pending_def Let_def case_prod_beta split: if_splits)
  then have "LaunchInstall \<in> set (snd (snd (handle_push ops env obs push_id p ?c1)))"
    using assms(1) flush_no_launch [of ops "po_report_ok obs" c] by (auto simp: case_prod_beta)
  note l = handle_push_launch [OF this]
  then have "snd (handle_push ops env obs push_id p ?c1) = snd (guarded_install ops env obs push_id p ?c1)"
    by (simp add: handle_push_def Let_def)
  moreover have "\<exists>c0. fst (snd (guarded_install ops env obs push_id p ?c1)) = set_install_verify ops push_id (launch_deadline obs) c0"
    using l fetch_and_install_deadline
    by (auto simp: guarded_install_def Let_def case_prod_beta split: if_splits)
  ultimately show ?thesis
    unfolding tick by (simp add: case_prod_beta)
qed

text \<open>Polls of a push whose installer is being waited for.\<close>

definition push_step :: "'c option_ops \<Rightarrow> push_env \<Rightarrow> 'c \<times> push_action list \<Rightarrow> push_obs \<Rightarrow> 'c \<times> push_action list" where
  "push_step ops env x obs = (case x of (c, acts) \<Rightarrow> case push_tick ops env obs c of (_, c', a) \<Rightarrow> (c', acts @ a))"

definition same_push_before :: "string \<Rightarrow> nat \<Rightarrow> push_obs \<Rightarrow> bool" where
  "same_push_before push_id deadline obs \<longleftrightarrow> po_now_verify obs < deadline \<and>
     (case po_fetch obs of Inl _ \<Rightarrow> True
      | Inr p \<Rightarrow> (case pr_id p of None \<Rightarrow> True
                  | Some i \<Rightarrow> i = push_id \<and> is_newer_str (target_version p) CHAINREMOTE_VERSION = Inr True))"

definition awaiting :: "'c option_ops \<Rightarrow> string \<Rightarrow> nat \<Rightarrow> 'c \<times> push_action list \<Rightarrow> bool" where
  "awaiting ops push_id deadline x =
     (case x of (c, acts) \<Rightarrow> get_install_verify ops push_id c = Some deadline \<and> LaunchInstall \<notin> set acts)"

context option_store
begin

lemma keys_differ:
  "PENDING_REPORT_KEY \<noteq> VERIFY_PREFIX @ push_id" "DL_ATTEMPT_PREFIX @ i \<noteq> VERIFY_PREFIX @ j"
  "FIRST_SEEN_PREFIX @ i \<noteq> VERIFY_PREFIX @ j"
  "PENDING_REPORT_KEY \<noteq> DL_ATTEMPT_PREFIX @ i" "PENDING_REPORT_KEY \<noteq> FIRST_SEEN_PREFIX @ i"
  "FIRST_SEEN_PREFIX @ i \<noteq> DL_ATTEMPT_PREFIX @ j"
  by (simp_all add: push_keys)

lemma flush_keeps_verify:
  "get_install_verify ops push_id (fst (flush_pending_report ops ok c)) = get_install_verify ops push_id c"
  by (auto simp: flush_pending_report_def Let_def clear_pending_report_def get_install_verify_def get_set
      keys_differ keys_differ [symmetric] split: list.splits)

lemma awaiting_step:
  assumes "awaiting ops push_id deadline x" and "same_push_before push_id deadline obs"
  shows "awaiting ops push_id deadline (push_step ops env x obs)"
proof -
  obtain c acts where x: "x = (c, acts)" by (cases x)
  let ?c1 = "fst (flush_pending_report ops (po_report_ok obs) c)"
  have v: "get_install_verify ops push_id ?c1 = Some deadline"
    using assms(1) by (simp add: x awaiting_def flush_keeps_verify)
  have "snd (handle_push ops env obs push_id p ?c1) = (?c1, [])"
    if "is_newer_str (target_version p) CHAINREMOTE_VERSION = Inr True" for p
    using that v assms(2) by (simp add: handle_push_def Let_def same_push_before_def)
  then show ?thesis
    using assms v flush_no_launch [of ops "po_report_ok obs" c]
    by (auto simp: awaiting_def x push_step_def push_tick_def fetch_pending_def same_push_before_def Let_def
        case_prod_beta split: sum.splits option.splits)
qed

lemma finish_clears_attempts:
  "get_option ops (fst (finish_report ops ok push_id st reason c)) (DL_ATTEMPT_PREFIX @ push_id) = []"
  by (simp add: finish_report_def Let_def case_prod_beta clear_pending_report_def save_pending_report_def
      clear_install_verify_def clear_dl_attempt_def clear_first_seen_def get_set keys_differ keys_differ [symmetric])

lemma save_flush:
  assumes "CHR ''|'' \<notin> set push_id" "CHR ''|'' \<notin> set st" "ok 0"
  shows "flush_pending_report ops ok (save_pending_report ops push_id st reason c) =
     (clear_pending_report ops (save_pending_report ops push_id st reason c), [Report push_id st reason True])"
  using assms splitn_report [of push_id st reason]
  by (simp add: flush_pending_report_def save_pending_report_def get_set)

end

sublocale option_store \<subseteq> push: machine "awaiting ops push_id deadline" "push_step ops env"
  "same_push_before push_id deadline" "awaiting ops push_id deadline" for push_id deadline env
  by unfold_locales (simp_all add: awaiting_step)

context option_store
begin

lemma awaiting_run:
  "awaiting ops push_id deadline x \<Longrightarrow> list_all (same_push_before push_id deadline) os \<Longrightarrow>
   awaiting ops push_id deadline (run (push_step ops env) x os)"
  by (rule push.run_from_inv)

end

section \<open>Properties\<close>

text \<open>A push, an environment and a poll for concrete runs; the hash is a constant one.\<close>

definition sample_push :: pending_response where
  "sample_push = \<lparr>pr_id = Some ''p1'', target_version = ''1.5.0'', asset_url = ''https://files/agent.exe'',
     asset_sha256 = replicate 64 (CHR ''0''), asset_size = 9, window_start_hour = 0, window_end_hour = 7,
     randomize_max_sec = 100\<rparr>"

definition sample_push_env :: push_env where
  "sample_push_env = \<lparr>env_sha256 = (\<lambda>_. replicate 32 (CHR 0x00)), env_hash = (\<lambda>s. 1042),
     env_valid_custom_id = (\<lambda>_. False), env_show_error = (\<lambda>_. ''e'')\<rparr>"

definition sample_poll :: "nat \<Rightarrow> push_obs" where
  "sample_poll t = \<lparr>po_remote_id = ''123456789'', po_report_ok = (\<lambda>_. True), po_fetch = Inr sample_push, po_hour = 3,
     po_now_verify = t, po_now = t, po_now_deadline = t, po_own_conns = 0, po_dir = Inr (), po_existing = None,
     po_download = Inr (), po_downloaded = Some [Some ''installer'', Some []], po_spawn = Inr ()\<rparr>"

definition sample_store :: "string \<Rightarrow> string" where
  "sample_store = (\<lambda>_. [])(TOKEN_KEY := ''token'', FIRST_SEEN_PREFIX @ ''p1'' := ''500'')"

lemma sample_simps [simp]:
  "po_remote_id (sample_poll t) = ''123456789''" "po_report_ok (sample_poll t) = (\<lambda>_. True)"
  "po_fetch (sample_poll t) = Inr sample_push" "po_hour (sample_poll t) = 3" "po_now_verify (sample_poll t) = t"
  "po_now (sample_poll t) = t" "po_own_conns (sample_poll t) = 0" "po_dir (sample_poll t) = Inr ()"
  "po_existing (sample_poll t) = None" "po_download (sample_poll t) = Inr ()"
  "po_downloaded (sample_poll t) = Some [Some ''installer'', Some []]" "po_spawn (sample_poll t) = Inr ()"
  "pr_id sample_push = Some ''p1''" "window_start_hour sample_push = 0" "window_end_hour sample_push = 7"
  "randomize_max_sec sample_push = 100" "env_hash sample_push_env s = 1042"
  by (simp_all add: sample_poll_def sample_push_def sample_push_env_def)

lemma sample_newer: "is_newer_str (target_version sample_push) CHAINREMOTE_VERSION = Inr True"
  by (simp add: sample_push_def CHAINREMOTE_VERSION_def is_newer_str_def parse_version_def trim_visible visible_ascii_def
      parse_u32_def parse_uint_def is_ascii_digit_def)

lemma sample_trim: "trim (asset_sha256 sample_push) = replicate 64 (CHR ''0'')"
  unfolding sample_push_def by (simp add: trim_visible visible_ascii_def list_all_iff)

lemma sample_valid_sha: "is_valid_sha256_hex (asset_sha256 sample_push)"
  by (simp add: is_valid_sha256_hex_def sample_trim is_ascii_hexdigit_def is_ascii_digit_def list_all_iff)

lemma sample_hash: "hex_encode (env_sha256 sample_push_env s) = to_ascii_lowercase (trim (asset_sha256 sample_push))"
proof -
  have "byte (hex_digit 0) = byte (CHR ''0'')"
    by (simp add: hex_digit_def)
  then have "hex_digit 0 = CHR ''0''"
    by (simp only: of_char_eq_iff)
  then have "concat (replicate n [hex_digit 0, hex_digit 0]) = replicate (2 * n) (CHR ''0'')" for n
    by (induction n) auto
  from this [of 32] show ?thesis
    by (simp add: hex_encode_def sample_push_env_def sample_trim to_ascii_lowercase_def ascii_lower_def)
qed

lemma sample_launch: "LaunchInstall \<in> set (snd (snd (push_tick fun_store sample_push_env (sample_poll 700) sample_store)))"
proof -
  have p: "fetch_pending sample_push_env (sample_poll 700) = Inr sample_push"
    by (simp add: fetch_pending_def is_ascii_digit_def)
  have f: "flush_pending_report fun_store (po_report_ok (sample_poll 700)) sample_store = (sample_store, [])"
    by (simp add: flush_pending_report_def sample_store_def push_keys)
  have v: "get_install_verify fun_store ''p1'' sample_store = None"
    by (simp add: get_install_verify_def sample_store_def push_keys)
  have d: "download_and_verify sample_push_env (sample_poll 700) sample_push
      = (Inr (), [Download (asset_url sample_push)])"
    by (simp add: download_and_verify_def verify_sha256_def sample_valid_sha Let_def sample_hash)
  have g: "LaunchInstall \<in> set (snd (snd (guarded_install fun_store sample_push_env (sample_poll 700) ''p1'' sample_push sample_store)))"
    by (simp add: guarded_install_def fetch_and_install_def existing_file_valid_def d install_def
        within_business_window_def first_seen_at_def compute_delay_def sample_store_def push_keys parse_uint_def is_ascii_digit_def Let_def)
  show ?thesis
    using g p f by (simp add: push_tick_def Let_def handle_push_def sample_newer v sample_valid_sha case_prod_beta)
      (simp add: sample_store_def push_keys)
qed

lemma sample_deadline: "po_now_deadline (sample_poll t) = t"
  by (simp add: sample_poll_def)

text \<open>
  C16. What an installation by push requires. A poll launches the installer only for a push
  the server announced, whose version is newer than the running one, with no earlier launch
  still being judged, inside the business window, after the push's delay since it was first
  seen, and with a file whose hash was checked against the manifest in this very poll. (That
  the registry of the polling process is empty as well says nothing about sessions: see
  \<open>Service_Process\<close>.)
\<close>

theorem push_install_guards:
  assumes "LaunchInstall \<in> set (snd (snd (push_tick ops env obs c)))"
  shows "\<exists>p push_id c1. po_fetch obs = Inr p \<and> pr_id p = Some push_id
     \<and> c1 = fst (flush_pending_report ops (po_report_ok obs) c)
     \<and> is_newer_str (target_version p) CHAINREMOTE_VERSION = Inr True
     \<and> get_install_verify ops push_id c1 = None
     \<and> within_business_window (po_hour obs) (window_start_hour p) (window_end_hour p)
     \<and> (fst (first_seen_at ops push_id (po_now obs) c1)
          + compute_delay (env_hash env) push_id (randomize_max_sec p)) mod 2 ^ 64 \<le> po_now obs
     \<and> po_own_conns obs = 0 \<and> checked_file env obs p"
proof -
  obtain p push_id where f: "fetch_pending env obs = Inr p" and i: "pr_id p = Some push_id"
    and l: "LaunchInstall \<in> set (snd (snd (handle_push ops env obs push_id p
        (fst (flush_pending_report ops (po_report_ok obs) c)))))"
    using assms by (rule push_tick_launch)
  have "po_fetch obs = Inr p"
    using f by (simp add: fetch_pending_def Let_def split: if_splits)
  moreover note handle_push_launch [OF l]
  moreover from this have "LaunchInstall \<in> set (snd (snd (guarded_install ops env obs push_id p
      (fst (flush_pending_report ops (po_report_ok obs) c)))))" by simp
  note guarded_install_launch [OF this]
  ultimately show ?thesis
    using i by (intro exI [of _ p] exI [of _ push_id]
        exI [of _ "fst (flush_pending_report ops (po_report_ok obs) c)"] conjI) simp_all
qed

theorem push_install_guards_witness:
  "\<exists>p push_id c1. po_fetch (sample_poll 700) = Inr p \<and> pr_id p = Some push_id
     \<and> c1 = fst (flush_pending_report fun_store (po_report_ok (sample_poll 700)) sample_store)
     \<and> is_newer_str (target_version p) CHAINREMOTE_VERSION = Inr True
     \<and> get_install_verify fun_store push_id c1 = None
     \<and> within_business_window (po_hour (sample_poll 700)) (window_start_hour p) (window_end_hour p)
     \<and> (fst (first_seen_at fun_store push_id (po_now (sample_poll 700)) c1)
          + compute_delay (env_hash sample_push_env) push_id (randomize_max_sec p)) mod 2 ^ 64 \<le> po_now (sample_poll 700)
     \<and> po_own_conns (sample_poll 700) = 0 \<and> checked_file sample_push_env (sample_poll 700) p"
  by (rule push_install_guards [OF sample_launch])

text \<open>
  The installer is not launched twice. After a poll that launched it for a push, no
  number of further polls within the half hour its verification takes launches anything,
  while the server keeps offering the same push (or nothing, or fails to answer).
\<close>

theorem push_no_relaunch_before_deadline:
  assumes "option_store ops"
    and "LaunchInstall \<in> set (snd (snd (push_tick ops env obs c)))"
    and "po_fetch obs = Inr p" "pr_id p = Some push_id" "po_now_deadline obs + INSTALL_VERIFY_SECS \<le> u64_max"
    and "list_all (same_push_before push_id (po_now_deadline obs + INSTALL_VERIFY_SECS)) os"
  shows "LaunchInstall \<notin> set (snd (run (push_step ops env) (fst (snd (push_tick ops env obs c)), []) os))"
proof -
  have d: "launch_deadline obs = po_now_deadline obs + INSTALL_VERIFY_SECS"
    using assms(5) by (simp add: launch_deadline_def)
  obtain c0 where "fst (snd (push_tick ops env obs c)) = set_install_verify ops push_id (launch_deadline obs) c0"
    using push_tick_deadline [OF assms(2-4)] by blast
  then have "awaiting ops push_id (po_now_deadline obs + INSTALL_VERIFY_SECS) (fst (snd (push_tick ops env obs c)), [])"
    using assms(5) by (simp add: awaiting_def get_install_verify_def set_install_verify_def d
        option_store.get_set [OF assms(1)] parse_show_nat)
  from option_store.awaiting_run [OF assms(1) this assms(6), of env]
  show ?thesis by (auto simp: awaiting_def)
qed

theorem push_no_relaunch_before_deadline_witness:
  "LaunchInstall \<notin> set (snd (run (push_step fun_store sample_push_env)
      (fst (snd (push_tick fun_store sample_push_env (sample_poll 700) sample_store)), []) [sample_poll 1000, sample_poll 1300]))"
  by (rule push_no_relaunch_before_deadline
        [OF fun_store.option_store_axioms sample_launch, where p = sample_push and push_id = "''p1''"])
    (simp_all add: same_push_before_def sample_newer INSTALL_VERIFY_SECS_def sample_deadline)

text \<open>
  A report survives an outage. When all three attempts to report an outcome fail, the
  next poll that reaches the server sends exactly that push, status and reason, and frees
  the slot; push and status must not contain the separator, the reason may.
\<close>

theorem push_report_survives:
  assumes "option_store ops" and "\<not> ok 1" "\<not> ok 2" "\<not> ok 3"
    and "CHR ''|'' \<notin> set push_id" "CHR ''|'' \<notin> set st" and "ok' 0"
  shows "snd (flush_pending_report ops ok' (fst (finish_report ops ok push_id st reason c))) = [Report push_id st reason True]
     \<and> get_option ops (fst (flush_pending_report ops ok' (fst (finish_report ops ok push_id st reason c)))) PENDING_REPORT_KEY = []"
proof -
  have "fst (report_loop ok REPORT_RETRY 1 push_id st reason) = False"
    using assms(2-4) by (simp add: REPORT_RETRY_def eval_nat_numeral)
  then obtain c1 where "fst (finish_report ops ok push_id st reason c) = save_pending_report ops push_id st reason c1"
    by (auto simp: finish_report_def Let_def case_prod_beta)
  then show ?thesis
    using option_store.save_flush [OF assms(1,5,6), of ok' reason c1] assms(7)
    by (simp add: clear_pending_report_def option_store.get_set [OF assms(1)])
qed

theorem push_report_survives_witness:
  "snd (flush_pending_report fun_store (\<lambda>_. True)
      (fst (finish_report fun_store (\<lambda>_. False) ''p1'' ''failed'' ''a|b'' sample_store))) = [Report ''p1'' ''failed'' ''a|b'' True]"
  using push_report_survives [of fun_store "\<lambda>_. False" "''p1''" "''failed''" "\<lambda>_. True" "''a|b''" sample_store]
  by (simp add: fun_store.option_store_axioms)

text \<open>
  A failed download is retried before it is reported. With \<open>k\<close> failed attempts on
  record and a download or check that fails again, the poll counts attempt \<open>k + 1\<close> and
  reports nothing while that is below five; at five it makes its reports, all of them
  \<open>failed\<close> for this push, and forgets the count. It never launches the installer.
\<close>

theorem push_download_retries:
  assumes "option_store ops" and "po_dir obs = Inr ()" and "fst (existing_file_valid env obs p) = False"
    and "fst (download_and_verify env obs p) = Inl msg"
    and "get_option ops c (DL_ATTEMPT_PREFIX @ push_id) = show_nat k" and "k < DL_MAX_ATTEMPTS"
    and "fetch_and_install ops env obs push_id p c = (r, c', acts)"
  shows "r = Inr () \<and> LaunchInstall \<notin> set acts \<and>
     (if k + 1 < DL_MAX_ATTEMPTS
      then get_option ops c' (DL_ATTEMPT_PREFIX @ push_id) = show_nat (k + 1)
         \<and> (\<forall>i st reason ok. Report i st reason ok \<notin> set acts)
      else get_option ops c' (DL_ATTEMPT_PREFIX @ push_id) = []
         \<and> (\<forall>i st reason ok. Report i st reason ok \<in> set acts \<longrightarrow> i = push_id \<and> st = ''failed''))"
proof -
  define reason where "reason = msg @ '' (after '' @ show_nat (k + 1) @ '' attempts)''"
  let ?fail = "finish_report ops (po_report_ok obs) push_id ''failed'' reason"
  have acts0: "set (snd (existing_file_valid env obs p)) \<subseteq> {DeletePending}"
    by (auto simp: existing_file_valid_def Let_def case_prod_beta split: option.splits)
  have acts1: "set (snd (download_and_verify env obs p)) \<subseteq> {Download (asset_url p), DeletePending}"
    by (auto simp: download_and_verify_def Let_def case_prod_beta split: sum.splits)
  have bump: "bump_dl_attempt ops push_id c = (k + 1, set_option ops c (DL_ATTEMPT_PREFIX @ push_id) (show_nat (k + 1)))"
    using assms(5,6) parse_show_nat [of k u32_max] by (simp add: bump_dl_attempt_def DL_MAX_ATTEMPTS_def)
  have cleared: "get_option ops (fst (?fail c1)) (DL_ATTEMPT_PREFIX @ push_id) = []" for c1
    by (rule option_store.finish_clears_attempts [OF assms(1)])
  have acts: "set (snd (?fail c1)) \<subseteq> range (Report push_id ''failed'' reason)" for c1
    by (rule finish_report_actions)
  show ?thesis
  proof (cases "k + 1 < DL_MAX_ATTEMPTS")
    case True
    then have "r = Inr ()" "c' = snd (bump_dl_attempt ops push_id c)"
      "acts = snd (existing_file_valid env obs p) @ snd (download_and_verify env obs p)"
      using assms(2-4,7) by (auto simp: fetch_and_install_def Let_def case_prod_beta bump)
    then show ?thesis
      using True acts0 acts1 by (auto simp: bump option_store.get_set [OF assms(1)])
  next
    case False
    then have "r = Inr ()" "c' = fst (?fail (snd (bump_dl_attempt ops push_id c)))"
      "acts = snd (existing_file_valid env obs p) @ snd (download_and_verify env obs p)
         @ snd (?fail (snd (bump_dl_attempt ops push_id c)))"
      using assms(2-4,7) by (auto simp: fetch_and_install_def Let_def case_prod_beta bump reason_def)
    then show ?thesis
      using False acts0 acts1 acts [of "snd (bump_dl_attempt ops push_id c)"] by (auto simp: cleared)
  qed
qed

theorem push_download_retries_witness:
  "get_option fun_store (fst (snd (fetch_and_install fun_store sample_push_env (sample_poll 700\<lparr>po_download := Inl ''timeout''\<rparr>)
      ''p1'' sample_push (sample_store(DL_ATTEMPT_PREFIX @ ''p1'' := show_nat 2))))) (DL_ATTEMPT_PREFIX @ ''p1'') = show_nat 3"
proof -
  let ?obs = "sample_poll 700\<lparr>po_download := Inl ''timeout''\<rparr>"
  let ?c = "sample_store(DL_ATTEMPT_PREFIX @ ''p1'' := show_nat 2)"
  obtain r c' acts where e: "fetch_and_install fun_store sample_push_env ?obs ''p1'' sample_push ?c = (r, c', acts)"
    by (metis surj_pair)
  have "fst (existing_file_valid sample_push_env ?obs sample_push) = False"
    by (simp add: existing_file_valid_def)
  moreover have "fst (download_and_verify sample_push_env ?obs sample_push) = Inl (''download failed: '' @ ''timeout'')"
    by (simp add: download_and_verify_def)
  moreover have "get_option fun_store ?c (DL_ATTEMPT_PREFIX @ ''p1'') = show_nat 2"
    by simp
  ultimately show ?thesis
    using push_download_retries [OF fun_store.option_store_axioms _ _ _ _ _ e, of "''download failed: '' @ ''timeout''" 2]
    by (simp add: DL_MAX_ATTEMPTS_def e)
qed

end
