(* ===== verification/Video_Qos.thy ===== *)
theory Video_Qos
  imports Prelude "HOL-Library.Log_Nat"
begin

text \<open>
  The controller of frame rate and bit rate, \<open>src/src/server/video_qos.rs\<close>, with the
  qualities of \<open>libs/scrap/src/common/codec.rs\<close>.

  Users and displays are hash maps, kept here as association lists in iteration order. An
  \<open>Instant\<close> is its milliseconds; the readings of one operation are one argument. Single
  precision numbers are rationals, rounded after every operation to 24 significant bits,
  half to even; subnormal and infinite results do not occur for the magnitudes in use.
  \<open>clamp\<close> panics when its bounds cross, so operations that clamp return \<open>None\<close> then.
\<close>

section \<open>Single precision\<close>

definition flog2 :: "rat \<Rightarrow> int" where
  "flog2 x =
     (let (n, d) = quotient_of x; k = bitlen n - bitlen d
      in if x < 2 powi k then k - 1 else k)"

definition round_half_even :: "rat \<Rightarrow> int" where
  "round_half_even x =
     (let f = \<lfloor>x\<rfloor>; r = x - of_int f
      in if r < 1 / 2 then f else if 1 / 2 < r then f + 1 else if even f then f else f + 1)"

definition f32 :: "rat \<Rightarrow> rat" where
  "f32 x =
     (if x = 0 then 0
      else let u = 2 powi (flog2 \<bar>x\<bar> - 23) in of_int (round_half_even (x / u)) * u)"

definition u32_as_f32 :: "nat \<Rightarrow> rat" where
  "u32_as_f32 n = f32 (of_nat n)"

text \<open>The cast \<open>as u32\<close> truncates and saturates.\<close>

definition f32_as_u32 :: "rat \<Rightarrow> nat" where
  "f32_as_u32 x = min u32_max (nat \<lfloor>x\<rfloor>)"

section \<open>Constants and data\<close>

definition FPS :: nat where "FPS = 30"
definition MIN_FPS :: nat where "MIN_FPS = 1"
definition MAX_FPS :: nat where "MAX_FPS = 120"
definition INIT_FPS :: nat where "INIT_FPS = 15"

text \<open>The literals as the single precision numbers they denote.\<close>

definition BR_MAX :: rat where "BR_MAX = 40"
definition BR_MIN :: rat where "BR_MIN = 13421773 / 2 ^ 26"
definition BR_MIN_HIGH_RESOLUTION :: rat where "BR_MIN_HIGH_RESOLUTION = 13421773 / 2 ^ 27"
definition MAX_BR_MULTIPLE :: rat where "MAX_BR_MULTIPLE = 1"
definition BR_BEST :: rat where "BR_BEST = 3 / 2"
definition BR_BALANCED :: rat where "BR_BALANCED = 11240735 / 2 ^ 24"
definition BR_SPEED :: rat where "BR_SPEED = 1 / 2"

definition HISTORY_DELAY_LEN :: nat where "HISTORY_DELAY_LEN = 2"
definition ADJUST_RATIO_INTERVAL :: nat where "ADJUST_RATIO_INTERVAL = 3"
definition DYNAMIC_SCREEN_THRESHOLD :: nat where "DYNAMIC_SCREEN_THRESHOLD = 2"
definition DELAY_THRESHOLD_150MS :: nat where "DELAY_THRESHOLD_150MS = 150"

datatype quality = Best | Balanced | Low | Custom rat

definition quality_ratio :: "quality \<Rightarrow> rat" where
  "quality_ratio q = (case q of Best \<Rightarrow> BR_BEST | Balanced \<Rightarrow> BR_BALANCED | Low \<Rightarrow> BR_SPEED | Custom v \<Rightarrow> v)"

record rtt_calculator =
  min_rtt :: "nat option"
  window_min_rtt :: "nat option"
  smoothed_rtt :: "nat option"
  samples :: "nat list"

record user_delay =
  response_delayed :: bool
  delay_history :: "nat list"
  delay_fps :: "nat option"
  rtt :: rtt_calculator
  quick_increase_fps_count :: nat
  increase_fps_count :: nat

record user_data =
  auto_adjust_fps :: "nat option"
  custom_fps :: "nat option"
  quality_set :: "(int \<times> quality) option"
  delay :: user_delay
  record_mode :: bool

record display_data =
  send_counter :: nat
  support_changing_quality :: bool

record video_qos =
  qos_fps :: nat
  qos_ratio :: rat
  users :: "(int \<times> user_data) list"
  displays :: "(string \<times> display_data) list"
  bitrate_store :: nat
  adjust_ratio_instant :: nat
  abr_config :: bool
  new_user_instant :: nat

definition rtt_default :: rtt_calculator where
  "rtt_default = \<lparr>min_rtt = None, window_min_rtt = None, smoothed_rtt = None, samples = []\<rparr>"

definition user_delay_default :: user_delay where
  "user_delay_default = \<lparr>response_delayed = False, delay_history = [], delay_fps = None, rtt = rtt_default,
     quick_increase_fps_count = 0, increase_fps_count = 0\<rparr>"

definition user_default :: user_data where
  "user_default = \<lparr>auto_adjust_fps = None, custom_fps = None, quality_set = None, delay = user_delay_default, record_mode = False\<rparr>"

definition qos_default :: "nat \<Rightarrow> video_qos" where
  "qos_default now = \<lparr>qos_fps = FPS, qos_ratio = BR_BALANCED, users = [], displays = [], bitrate_store = 0,
     adjust_ratio_instant = now, abr_config = True, new_user_instant = now\<rparr>"

section \<open>Round trip times and delays\<close>

definition WINDOW_SAMPLES :: nat where "WINDOW_SAMPLES = 60"
definition MIN_SAMPLES :: nat where "MIN_SAMPLES = 10"

definition min_list_option :: "nat list \<Rightarrow> nat option" where
  "min_list_option xs = (if xs = [] then None else Some (foldr min (tl xs) (hd xs)))"

definition update_rtt :: "nat \<Rightarrow> rtt_calculator \<Rightarrow> rtt_calculator" where
  "update_rtt d r =
     (let mn = (case min_rtt r of Some m \<Rightarrow> if d < m then d else m | None \<Rightarrow> d);
          smp = (if WINDOW_SAMPLES \<le> length (samples r) then tl (samples r) else samples r) @ [d];
          wmn = min_list_option smp;
          srtt = (if WINDOW_SAMPLES \<le> length smp then
                    (case wmn of
                       Some w \<Rightarrow> Some (f32_as_u32 (f32 (f32 (1 / 2 * u32_as_f32 mn) + f32 (1 / 2 * u32_as_f32 w))))
                     | None \<Rightarrow> smoothed_rtt r)
                  else smoothed_rtt r)
      in \<lparr>min_rtt = Some mn, window_min_rtt = wmn, smoothed_rtt = srtt, samples = smp\<rparr>)"

definition get_rtt :: "rtt_calculator \<Rightarrow> nat option" where
  "get_rtt r =
     (case smoothed_rtt r of
        Some v \<Rightarrow> Some v
      | None \<Rightarrow> if MIN_SAMPLES \<le> length (samples r) then min_rtt r else None)"

definition add_delay :: "nat \<Rightarrow> user_delay \<Rightarrow> user_delay" where
  "add_delay d u =
     (let h = (if HISTORY_DELAY_LEN < length (delay_history u) then tl (delay_history u) else delay_history u)
      in u\<lparr>rtt := update_rtt d (rtt u), delay_history := h @ [d]\<rparr>)"

definition avg_delay :: "user_delay \<Rightarrow> nat" where
  "avg_delay u =
     (let len = length (delay_history u)
      in if 0 < len then
           (let avg = (sum_list (delay_history u) mod 2 ^ 32) div len
            in case get_rtt (rtt u) of
                 Some r \<Rightarrow> if r < avg then avg - r else avg
               | None \<Rightarrow> avg)
         else DELAY_THRESHOLD_150MS)"

section \<open>Reading the controller\<close>

definition get_user :: "int \<Rightarrow> video_qos \<Rightarrow> user_data option" where
  "get_user uid q = map_of (users q) uid"

definition put_user :: "int \<Rightarrow> user_data \<Rightarrow> video_qos \<Rightarrow> video_qos" where
  "put_user uid u q = q\<lparr>users := AList.update uid u (users q)\<rparr>"

definition fps :: "video_qos \<Rightarrow> nat" where
  "fps q = (if MIN_FPS \<le> qos_fps q \<and> qos_fps q \<le> MAX_FPS then qos_fps q else FPS)"

definition ratio :: "video_qos \<Rightarrow> rat \<times> video_qos" where
  "ratio q =
     (let q' = (if qos_ratio q < BR_MIN_HIGH_RESOLUTION \<or> BR_MAX < qos_ratio q then q\<lparr>qos_ratio := BR_BALANCED\<rparr> else q)
      in (qos_ratio q', q'))"

definition any_record :: "video_qos \<Rightarrow> bool" where
  "any_record q = list_ex (\<lambda>(_, u). record_mode u) (users q)"

definition in_vbr_state :: "video_qos \<Rightarrow> bool" where
  "in_vbr_state q \<longleftrightarrow> abr_config q \<and> list_all (\<lambda>(_, d). support_changing_quality d) (displays q)"

definition user_fps :: "user_data \<Rightarrow> nat" where
  "user_fps u =
     (let f = (case custom_fps u of None \<Rightarrow> FPS | Some v \<Rightarrow> v)
      in case auto_adjust_fps u of
           Some a \<Rightarrow> if f = 0 \<or> a < f then a else f
         | None \<Rightarrow> f)"

definition highest_fps :: "video_qos \<Rightarrow> nat" where
  "highest_fps q =
     (let m = (case min_list_option (filter (\<lambda>f. MIN_FPS \<le> f) (map (\<lambda>(_, u). user_fps u) (users q))) of
                 None \<Rightarrow> FPS | Some f \<Rightarrow> f)
      in the (clamp_checked MIN_FPS MAX_FPS m))"

text \<open>\<open>max_by\<close> returns the last of the maximal elements.\<close>

definition later_quality :: "(int \<times> quality) option \<Rightarrow> int \<times> quality \<Rightarrow> (int \<times> quality) option" where
  "later_quality best x = (case best of None \<Rightarrow> Some x | Some b \<Rightarrow> if fst x < fst b then Some b else Some x)"

definition latest_quality :: "video_qos \<Rightarrow> quality" where
  "latest_quality q =
     (case foldl later_quality None (List.map_filter (\<lambda>(_, u). quality_set u) (users q)) of
        None \<Rightarrow> Balanced
      | Some (_, v) \<Rightarrow> v)"

section \<open>Adjusting\<close>

definition adjust_fps :: "nat \<Rightarrow> video_qos \<Rightarrow> video_qos option" where
  "adjust_fps now q =
     (let f0 = (case min_list_option (map (\<lambda>(_, u). case delay_fps (delay u) of None \<Rightarrow> INIT_FPS | Some v \<Rightarrow> v) (users q)) of
                  None \<Rightarrow> INIT_FPS | Some f \<Rightarrow> f);
          f1 = (if list_ex (\<lambda>(_, u). response_delayed (delay u)) (users q) \<and> MIN_FPS + 1 < f0 then MIN_FPS + 1 else f0);
          f2 = (if (now - new_user_instant q) div 1000 < 1 \<and> INIT_FPS < f1 then INIT_FPS else f1)
      in map_option (\<lambda>f. q\<lparr>qos_fps := f\<rparr>) (clamp_checked MIN_FPS (highest_fps q) f2))"

text \<open>The lower bound of the ratio by quality; \<open>r1\<close> is the ratio of one megabit if known.\<close>

definition min_ratio :: "quality \<Rightarrow> rat option \<Rightarrow> rat" where
  "min_ratio tq r1 =
     (let cap = (\<lambda>m. case r1 of Some r \<Rightarrow> if r < m then r else m | None \<Rightarrow> m)
      in case tq of
           Best \<Rightarrow> max (cap (f32 (BR_BEST / (5 / 2)))) BR_MIN
         | Balanced \<Rightarrow> max (cap (min (f32 (BR_BALANCED / 2)) (13421773 / 2 ^ 25))) BR_MIN_HIGH_RESOLUTION
         | Low \<Rightarrow> BR_MIN_HIGH_RESOLUTION
         | Custom _ \<Rightarrow> BR_MIN_HIGH_RESOLUTION)"

text \<open>The ratio wanted for the largest delay; factors 1.15, 1.1, 1.05, 0.95, 0.9, 0.85, 0.8.\<close>

definition wanted_ratio :: "nat \<Rightarrow> bool \<Rightarrow> rat \<Rightarrow> rat" where
  "wanted_ratio max_delay dynamic_screen cur =
     (if max_delay < 50 then (if dynamic_screen then f32 (cur * f32 (115 / 100)) else cur)
      else if max_delay < 100 then (if dynamic_screen then f32 (cur * f32 (11 / 10)) else cur)
      else if max_delay < DELAY_THRESHOLD_150MS then (if dynamic_screen then f32 (cur * f32 (105 / 100)) else cur)
      else if max_delay < 200 then f32 (cur * f32 (95 / 100))
      else if max_delay < 300 then f32 (cur * f32 (9 / 10))
      else if max_delay < 500 then f32 (cur * f32 (85 / 100))
      else f32 (cur * f32 (8 / 10)))"

definition adjust_ratio :: "nat \<Rightarrow> bool \<Rightarrow> video_qos \<Rightarrow> video_qos option" where
  "adjust_ratio now dynamic_screen q =
     (if \<not> in_vbr_state q then Some q
      else if users q = [] then Some q
      else
        let max_delay = Max (set (map (\<lambda>(_, u). avg_delay (delay u)) (users q)));
            tq = latest_quality q;
            target = quality_ratio tq;
            cur = qos_ratio q;
            br = bitrate_store q;
            r1 = (if 0 < br then Some (max (f32 (f32 (cur * 1000) / u32_as_f32 br)) BR_MIN_HIGH_RESOLUTION) else None);
            r150 = (if 0 < br then Some (f32 (f32 (u32_as_f32 ((br + 150) mod 2 ^ 32) * cur) / u32_as_f32 br)) else None);
            mn = min_ratio tq r1;
            mx = f32 (target * MAX_BR_MULTIPLE);
            v = wanted_ratio max_delay dynamic_screen cur;
            v = (case r150 of Some r \<Rightarrow> if r < v \<and> cur < r \<and> BR_SPEED \<le> cur then r else v | None \<Rightarrow> v)
        in map_option (\<lambda>r. q\<lparr>qos_ratio := r, adjust_ratio_instant := now\<rparr>) (clamp_checked mn mx v))"

section \<open>User sessions\<close>

definition on_connection_open :: "nat \<Rightarrow> string \<Rightarrow> int \<Rightarrow> video_qos \<Rightarrow> video_qos" where
  "on_connection_open now enable_abr uid q =
     (put_user uid user_default q)\<lparr>abr_config := (enable_abr \<noteq> ''N''), new_user_instant := now\<rparr>"

definition on_connection_close :: "nat \<Rightarrow> int \<Rightarrow> video_qos \<Rightarrow> video_qos" where
  "on_connection_close now uid q =
     (let q' = q\<lparr>users := AList.delete uid (users q)\<rparr> in if users q' = [] then qos_default now else q')"

definition user_custom_fps :: "int \<Rightarrow> nat \<Rightarrow> video_qos \<Rightarrow> video_qos" where
  "user_custom_fps uid f q =
     (if f < MIN_FPS \<or> MAX_FPS < f then q
      else case get_user uid q of None \<Rightarrow> q | Some u \<Rightarrow> put_user uid (u\<lparr>custom_fps := Some f\<rparr>) q)"

definition user_auto_adjust_fps :: "int \<Rightarrow> nat \<Rightarrow> video_qos \<Rightarrow> video_qos" where
  "user_auto_adjust_fps uid f q =
     (if f < MIN_FPS \<or> MAX_FPS < f then q
      else case get_user uid q of None \<Rightarrow> q | Some u \<Rightarrow> put_user uid (u\<lparr>auto_adjust_fps := Some f\<rparr>) q)"

text \<open>
  The values of \<open>ImageQuality\<close> (protocol constants) are the arguments \<open>bal\<close>, \<open>low\<close>,
  \<open>best\<close>. A custom quality is in bits 8 to 19 of the 32-bit value, doubled, per cent.
\<close>

definition convert_quality :: "int \<Rightarrow> int \<Rightarrow> int \<Rightarrow> int \<Rightarrow> quality" where
  "convert_quality bal low best v =
     (if v = bal then Balanced else if v = low then Low else if v = best then Best
      else let b = f32 (f32 (of_int ((v div 256 mod 4096) * 2)) / 100)
           in Custom (the (clamp_checked BR_MIN BR_MAX b)))"

definition user_image_quality :: "int \<Rightarrow> int \<Rightarrow> int \<Rightarrow> int \<Rightarrow> int \<Rightarrow> int \<Rightarrow> video_qos \<Rightarrow> video_qos" where
  "user_image_quality time bal low best uid v q =
     (case get_user uid q of
        None \<Rightarrow> q
      | Some u \<Rightarrow>
          (let q' = put_user uid (u\<lparr>quality_set := Some (time, convert_quality bal low best v)\<rparr>) q
           in q'\<lparr>qos_ratio := quality_ratio (latest_quality q')\<rparr>))"

definition user_record :: "int \<Rightarrow> bool \<Rightarrow> video_qos \<Rightarrow> video_qos" where
  "user_record uid v q = (case get_user uid q of None \<Rightarrow> q | Some u \<Rightarrow> put_user uid (u\<lparr>record_mode := v\<rparr>) q)"

text \<open>The frame rates below which and around which a quality is kept.\<close>

definition fps_levels :: "rat \<Rightarrow> nat \<times> nat" where
  "fps_levels target =
     (if BR_BEST \<le> target then (8, 16) else if BR_BALANCED \<le> target then (10, 20) else (12, 24))"

text \<open>
  The adaptive step: from the current rate and the old and new average delays, the new
  rate and the counter of quick increases.
\<close>

definition devide_fps :: "nat \<Rightarrow> nat \<Rightarrow> nat" where
  "devide_fps f avg =
     min u32_max (nat \<lceil>f32 (u32_as_f32 f / f32 (u32_as_f32 avg / u32_as_f32 DELAY_THRESHOLD_150MS))\<rceil>)"

definition adapt_fps :: "nat \<Rightarrow> nat \<Rightarrow> nat \<Rightarrow> nat \<Rightarrow> nat \<Rightarrow> nat \<Rightarrow> nat \<times> nat" where
  "adapt_fps min_fps normal_fps f avg old_avg quick =
     (let dividend_ms = DELAY_THRESHOLD_150MS * min_fps
      in if avg < 50 then
           (let quick' = quick + 1;
                step = (if f < normal_fps then 1 else 0);
                (quick'', step') = (if 3 \<le> quick' then (0, 5) else (quick', step))
            in (max min_fps (f + step'), quick''))
         else if avg < 100 then
           (max min_fps (f + (if avg < old_avg then (if f < normal_fps then 1 else 0) else 0)), quick)
         else if avg < DELAY_THRESHOLD_150MS then (max min_fps f, quick)
         else
           let dv = devide_fps f avg
           in (if avg < 200 then max min_fps dv
               else if avg < 300 then min min_fps dv
               else if avg < 600 then dividend_ms div avg
               else min (dividend_ms div avg) dv, quick))"

text \<open>The update of the user who reported the delay.\<close>

definition user_delay_update :: "nat \<Rightarrow> nat \<Rightarrow> nat \<Rightarrow> nat \<Rightarrow> nat \<Rightarrow> user_delay \<Rightarrow> user_delay option" where
  "user_delay_update min_fps normal_fps highest f0 d0 u =
     (let d = max d0 10;
          old_avg = avg_delay u;
          u1 = add_delay d u;
          avg = max (avg_delay u1) 10;
          (f1, quick) = adapt_fps min_fps normal_fps f0 avg old_avg (quick_increase_fps_count u1);
          inc = (if avg < DELAY_THRESHOLD_150MS then increase_fps_count u1 + 1 else 0);
          (f2, inc') = (if 3 \<le> inc then (f1 + 1, 0) else (f1, inc));
          quick' = (if 50 < avg then 0 else quick)
      in map_option (\<lambda>f. u1\<lparr>quick_increase_fps_count := quick', increase_fps_count := inc', delay_fps := Some f\<rparr>)
           (clamp_checked MIN_FPS highest f2))"

definition user_network_delay :: "bool \<Rightarrow> nat \<Rightarrow> int \<Rightarrow> nat \<Rightarrow> video_qos \<Rightarrow> video_qos option" where
  "user_network_delay is_linux now uid d q =
     (let highest = highest_fps q;
          (min_fps, normal_fps) = fps_levels (quality_ratio (latest_quality q));
          first = (case get_user uid q of None \<Rightarrow> False | Some u \<Rightarrow> delay_fps (delay u) = None);
          updated = (case get_user uid q of
                       None \<Rightarrow> Some q
                     | Some u \<Rightarrow> map_option (\<lambda>ud. put_user uid (u\<lparr>delay := ud\<rparr>) q)
                                  (user_delay_update min_fps normal_fps highest (qos_fps q) d (delay u)))
      in case updated of
           None \<Rightarrow> None
         | Some q1 \<Rightarrow>
             (case adjust_fps now q1 of
                None \<Rightarrow> None
              | Some q2 \<Rightarrow> if first \<and> \<not> is_linux then adjust_ratio now False q2 else Some q2))"

definition user_delay_response_elapsed :: "nat \<Rightarrow> int \<Rightarrow> nat \<Rightarrow> video_qos \<Rightarrow> video_qos option" where
  "user_delay_response_elapsed now uid elapsed q =
     (case get_user uid q of
        None \<Rightarrow> Some q
      | Some u \<Rightarrow>
          if 2000 < elapsed then
            adjust_fps now (put_user uid (u\<lparr>delay := add_delay (elapsed mod 2 ^ 32) ((delay u)\<lparr>response_delayed := True\<rparr>)\<rparr>) q)
          else Some (put_user uid (u\<lparr>delay := (delay u)\<lparr>response_delayed := False\<rparr>\<rparr>) q))"

section \<open>Displays\<close>

definition new_display :: "string \<Rightarrow> video_qos \<Rightarrow> video_qos" where
  "new_display name q =
     q\<lparr>displays := AList.update name \<lparr>send_counter = 0, support_changing_quality = False\<rparr> (displays q)\<rparr>"

definition remove_display :: "string \<Rightarrow> video_qos \<Rightarrow> video_qos" where
  "remove_display name q = q\<lparr>displays := AList.delete name (displays q)\<rparr>"

definition set_support_changing_quality :: "string \<Rightarrow> bool \<Rightarrow> video_qos \<Rightarrow> video_qos" where
  "set_support_changing_quality name support q =
     (case map_of (displays q) name of
        None \<Rightarrow> q
      | Some d \<Rightarrow> q\<lparr>displays := AList.update name (d\<lparr>support_changing_quality := support\<rparr>) (displays q)\<rparr>)"

definition store_bitrate :: "nat \<Rightarrow> video_qos \<Rightarrow> video_qos" where
  "store_bitrate b q = q\<lparr>bitrate_store := b\<rparr>"

definition update_display_data :: "nat \<Rightarrow> string \<Rightarrow> nat \<Rightarrow> video_qos \<Rightarrow> video_qos option" where
  "update_display_data now name sent q =
     (let q0 = (case map_of (displays q) name of
                  None \<Rightarrow> q
                | Some d \<Rightarrow> q\<lparr>displays := AList.update name (d\<lparr>send_counter := (send_counter d + sent) mod 2 ^ 64\<rparr>) (displays q)\<rparr>)
      in case adjust_fps now q0 of
           None \<Rightarrow> None
         | Some q1 \<Rightarrow>
             if in_vbr_state q1 then
               (if ADJUST_RATIO_INTERVAL \<le> (now - adjust_ratio_instant q1) div 1000 then
                  (let dynamic_screen = list_ex (\<lambda>(_, d). ADJUST_RATIO_INTERVAL * DYNAMIC_SCREEN_THRESHOLD \<le> send_counter d) (displays q1);
                       q2 = q1\<lparr>displays := map (\<lambda>(n, d). (n, d\<lparr>send_counter := 0\<rparr>)) (displays q1)\<rparr>
                   in adjust_ratio now dynamic_screen q2)
                else Some q1)
             else Some (q1\<lparr>qos_ratio := quality_ratio (latest_quality q1)\<rparr>))"

section \<open>The controller as a machine\<close>

text \<open>The calls of the connections and of the video services, in any order.\<close>

datatype qos_event =
    Open nat string int | Close nat int | CustomFps int nat | AutoAdjustFps int nat
  | SetImageQuality int int int int int int | SetRecord int bool
  | NetworkDelay bool nat int nat | ResponseElapsed nat int nat
  | NewDisplay string | RemoveDisplay string | SetSupport string bool | StoreBitrate nat
  | UpdateDisplay nat string nat | AskRatio

definition qos_apply :: "qos_event \<Rightarrow> video_qos \<Rightarrow> video_qos option" where
  "qos_apply e q =
     (case e of
        Open now abr uid \<Rightarrow> Some (on_connection_open now abr uid q)
      | Close now uid \<Rightarrow> Some (on_connection_close now uid q)
      | CustomFps uid f \<Rightarrow> Some (user_custom_fps uid f q)
      | AutoAdjustFps uid f \<Rightarrow> Some (user_auto_adjust_fps uid f q)
      | SetImageQuality time bal low best uid v \<Rightarrow> Some (user_image_quality time bal low best uid v q)
      | SetRecord uid v \<Rightarrow> Some (user_record uid v q)
      | NetworkDelay is_linux now uid d \<Rightarrow> user_network_delay is_linux now uid d q
      | ResponseElapsed now uid elapsed \<Rightarrow> user_delay_response_elapsed now uid elapsed q
      | NewDisplay name \<Rightarrow> Some (new_display name q)
      | RemoveDisplay name \<Rightarrow> Some (remove_display name q)
      | SetSupport name v \<Rightarrow> Some (set_support_changing_quality name v q)
      | StoreBitrate b \<Rightarrow> Some (store_bitrate b q)
      | UpdateDisplay now name sent \<Rightarrow> update_display_data now name sent q
      | AskRatio \<Rightarrow> Some (snd (ratio q)))"

definition qos_step :: "video_qos option \<Rightarrow> qos_event \<Rightarrow> video_qos option" where
  "qos_step s e = (case s of None \<Rightarrow> None | Some q \<Rightarrow> qos_apply e q)"

section \<open>The invariant\<close>

definition fps_ok :: "nat option \<Rightarrow> bool" where
  "fps_ok f = (case f of None \<Rightarrow> True | Some v \<Rightarrow> MIN_FPS \<le> v \<and> v \<le> MAX_FPS)"

definition quality_ok :: "quality \<Rightarrow> bool" where
  "quality_ok q = (case q of Custom v \<Rightarrow> BR_MIN \<le> v \<and> v \<le> BR_MAX \<and> f32 v = v | _ \<Rightarrow> True)"

definition user_ok :: "user_data \<Rightarrow> bool" where
  "user_ok u \<longleftrightarrow> fps_ok (custom_fps u) \<and> fps_ok (auto_adjust_fps u) \<and> fps_ok (delay_fps (delay u))
     \<and> (case quality_set u of None \<Rightarrow> True | Some (_, q) \<Rightarrow> quality_ok q)
     \<and> length (delay_history (delay u)) \<le> Suc HISTORY_DELAY_LEN
     \<and> length (samples (rtt (delay u))) \<le> WINDOW_SAMPLES
     \<and> quick_increase_fps_count (delay u) < 3 \<and> increase_fps_count (delay u) < 3"

definition qos_inv :: "video_qos \<Rightarrow> bool" where
  "qos_inv q \<longleftrightarrow> MIN_FPS \<le> qos_fps q \<and> qos_fps q \<le> MAX_FPS
     \<and> BR_MIN_HIGH_RESOLUTION \<le> qos_ratio q \<and> qos_ratio q \<le> BR_MAX
     \<and> list_all (\<lambda>(_, u). user_ok u) (users q)"

text \<open>No panic so far, and the invariant.\<close>

definition qos_alive :: "video_qos option \<Rightarrow> bool" where
  "qos_alive s = (case s of None \<Rightarrow> False | Some q \<Rightarrow> qos_inv q)"

section \<open>Lemmas on single precision\<close>


lemma powi_add1: "(2::rat) powi (k + 1) = 2 * 2 powi k"
  by (simp add: power_int_add_1)

lemma flog2_bounds:
  assumes "0 < x"
  shows "2 powi flog2 x \<le> x" and "x < 2 powi (flog2 x + 1)"
proof -
  obtain n d where q: "quotient_of x = (n, d)" by (cases "quotient_of x")
  have d: "0 < d" using quotient_of_denom_pos [OF q] .
  have x: "x = of_int n / of_int d" by (rule quotient_of_div [OF q])
  have n: "0 < n" using assms d by (simp add: x zero_less_divide_iff)
  let ?k = "bitlen n - bitlen d"
  have bn: "(2::int) ^ nat (bitlen n - 1) \<le> n" "n < 2 ^ nat (bitlen n)"
    and bd: "(2::int) ^ nat (bitlen d - 1) \<le> d" "d < 2 ^ nat (bitlen d)"
    using bitlen_bounds [OF n] bitlen_bounds [OF d] by auto
  have pn: "0 < bitlen n" "0 < bitlen d"
    using n d by (simp_all add: bitlen_eq_zero_iff less_le bitlen_nonneg)
  have pw: "(of_int (2 ^ nat j) :: rat) = 2 powi j" if "0 \<le> j" for j
    using that by (simp add: power_int_def)
  have rn: "2 powi (bitlen n - 1) \<le> (of_int n :: rat)" "(of_int n :: rat) < 2 powi bitlen n"
    and rd: "2 powi (bitlen d - 1) \<le> (of_int d :: rat)" "(of_int d :: rat) < 2 powi bitlen d"
    using bn bd pn pw [of "bitlen n - 1"] pw [of "bitlen n"] pw [of "bitlen d - 1"] pw [of "bitlen d"]
    by (metis of_int_le_iff of_int_less_iff less_imp_le zle_diff1_eq diff_ge_0_iff_ge int_one_le_iff_zero_less)+
  have lo: "2 powi (?k - 1) \<le> x"
  proof -
    have "2 powi (?k - 1) * 2 powi bitlen d = (2::rat) powi (bitlen n - 1)"
      by (simp flip: power_int_add)
    then have "2 powi (?k - 1) * of_int d \<le> (of_int n :: rat)"
      using rn(1) rd(2) mult_left_mono [of "of_int d :: rat" "2 powi bitlen d" "2 powi (?k - 1)"] by simp
    then show ?thesis using d by (simp add: x field_simps)
  qed
  have hi: "x < 2 powi (?k + 1)"
  proof -
    have "2 powi (?k + 1) * 2 powi (bitlen d - 1) = (2::rat) powi bitlen n"
      by (simp flip: power_int_add)
    then have "of_int n < 2 powi (?k + 1) * (of_int d :: rat)"
      using rn(2) rd(1) mult_left_mono [of "2 powi (bitlen d - 1)" "of_int d :: rat" "2 powi (?k + 1)"] by simp
    then show ?thesis using d by (simp add: x field_simps)
  qed
  show "2 powi flog2 x \<le> x" "x < 2 powi (flog2 x + 1)"
    using lo hi by (auto simp: flog2_def q Let_def)
qed

lemma flog2_unique:
  assumes "2 powi k \<le> x" and "x < 2 powi (k + 1)"
  shows "flog2 x = k"
proof -
  have p: "0 < x" using assms(1) by (metis less_le_trans zero_less_power_int zero_less_numeral)
  have mono: "(2::rat) powi i \<le> 2 powi j" if "i \<le> j" for i j
    using that by (intro power_int_increasing) auto
  have "\<not> k + 1 \<le> flog2 x" "\<not> flog2 x + 1 \<le> k"
    using mono [of "k + 1" "flog2 x"] mono [of "flog2 x + 1" k] flog2_bounds [OF p] assms by auto
  then show ?thesis by simp
qed

lemma round_half_even_error: "\<bar>of_int (round_half_even x) - x\<bar> \<le> 1 / 2"
  using floor_correct [of x]
  by (auto simp: round_half_even_def Let_def abs_le_iff)

lemma round_half_even_int [simp]: "round_half_even (of_int m) = m"
  by (simp add: round_half_even_def)

lemma f32_error:
  assumes "0 < x"
  shows "\<bar>f32 x - x\<bar> \<le> x / 2 ^ 24"
proof -
  let ?u = "2 powi (flog2 x - 23) :: rat"
  have u: "0 < ?u" by simp
  have "f32 x - x = (of_int (round_half_even (x / ?u)) - x / ?u) * ?u"
    using assms u by (simp add: f32_def Let_def left_diff_distrib)
  then have "\<bar>f32 x - x\<bar> \<le> 1 / 2 * ?u"
    using round_half_even_error [of "x / ?u"] u by (simp add: abs_mult mult_right_mono)
  also have "1 / 2 * ?u = 2 powi flog2 x / 2 ^ 24"
    by (simp add: power_int_diff)
  also have "\<dots> \<le> x / 2 ^ 24"
    using flog2_bounds(1) [OF assms] by (intro divide_right_mono) auto
  finally show ?thesis .
qed


lemma f32_grid:
  assumes "0 < m" and "m \<le> 2 ^ 24"
  shows "f32 (of_int m * 2 powi e) = of_int m * 2 powi e"
proof -
  let ?x = "of_int m * 2 powi e :: rat"
  have x: "0 < ?x" using assms by simp
  have "\<exists>l. ?x / 2 powi (flog2 ?x - 23) = of_int l"
  proof (cases "m = 2 ^ 24")
    case True
    then have "flog2 ?x = e + 24"
      by (intro flog2_unique) (simp_all add: power_int_add)
    then have "?x / 2 powi (flog2 ?x - 23) = of_int (2 ^ 23)"
      using True by (simp add: power_int_add)
    then show ?thesis by blast
  next
    case False
    with assms have "m < 2 ^ 24" by simp
    then have m24: "(of_int m :: rat) < 2 ^ 24"
      by (metis of_int_less_iff of_int_numeral of_int_power)
    have "?x < 2 powi (e + 24)"
      using m24 by (simp add: power_int_add mult.commute)
    then have "flog2 ?x < e + 24"
      using flog2_bounds(1) [OF x] power_int_increasing [of "e + 24" "flog2 ?x" "2::rat"]
      by (metis linorder_not_less one_le_numeral order.trans)
    then have n: "0 \<le> e - (flog2 ?x - 23)" by simp
    have "?x / 2 powi (flog2 ?x - 23) = of_int m * 2 powi (e - (flog2 ?x - 23))"
      by (simp add: power_int_diff)
    also have "\<dots> = of_int (m * 2 ^ nat (e - (flog2 ?x - 23)))"
      using n by (simp add: power_int_def)
    finally show ?thesis by blast
  qed
  then obtain l where l: "?x / 2 powi (flog2 ?x - 23) = of_int l" by blast
  then have "f32 ?x = of_int l * 2 powi (flog2 ?x - 23)"
    using x assms by (simp add: f32_def Let_def)
  also have "\<dots> = ?x"
    by (simp flip: l)
  finally show ?thesis .
qed

lemma f32_idem:
  assumes "0 < x"
  shows "f32 (f32 x) = f32 x"
proof -
  let ?u = "2 powi (flog2 x - 23) :: rat" and ?m = "round_half_even (x / 2 powi (flog2 x - 23))"
  have f: "f32 x = of_int ?m * ?u"
    using assms by (simp add: f32_def Let_def)
  have "2 powi 23 * ?u \<le> x" "x < 2 powi 24 * ?u"
    using flog2_bounds [OF assms] by (simp_all add: power_int_diff power_int_add)
  then have b: "2 ^ 23 \<le> x / ?u" "x / ?u < 2 ^ 24"
    by (simp_all add: field_simps)
  have r: "\<bar>of_int ?m - x / ?u\<bar> \<le> 1 / 2"
    by (rule round_half_even_error)
  have "of_int ?m \<le> x / ?u + 1 / 2" "x / ?u - 1 / 2 \<le> of_int ?m"
    using r unfolding abs_le_iff by linarith+
  then have "(of_int ?m :: rat) < 16777217" "(0 :: rat) < of_int ?m"
    using b by simp_all
  then have "?m \<le> 2 ^ 24" "0 < ?m"
    by simp_all
  then show ?thesis
    unfolding f by (intro f32_grid)
qed


lemma f32_bounds: "0 < x \<Longrightarrow> x - x / 2 ^ 24 \<le> f32 x" "0 < x \<Longrightarrow> f32 x \<le> x + x / 2 ^ 24"
  using f32_error [of x] unfolding abs_le_iff by linarith+

lemma f32_nonneg: "0 \<le> x \<Longrightarrow> 0 \<le> f32 x"
  using f32_bounds(1) [of x] by (cases "x = 0") (auto simp: f32_def [of 0])

lemma f32_idem0: "0 \<le> x \<Longrightarrow> f32 (f32 x) = f32 x"
  by (cases "x = 0") (auto simp: f32_idem f32_def [of 0])

section \<open>Lemmas on the controller\<close>

lemmas fps_consts = FPS_def MIN_FPS_def MAX_FPS_def INIT_FPS_def
lemmas br_consts = BR_MAX_def BR_MIN_def BR_MIN_HIGH_RESOLUTION_def MAX_BR_MULTIPLE_def BR_BEST_def BR_BALANCED_def BR_SPEED_def

lemma f32_consts: "f32 BR_MIN = BR_MIN" "f32 BR_MAX = BR_MAX" "f32 BR_BEST = BR_BEST" "f32 BR_BALANCED = BR_BALANCED"
  "f32 BR_SPEED = BR_SPEED"
  using f32_grid [of 13421773 "-26"] f32_grid [of 40 0] f32_grid [of 3 "-1"] f32_grid [of 11240735 "-24"] f32_grid [of 1 "-1"]
  by (simp_all add: br_consts power_int_def field_simps)

lemma quality_ratio_ok:
  assumes "quality_ok q"
  shows "f32 (quality_ratio q) = quality_ratio q" "BR_MIN \<le> quality_ratio q" "quality_ratio q \<le> BR_MAX"
  using assms by (auto simp: quality_ok_def quality_ratio_def f32_consts split: quality.splits) (simp_all add: br_consts)

lemma convert_quality_ok: "quality_ok (convert_quality bal low best v)"
proof -
  have c: "clamp_checked BR_MIN BR_MAX b = Some (max BR_MIN (min BR_MAX b))" for b
    by (simp add: br_consts)
  let ?n = "of_int (v div 256 mod 4096 * 2) :: rat"
  have n: "0 \<le> ?n" by simp
  have i: "f32 (f32 (f32 ?n / 100)) = f32 (f32 ?n / 100)"
    using f32_nonneg [OF n] by (intro f32_idem0) simp
  then have "f32 (max BR_MIN (min BR_MAX (f32 (f32 ?n / 100)))) = max BR_MIN (min BR_MAX (f32 (f32 ?n / 100)))"
    by (simp add: max_def min_def f32_consts)
  then show ?thesis
    by (auto simp: convert_quality_def quality_ok_def Let_def c) (simp_all add: br_consts)
qed

lemma foldl_later_quality:
  "pred_option P acc \<Longrightarrow> list_all P xs \<Longrightarrow> pred_option P (foldl later_quality acc xs)"
  by (induction xs arbitrary: acc) (auto simp: later_quality_def split: option.splits)

lemma latest_quality_ok:
  assumes "list_all (\<lambda>(_, u). user_ok u) (users q)"
  shows "quality_ok (latest_quality q)"
proof -
  have "list_all (\<lambda>x. quality_ok (snd x)) (List.map_filter (\<lambda>(_, u). quality_set u) (users q))"
    using assms by (fastforce simp: map_filter_def list_all_iff user_ok_def split: option.splits)
  then have "pred_option (\<lambda>x. quality_ok (snd x))
      (foldl later_quality None (List.map_filter (\<lambda>(_, u). quality_set u) (users q)))"
    by (intro foldl_later_quality) simp_all
  then show ?thesis
    by (auto simp: latest_quality_def quality_ok_def split: option.splits)
qed

lemma highest_fps_bounds: "MIN_FPS \<le> highest_fps q" "highest_fps q \<le> MAX_FPS"
  by (auto simp: highest_fps_def Let_def fps_consts)

lemma clamp_highest: "clamp_checked MIN_FPS (highest_fps q) f = Some (max MIN_FPS (min (highest_fps q) f))"
  using highest_fps_bounds by simp

lemma user_default_ok: "user_ok user_default"
  by (simp add: user_ok_def user_default_def user_delay_default_def rtt_default_def fps_ok_def)

lemma list_all_update:
  "list_all (\<lambda>(_, u). P u) xs \<Longrightarrow> P u \<Longrightarrow> list_all (\<lambda>(_, u). P u) (AList.update k u xs)"
  by (induction xs) auto

lemma list_all_delete: "list_all (\<lambda>(_, u). P u) xs \<Longrightarrow> list_all (\<lambda>(_, u). P u) (AList.delete k xs)"
  by (induction xs) (auto simp: AList.delete_eq)

lemma list_all_get: "list_all (\<lambda>(_, u). P u) xs \<Longrightarrow> map_of xs k = Some u \<Longrightarrow> P u"
  by (induction xs) (auto split: if_splits)

lemma get_user_ok: "qos_inv q \<Longrightarrow> get_user uid q = Some u \<Longrightarrow> user_ok u"
  by (auto simp: qos_inv_def get_user_def dest: list_all_get)

lemma put_user_inv: "qos_inv q \<Longrightarrow> user_ok u \<Longrightarrow> qos_inv (put_user uid u q)"
  by (simp add: qos_inv_def put_user_def list_all_update)

lemma add_delay_fields:
  "delay_fps (add_delay d u) = delay_fps u" "quick_increase_fps_count (add_delay d u) = quick_increase_fps_count u"
  "increase_fps_count (add_delay d u) = increase_fps_count u"
  "length (delay_history u) \<le> Suc HISTORY_DELAY_LEN \<Longrightarrow> length (delay_history (add_delay d u)) \<le> Suc HISTORY_DELAY_LEN"
  "length (samples (rtt u)) \<le> WINDOW_SAMPLES \<Longrightarrow> length (samples (rtt (add_delay d u))) \<le> WINDOW_SAMPLES"
  by (auto simp: add_delay_def Let_def update_rtt_def HISTORY_DELAY_LEN_def WINDOW_SAMPLES_def)

lemma min_ratio_le:
  assumes "quality_ok tq"
  shows "min_ratio tq r1 \<le> quality_ratio tq" "BR_MIN_HIGH_RESOLUTION \<le> min_ratio tq r1"
proof -
  have e: "f32 (BR_BEST / (5 / 2)) \<le> 1"
    using f32_bounds(2) [of "BR_BEST / (5 / 2)"] by (simp add: br_consts)
  show "min_ratio tq r1 \<le> quality_ratio tq"
    using e quality_ratio_ok(2) [OF assms]
    by (cases tq; cases r1) (auto simp: min_ratio_def quality_ratio_def br_consts min_def max_def)
  show "BR_MIN_HIGH_RESOLUTION \<le> min_ratio tq r1"
    by (cases tq; cases r1) (auto simp: min_ratio_def br_consts)
qed

lemma adjust_ratio_inv:
  assumes "qos_inv q"
  shows "\<exists>q'. adjust_ratio now dyn q = Some q' \<and> qos_inv q' \<and> users q' = users q"
proof -
  have ok: "quality_ok (latest_quality q)"
    using assms by (intro latest_quality_ok) (simp add: qos_inv_def)
  have mx: "f32 (quality_ratio (latest_quality q) * MAX_BR_MULTIPLE) = quality_ratio (latest_quality q)"
    using quality_ratio_ok(1) [OF ok] by (simp add: MAX_BR_MULTIPLE_def)
  have c: "clamp_checked (min_ratio (latest_quality q) r1) (quality_ratio (latest_quality q)) v =
      Some (max (min_ratio (latest_quality q) r1) (min (quality_ratio (latest_quality q)) v))" for r1 v
    using min_ratio_le(1) [OF ok] by simp
  have b: "BR_MIN_HIGH_RESOLUTION \<le> max (min_ratio (latest_quality q) r1) x"
    "min_ratio (latest_quality q) r1 \<le> BR_MAX" "min (quality_ratio (latest_quality q)) v \<le> BR_MAX" for r1 v x
    using min_ratio_le [OF ok, of r1] quality_ratio_ok(3) [OF ok] by (auto simp: le_max_iff_disj min_le_iff_disj)
  show ?thesis
    using assms by (simp add: adjust_ratio_def Let_def mx c qos_inv_def b)
qed

lemma adjust_fps_inv:
  assumes "qos_inv q"
  shows "\<exists>q'. adjust_fps now q = Some q' \<and> qos_inv q' \<and> users q' = users q"
  using assms highest_fps_bounds [of q]
  by (auto simp: adjust_fps_def Let_def clamp_highest qos_inv_def)

lemma user_delay_update_ok:
  assumes "user_ok u"
  shows "\<exists>ud. user_delay_update mf nf (highest_fps q) f d (delay u) = Some ud \<and> user_ok (u\<lparr>delay := ud\<rparr>)"
proof -
  have "snd (adapt_fps mf nf f avg old quick) < 3" if "quick < 3" for avg old quick
    using that by (auto simp: adapt_fps_def Let_def)
  moreover have "fps_ok (Some (max MIN_FPS (min (highest_fps q) g)))" for g
    using highest_fps_bounds [of q] by (auto simp: fps_ok_def)
  ultimately show ?thesis
    using assms by (auto simp: user_delay_update_def Let_def clamp_highest user_ok_def add_delay_fields case_prod_beta)
qed

lemma qos_alive_simps [simp]: "qos_alive (Some q) = qos_inv q" "\<not> qos_alive None"
  by (simp_all add: qos_alive_def)

lemma qos_default_inv: "qos_inv (qos_default now)"
  by (simp add: qos_inv_def qos_default_def fps_consts br_consts)

lemma adjust_ratio_alive: "qos_inv q \<Longrightarrow> qos_alive (adjust_ratio now dyn q)"
  using adjust_ratio_inv [of q now dyn] by auto

lemma quality_ratio_inv: "qos_inv q \<Longrightarrow> qos_inv (q\<lparr>qos_ratio := quality_ratio (latest_quality q)\<rparr>)"
  using quality_ratio_ok [OF latest_quality_ok [of q]]
  by (auto simp: qos_inv_def br_consts)

lemma user_setters_inv:
  assumes "qos_inv q"
  shows "qos_inv (user_custom_fps uid f q)" "qos_inv (user_auto_adjust_fps uid f q)" "qos_inv (user_record uid v q)"
proof -
  have "user_ok (u\<lparr>record_mode := v\<rparr>)"
    "MIN_FPS \<le> f \<Longrightarrow> f \<le> MAX_FPS \<Longrightarrow> user_ok (u\<lparr>custom_fps := Some f\<rparr>)"
    "MIN_FPS \<le> f \<Longrightarrow> f \<le> MAX_FPS \<Longrightarrow> user_ok (u\<lparr>auto_adjust_fps := Some f\<rparr>)"
    if "get_user uid q = Some u" for u
    using get_user_ok [OF assms that] by (simp_all add: user_ok_def fps_ok_def)
  then show "qos_inv (user_custom_fps uid f q)" "qos_inv (user_auto_adjust_fps uid f q)" "qos_inv (user_record uid v q)"
    using assms by (auto simp: user_custom_fps_def user_auto_adjust_fps_def user_record_def not_less
        split: option.splits intro: put_user_inv)
qed

lemma user_image_quality_inv:
  assumes "qos_inv q"
  shows "qos_inv (user_image_quality time bal low best uid v q)"
proof -
  have "user_ok (u\<lparr>quality_set := Some (time, convert_quality bal low best v)\<rparr>)" if "get_user uid q = Some u" for u
    using get_user_ok [OF assms that] by (simp add: user_ok_def convert_quality_ok)
  then show ?thesis
    using assms by (auto simp: user_image_quality_def Let_def split: option.splits intro!: quality_ratio_inv put_user_inv)
qed

lemma user_network_delay_inv:
  assumes "qos_inv q"
  shows "qos_alive (user_network_delay is_linux now uid d q)"
proof -
  obtain mf nf where l: "fps_levels (quality_ratio (latest_quality q)) = (mf, nf)"
    by (cases "fps_levels (quality_ratio (latest_quality q))")
  obtain q1 where q1: "qos_inv q1" and e: "(case get_user uid q of None \<Rightarrow> Some q
      | Some u \<Rightarrow> map_option (\<lambda>ud. put_user uid (u\<lparr>delay := ud\<rparr>) q)
          (user_delay_update mf nf (highest_fps q) (qos_fps q) d (delay u))) = Some q1"
  proof (cases "get_user uid q")
    case (Some u)
    with user_delay_update_ok [OF get_user_ok [OF assms Some], of mf nf q "qos_fps q" d] assms that
    show ?thesis by (auto intro: put_user_inv)
  qed (use assms that in auto)
  obtain q2 where q2: "adjust_fps now q1 = Some q2" "qos_inv q2"
    using adjust_fps_inv [OF q1, of now] by blast
  then show ?thesis
    using adjust_ratio_inv [OF q2(2), of now False] by (auto simp: user_network_delay_def l e)
qed

lemma response_elapsed_inv:
  assumes "qos_inv q"
  shows "qos_alive (user_delay_response_elapsed now uid elapsed q)"
proof (cases "get_user uid q")
  case (Some u)
  then have "qos_inv (put_user uid (u\<lparr>delay := add_delay (elapsed mod 2 ^ 32) ((delay u)\<lparr>response_delayed := True\<rparr>)\<rparr>) q)"
    "qos_inv (put_user uid (u\<lparr>delay := (delay u)\<lparr>response_delayed := False\<rparr>\<rparr>) q)"
    using assms get_user_ok [OF assms Some] by (auto intro!: put_user_inv simp: user_ok_def add_delay_fields)
  then show ?thesis
    using adjust_fps_inv [where now = now] by (auto simp: user_delay_response_elapsed_def Some) fastforce
qed (use assms in \<open>simp add: user_delay_response_elapsed_def\<close>)

lemma displays_inv [simp]: "qos_inv (q\<lparr>displays := ds\<rparr>) = qos_inv q"
  by (simp add: qos_inv_def)

lemma update_display_data_inv:
  assumes "qos_inv q"
  shows "qos_alive (update_display_data now name sent q)"
proof -
  let ?q0 = "case map_of (displays q) name of None \<Rightarrow> q
    | Some d \<Rightarrow> q\<lparr>displays := AList.update name (d\<lparr>send_counter := (send_counter d + sent) mod 2 ^ 64\<rparr>) (displays q)\<rparr>"
  have "qos_inv ?q0" using assms by (auto split: option.splits)
  then obtain q1 where q1: "adjust_fps now ?q0 = Some q1" "qos_inv q1"
    using adjust_fps_inv by blast
  then show ?thesis
    by (simp add: update_display_data_def Let_def adjust_ratio_alive quality_ratio_inv)
qed

lemma connection_inv:
  assumes "qos_inv q"
  shows "qos_inv (on_connection_open now abr uid q)" "qos_inv (on_connection_close now uid q)"
proof -
  have "qos_inv (put_user uid user_default q)"
    using assms by (intro put_user_inv user_default_ok)
  then show "qos_inv (on_connection_open now abr uid q)"
    by (simp add: on_connection_open_def qos_inv_def)
  have "qos_inv (q\<lparr>users := AList.delete uid (users q)\<rparr>)"
    using assms by (simp add: qos_inv_def list_all_delete)
  then show "qos_inv (on_connection_close now uid q)"
    by (simp add: on_connection_close_def Let_def qos_default_inv)
qed

lemma display_ops_inv:
  assumes "qos_inv q"
  shows "qos_inv (new_display name q)" "qos_inv (remove_display name q)"
    "qos_inv (set_support_changing_quality name v q)" "qos_inv (store_bitrate b q)" "qos_inv (snd (ratio q))"
proof -
  show "qos_inv (new_display name q)" "qos_inv (remove_display name q)" "qos_inv (set_support_changing_quality name v q)"
    using assms by (auto simp: new_display_def remove_display_def set_support_changing_quality_def split: option.splits)
  show "qos_inv (store_bitrate b q)" "qos_inv (snd (ratio q))"
    using assms by (auto simp: store_bitrate_def ratio_def qos_inv_def)
qed

lemma qos_apply_inv: "qos_inv q \<Longrightarrow> qos_alive (qos_apply e q)"
  by (cases e) (simp_all add: qos_apply_def connection_inv display_ops_inv user_setters_inv user_image_quality_inv
      user_network_delay_inv response_elapsed_inv update_display_data_inv)

interpretation qos: machine "\<lambda>s. \<exists>now. s = Some (qos_default now)" qos_step "\<lambda>_. True" qos_alive
proof
  show "qos_alive (qos_step s e)" if "qos_alive s" for s e
    using that qos_apply_inv by (cases s) (auto simp: qos_step_def)
qed (auto simp: qos_default_inv)

lemma min_list_option_le: "min_list_option xs = Some m \<Longrightarrow> x \<in> set xs \<Longrightarrow> m \<le> x"
proof -
  have "foldr min ys y \<le> z" if "z \<in> set (y # ys)" for ys and y z :: nat
    using that by (induction ys) (auto simp: min_le_iff_disj)
  then show "min_list_option xs = Some m \<Longrightarrow> x \<in> set xs \<Longrightarrow> m \<le> x"
    by (cases xs) (auto simp: min_list_option_def)
qed

lemma highest_fps_le:
  assumes "(uid, u) \<in> set (users q)" and "MIN_FPS \<le> user_fps u"
  shows "highest_fps q \<le> user_fps u"
proof -
  let ?fs = "filter (\<lambda>f. MIN_FPS \<le> f) (map (\<lambda>(_, u). user_fps u) (users q))"
  have i: "user_fps u \<in> set ?fs" using assms by force
  then have "?fs \<noteq> []" by (metis list.set(1) empty_iff)
  then obtain m where m: "min_list_option ?fs = Some m"
    by (simp only: min_list_option_def if_False)
  from min_list_option_le [OF m i] m assms(2) show ?thesis
    by (auto simp: highest_fps_def Let_def fps_consts)
qed

section \<open>Properties\<close>

text \<open>
  C39. The controller never panics and stays in range. After any sequence of connections,
  disconnections, user settings, delay reports and display updates, at any times, every
  clamp had bounds in order, the frame rate is between 1 and 120 and the bit rate ratio
  between the two limits that \<open>ratio\<close> accepts (so it never has to reset it).
\<close>

theorem qos_never_panics:
  "\<exists>q. run qos_step (Some (qos_default now)) es = Some q
     \<and> MIN_FPS \<le> qos_fps q \<and> qos_fps q \<le> MAX_FPS
     \<and> BR_MIN_HIGH_RESOLUTION \<le> qos_ratio q \<and> qos_ratio q \<le> BR_MAX \<and> snd (ratio q) = q"
proof -
  have "qos_alive (run qos_step (Some (qos_default now)) es)"
    by (rule qos.run_inv) (auto simp: list_all_iff)
  then show ?thesis
    by (cases "run qos_step (Some (qos_default now)) es") (auto simp: qos_inv_def ratio_def)
qed

text \<open>
  The frame rate respects every user's limits. After a delay report the common frame
  rate exceeds neither the custom rate nor the automatic limit of any connected user.
\<close>

theorem qos_fps_respects_limits:
  assumes "qos_inv q" and "adjust_fps now q = Some q'" and "(uid, u) \<in> set (users q)"
  shows "(case custom_fps u of None \<Rightarrow> True | Some f \<Rightarrow> qos_fps q' \<le> f)
       \<and> (case auto_adjust_fps u of None \<Rightarrow> True | Some f \<Rightarrow> qos_fps q' \<le> f) \<and> qos_fps q' \<le> highest_fps q"
proof -
  have ok: "user_ok u"
    using assms(1,3) by (auto simp: qos_inv_def list_all_iff)
  have "qos_fps q' \<le> highest_fps q"
    using assms(2) highest_fps_bounds [of q] by (auto simp: adjust_fps_def Let_def clamp_highest)
  moreover have "highest_fps q \<le> user_fps u"
    using ok by (intro highest_fps_le [OF assms(3)]) (auto simp: user_ok_def user_fps_def fps_ok_def fps_consts split: option.splits)
  ultimately show ?thesis
    using ok by (auto simp: user_fps_def Let_def user_ok_def fps_ok_def fps_consts split: option.splits if_splits)
qed

theorem qos_fps_respects_limits_witness:
  "\<exists>q q'. run qos_step (Some (qos_default 0)) [Open 0 [] 7, CustomFps 7 5] = Some q \<and> adjust_fps 5000 q = Some q' \<and> qos_fps q' \<le> 5"
proof -
  obtain q where q: "run qos_step (Some (qos_default 0)) [Open 0 [] 7, CustomFps 7 5] = Some q"
    and u: "users q = [(7, user_default\<lparr>custom_fps := Some 5\<rparr>)]"
    by (auto simp: qos_step_def qos_apply_def on_connection_open_def user_custom_fps_def fps_consts get_user_def
        put_user_def qos_default_def)
  have i: "qos_inv q"
    using qos.run_inv [of "Some (qos_default 0)" "[Open 0 [] 7, CustomFps 7 5]"] q by auto
  obtain q' where "adjust_fps 5000 q = Some q'"
    using adjust_fps_inv [OF i] by blast
  with qos_fps_respects_limits [OF i this, of 7 "user_default\<lparr>custom_fps := Some 5\<rparr>"] q u show ?thesis
    by auto
qed

text \<open>
  The step under a bad network. From 200 ms on, the adaptive step never exceeds the
  minimum rate of the quality; between 150 ms and 200 ms it never goes below it.
\<close>

theorem qos_bad_network_step:
  assumes "DELAY_THRESHOLD_150MS \<le> avg"
  shows "if avg < 200 then mf \<le> fst (adapt_fps mf nf f avg old quick) else fst (adapt_fps mf nf f avg old quick) \<le> mf"
proof -
  have "150 * mf div avg \<le> mf"
    using assms div_le_mono2 [of 150 avg "150 * mf"] by (simp add: DELAY_THRESHOLD_150MS_def)
  then show ?thesis
    using assms by (auto simp: adapt_fps_def Let_def DELAY_THRESHOLD_150MS_def)
qed

theorem qos_bad_network_step_witness: "10 \<le> fst (adapt_fps 10 20 30 160 120 0)"
  using qos_bad_network_step [of 160 10 20 30 120 0] by (simp add: DELAY_THRESHOLD_150MS_def)

end
