(* ===== verification/Login_Throttle.thy ===== *)
theory Login_Throttle
  imports Prelude "HOL-Library.Multiset"
begin

unbundle bit_operations_syntax

text \<open>
  The brute force protection of incoming logins in \<open>src/src/server/connection.rs\<close>:
  counters per address and, for IPv6, per /64, /56 and /48 prefix. The text form of IPv6
  addresses is that of \<open>std::net::Ipv6Addr\<close>, both ways. \<open>LOGIN_FAILURES\<close> is an array of
  two independent maps (passwords, second factor); a map is the state of the functions.
\<close>

section \<open>IPv6 addresses\<close>

fun hex_val :: "nat \<Rightarrow> string \<Rightarrow> nat option" where
  "hex_val acc [] = Some acc"
| "hex_val acc (c # s) =
     (if is_ascii_digit c then hex_val (16 * acc + (byte c - 48)) s
      else if 97 \<le> byte c \<and> byte c \<le> 102 then hex_val (16 * acc + (byte c - 87)) s
      else if 65 \<le> byte c \<and> byte c \<le> 70 then hex_val (16 * acc + (byte c - 55)) s
      else None)"

definition parse_group :: "string \<Rightarrow> nat option" where
  "parse_group s = (if s = [] \<or> 4 < length s then None else hex_val 0 s)"

definition parse_octet :: "string \<Rightarrow> nat option" where
  "parse_octet s =
     (if s = [] \<or> 3 < length s \<or> (1 < length s \<and> hd s = CHR ''0'') then None
      else case digits_val 0 s of None \<Rightarrow> None | Some v \<Rightarrow> if v \<le> 255 then Some v else None)"

definition parse_ipv4_groups :: "string \<Rightarrow> nat list option" where
  "parse_ipv4_groups s =
     (case map parse_octet (split_on (CHR ''.'') s) of
        [Some a, Some b, Some c, Some d] \<Rightarrow> Some [256 * a + b, 256 * c + d]
      | _ \<Rightarrow> None)"

text \<open>Groups between colons; the last one may be a dotted IPv4 address where allowed.\<close>

fun parse_groups :: "bool \<Rightarrow> string list \<Rightarrow> nat list option" where
  "parse_groups v4 [] = Some []"
| "parse_groups v4 (p # ps) =
     (case parse_group p of
        Some g \<Rightarrow> map_option ((#) g) (parse_groups v4 ps)
      | None \<Rightarrow> if v4 \<and> ps = [] then parse_ipv4_groups p else None)"

definition parse_side :: "bool \<Rightarrow> string \<Rightarrow> nat list option" where
  "parse_side v4 s = (if s = [] then Some [] else parse_groups v4 (split_on (CHR '':'') s))"

definition groups_to_word :: "nat list \<Rightarrow> 128 word" where
  "groups_to_word gs = foldl (\<lambda>w g. push_bit 16 w OR of_nat g) 0 gs"

definition ipv6_from_str :: "string \<Rightarrow> 128 word option" where
  "ipv6_from_str s =
     (case split_str ''::'' s of
        [h] \<Rightarrow>
          (case parse_side True h of
             Some gs \<Rightarrow> if length gs = 8 then Some (groups_to_word gs) else None
           | None \<Rightarrow> None)
      | [h, t] \<Rightarrow>
          (case (parse_side False h, parse_side True t) of
             (Some a, Some b) \<Rightarrow>
               if length a + length b \<le> 7
               then Some (groups_to_word (a @ replicate (8 - length a - length b) 0 @ b)) else None
           | _ \<Rightarrow> None)
      | _ \<Rightarrow> None)"

definition segments :: "128 word \<Rightarrow> nat list" where
  "segments w = map (\<lambda>i. unat (drop_bit (112 - 16 * i) w AND 65535)) [0..<8]"

definition hex_char :: "nat \<Rightarrow> char" where
  "hex_char n = char_of (if n < 10 then 48 + n else 87 + n)"

fun show_hex :: "nat \<Rightarrow> string" where
  "show_hex n = (if n < 16 then [hex_char n] else show_hex (n div 16) @ [hex_char (n mod 16)])"

declare show_hex.simps [simp del]

fun join :: "string \<Rightarrow> string list \<Rightarrow> string" where
  "join d [] = []"
| "join d [x] = x"
| "join d (x # y # xs) = x @ d @ join d (y # xs)"

text \<open>The first longest run of zero segments, as start and length.\<close>

fun longest_zeros :: "nat \<Rightarrow> nat \<Rightarrow> nat \<Rightarrow> nat \<times> nat \<Rightarrow> nat list \<Rightarrow> nat \<times> nat" where
  "longest_zeros i start len best [] = best"
| "longest_zeros i start len best (g # gs) =
     (if g = 0 then
        (let st = (if len = 0 then i else start); l = len + 1
         in longest_zeros (i + 1) st l (if snd best < l then (st, l) else best) gs)
      else longest_zeros (i + 1) 0 0 best gs)"

definition ipv6_to_string :: "128 word \<Rightarrow> string" where
  "ipv6_to_string w =
     (let gs = segments w
      in if take 6 gs = [0, 0, 0, 0, 0, 65535] then
           ''::ffff:'' @ join ''.'' (map show_nat [gs ! 6 div 256, gs ! 6 mod 256, gs ! 7 div 256, gs ! 7 mod 256])
         else
           let (st, l) = longest_zeros 0 0 0 (0, 0) gs
           in if 1 < l then join '':'' (map show_hex (take st gs)) @ ''::'' @ join '':'' (map show_hex (drop (st + l) gs))
              else join '':'' (map show_hex gs))"

definition mask_u128 :: "128 word \<Rightarrow> nat \<Rightarrow> 128 word" where
  "mask_u128 addr plen =
     addr AND (if plen = 0 \<or> 128 < plen then 0 else push_bit (128 - plen) (NOT 0))"

definition get_ipv6_prefixes :: "string \<Rightarrow> (string \<times> string \<times> string) option" where
  "get_ipv6_prefixes ip =
     map_option (\<lambda>a. (ipv6_to_string (mask_u128 a 64) @ ''/64'', ipv6_to_string (mask_u128 a 56) @ ''/56'',
                      ipv6_to_string (mask_u128 a 48) @ ''/48''))
       (ipv6_from_str (trim (hd (split_on (CHR ''%'') ip))))"

section \<open>The counters\<close>

text \<open>Minute of the last failure, failures in that minute, failures in all; \<open>i32\<close> each.\<close>

type_synonym failure = "int \<times> int \<times> int"
type_synonym failures_map = "string \<rightharpoonup> failure"

definition wrap32 :: "int \<Rightarrow> int" where
  "wrap32 x = (x + 2 ^ 31) mod 2 ^ 32 - 2 ^ 31"

definition bump :: "failure \<Rightarrow> int \<Rightarrow> failure" where
  "bump cur time =
     (case cur of (c0, c1, c2) \<Rightarrow>
        if c0 = time then (c0, wrap32 (c1 + 1), wrap32 (c2 + 1)) else (time, 1, wrap32 (c2 + 1)))"

definition failure_of :: "failures_map \<Rightarrow> string \<Rightarrow> failure" where
  "failure_of m k = (case m k of None \<Rightarrow> (0, 0, 0) | Some f \<Rightarrow> f)"

definition update_failure :: "string \<Rightarrow> failure \<times> int \<Rightarrow> bool \<Rightarrow> failures_map \<Rightarrow> failures_map" where
  "update_failure ip ft remove m =
     (case ft of (failure, time) \<Rightarrow>
        if remove then
          (if fst failure \<noteq> 0 then
             (case get_ipv6_prefixes ip of
                Some (p64, p56, p48) \<Rightarrow> m(p64 := None, p56 := None, p48 := None, ip := None)
              | None \<Rightarrow> m(ip := None))
           else m)
        else
          (case get_ipv6_prefixes ip of
             Some (p64, p56, p48) \<Rightarrow>
               (let m1 = m(p64 \<mapsto> bump (failure_of m p64) time);
                    m2 = m1(p56 \<mapsto> bump (failure_of m1 p56) time);
                    m3 = m2(p48 \<mapsto> bump (failure_of m2 p48) time)
                in m3(ip \<mapsto> bump failure time))
           | None \<Rightarrow> m(ip \<mapsto> bump failure time)))"

datatype throttle_alarm = ExceedIPv6PrefixAttempts nat | ExceedThirtyAttempts | SixAttemptsWithinOneMinute

definition check_failure_ipv6_prefix :: "failures_map \<Rightarrow> int \<Rightarrow> string \<Rightarrow> nat \<Rightarrow> int
    \<Rightarrow> ((failure \<times> int) \<times> throttle_alarm option) option" where
  "check_failure_ipv6_prefix m time pfx prefix_num thresh =
     (let f = failure_of m pfx
      in if thresh < snd (snd f) then Some ((f, time), Some (ExceedIPv6PrefixAttempts prefix_num)) else None)"

definition check_prefixes :: "string \<Rightarrow> int \<Rightarrow> failures_map \<Rightarrow> ((failure \<times> int) \<times> throttle_alarm option) option" where
  "check_prefixes ip time m =
     (case get_ipv6_prefixes ip of
        None \<Rightarrow> None
      | Some (p64, p56, p48) \<Rightarrow>
          (case check_failure_ipv6_prefix m time p64 64 60 of
             Some r \<Rightarrow> Some r
           | None \<Rightarrow>
               (case check_failure_ipv6_prefix m time p56 56 80 of
                  Some r \<Rightarrow> Some r
                | None \<Rightarrow> check_failure_ipv6_prefix m time p48 48 100)))"

definition check_address :: "string \<Rightarrow> int \<Rightarrow> failures_map \<Rightarrow> (failure \<times> int) \<times> throttle_alarm option" where
  "check_address ip time m =
     (let f = failure_of m ip
      in ((f, time),
          if 30 < snd (snd f) then Some ExceedThirtyAttempts
          else if time = fst f \<and> 6 < fst (snd f) then Some SixAttemptsWithinOneMinute
          else None))"

text \<open>
  The failure record and the minute to hand on, and the alarm that refuses the attempt, if
  any, for a check nobody disturbs; the prefixes and the address are looked up in critical
  sections of their own.
\<close>

definition check_failure :: "string \<Rightarrow> int \<Rightarrow> failures_map \<Rightarrow> (failure \<times> int) \<times> throttle_alarm option" where
  "check_failure ip now_ms m =
     (let time = wrap32 (now_ms div 60000)
      in case check_prefixes ip time m of Some r \<Rightarrow> r | None \<Rightarrow> check_address ip time m)"

section \<open>Histories\<close>

text \<open>
  The connections side by side. A guess takes two steps: \<open>check_failure\<close> reads the counters and
  admits it or not, and after the comparison \<open>update_failure\<close> writes them, from the value that
  was read. A connection handles one message at a time, so it has at most one guess under way;
  steps of other connections may come between the two, and also between the look at the
  prefixes and the look at the address, so what the prefixes showed is any map (\<open>pre\<close>).
\<close>

record throttle =
  th_failures :: failures_map
  th_flying :: "(int \<times> string \<times> failure \<times> int) list"   \<comment> \<open>connection, address, what its check handed on\<close>
  th_done :: "(string \<times> bool) list"                       \<comment> \<open>evaluated guesses: address, whether right\<close>

definition throttle_start :: throttle where
  "throttle_start = \<lparr>th_failures = Map.empty, th_flying = [], th_done = []\<rparr>"

datatype throttle_event = Check int string int failures_map | Record int bool

fun throttle_step :: "throttle \<Rightarrow> throttle_event \<Rightarrow> throttle" where
  "throttle_step x (Check c ip now pre) =
     (let time = wrap32 (now div 60000) in
      if c \<in> fst ` set (th_flying x) then x
      else case check_prefixes ip time pre of
             Some r \<Rightarrow> x
           | None \<Rightarrow>
               (case check_address ip time (th_failures x) of
                  (ft, Some alarm) \<Rightarrow> x
                | (ft, None) \<Rightarrow> x\<lparr>th_flying := (c, ip, ft) # th_flying x\<rparr>))"
| "throttle_step x (Record c ok) =
     (case map_of (th_flying x) c of
        None \<Rightarrow> x
      | Some (ip, ft) \<Rightarrow>
          \<lparr>th_failures = update_failure ip ft ok (th_failures x), th_flying = AList.delete c (th_flying x),
           th_done = th_done x @ [(ip, ok)]\<rparr>)"

definition overlap :: "string \<Rightarrow> throttle \<Rightarrow> nat" where
  "overlap ip x = length (filter (\<lambda>(c, i, ft). i = ip) (th_flying x))"

definition guesses :: "string \<Rightarrow> throttle \<Rightarrow> nat" where
  "guesses ip x = length (filter (\<lambda>(i, ok). i = ip) (th_done x))"

text \<open>At no moment of a history more than \<open>k\<close> guesses of an address are under way.\<close>

fun overlaps_within :: "nat \<Rightarrow> string \<Rightarrow> throttle \<Rightarrow> throttle_event list \<Rightarrow> bool" where
  "overlaps_within k ip x [] = True"
| "overlaps_within k ip x (e # es) = (overlap ip (throttle_step x e) \<le> k \<and> overlaps_within k ip (throttle_step x e) es)"

text \<open>The checks of a history that come from an address all fall in the minutes \<open>ts\<close>.\<close>

definition checks_at :: "string \<Rightarrow> (int \<Rightarrow> bool) \<Rightarrow> throttle_event \<Rightarrow> bool" where
  "checks_at ip ts e = (case e of Check c ip' now pre \<Rightarrow> ip' = ip \<longrightarrow> ts (wrap32 (now div 60000)) | Record c ok \<Rightarrow> True)"


section \<open>Lemmas\<close>

lemma wrap32_id: "- (2 ^ 31) \<le> x \<Longrightarrow> x < 2 ^ 31 \<Longrightarrow> wrap32 x = x"
  by (simp add: wrap32_def)

lemma prefixes_slash:
  "get_ipv6_prefixes ip = Some (p64, p56, p48) \<Longrightarrow> CHR ''/'' \<in> set p64 \<and> CHR ''/'' \<in> set p56 \<and> CHR ''/'' \<in> set p48"
  by (auto simp: get_ipv6_prefixes_def)

text \<open>An update touches the counter of an address (which has no slash) only for that address.\<close>

lemma update_failure_other:
  "CHR ''/'' \<notin> set ip \<Longrightarrow> ip' \<noteq> ip \<Longrightarrow> update_failure ip' ft rm m ip = m ip"
  using prefixes_slash [of ip'] by (auto simp: update_failure_def Let_def split: prod.splits option.splits)

lemma update_failure_same:
  "CHR ''/'' \<notin> set ip \<Longrightarrow> update_failure ip (f, time) False m ip = Some (bump f time)"
  by (auto simp: update_failure_def Let_def split: option.splits)

text \<open>
  A counter that is read and written in two steps. \<open>c\<close> is its value, \<open>R\<close> are the values read by
  the guesses under way, at most \<open>k\<close>. A guess that has not begun would read \<open>c\<close>: with these the
  values fill \<open>k\<close> slots. Recording a guess writes the value it read plus one, and takes the slots
  forward in the order of multisets, even when it takes the counter back.
\<close>

definition slots :: "nat \<Rightarrow> nat \<Rightarrow> nat multiset \<Rightarrow> nat multiset" where
  "slots k c R = R + replicate_mset (k - size R) c"

definition later :: "nat \<Rightarrow> nat \<Rightarrow> nat multiset \<Rightarrow> nat multiset set" where
  "later N k M = {X \<in> multisets_of_size {0..N} k. multp (\<lambda>x y. y < x) X M}"

lemma slots_check: "size R < k \<Longrightarrow> slots k c (add_mset c R) = slots k c R"
  by (simp add: slots_def flip: Suc_diff_Suc)

lemma slots_record:
  assumes "size (add_mset r R) \<le> k"
  shows "multp (\<lambda>x y. y < x) (slots k (Suc r) R) (slots k c (add_mset r R))"
proof -
  have "multp (\<lambda>x y. y < x) (R + replicate_mset (k - size R) (Suc r)) (R + ({#r#} + replicate_mset (k - Suc (size R)) c))"
    by (rule one_step_implies_multp) auto
  then show ?thesis
    by (simp add: slots_def)
qed

lemma slots_range: "size R \<le> k \<Longrightarrow> c \<le> N \<Longrightarrow> set_mset R \<subseteq> {0..N} \<Longrightarrow> slots k c R \<in> multisets_of_size {0..N} k"
  by (auto simp: slots_def multisets_of_size_def)

lemma later_irrefl: "M \<notin> later N k M"
proof -
  have "irreflp (multp (\<lambda>x y. y < (x :: nat)))"
    by (rule irreflp_multp) (auto simp: transp_def irreflp_def)
  then show ?thesis
    by (auto simp: later_def irreflp_def)
qed

lemma later_finite [simp]: "finite (later N k M)"
  by (simp add: later_def finite_multisets_of_size)

lemma later_start: "M \<in> multisets_of_size {0..N} k \<Longrightarrow> card (later N k M) < (N + k) choose k"
proof -
  assume "M \<in> multisets_of_size {0..N} k"
  then have "later N k M \<subset> multisets_of_size {0..N} k"
    using later_irrefl by (auto simp: later_def)
  from psubset_card_mono [OF _ this] show ?thesis
    by (simp add: finite_multisets_of_size card_multisets_of_size)
qed

lemma later_step:
  assumes "M' \<in> multisets_of_size {0..N} k" "multp (\<lambda>x y. y < x) M' M"
  shows "card (later N k M') < card (later N k M)"
proof (rule psubset_card_mono)
  have "transp (multp (\<lambda>x y. y < (x :: nat)))"
    by (rule transp_multp) (auto simp: transp_def)
  then have "later N k M' \<subseteq> later N k M"
    using assms(2) by (auto simp: later_def elim: transpE)
  moreover have "M' \<in> later N k M"
    using assms by (simp add: later_def)
  ultimately show "later N k M' \<subset> later N k M"
    using later_irrefl by blast
qed simp

text \<open>
  What a limit on failures relies on: a measure of a counter that is below \<open>N\<close> when the check
  admits a guess, and that a recorded failure raises by one. The limit on all failures and the
  limit within a minute are the two instances. \<open>ts\<close> are the minutes the guesses fall in.
\<close>

locale failure_limit =
  fixes N :: nat
    and measure_of :: "failure \<Rightarrow> nat"
    and good :: "failure \<Rightarrow> bool"
    and ts :: "int \<Rightarrow> bool"
  assumes admitted: "good f \<Longrightarrow> ts t \<Longrightarrow> snd (snd f) \<le> 30 \<Longrightarrow> (t = fst f \<Longrightarrow> fst (snd f) \<le> 6) \<Longrightarrow> measure_of f < N"
    and bumped: "good f \<Longrightarrow> ts t \<Longrightarrow> measure_of f < N \<Longrightarrow> measure_of (bump f t) = Suc (measure_of f) \<and> good (bump f t)"
    and bounded: "good f \<Longrightarrow> measure_of f \<le> N"
begin

definition reads :: "string \<Rightarrow> throttle \<Rightarrow> nat multiset" where
  "reads ip x = image_mset (\<lambda>(c, i, f, t). measure_of f) (filter_mset (\<lambda>(c, i, f, t). i = ip) (mset (th_flying x)))"

definition flying_ok :: "string \<Rightarrow> throttle \<Rightarrow> bool" where
  "flying_ok ip x \<longleftrightarrow> distinct (map fst (th_flying x)) \<and> good (failure_of (th_failures x) ip)
     \<and> (\<forall>(c, i, f, t) \<in> set (th_flying x). i = ip \<longrightarrow> good f \<and> ts t \<and> measure_of f < N)"

definition limit_inv :: "nat \<Rightarrow> string \<Rightarrow> throttle \<Rightarrow> bool" where
  "limit_inv k ip x \<longleftrightarrow> flying_ok ip x \<and> overlap ip x \<le> k
     \<and> guesses ip x + card (later N k (slots k (measure_of (failure_of (th_failures x) ip)) (reads ip x))) < (N + k) choose k"

lemma size_reads: "size (reads ip x) = overlap ip x"
proof -
  have "size (filter_mset (\<lambda>(c, i, f, t). i = ip) (mset fl)) = length (filter (\<lambda>(c, i, ft). i = ip) fl)" for fl
    by (induction fl) auto
  then show ?thesis
    by (simp add: reads_def overlap_def)
qed

lemma reads_range: "flying_ok ip x \<Longrightarrow> set_mset (reads ip x) \<subseteq> {0..N}"
  by (fastforce simp: reads_def flying_ok_def)

lemma slots_ok:
  "flying_ok ip x \<Longrightarrow> overlap ip x \<le> k \<Longrightarrow>
    slots k (measure_of (failure_of (th_failures x) ip)) (reads ip x) \<in> multisets_of_size {0..N} k"
  using bounded [of "failure_of (th_failures x) ip"] by (intro slots_range reads_range) (auto simp: size_reads flying_ok_def)

lemma limit_start: "good (failure_of m ip) \<Longrightarrow> limit_inv k ip \<lparr>th_failures = m, th_flying = [], th_done = []\<rparr>"
proof -
  let ?x = "\<lparr>th_failures = m, th_flying = [], th_done = []\<rparr>"
  assume "good (failure_of m ip)"
  then have "flying_ok ip ?x" "overlap ip ?x \<le> k"
    by (simp_all add: flying_ok_def overlap_def)
  with later_start [OF slots_ok [OF this]] show ?thesis
    by (simp add: limit_inv_def guesses_def)
qed

lemma limit_check:
  assumes "limit_inv k ip x" "checks_at ip ts (Check c i now pre)" "overlap ip (throttle_step x (Check c i now pre)) \<le> k"
  shows "limit_inv k ip (throttle_step x (Check c i now pre))"
proof (cases "throttle_step x (Check c i now pre) = x")
  case False
  let ?t = "wrap32 (now div 60000)" and ?f = "failure_of (th_failures x) i"
  let ?y = "x\<lparr>th_flying := (c, i, ?f, ?t) # th_flying x\<rparr>"
  have y: "throttle_step x (Check c i now pre) = ?y" and new: "c \<notin> fst ` set (th_flying x)"
    and adm: "snd (snd ?f) \<le> 30" "?t = fst ?f \<Longrightarrow> fst (snd ?f) \<le> 6"
    using False by (auto simp: check_address_def Let_def split: if_splits option.splits prod.splits)
  have ok: "flying_ok ip ?y"
    using assms(1,2) new adm by (auto simp: limit_inv_def flying_ok_def checks_at_def intro: admitted)
  show ?thesis
  proof (cases "i = ip")
    case True
    have r: "reads ip ?y = add_mset (measure_of ?f) (reads ip x)"
      using True by (simp add: reads_def)
    have "overlap ip ?y = Suc (overlap ip x)"
      using True by (simp add: overlap_def)
    with assms(3) y have "size (reads ip x) < k"
      by (simp add: size_reads)
    then show ?thesis
      using assms(1,3) ok slots_check True unfolding y limit_inv_def r by (simp add: guesses_def)
  next
    case other: False
    then have "reads ip ?y = reads ip x"
      by (simp add: reads_def)
    then show ?thesis
      using assms(1,3) ok unfolding y limit_inv_def by (simp add: guesses_def)
  qed
qed (use assms in simp)

lemma mset_delete:
  "distinct (map fst xs) \<Longrightarrow> map_of xs c = Some v \<Longrightarrow> mset xs = add_mset (c, v) (mset (AList.delete c xs))"
proof (induction xs)
  case (Cons x xs)
  show ?case
  proof (cases "fst x = c")
    case True
    with Cons.prems have "c \<notin> fst ` set xs" "x = (c, v)"
      by auto
    then show ?thesis
      by (simp add: delete_id)
  qed (use Cons in \<open>auto simp: AList.delete_eq\<close>)
qed simp

lemma flying_ok_subset:
  assumes "flying_ok ip x" "set (th_flying y) \<subseteq> set (th_flying x)" "distinct (map fst (th_flying y))"
    and "good (failure_of (th_failures y) ip)"
  shows "flying_ok ip y"
  using assms unfolding flying_ok_def by fast

lemma limit_record:
  assumes "CHR ''/'' \<notin> set ip" "limit_inv k ip x" "(ip, True) \<notin> set (th_done (throttle_step x (Record c right)))"
  shows "limit_inv k ip (throttle_step x (Record c right))"
proof (cases "map_of (th_flying x) c")
  case None
  with assms(2) show ?thesis by simp
next
  case (Some v)
  obtain i f t where v: "v = (i, f, t)" by (cases v) auto
  let ?y = "throttle_step x (Record c right)"
  have d: "distinct (map fst (th_flying x))" and dn: "distinct (map fst (AList.delete c (th_flying x)))"
    using assms(2) by (simp_all add: limit_inv_def flying_ok_def distinct_delete)
  note m = mset_delete [OF d Some]
  have fl: "th_flying ?y = AList.delete c (th_flying x)" and fa: "th_failures ?y = update_failure i (f, t) right (th_failures x)"
    and dne: "th_done ?y = th_done x @ [(i, right)]"
    using Some v by simp_all
  have sub: "set (th_flying ?y) \<subseteq> set (th_flying x)"
    unfolding fl by (auto simp: AList.delete_eq)
  have fx: "flying_ok ip x"
    using assms(2) by (simp add: limit_inv_def)
  have mem: "(c, i, f, t) \<in> set (th_flying x)"
    using Some v by (auto dest: map_of_SomeD)
  have ov: "overlap ip x = overlap ip ?y + (if i = ip then 1 else 0)" and
    re: "reads ip x = (if i = ip then add_mset (measure_of f) (reads ip ?y) else reads ip ?y)"
    unfolding size_reads [symmetric] reads_def fl m v by simp_all
  show ?thesis
  proof (cases "i = ip")
    case False
    then have "failure_of (th_failures ?y) ip = failure_of (th_failures x) ip"
      using update_failure_other [OF assms(1)] unfolding fa failure_of_def by simp
    moreover have "guesses ip ?y = guesses ip x"
      using False unfolding guesses_def dne by simp
    moreover have "flying_ok ip ?y"
      by (rule flying_ok_subset [OF fx sub]) (use dn fl calculation(1) fx in \<open>simp_all add: flying_ok_def del: throttle_step.simps\<close>)
    ultimately show ?thesis
      using assms(2) ov re False by (simp add: limit_inv_def del: throttle_step.simps)
  next
    case True
    then have "\<not> right"
      using assms(3) dne by auto
    then have cur: "failure_of (th_failures ?y) ip = bump f t"
      using True update_failure_same [OF assms(1)] unfolding fa failure_of_def by simp
    have f: "good f" "ts t" "measure_of f < N"
      using assms(2) mem True by (auto simp: limit_inv_def flying_ok_def)
    note b = bumped [OF f]
    have ok: "flying_ok ip ?y"
      by (rule flying_ok_subset [OF fx sub]) (use dn fl b cur in \<open>simp_all del: throttle_step.simps\<close>)
    have k: "size (add_mset (measure_of f) (reads ip ?y)) \<le> k" "overlap ip ?y \<le> k"
      using assms(2) ov True by (simp_all add: limit_inv_def size_reads del: throttle_step.simps)
    have "card (later N k (slots k (measure_of (failure_of (th_failures ?y) ip)) (reads ip ?y)))
        < card (later N k (slots k (measure_of (failure_of (th_failures x) ip)) (reads ip x)))"
      by (rule later_step [OF slots_ok [OF ok k(2)]]) (use slots_record [OF k(1)] re True cur b in simp)
    moreover have "guesses ip ?y = Suc (guesses ip x)"
      using True unfolding guesses_def dne by simp
    ultimately show ?thesis
      using assms(2) ok k(2) by (simp add: limit_inv_def del: throttle_step.simps)
  qed
qed

lemma done_grows: "set (th_done x) \<subseteq> set (th_done (run throttle_step x es))"
proof (induction es arbitrary: x)
  case (Cons e es)
  have "set (th_done x) \<subseteq> set (th_done (throttle_step x e))"
    by (cases e) (auto simp: Let_def split: option.splits prod.splits)
  with Cons.IH [of "throttle_step x e"] show ?case by auto
qed simp

lemma limit_run:
  assumes "CHR ''/'' \<notin> set ip"
  shows "limit_inv k ip x \<Longrightarrow> list_all (checks_at ip ts) es \<Longrightarrow> overlaps_within k ip x es
    \<Longrightarrow> (ip, True) \<notin> set (th_done (run throttle_step x es)) \<Longrightarrow> limit_inv k ip (run throttle_step x es)"
proof (induction es arbitrary: x)
  case (Cons e es)
  have "(ip, True) \<notin> set (th_done (throttle_step x e))"
    using Cons.prems(4) done_grows [of "throttle_step x e" es] by auto
  moreover have "overlap ip (throttle_step x e) \<le> k" "checks_at ip ts e"
    using Cons.prems(2,3) by simp_all
  ultimately have "limit_inv k ip (throttle_step x e)"
    using limit_check [OF Cons.prems(1)] limit_record [OF assms Cons.prems(1)] by (cases e) blast+
  from Cons.IH [OF this] Cons.prems(2-4) show ?case by simp
qed simp

text \<open>The limit: with \<open>k\<close> guesses side by side, as many as there are ways to fill the slots, less one.\<close>

lemma limit:
  assumes "CHR ''/'' \<notin> set ip" "good (failure_of m ip)" "list_all (checks_at ip ts) es"
    and "overlaps_within k ip \<lparr>th_failures = m, th_flying = [], th_done = []\<rparr> es"
    and "(ip, True) \<notin> set (th_done (run throttle_step \<lparr>th_failures = m, th_flying = [], th_done = []\<rparr> es))"
  shows "guesses ip (run throttle_step \<lparr>th_failures = m, th_flying = [], th_done = []\<rparr> es) \<le> ((N + k) choose k) - 1"
  using limit_run [OF assms(1) limit_start [OF assms(2)] assms(3-5)] unfolding limit_inv_def by linarith

end

interpretation all_failures: failure_limit 31 "\<lambda>f. nat (snd (snd f))" "\<lambda>f. 0 \<le> snd (snd f) \<and> snd (snd f) \<le> 31" "\<lambda>t. True"
  by unfold_locales (auto simp: bump_def wrap32_id split: prod.splits)

interpretation minute_failures: failure_limit 7 "\<lambda>f. if fst f = time then min 7 (nat (fst (snd f))) else 0"
  "\<lambda>f. 0 \<le> fst (snd f)" "\<lambda>t. t = time" for time
  by unfold_locales (auto simp: bump_def wrap32_id min_def split: prod.splits if_splits)


section \<open>Properties\<close>

text \<open>
  C13. The throttle bounds guessing from one address, as far as guesses do not overlap. When the
  address never presents a right credential and at most \<open>k\<close> of its guesses are between check and
  update at a time, then however the steps of all connections interleave, at most
  \<open>(31 + k choose k) - 1\<close> of its guesses are evaluated: 31 when they come one after the other,
  527 with two side by side. There is no bound for all \<open>k\<close>: guesses side
  by side count once (\<open>throttle_lost_updates\<close>).
\<close>

theorem throttle_bounds_guesses:
  assumes "CHR ''/'' \<notin> set ip" "overlaps_within k ip throttle_start es"
    and "(ip, True) \<notin> set (th_done (run throttle_step throttle_start es))"
  shows "guesses ip (run throttle_step throttle_start es) \<le> ((31 + k) choose k) - 1"
proof -
  have "0 \<le> snd (snd (failure_of Map.empty ip)) \<and> snd (snd (failure_of Map.empty ip)) \<le> 31"
    by (simp add: failure_of_def)
  moreover have "list_all (checks_at ip (\<lambda>t. True)) es"
    by (simp add: list_all_iff checks_at_def split: throttle_event.splits)
  ultimately show ?thesis
    using all_failures.limit [OF assms(1)] assms(2,3) unfolding throttle_start_def by blast
qed

text \<open>Two connections of an address side by side, one of them refused while its guess is under way.\<close>

lemma sample_ip_prefixes: "get_ipv6_prefixes ''127.0.0.1'' = None"
proof -
  have "split_str ''::'' ''127.0.0.1'' = [''127.0.0.1'']"
    by (simp add: split_str_def)
  then show ?thesis
    by (auto simp: get_ipv6_prefixes_def trim_visible visible_ascii_def ipv6_from_str_def parse_side_def parse_group_def
        parse_ipv4_groups_def split: option.splits)
qed

definition two_guessers :: "throttle_event list" where
  "two_guessers = [Check 1 ''127.0.0.1'' 90000000 Map.empty, Check 2 ''127.0.0.1'' 90000000 Map.empty, Check 1 ''127.0.0.1'' 90000000 Map.empty,
     Record 1 False, Record 2 False, Check 2 ''127.0.0.1'' 90060000 Map.empty, Record 2 False]"

theorem throttle_bounds_guesses_witness:
  "guesses ''127.0.0.1'' (run throttle_step throttle_start two_guessers) = 3
   \<and> guesses ''127.0.0.1'' (run throttle_step throttle_start two_guessers) \<le> 527"
proof -
  note defs = throttle_start_def two_guessers_def overlap_def guesses_def check_prefixes_def sample_ip_prefixes check_address_def failure_of_def
    wrap32_def update_failure_def bump_def
  have "overlaps_within 2 ''127.0.0.1'' throttle_start two_guessers"
    "(''127.0.0.1'', True) \<notin> set (th_done (run throttle_step throttle_start two_guessers))"
    "guesses ''127.0.0.1'' (run throttle_step throttle_start two_guessers) = 3"
    by (simp_all add: defs)
  with throttle_bounds_guesses [of "''127.0.0.1''" 2 two_guessers] show ?thesis
    by (simp add: binomial_fact' eval_nat_numeral)
qed

text \<open>
  The throttle bounds guessing within a minute. From any state of the counters, as long as the
  guesses of the address fall in one minute and none is right, with at most \<open>k\<close> of them side by
  side at most \<open>(7 + k choose k) - 1\<close> are evaluated: seven when they come one after the other.
\<close>

theorem throttle_bounds_minute:
  assumes "CHR ''/'' \<notin> set ip" "0 \<le> fst (snd (failure_of m ip))" "list_all (checks_at ip (\<lambda>t. t = time)) es"
    and "overlaps_within k ip \<lparr>th_failures = m, th_flying = [], th_done = []\<rparr> es"
    and "(ip, True) \<notin> set (th_done (run throttle_step \<lparr>th_failures = m, th_flying = [], th_done = []\<rparr> es))"
  shows "guesses ip (run throttle_step \<lparr>th_failures = m, th_flying = [], th_done = []\<rparr> es) \<le> ((7 + k) choose k) - 1"
  using minute_failures.limit [OF assms] .

theorem throttle_bounds_minute_witness:
  "guesses ''127.0.0.1'' (run throttle_step throttle_start [Check 1 ''127.0.0.1'' 90000000 Map.empty, Record 1 False]) \<le> 7"
proof -
  note defs = overlap_def check_prefixes_def sample_ip_prefixes check_address_def failure_of_def wrap32_def update_failure_def bump_def checks_at_def
  show ?thesis
    using throttle_bounds_minute [of "''127.0.0.1''" Map.empty 1500
        "[Check 1 ''127.0.0.1'' 90000000 Map.empty, Record 1 False]" 1]
    unfolding throttle_start_def by (simp add: defs)
qed

text \<open>
  Simultaneous guesses count once. The counter of an address is written from the value
  read at the check, so any number of connections that pass the check before the first of
  them records its failure leave the counter where one failure would.
\<close>

theorem throttle_lost_updates:
  assumes "CHR ''/'' \<notin> set ip"
  shows "failure_of (((update_failure ip (f, time) False) ^^ Suc n) m) ip = bump f time"
  using update_failure_same [OF assms] by (simp add: failure_of_def)

theorem throttle_lost_updates_witness:
  "failure_of (((update_failure ''127.0.0.1'' ((0, 0, 0), 1500) False) ^^ Suc 999) Map.empty) ''127.0.0.1'' = (1500, 1, 1)"
  using throttle_lost_updates [of "''127.0.0.1''" 999 "(0, 0, 0)" 1500 Map.empty]
  by (simp add: bump_def wrap32_def del: funpow.simps)

end
