(* ===== verification/Login.thy ===== *)
theory Login
  imports Sched Login_Throttle
begin

unbundle bit_operations_syntax

text \<open>
  Authorization of an incoming connection, \<open>src/src/server/connection.rs\<close>: passwords, the
  rotation of the temporary password, cached sessions, the restart grace, permissions, and
  the messages that can authorize a connection (login request, second factor, switch of
  sides, acceptance in the connection manager).

  A connection is the record \<open>conn\<close>; what connections share (statics, the grace file, the
  marker of scheduled access) is the record \<open>server\<close>. Answers to the peer and to the
  connection manager are values of \<open>out\<close>. Configuration, platform queries, clocks and code
  of \<open>hbb_common\<close> are the record \<open>login_env\<close>. An \<open>Instant\<close> is its milliseconds.
\<close>

section \<open>Data\<close>

datatype auth_conn_type = Remote | FileTransfer | PortForward | ViewCamera | Terminal

datatype lr_union = LrFileTransfer | LrViewCamera | LrTerminal | LrPortForward string nat | LrDefault

record session_key =
  sk_peer_id :: string
  sk_name :: string
  sk_session_id :: nat

record session =
  last_recv_time :: nat
  random_password :: string
  tfa :: bool

record sched_req =
  sr_start :: int
  sr_end :: int
  sr_hq_now :: int
  sr_label :: string
  sr_extend :: bool

record login_request =
  lr_username :: string
  lr_my_id :: string
  lr_my_name :: string
  lr_my_platform :: string
  lr_password :: string
  lr_session_id :: nat
  lr_hwid :: string
  lr_version :: string
  lr_os_username :: string
  lr_union_of :: lr_union
  lr_sched :: "sched_req option"

record conn =
  conn_id :: int
  conn_ip :: string
  conn_challenge :: string
  conn_salt :: string
  conn_lr :: login_request
  authorized :: bool
  auth_type :: "auth_conn_type option"
  require_2fa :: bool
  from_switch :: bool
  file_transfer :: bool
  view_camera :: bool
  terminal :: bool
  port_forward_address :: string
  port_forward_socket :: bool
  sched_window_session :: bool
  control_permissions :: "64 word option"
  conn_closed :: bool

record authed_conn =
  ac_conn_id :: int
  ac_conn_type :: auth_conn_type
  ac_session_key :: session_key

record temporary_state =
  ts_password :: string
  ts_failures :: int

record 'f server =
  sessions :: "session_key \<rightharpoonup> session"
  authed_conns :: "authed_conn list"
  alive_conns :: "int list"
  login_failures :: failures_map        \<comment> \<open>\<open>LOGIN_FAILURES[0]\<close>\<close>
  tfa_failures :: failures_map          \<comment> \<open>\<open>LOGIN_FAILURES[1]\<close>\<close>
  temporary_failures :: temporary_state
  temporary_password :: string
  grace_file :: "string option"
  sched_marker :: "'f marker"
  switch_sides_uuid :: "string \<rightharpoonup> nat \<times> string"

datatype approve_mode = ApprovePassword | ApproveClick | ApproveBoth

record 'f login_env =
  e_sha256 :: "string \<Rightarrow> string"
  e_enc :: "sched_window \<Rightarrow> 'f"
  e_dec :: "'f \<Rightarrow> sched_window option"
  e_own_id :: string
  e_is_ip_str :: "string \<Rightarrow> bool"
  e_is_domain_port_str :: "string \<Rightarrow> bool"
  e_err_msg :: string                  \<comment> \<open>of the Linux desktop start, empty elsewhere\<close>
  e_is_logon :: bool
  e_allow_logon_screen_password :: bool \<comment> \<open>the built-in option is \<open>Y\<close>\<close>
  e_approve_mode :: approve_mode
  e_has_valid_password :: bool
  e_temporary_enabled :: bool
  e_permanent_enabled :: bool
  e_local_storage :: string
  e_hard_password :: string
  e_decode_h1 :: "string \<Rightarrow> string option"
  e_option :: "string \<Rightarrow> string"
  e_option2bool :: "string \<Rightarrow> string \<Rightarrow> bool"
  e_permission_value :: "string \<Rightarrow> int option"  \<comment> \<open>protocol value of the permission of an option\<close>
  e_privacy_mode :: bool
  e_is_windows :: bool
  e_is_installed :: bool
  e_fill_terminal_token :: "string option"
  e_service_user :: "bool option"
  e_user_token :: "bool option"        \<comment> \<open>whether the token, if any, has a service token\<close>
  e_port_forward_connects :: bool
  e_trusted_enabled :: bool
  e_trusted_devices :: "(string \<times> string \<times> string \<times> string \<times> bool) list"
    \<comment> \<open>hardware, id, name, platform, outdated\<close>
  e_new_temporary_password :: string
  e_version_ge_1_2_0 :: "string \<Rightarrow> bool"
  e_totp_check :: "bool option"        \<comment> \<open>\<open>None\<close> when the check fails\<close>
  e_uuid_ok :: "string \<Rightarrow> bool"        \<comment> \<open>the bytes are a UUID\<close>
  e_now_ms :: int                      \<comment> \<open>\<open>get_time\<close>\<close>
  e_now_secs :: nat
  e_instant :: nat
  e_sched_now :: int

datatype out =
    LoginError string
  | LoginResponse auth_conn_type
  | CmLogin string string bool         \<comment> \<open>peer, name, authorized\<close>
  | CmSchedReq sched_req
  | SchedAck

section \<open>Passwords\<close>

definition u8 :: "char \<Rightarrow> 8 word" where
  "u8 c = of_nat (byte c)"

definition constant_time_eq :: "string \<Rightarrow> string \<Rightarrow> bool" where
  "constant_time_eq a b \<longleftrightarrow>
     length a = length b \<and> foldl (\<lambda>x i. x OR (u8 (a ! i) XOR u8 (b ! i))) 0 [0..<length a] = 0"

definition verify_h1 :: "'f login_env \<Rightarrow> conn \<Rightarrow> string \<Rightarrow> bool" where
  "verify_h1 env cn h1 = constant_time_eq (e_sha256 env (h1 @ conn_challenge cn)) (lr_password (conn_lr cn))"

definition validate_password_plain :: "'f login_env \<Rightarrow> conn \<Rightarrow> string \<Rightarrow> bool" where
  "validate_password_plain env cn password \<longleftrightarrow>
     password \<noteq> [] \<and> verify_h1 env cn (e_sha256 env (password @ conn_salt cn))"

definition validate_password_storage :: "'f login_env \<Rightarrow> conn \<Rightarrow> string \<Rightarrow> bool" where
  "validate_password_storage env cn storage \<longleftrightarrow>
     storage \<noteq> [] \<and>
     (case e_decode_h1 env storage of
        Some h1 \<Rightarrow> verify_h1 env cn h1
      | None \<Rightarrow> validate_password_plain env cn storage)"

definition MAX_CONSECUTIVE_FAILURES :: int where "MAX_CONSECUTIVE_FAILURES = 10"

definition check_update_temporary_password :: "'f login_env \<Rightarrow> bool \<Rightarrow> 'f server \<Rightarrow> 'f server" where
  "check_update_temporary_password env success sv =
     (if \<not> e_temporary_enabled env then sv
      else if temporary_password sv = [] then sv
      else
        let st0 = temporary_failures sv;
            st = (if ts_password st0 \<noteq> temporary_password sv
                  then \<lparr>ts_password = temporary_password sv, ts_failures = 0\<rparr> else st0)
        in if success then sv\<lparr>temporary_failures := st\<lparr>ts_failures := 0\<rparr>\<rparr>
           else
             let n = wrap32 (ts_failures st + 1)
             in if n < MAX_CONSECUTIVE_FAILURES then sv\<lparr>temporary_failures := st\<lparr>ts_failures := n\<rparr>\<rparr>
                else sv\<lparr>temporary_password := e_new_temporary_password env,
                        temporary_failures := \<lparr>ts_password = e_new_temporary_password env, ts_failures = 0\<rparr>\<rparr>)"

section \<open>Sessions\<close>

definition SESSION_TIMEOUT :: nat where "SESSION_TIMEOUT = 30000"

definition session_key_of :: "conn \<Rightarrow> session_key" where
  "session_key_of cn = \<lparr>sk_peer_id = lr_my_id (conn_lr cn), sk_name = lr_my_name (conn_lr cn),
     sk_session_id = lr_session_id (conn_lr cn)\<rparr>"

definition update_or_insert_session ::
  "nat \<Rightarrow> session_key \<Rightarrow> string option \<Rightarrow> bool option \<Rightarrow> 'f server \<Rightarrow> 'f server" where
  "update_or_insert_session now key password tf sv =
     sv\<lparr>sessions := (sessions sv)(key \<mapsto>
       (case sessions sv key of
          Some s \<Rightarrow> s\<lparr>random_password := (case password of Some p \<Rightarrow> p | None \<Rightarrow> random_password s),
                      tfa := (case tf of Some b \<Rightarrow> b | None \<Rightarrow> tfa s)\<rparr>
        | None \<Rightarrow> \<lparr>last_recv_time = now, random_password = (case password of Some p \<Rightarrow> p | None \<Rightarrow> []),
                   tfa = (case tf of Some b \<Rightarrow> b | None \<Rightarrow> False)\<rparr>))\<rparr>"

definition set_session_2fa :: "nat \<Rightarrow> session_key \<Rightarrow> 'f server \<Rightarrow> 'f server" where
  "set_session_2fa now key sv =
     sv\<lparr>sessions := (sessions sv)(key \<mapsto>
       (case sessions sv key of
          Some s \<Rightarrow> s\<lparr>tfa := True\<rparr>
        | None \<Rightarrow> \<lparr>last_recv_time = now, random_password = [], tfa = True\<rparr>))\<rparr>"

definition check_remove_session :: "int \<Rightarrow> session_key \<Rightarrow> 'f server \<Rightarrow> 'f server" where
  "check_remove_session cid key sv =
     (if sessions sv key \<noteq> None then
        let is_remote = list_ex (\<lambda>c. ac_conn_id c = cid \<and> ac_conn_type c = Remote) (authed_conns sv);
            another_remote = list_ex (\<lambda>c. ac_conn_id c \<noteq> cid \<and> ac_session_key c = key \<and> ac_conn_type c = Remote)
                               (authed_conns sv)
        in if is_remote \<or> \<not> another_remote then sv\<lparr>sessions := (sessions sv)(key := None)\<rparr> else sv
      else sv)"

definition retain_recent :: "nat \<Rightarrow> (session_key \<rightharpoonup> session) \<Rightarrow> session_key \<rightharpoonup> session" where
  "retain_recent now ss = (\<lambda>k. case ss k of
     None \<Rightarrow> None | Some s \<Rightarrow> if now - last_recv_time s < SESSION_TIMEOUT then Some s else None)"

definition is_recent_session :: "'f login_env \<Rightarrow> bool \<Rightarrow> conn \<Rightarrow> 'f server \<Rightarrow> bool \<times> 'f server" where
  "is_recent_session env want_tfa cn sv =
     (let sv' = sv\<lparr>sessions := retain_recent (e_instant env) (sessions sv)\<rparr>
      in (case sessions sv' (session_key_of cn) of
            None \<Rightarrow> False
          | Some s \<Rightarrow> lr_password (conn_lr cn) \<noteq> [] \<and>
              (want_tfa \<and> tfa s \<or> \<not> want_tfa \<and> validate_password_plain env cn (random_password s)), sv'))"

definition validate_password :: "'f login_env \<Rightarrow> bool \<Rightarrow> conn \<Rightarrow> 'f server \<Rightarrow> bool \<times> 'f server" where
  "validate_password env allow_permanent cn sv =
     (if e_temporary_enabled env \<and> validate_password_plain env cn (temporary_password sv) then
        (True, check_update_temporary_password env True
           (update_or_insert_session (e_instant env) (session_key_of cn) (Some (temporary_password sv)) (Some False) sv))
      else if e_permanent_enabled env \<or> allow_permanent then
        (if e_local_storage env \<noteq> [] then (validate_password_storage env cn (e_local_storage env), sv)
         else (e_hard_password env \<noteq> [] \<and> validate_password_plain env cn (e_hard_password env), sv))
      else (False, sv))"

definition has_active_remote_session :: "string \<Rightarrow> 'f server \<Rightarrow> bool" where
  "has_active_remote_session peer_id sv =
     list_ex (\<lambda>c. ac_conn_type c = Remote \<and> sk_peer_id (ac_session_key c) = peer_id) (authed_conns sv)"

section \<open>Restart grace\<close>

definition set_restart_reconnect_grace :: "nat \<Rightarrow> string \<Rightarrow> 'f server \<Rightarrow> 'f server" where
  "set_restart_reconnect_grace now operator_id sv =
     sv\<lparr>grace_file := Some (operator_id @ '':'' @ show_nat ((now + 300) mod 2 ^ 64))\<rparr>"

definition consume_restart_reconnect_grace :: "nat \<Rightarrow> string \<Rightarrow> 'f server \<Rightarrow> bool \<times> 'f server" where
  "consume_restart_reconnect_grace now operator_id sv =
     (let v = trim (case grace_file sv of None \<Rightarrow> [] | Some raw \<Rightarrow> raw)
      in if v = [] then (False, sv)
         else case split_once (CHR '':'') v of
           None \<Rightarrow> (False, sv)
         | Some (gid, gexp) \<Rightarrow>
             (let exp = (case parse_uint u64_max gexp of None \<Rightarrow> 0 | Some e \<Rightarrow> e)
              in if exp < now then (False, sv\<lparr>grace_file := None\<rparr>)
                 else (gid \<noteq> [] \<and> gid = operator_id, sv)))"

section \<open>Permissions\<close>

definition get_control_permission :: "64 word \<Rightarrow> int \<Rightarrow> bool option" where
  "get_control_permission permissions index =
     (if 0 \<le> index \<and> index < 32 then
        (let value = drop_bit (nat (index * 2)) permissions AND 3
         in if value = 1 then Some False else if value = 2 then Some True else None)
      else None)"

definition is_permission_enabled_locally :: "'f login_env \<Rightarrow> string \<Rightarrow> bool" where
  "is_permission_enabled_locally env opt =
     (if e_option env ''access-mode'' = ''full'' then True
      else if e_option env ''access-mode'' = ''view'' then False
      else e_option2bool env opt (e_option env opt))"

definition permission :: "'f login_env \<Rightarrow> string \<Rightarrow> 64 word option \<Rightarrow> bool" where
  "permission env opt perms =
     (case (perms, e_permission_value env opt) of
        (Some p, Some v) \<Rightarrow>
          (case get_control_permission p v of
             Some enabled \<Rightarrow> enabled
           | None \<Rightarrow> is_permission_enabled_locally env opt)
      | _ \<Rightarrow> is_permission_enabled_locally env opt)"

definition normalize_port_forward_target :: "string \<Rightarrow> nat \<Rightarrow> string \<times> bool" where
  "normalize_port_forward_target host port =
     (let (host, port, is_rdp) = (if host = ''RDP'' \<and> port = 0 then (''localhost'', 3389, True) else (host, port, False));
          host = (if host = [] then ''localhost'' else host)
      in (host @ '':'' @ show_nat port, is_rdp))"

section \<open>Granting a session\<close>

definition conn_kind :: "conn \<Rightarrow> auth_conn_type" where
  "conn_kind cn =
     (if file_transfer cn then FileTransfer else if port_forward_socket cn then PortForward
      else if view_camera cn then ViewCamera else if terminal cn then Terminal else Remote)"

text \<open>The state threaded through the handlers, and what they return beside it: whether the
  connection is kept.\<close>

type_synonym 'f lst = "conn \<times> 'f server \<times> out list"

definition connect_port_forward_if_needed :: "'f login_env \<Rightarrow> 'f lst \<Rightarrow> bool \<times> 'f lst" where
  "connect_port_forward_if_needed env s =
     (case s of (cn, sv, outs) \<Rightarrow>
        if port_forward_socket cn then (True, s)
        else case lr_union_of (conn_lr cn) of
          LrPortForward host port \<Rightarrow>
            (let (addr, is_rdp) = normalize_port_forward_target host port;
                 cn' = cn\<lparr>port_forward_address := addr\<rparr>
             in if e_port_forward_connects env then (True, cn'\<lparr>port_forward_socket := True\<rparr>, sv, outs)
                else (False, cn', sv, outs @ [LoginError (''Failed to access remote ''
                        @ (if is_rdp then ''RDP'' else addr) @ ''. Please make sure it is reachable/open.'')]))
        | _ \<Rightarrow> (True, s))"

text \<open>
  The first part of \<open>send_logon_response_and_keep_alive\<close>: the second factor, the tunnel,
  the authorization. The description of the machine that follows is one output.
\<close>

definition send_logon_response_and_keep_alive :: "'f login_env \<Rightarrow> 'f lst \<Rightarrow> bool \<times> 'f lst" where
  "send_logon_response_and_keep_alive env s =
     (case s of (cn, sv, outs) \<Rightarrow>
        if authorized cn then (True, s)
        else
          let (recent, sv1) = (if require_2fa cn then is_recent_session env True cn sv else (False, sv))
          in if require_2fa cn \<and> \<not> recent \<and> \<not> from_switch cn
             then (True, cn, sv1, outs @ [LoginError ''2FA Required''])
             else
               (case connect_port_forward_if_needed env (cn, sv1, outs) of
                  (False, s') \<Rightarrow> (False, s')
                | (True, cn', sv', outs') \<Rightarrow>
                    (let k = conn_kind cn';
                         ac = \<lparr>ac_conn_id = conn_id cn', ac_conn_type = k, ac_session_key = session_key_of cn'\<rparr>
                     in (True, cn'\<lparr>authorized := True, auth_type := Some k\<rparr>,
                         sv'\<lparr>authed_conns := authed_conns sv' @ [ac]\<rparr>, outs' @ [LoginResponse k]))))"

text \<open>The block shared by the branches that accept: log on, then tell the connection manager.\<close>

definition grant_login :: "'f login_env \<Rightarrow> login_request \<Rightarrow> 'f lst \<Rightarrow> bool \<times> 'f lst" where
  "grant_login env lr s =
     (if e_err_msg env = [] then
        (case send_logon_response_and_keep_alive env s of
           (False, s') \<Rightarrow> (False, s')
         | (True, cn, sv, outs) \<Rightarrow> (True, cn, sv, outs @ [CmLogin (lr_my_id lr) (lr_my_name lr) (authorized cn)]))
      else (case s of (cn, sv, outs) \<Rightarrow> (True, cn, sv, outs @ [LoginError (e_err_msg env)])))"

definition start_cm :: "login_request \<Rightarrow> bool \<Rightarrow> 'f lst \<Rightarrow> 'f lst" where
  "start_cm lr auth s = (case s of (cn, sv, outs) \<Rightarrow> (cn, sv, outs @ [CmLogin (lr_my_id lr) (lr_my_name lr) auth]))"

definition send_login_error :: "string \<Rightarrow> 'f lst \<Rightarrow> 'f lst" where
  "send_login_error msg s = (case s of (cn, sv, outs) \<Rightarrow> (cn, sv, outs @ [LoginError msg]))"

section \<open>The login request\<close>

definition handle_login_request_without_validation :: "'f login_env \<Rightarrow> login_request \<Rightarrow> conn \<Rightarrow> conn" where
  "handle_login_request_without_validation env lr cn =
     (let cn1 = cn\<lparr>conn_lr := lr\<rparr>
      in if require_2fa cn \<and> lr_hwid lr \<noteq> [] \<and> e_trusted_enabled env then
           (case find (\<lambda>(hw, _). hw = lr_hwid lr) (e_trusted_devices env) of
              Some (hw, did, nm, pf, outdated) \<Rightarrow>
                if \<not> outdated \<and> did = lr_my_id lr \<and> nm = lr_my_name lr \<and> pf = lr_my_platform lr
                then cn1\<lparr>require_2fa := False\<rparr> else cn1
            | None \<Rightarrow> cn1)
         else cn1)"

text \<open>What is asked for, before who asks: a refusal (the error; the connection is then dropped),
  or the prepared connection.\<close>

definition check_request_kind :: "'f login_env \<Rightarrow> login_request \<Rightarrow> conn \<Rightarrow> string + conn" where
  "check_request_kind env lr cn =
     (case lr_union_of lr of
        LrFileTransfer \<Rightarrow>
          if permission env ''enable-file-transfer'' (control_permissions cn)
          then Inr (cn\<lparr>file_transfer := True\<rparr>) else Inl ''No permission of file transfer''
      | LrViewCamera \<Rightarrow>
          if permission env ''enable-camera'' (control_permissions cn)
          then Inr (cn\<lparr>view_camera := True\<rparr>) else Inl ''No permission of viewing camera''
      | LrTerminal \<Rightarrow>
          if \<not> permission env ''enable-terminal'' (control_permissions cn) then Inl ''No permission of terminal''
          else if e_is_windows env \<and> lr_os_username lr \<noteq> [] \<and> \<not> e_is_installed env
            then Inl ''Supported only in the installed version.''
          else (case e_fill_terminal_token env of
                  Some msg \<Rightarrow> Inl msg
                | None \<Rightarrow>
                    (case (e_service_user env, e_user_token env) of
                       (Some is_user, Some has_service_token) \<Rightarrow>
                         if is_user \<noteq> has_service_token then Inl ''Terminal service user mismatch detected.''
                         else Inr (cn\<lparr>terminal := True\<rparr>)
                     | _ \<Rightarrow> Inr (cn\<lparr>terminal := True\<rparr>)))
      | LrPortForward host port \<Rightarrow>
          if permission env ''enable-tunnel'' (control_permissions cn)
          then Inr (cn\<lparr>port_forward_address := fst (normalize_port_forward_target host port)\<rparr>)
          else Inl ''No permission of IP tunneling''
      | LrDefault \<Rightarrow> if e_privacy_mode env then Inl ''Someone turns on privacy mode, exit'' else Inr cn)"

text \<open>The password branch, with the throttle.\<close>

definition alarm_text :: "throttle_alarm \<Rightarrow> string" where
  "alarm_text alarm =
     (case alarm of
        ExceedIPv6PrefixAttempts n \<Rightarrow> ''Too many wrong attempts for IPv6 prefix /'' @ show_nat n
      | ExceedThirtyAttempts \<Rightarrow> ''Too many wrong attempts''
      | SixAttemptsWithinOneMinute \<Rightarrow> ''Please try 1 minute later'')"

definition password_login :: "'f login_env \<Rightarrow> bool \<Rightarrow> login_request \<Rightarrow> 'f lst \<Rightarrow> bool \<times> 'f lst" where
  "password_login env allow_logon lr s =
     (case s of (cn, sv, outs) \<Rightarrow>
        (case check_failure (conn_ip cn) (e_now_ms env) (login_failures sv) of
           (ft, Some alarm) \<Rightarrow>
             (True, send_login_error (alarm_text alarm) s)
         | (ft, None) \<Rightarrow>
             (case validate_password env allow_logon cn sv of
                (False, sv1) \<Rightarrow>
                  (let sv2 = check_update_temporary_password env False
                              (sv1\<lparr>login_failures := update_failure (conn_ip cn) ft False (login_failures sv1)\<rparr>)
                   in if e_err_msg env = []
                      then (True, start_cm lr False (send_login_error ''Wrong Password'' (cn, sv2, outs)))
                      else (True, send_login_error ''Desktop session not ready, password wrong'' (cn, sv2, outs)))
              | (True, sv1) \<Rightarrow>
                  grant_login env lr
                    (cn, sv1\<lparr>login_failures := update_failure (conn_ip cn) ft True (login_failures sv1)\<rparr>, outs))))"

text \<open>The branches in the order of the source; the first that applies decides.\<close>

definition click_card :: "'f login_env \<Rightarrow> login_request \<Rightarrow> 'f lst \<Rightarrow> 'f lst" where
  "click_card env lr s =
     (let s1 = start_cm lr False s;
          s2 = (case lr_sched lr of
                  None \<Rightarrow> s1
                | Some p \<Rightarrow> (case s1 of (cn, sv, outs) \<Rightarrow> (cn, sv, outs @ [CmSchedReq p, SchedAck])))
      in if e_version_ge_1_2_0 env (lr_version lr)
         then send_login_error (if e_is_logon env then ''No Password Access Locked'' else ''No Password Access'') s2
         else s2)"

definition decide_login :: "'f login_env \<Rightarrow> login_request \<Rightarrow> 'f lst \<Rightarrow> bool \<times> 'f lst" where
  "decide_login env lr s =
     (case s of (cn, sv, outs) \<Rightarrow>
        let allow_logon = e_allow_logon_screen_password env \<and> e_is_logon env
        in if \<not> e_is_ip_str env (lr_username lr) \<and> \<not> e_is_domain_port_str env (lr_username lr)
              \<and> lr_username lr \<noteq> e_own_id env
           then (False, send_login_error ''Offline'' s)
           else if file_transfer cn \<and> has_active_remote_session (lr_my_id lr) sv then grant_login env lr s
           else
             (case consume_restart_reconnect_grace (e_now_secs env) (lr_my_id lr) sv of
                (True, sv1) \<Rightarrow> grant_login env lr (cn, sv1, outs)
              | (False, sv1) \<Rightarrow>
                  (case is_open (e_dec env) (e_sched_now env) (sched_marker sv1) of
                     (True, f) \<Rightarrow>
                       grant_login env lr (cn\<lparr>sched_window_session := True\<rparr>,
                         sv1\<lparr>sched_marker := note_session_start (e_enc env) (e_dec env) f\<rparr>, outs)
                   | (False, f) \<Rightarrow>
                       (let sv2 = sv1\<lparr>sched_marker := f\<rparr>
                        in if e_approve_mode env = ApproveClick \<and> \<not> allow_logon
                              \<or> e_approve_mode env = ApproveBoth \<and> \<not> e_has_valid_password env
                           then (True, click_card env lr (cn, sv2, outs))
                           else
                             (case is_recent_session env False cn sv2 of
                                (True, sv3) \<Rightarrow> grant_login env lr (cn, sv3, outs)
                              | (False, sv3) \<Rightarrow>
                                  if lr_password lr = [] then
                                    (if e_err_msg env = [] then (True, start_cm lr False (cn, sv3, outs))
                                     else (True, send_login_error ''Desktop session not ready, password empty'' (cn, sv3, outs)))
                                  else password_login env allow_logon lr (cn, sv3, outs))))))"

definition on_login_request :: "'f login_env \<Rightarrow> login_request \<Rightarrow> conn \<Rightarrow> 'f server \<Rightarrow> bool \<times> 'f lst" where
  "on_login_request env lr cn0 sv =
     (let cn = handle_login_request_without_validation env lr cn0
      in if authorized cn then (True, cn, sv, [])
         else case check_request_kind env lr cn of
           Inl msg \<Rightarrow> (False, cn, sv, [LoginError msg])
         | Inr cn1 \<Rightarrow>
             if e_err_msg env \<noteq> [] \<and> e_err_msg env \<noteq> ''Desktop session not ready''
             then (True, cn1, sv, [LoginError (e_err_msg env)])
             else decide_login env lr (cn1, sv, []))"

section \<open>The other messages\<close>

definition on_auth_2fa :: "'f login_env \<Rightarrow> conn \<Rightarrow> 'f server \<Rightarrow> bool \<times> 'f lst" where
  "on_auth_2fa env cn sv =
     (case check_failure (conn_ip cn) (e_now_ms env) (tfa_failures sv) of
        (ft, Some alarm) \<Rightarrow> (True, cn, sv, [LoginError (alarm_text alarm)])
      | (ft, None) \<Rightarrow>
          if require_2fa cn then
            (case e_totp_check env of
               Some True \<Rightarrow>
                 (let sv1 = set_session_2fa (e_instant env) (session_key_of cn)
                        (sv\<lparr>tfa_failures := update_failure (conn_ip cn) ft True (tfa_failures sv)\<rparr>)
                  in case send_logon_response_and_keep_alive env (cn\<lparr>require_2fa := False\<rparr>, sv1, []) of
                       (False, s) \<Rightarrow> (False, s)
                     | (True, s) \<Rightarrow> (True, start_cm (conn_lr (fst s)) (authorized (fst s)) s))
             | Some False \<Rightarrow>
                 (True, cn, sv\<lparr>tfa_failures := update_failure (conn_ip cn) ft False (tfa_failures sv)\<rparr>,
                  [LoginError ''Wrong 2FA Code''])
             | None \<Rightarrow> (True, cn, sv, []))
          else (True, cn, sv, []))"

definition on_switch_sides :: "'f login_env \<Rightarrow> login_request \<Rightarrow> string \<Rightarrow> conn \<Rightarrow> 'f server \<Rightarrow> bool \<times> 'f lst" where
  "on_switch_sides env lr uuid cn0 sv =
     (let cn = handle_login_request_without_validation env lr cn0;
          live = (\<lambda>k. case switch_sides_uuid sv k of
                    None \<Rightarrow> None | Some (t, u) \<Rightarrow> if e_instant env - t < 10000 then Some (t, u) else None);
          old = live (lr_my_id lr);
          sv1 = sv\<lparr>switch_sides_uuid := live(lr_my_id lr := None)\<rparr>
      in if e_uuid_ok env uuid \<and> (case old of None \<Rightarrow> False | Some (_, u) \<Rightarrow> u = uuid)
         then (case send_logon_response_and_keep_alive env (cn\<lparr>from_switch := True\<rparr>, sv1, []) of
                 (False, s) \<Rightarrow> (False, s)
               | (True, s) \<Rightarrow> (True, start_cm lr (authorized (fst s)) s))
         else (True, cn, sv1, []))"

text \<open>The owner accepted in the connection manager.\<close>

definition on_cm_authorize :: "'f login_env \<Rightarrow> conn \<Rightarrow> 'f server \<Rightarrow> bool \<times> 'f lst" where
  "on_cm_authorize env cn sv = send_logon_response_and_keep_alive env (cn\<lparr>require_2fa := False\<rparr>, sv, [])"

definition on_close :: "'f login_env \<Rightarrow> conn \<Rightarrow> 'f server \<Rightarrow> conn \<times> 'f server" where
  "on_close env cn sv =
     (if conn_closed cn then (cn, sv)
      else (cn\<lparr>conn_closed := True, port_forward_socket := False\<rparr>,
            if sched_window_session cn
            then sv\<lparr>sched_marker := note_session_end (e_enc env) (e_dec env) (e_sched_now env) (sched_marker sv)\<rparr> else sv))"

definition on_close_reason :: "'f login_env \<Rightarrow> conn \<Rightarrow> 'f server \<Rightarrow> bool \<times> 'f lst" where
  "on_close_reason env cn sv =
     (let (cn1, sv1) = on_close env cn sv
      in (False, cn1, check_remove_session (conn_id cn1) (session_key_of cn1) sv1, []))"

section \<open>Specifications\<close>

text \<open>The second factor is not needed, was replaced by a switch of sides, or was given recently.\<close>

definition second_factor_ok :: "'f login_env \<Rightarrow> conn \<Rightarrow> 'f server \<Rightarrow> bool" where
  "second_factor_ok env cn sv \<longleftrightarrow> \<not> require_2fa cn \<or> from_switch cn \<or> fst (is_recent_session env True cn sv)"

definition click_required :: "'f login_env \<Rightarrow> bool" where
  "click_required env \<longleftrightarrow>
     e_approve_mode env = ApproveClick \<and> \<not> (e_allow_logon_screen_password env \<and> e_is_logon env)
     \<or> e_approve_mode env = ApproveBoth \<and> \<not> e_has_valid_password env"

text \<open>The ways in which a login request may be granted.\<close>

definition login_granted :: "'f login_env \<Rightarrow> login_request \<Rightarrow> conn \<Rightarrow> 'f server \<Rightarrow> bool" where
  "login_granted env lr cn sv \<longleftrightarrow>
     file_transfer cn \<and> has_active_remote_session (lr_my_id lr) sv
   \<or> fst (consume_restart_reconnect_grace (e_now_secs env) (lr_my_id lr) sv)
   \<or> fst (is_open (e_dec env) (e_sched_now env) (sched_marker sv))
   \<or> \<not> click_required env \<and>
       (fst (is_recent_session env False cn sv)
        \<or> snd (check_failure (conn_ip cn) (e_now_ms env) (login_failures sv)) = None
          \<and> fst (validate_password env (e_allow_logon_screen_password env \<and> e_is_logon env) cn sv))"

section \<open>Lemmas\<close>

lemma retain_recent_idem [simp]: "retain_recent now (retain_recent now ss) = retain_recent now ss"
  by (auto simp: retain_recent_def fun_eq_iff split: option.splits)

lemma is_recent_sessions:
  "sessions sv' = sessions sv \<Longrightarrow> fst (is_recent_session env t cn sv') = fst (is_recent_session env t cn sv)"
  "sessions sv' = retain_recent (e_instant env) (sessions sv) \<Longrightarrow>
   fst (is_recent_session env t cn sv') = fst (is_recent_session env t cn sv)"
  by (simp_all add: is_recent_session_def Let_def)

lemma consume_fields:
  "sessions (snd (consume_restart_reconnect_grace now i sv)) = sessions sv"
  "sched_marker (snd (consume_restart_reconnect_grace now i sv)) = sched_marker sv"
  "temporary_password (snd (consume_restart_reconnect_grace now i sv)) = temporary_password sv"
  "login_failures (snd (consume_restart_reconnect_grace now i sv)) = login_failures sv"
  by (auto simp: consume_restart_reconnect_grace_def Let_def split: option.splits)

lemma recent_fields:
  "sessions (snd (is_recent_session env t cn sv)) = retain_recent (e_instant env) (sessions sv)"
  "temporary_password (snd (is_recent_session env t cn sv)) = temporary_password sv"
  "login_failures (snd (is_recent_session env t cn sv)) = login_failures sv"
  by (simp_all add: is_recent_session_def Let_def)

lemma validate_password_temp:
  "temporary_password sv' = temporary_password sv \<Longrightarrow>
   fst (validate_password env a cn sv') = fst (validate_password env a cn sv)"
  by (simp add: validate_password_def)

text \<open>After a right password, the session is as before or newly marked without second factor.\<close>

lemma check_update_sessions [simp]: "sessions (check_update_temporary_password env b sv) = sessions sv"
  by (simp add: check_update_temporary_password_def Let_def)

lemma validate_password_recent:
  assumes "fst (is_recent_session env True cn (snd (validate_password env a cn sv)))"
  shows "fst (is_recent_session env True cn sv)"
  using assms
  by (auto simp: validate_password_def is_recent_session_def update_or_insert_session_def retain_recent_def Let_def
      split: if_splits option.splits)

lemma port_forward_authorized:
  "connect_port_forward_if_needed env (cn, sv, outs) = (k, cn', sv', outs') \<Longrightarrow> authorized cn' = authorized cn"
  by (auto simp: connect_port_forward_if_needed_def Let_def split: lr_union.splits if_splits prod.splits)

lemma send_logon_authorizes:
  assumes "send_logon_response_and_keep_alive env (cn, sv, outs) = (k, cn', sv', outs')"
    and "\<not> authorized cn" "authorized cn'"
  shows "second_factor_ok env cn sv"
  using assms port_forward_authorized [of env cn]
  by (auto simp: send_logon_response_and_keep_alive_def second_factor_ok_def Let_def split: if_splits prod.splits bool.splits)

lemma grant_login_authorizes:
  assumes "grant_login env lr (cn, sv, outs) = (k, cn', sv', outs')" and "\<not> authorized cn" "authorized cn'"
  shows "second_factor_ok env cn sv"
proof -
  obtain k1 cn1 sv1 outs1 where "send_logon_response_and_keep_alive env (cn, sv, outs) = (k1, cn1, sv1, outs1)"
    by (cases "send_logon_response_and_keep_alive env (cn, sv, outs)") auto
  with send_logon_authorizes [OF this] assms show ?thesis
    by (auto simp: grant_login_def split: if_splits bool.splits)
qed

lemma second_factor_sessions:
  "sessions sv' = sessions sv \<or> sessions sv' = retain_recent (e_instant env) (sessions sv) \<Longrightarrow>
   second_factor_ok env cn sv' = second_factor_ok env cn sv"
  using is_recent_sessions(1) [of sv' sv] is_recent_sessions(2) [of sv' env sv] by (auto simp: second_factor_ok_def)

lemma password_login_authorizes:
  assumes "password_login env a lr (cn, sv, outs) = (k, cn', sv', outs')" and "\<not> authorized cn" "authorized cn'"
  shows "snd (check_failure (conn_ip cn) (e_now_ms env) (login_failures sv)) = None
    \<and> fst (validate_password env a cn sv) \<and> second_factor_ok env cn sv"
proof -
  obtain ft al where c: "check_failure (conn_ip cn) (e_now_ms env) (login_failures sv) = (ft, al)" by fastforce
  obtain ok sv1 where v: "validate_password env a cn sv = (ok, sv1)" by fastforce
  have al: "al = None" and ok: "ok"
    and g: "grant_login env lr (cn, sv1\<lparr>login_failures := update_failure (conn_ip cn) ft True (login_failures sv1)\<rparr>, outs)
      = (k, cn', sv', outs')"
    using assms by (auto simp: password_login_def c v send_login_error_def start_cm_def Let_def
        split: option.splits bool.splits if_splits)
  have "second_factor_ok env cn sv1"
    using grant_login_authorizes [OF g assms(2,3)]
      second_factor_sessions [of "sv1\<lparr>login_failures := update_failure (conn_ip cn) ft True (login_failures sv1)\<rparr>" sv1 env cn]
    by simp
  then have "second_factor_ok env cn sv"
    using validate_password_recent [of env cn a sv] by (auto simp: second_factor_ok_def v)
  with c v al ok show ?thesis by simp
qed

lemma decide_login_authorizes:
  assumes d: "decide_login env lr (cn, sv, outs) = (k, cn', sv', outs')" and n: "\<not> authorized cn" and a: "authorized cn'"
  shows "(e_is_ip_str env (lr_username lr) \<or> e_is_domain_port_str env (lr_username lr) \<or> lr_username lr = e_own_id env)
    \<and> second_factor_ok env cn sv \<and> login_granted env lr cn sv"
proof -
  let ?allow = "e_allow_logon_screen_password env \<and> e_is_logon env"
  have u: "e_is_ip_str env (lr_username lr) \<or> e_is_domain_port_str env (lr_username lr) \<or> lr_username lr = e_own_id env"
  proof (rule ccontr)
    assume "\<not> (e_is_ip_str env (lr_username lr) \<or> e_is_domain_port_str env (lr_username lr) \<or> lr_username lr = e_own_id env)"
    with d have "cn' = cn" by (simp add: decide_login_def send_login_error_def Let_def)
    with n a show False by simp
  qed
  obtain gr sv1 where gr: "consume_restart_reconnect_grace (e_now_secs env) (lr_my_id lr) sv = (gr, sv1)" by fastforce
  have f1: "sessions sv1 = sessions sv" "sched_marker sv1 = sched_marker sv"
    "temporary_password sv1 = temporary_password sv" "login_failures sv1 = login_failures sv"
    using consume_fields [of "e_now_secs env" "lr_my_id lr" sv] by (simp_all add: gr)
  obtain op f where op: "is_open (e_dec env) (e_sched_now env) (sched_marker sv) = (op, f)" by fastforce
  define sv2 where "sv2 = sv1\<lparr>sched_marker := f\<rparr>"
  obtain rc sv3 where rc: "is_recent_session env False cn sv2 = (rc, sv3)" by fastforce
  have f3: "sessions sv3 = retain_recent (e_instant env) (sessions sv)" "temporary_password sv3 = temporary_password sv"
    "login_failures sv3 = login_failures sv"
    using recent_fields [of env False cn sv2] unfolding rc by (simp_all add: sv2_def f1)
  have rcsv: "fst (is_recent_session env False cn sv) = rc"
    using is_recent_sessions(1) [of sv2 sv env False cn] unfolding rc by (simp add: sv2_def f1)
  consider (transfer) "file_transfer cn \<and> has_active_remote_session (lr_my_id lr) sv" "grant_login env lr (cn, sv, outs) = (k, cn', sv', outs')"
    | (grace) "gr" "grant_login env lr (cn, sv1, outs) = (k, cn', sv', outs')"
    | (window) "op" "grant_login env lr (cn\<lparr>sched_window_session := True\<rparr>,
          sv1\<lparr>sched_marker := note_session_start (e_enc env) (e_dec env) f\<rparr>, outs) = (k, cn', sv', outs')"
    | (recent) "\<not> click_required env" "rc" "grant_login env lr (cn, sv3, outs) = (k, cn', sv', outs')"
    | (password) "\<not> click_required env" "password_login env ?allow lr (cn, sv3, outs) = (k, cn', sv', outs')"
    using d n a u gr op rc
    by (auto simp: decide_login_def Let_def f1 click_card_def start_cm_def send_login_error_def click_required_def
        simp flip: sv2_def split: if_splits bool.splits prod.splits option.splits)
  then have "second_factor_ok env cn sv \<and> login_granted env lr cn sv"
  proof cases
    case transfer
    with grant_login_authorizes [OF transfer(2) n a] show ?thesis by (simp add: login_granted_def)
  next
    case grace
    with grant_login_authorizes [OF grace(2) n a] second_factor_sessions [of sv1 sv env cn] show ?thesis
      by (simp add: login_granted_def gr f1)
  next
    case window
    from grant_login_authorizes [OF window(2)] n a
    have "second_factor_ok env (cn\<lparr>sched_window_session := True\<rparr>)
        (sv1\<lparr>sched_marker := note_session_start (e_enc env) (e_dec env) f\<rparr>)" by simp
    then have "second_factor_ok env cn sv"
      by (simp add: second_factor_ok_def is_recent_session_def session_key_of_def f1 Let_def
          split: option.splits)
    with window show ?thesis by (simp add: login_granted_def op)
  next
    case recent
    with grant_login_authorizes [OF recent(3) n a] second_factor_sessions [of sv3 sv env cn] show ?thesis
      by (simp add: login_granted_def f3 rcsv)
  next
    case password
    with password_login_authorizes [OF password(2) n a] second_factor_sessions [of sv3 sv env cn]
      validate_password_temp [of sv3 sv env ?allow cn]
    show ?thesis by (simp add: login_granted_def f3)
  qed
  with u show ?thesis by blast
qed

lemma handle_login_fields:
  "authorized (handle_login_request_without_validation env lr cn) = authorized cn"
  by (auto simp: handle_login_request_without_validation_def Let_def split: option.splits)

lemma check_kind_fields:
  "check_request_kind env lr cn = Inr cn1 \<Longrightarrow> authorized cn1 = authorized cn"
  by (auto simp: check_request_kind_def split: lr_union.splits if_splits option.splits)

lemma u8_eq: "u8 c = u8 d \<longleftrightarrow> c = d"
proof
  assume "u8 c = u8 d"
  then have "unat (u8 c) = unat (u8 d)" by simp
  then have "byte c = byte d"
    by (simp add: u8_def unat_of_nat)
  then show "c = d" by simp
qed simp

lemma or_fold_zero:
  "foldl (\<lambda>x i. x OR f i) (a :: 8 word) is = 0 \<longleftrightarrow> a = 0 \<and> (\<forall>i\<in>set is. f i = 0)"
  by (induction "is" arbitrary: a) (auto simp: or_eq_0_iff)

lemma xor_zero: "(a :: 8 word) XOR b = 0 \<longleftrightarrow> a = b"
  by (metis bit.xor_self xor.assoc xor.left_neutral xor.right_neutral)

text \<open>A connection, a server and an environment for concrete runs.\<close>

definition sample_lr :: "lr_union \<Rightarrow> string \<Rightarrow> login_request" where
  "sample_lr un my_id = \<lparr>lr_username = ''100'', lr_my_id = my_id, lr_my_name = ''tech'', lr_my_platform = ''Windows'',
     lr_password = [], lr_session_id = 1, lr_hwid = [], lr_version = ''1.4.6'', lr_os_username = [],
     lr_union_of = un, lr_sched = None\<rparr>"

definition sample_conn :: "bool \<Rightarrow> conn" where
  "sample_conn need_2fa = \<lparr>conn_id = 7, conn_ip = ''10.0.0.9'', conn_challenge = ''ch'', conn_salt = ''sa'',
     conn_lr = sample_lr LrDefault [], authorized = False, auth_type = None, require_2fa = need_2fa, from_switch = False,
     file_transfer = False, view_camera = False, terminal = False, port_forward_address = [], port_forward_socket = False,
     sched_window_session = False, control_permissions = None, conn_closed = False\<rparr>"

definition sample_server :: "authed_conn list \<Rightarrow> string option \<Rightarrow> sched_window server" where
  "sample_server authed gf = \<lparr>sessions = Map.empty, authed_conns = authed, alive_conns = [], login_failures = Map.empty,
     tfa_failures = Map.empty, temporary_failures = \<lparr>ts_password = [], ts_failures = 0\<rparr>, temporary_password = [],
     grace_file = gf, sched_marker = None, switch_sides_uuid = Map.empty\<rparr>"

definition sample_login_env :: "sched_window login_env" where
  "sample_login_env = \<lparr>e_sha256 = (\<lambda>s. s), e_enc = (\<lambda>w. w), e_dec = Some, e_own_id = ''100'', e_is_ip_str = (\<lambda>_. False),
     e_is_domain_port_str = (\<lambda>_. False), e_err_msg = [], e_is_logon = False, e_allow_logon_screen_password = False,
     e_approve_mode = ApproveClick, e_has_valid_password = False, e_temporary_enabled = False, e_permanent_enabled = False,
     e_local_storage = [], e_hard_password = [], e_decode_h1 = (\<lambda>_. None), e_option = (\<lambda>_. []),
     e_option2bool = (\<lambda>_ _. True), e_permission_value = (\<lambda>_. None), e_privacy_mode = False, e_is_windows = True,
     e_is_installed = True, e_fill_terminal_token = None, e_service_user = None, e_user_token = None,
     e_port_forward_connects = True, e_trusted_enabled = False, e_trusted_devices = [], e_new_temporary_password = ''n'',
     e_version_ge_1_2_0 = (\<lambda>_. True), e_totp_check = Some True, e_uuid_ok = (\<lambda>_. True), e_now_ms = 90000000,
     e_now_secs = 400, e_instant = 5000, e_sched_now = 400\<rparr>"

lemmas login_eval = on_login_request_def handle_login_request_without_validation_def check_request_kind_def
  decide_login_def grant_login_def send_logon_response_and_keep_alive_def connect_port_forward_if_needed_def
  consume_restart_reconnect_grace_def has_active_remote_session_def permission_def is_permission_enabled_locally_def
  sample_login_env_def sample_conn_def sample_server_def sample_lr_def conn_kind_def session_key_of_def Let_def

section \<open>Properties\<close>

text \<open>
  C3. Who gets in by a login request. If a request turns an unauthorized connection into an
  authorized one, then the kind of session asked for is permitted, the request addresses
  this machine, the second factor is satisfied, and one of the following holds: a file
  transfer of a peer that names the id of a running remote session; an unexpired restart
  grace of the named operator; an open scheduled window; or, only when a click is not
  required, a cached session with its password, or a right password that the throttle
  admitted.
\<close>

theorem login_authorization:
  assumes "on_login_request env lr cn sv = (k, cn', sv', outs)" and "\<not> authorized cn" and "authorized cn'"
  shows "\<exists>cn1. check_request_kind env lr (handle_login_request_without_validation env lr cn) = Inr cn1
    \<and> (e_is_ip_str env (lr_username lr) \<or> e_is_domain_port_str env (lr_username lr) \<or> lr_username lr = e_own_id env)
    \<and> second_factor_ok env cn1 sv \<and> login_granted env lr cn1 sv"
proof -
  let ?cn = "handle_login_request_without_validation env lr cn"
  have n: "\<not> authorized ?cn" using assms(2) by (simp add: handle_login_fields)
  obtain cn1 where c: "check_request_kind env lr ?cn = Inr cn1"
    using assms n by (auto simp: on_login_request_def Let_def split: sum.splits)
  have n1: "\<not> authorized cn1" using check_kind_fields [OF c] n by simp
  have "decide_login env lr (cn1, sv, []) = (k, cn', sv', outs)"
    using assms n n1 c by (auto simp: on_login_request_def Let_def split: if_splits)
  from decide_login_authorizes [OF this n1 assms(3)] c show ?thesis by blast
qed

theorem login_authorization_witness:
  "\<exists>cn1. check_request_kind sample_login_env (sample_lr LrDefault ''op'')
      (handle_login_request_without_validation sample_login_env (sample_lr LrDefault ''op'') (sample_conn False)) = Inr cn1
    \<and> (e_is_ip_str sample_login_env ''100'' \<or> e_is_domain_port_str sample_login_env ''100'' \<or> ''100'' = e_own_id sample_login_env)
    \<and> second_factor_ok sample_login_env cn1 (sample_server [] (Some ''op:500''))
    \<and> login_granted sample_login_env (sample_lr LrDefault ''op'') cn1 (sample_server [] (Some ''op:500''))"
proof -
  obtain k cn' sv' outs where r: "on_login_request sample_login_env (sample_lr LrDefault ''op'') (sample_conn False)
      (sample_server [] (Some ''op:500'')) = (k, cn', sv', outs)" by (metis surj_pair)
  moreover have "authorized cn'"
    using r by (simp add: login_eval trim_visible visible_ascii_def parse_uint_def is_ascii_digit_def)
      (auto simp: login_eval)
  ultimately have "\<exists>cn1. check_request_kind sample_login_env (sample_lr LrDefault ''op'')
      (handle_login_request_without_validation sample_login_env (sample_lr LrDefault ''op'') (sample_conn False)) = Inr cn1
    \<and> (e_is_ip_str sample_login_env (lr_username (sample_lr LrDefault ''op''))
       \<or> e_is_domain_port_str sample_login_env (lr_username (sample_lr LrDefault ''op''))
       \<or> lr_username (sample_lr LrDefault ''op'') = e_own_id sample_login_env)
    \<and> second_factor_ok sample_login_env cn1 (sample_server [] (Some ''op:500''))
    \<and> login_granted sample_login_env (sample_lr LrDefault ''op'') cn1 (sample_server [] (Some ''op:500''))"
    by (intro login_authorization) (simp_all add: sample_conn_def)
  then show ?thesis by (simp add: sample_lr_def)
qed

text \<open>
  The restart grace. After an operator with a usable id restarts the machine at second
  \<open>t\<close>, a connection passes without a click exactly when it names that id and comes at most
  300 seconds later; the first check after that removes the file.
\<close>

theorem restart_grace_exact:
  assumes "gid \<noteq> []" and "list_all visible_ascii gid" and "CHR '':'' \<notin> set gid" and "t + 300 \<le> u64_max"
  shows "consume_restart_reconnect_grace now op (set_restart_reconnect_grace t gid sv) =
    (op = gid \<and> now \<le> t + 300,
     if now \<le> t + 300 then set_restart_reconnect_grace t gid sv else sv\<lparr>grace_file := None\<rparr>)"
proof -
  have m: "(t + 300) mod 2 ^ 64 = t + 300" using assms(4) by simp
  have "list_all visible_ascii (show_nat n)" for n
    using show_nat_digits [of n] by (auto simp: list_all_iff is_ascii_digit_def visible_ascii_def)
  then have "trim (gid @ '':'' @ show_nat (t + 300)) = gid @ '':'' @ show_nat (t + 300)"
    by (intro trim_visible) (use assms(2) in \<open>simp add: visible_ascii_def [of "CHR '':''"]\<close>)
  then show ?thesis
    using assms(1,3,4) split_once_append [OF assms(3), of "show_nat (t + 300)"] parse_show_nat [of "t + 300" u64_max]
    by (auto simp: consume_restart_reconnect_grace_def set_restart_reconnect_grace_def m Let_def)
qed

theorem restart_grace_exact_witness:
  "fst (consume_restart_reconnect_grace 1200 ''hq1'' (set_restart_reconnect_grace 1000 ''hq1'' (sample_server [] None)))"
  using restart_grace_exact [of "''hq1''" 1000 1200 "''hq1''" "sample_server [] None"] by (simp add: visible_ascii_def)

text \<open>
  C37. The second factor alone lets a connection in. On a connection that requires it and has
  sent no login request at all, a right code authorizes the session: no password, no
  acceptance by the owner and no permission check takes place.
\<close>

theorem second_factor_alone_authorizes:
  assumes "require_2fa cn" and "\<not> authorized cn" and "lr_union_of (conn_lr cn) = LrDefault"
    and "snd (check_failure (conn_ip cn) (e_now_ms env) (tfa_failures sv)) = None" and "e_totp_check env = Some True"
  shows "case on_auth_2fa env cn sv of (keep, cn', sv', outs) \<Rightarrow>
      keep \<and> authorized cn' \<and> auth_type cn' = Some (conn_kind cn) \<and> conn_lr cn' = conn_lr cn"
proof -
  obtain ft where "check_failure (conn_ip cn) (e_now_ms env) (tfa_failures sv) = (ft, None)"
    using assms(4) by (metis prod.collapse)
  then show ?thesis
    using assms(1,2,3,5)
    by (auto simp: on_auth_2fa_def send_logon_response_and_keep_alive_def connect_port_forward_if_needed_def
        start_cm_def conn_kind_def Let_def)
qed

theorem second_factor_alone_authorizes_witness:
  "case on_auth_2fa sample_login_env (sample_conn True) (sample_server [] None) of (keep, cn', sv', outs) \<Rightarrow>
     keep \<and> authorized cn' \<and> auth_type cn' = Some (conn_kind (sample_conn True)) \<and> conn_lr cn' = conn_lr (sample_conn True)"
  by (rule second_factor_alone_authorizes)
    (simp_all add: sample_conn_def sample_server_def sample_login_env_def sample_lr_def check_failure_def check_prefixes_def check_address_def failure_of_def
      get_ipv6_prefixes_def ipv6_from_str_def split_str_def trim_visible visible_ascii_def parse_side_def parse_group_def
      parse_ipv4_groups_def parse_octet_def is_ascii_digit_def)

text \<open>
  A named id is enough for files. While a technician with some id is connected, whoever
  asks for a permitted file transfer and names that id is authorized without password and
  without acceptance, whatever the approval mode: the id is taken from the request itself.
\<close>

theorem file_transfer_trusts_named_id:
  assumes "\<not> authorized cn" and "\<not> require_2fa cn" and "lr_union_of lr = LrFileTransfer"
    and "permission env ''enable-file-transfer'' (control_permissions cn)" and "e_err_msg env = []"
    and "lr_username lr = e_own_id env" and "has_active_remote_session (lr_my_id lr) sv"
  shows "case on_login_request env lr cn sv of (keep, cn', sv', outs) \<Rightarrow>
      keep \<and> authorized cn' \<and> auth_type cn' = Some FileTransfer"
  using assms
  by (auto simp: on_login_request_def handle_login_request_without_validation_def check_request_kind_def decide_login_def
      grant_login_def send_logon_response_and_keep_alive_def connect_port_forward_if_needed_def conn_kind_def Let_def)

theorem file_transfer_trusts_named_id_witness:
  "case on_login_request sample_login_env (sample_lr LrFileTransfer ''tech1'') (sample_conn False)
      (sample_server [\<lparr>ac_conn_id = 3, ac_conn_type = Remote,
         ac_session_key = \<lparr>sk_peer_id = ''tech1'', sk_name = ''Kim'', sk_session_id = 99\<rparr>\<rparr>] None) of
     (keep, cn', sv', outs) \<Rightarrow> keep \<and> authorized cn' \<and> auth_type cn' = Some FileTransfer"
  by (rule file_transfer_trusts_named_id)
    (simp_all add: sample_conn_def sample_lr_def sample_server_def sample_login_env_def permission_def
      is_permission_enabled_locally_def has_active_remote_session_def)

text \<open>
  Passwords are compared correctly. The comparison without early exit is equality, so a
  plain password is accepted exactly when it is not empty and the hash of its salted hash
  with the challenge is what the peer sent.
\<close>

theorem password_comparison:
  "(constant_time_eq a b \<longleftrightarrow> a = b)
   \<and> (validate_password_plain env cn pw \<longleftrightarrow> pw \<noteq> []
        \<and> e_sha256 env (e_sha256 env (pw @ conn_salt cn) @ conn_challenge cn) = lr_password (conn_lr cn))"
proof -
  have eq: "constant_time_eq a b \<longleftrightarrow> a = b" for a b
    by (auto simp: constant_time_eq_def or_fold_zero xor_zero u8_eq intro: nth_equalityI)
  then show ?thesis
    by (simp add: validate_password_plain_def verify_h1_def)
qed

text \<open>
  A temporary password survives at most nine consecutive wrong attempts. With the
  counter at \<open>n\<close> for the current password, a wrong attempt raises it while that stays below
  ten and replaces the password by a new one, with a fresh counter, at ten; a right one
  resets the counter.
\<close>

theorem temporary_password_rotation:
  assumes "e_temporary_enabled env" and "temporary_password sv \<noteq> []"
    and "temporary_failures sv = \<lparr>ts_password = temporary_password sv, ts_failures = n\<rparr>" and "0 \<le> n" "n < 10"
  shows "check_update_temporary_password env False sv =
      (if n + 1 < 10 then sv\<lparr>temporary_failures := \<lparr>ts_password = temporary_password sv, ts_failures = n + 1\<rparr>\<rparr>
       else sv\<lparr>temporary_password := e_new_temporary_password env,
               temporary_failures := \<lparr>ts_password = e_new_temporary_password env, ts_failures = 0\<rparr>\<rparr>)
    \<and> ts_failures (temporary_failures (check_update_temporary_password env True sv)) = 0"
  using assms wrap32_id [of "n + 1"] by (simp add: check_update_temporary_password_def MAX_CONSECUTIVE_FAILURES_def)

theorem temporary_password_rotation_witness:
  "temporary_password (check_update_temporary_password (sample_login_env\<lparr>e_temporary_enabled := True\<rparr>) False
     ((sample_server [] None)\<lparr>temporary_password := ''old'', temporary_failures := \<lparr>ts_password = ''old'', ts_failures = 9\<rparr>\<rparr>)) = ''n''"
  using temporary_password_rotation [of "sample_login_env\<lparr>e_temporary_enabled := True\<rparr>"
      "(sample_server [] None)\<lparr>temporary_password := ''old'', temporary_failures := \<lparr>ts_password = ''old'', ts_failures = 9\<rparr>\<rparr>" 9]
  by (simp add: sample_server_def) (simp add: sample_login_env_def)

end
