(* ===== verification/Updater.thy ===== *)
theory Updater
  imports Push_Agent
begin

text \<open>
  The updater thread of the head office build, \<open>src/src/chainremote_updater.rs\<close>: a loop
  that looks every two seconds for a manual trigger, every five minutes for a push signal
  and every day for a new release, and installs a newer release, put off while connections are
  registered in the thread's own process (which sessions never are, see \<open>Service_Process\<close>).

  Times are readings of the monotonic clock in milliseconds. What one pass of the loop
  learns from outside is a \<open>tick_obs\<close>, with a \<open>cycle_obs\<close> for each of the three places
  that may run an update cycle. JSON parsing (\<open>serde_json\<close>) and \<open>is_incoming_only\<close> of
  \<open>hbb_common\<close> are parameters.
\<close>

section \<open>Constants\<close>

definition FULL_CHECK_INTERVAL :: nat where "FULL_CHECK_INTERVAL = 60 * 60 * 24 * 1000"
definition PUSH_POLL_INTERVAL :: nat where "PUSH_POLL_INTERVAL = 60 * 5 * 1000"
definition DEFERRED_RETRY_INTERVAL :: nat where "DEFERRED_RETRY_INTERVAL = 60 * 15 * 1000"

definition backslash :: string where "backslash = [CHR 0x5C]"
definition quote_mark :: string where "quote_mark = [CHR 0x22]"

definition PENDING_DIR :: string where
  "PENDING_DIR = ''C:'' @ backslash @ ''ProgramData'' @ backslash @ ''ChainRemote'' @ backslash @ ''pending''"
definition PENDING_FILE :: string where "PENDING_FILE = ''ChainRemote_Setup.exe''"

section \<open>Data\<close>

record latest_release =
  lr_version :: string
  lr_url :: string
  lr_sha256 :: string
  lr_size :: nat
  lr_released_at :: string
  lr_notes :: string

record dual_channel_manifest =
  hq :: latest_release
  agent :: latest_release

record push_signal =
  ps_version :: string
  ps_timestamp :: string
  ps_notes :: string

datatype cycle_result = Applied | AlreadyLatest | Deferred

datatype updater_error =
    LatestFailed string        \<comment> \<open>the request for the manifest\<close>
  | LatestUnparsable           \<comment> \<open>neither schema\<close>
  | VersionError update_error
  | FileError string
  | DownloadFailed string
  | VerifyError update_error
  | NoServiceSession
  | LaunchFailed string
  | NullHandle nat

record cycle_obs =
  co_latest :: "string + string"                      \<comment> \<open>the error, or the body of \<open>latest.json\<close>\<close>
  co_dir :: "string + unit"
  co_existing :: "string option list option option"   \<comment> \<open>\<open>None\<close>: there is no pending file\<close>
  co_download :: "string + unit"
  co_downloaded :: "string option list option"
  co_own_conns :: nat                                 \<comment> \<open>\<open>alive_conns\<close> of the process of the thread\<close>
  co_console :: nat
  co_service :: "nat option"
  co_launch :: "string + bool"                        \<comment> \<open>the error, or whether the handle is null\<close>

record tick_obs =
  tk_manual :: bool
  tk_manual_cycle :: cycle_obs
  tk_manual_now :: nat
  tk_push_gate :: nat
  tk_push_now :: nat
  tk_push :: "push_signal option"
  tk_push_cycle :: cycle_obs
  tk_full_gate :: nat
  tk_retry_gate :: nat
  tk_cycle :: cycle_obs
  tk_now :: nat
  tk_now2 :: nat              \<comment> \<open>the second of two readings after a failure\<close>

record updater_env =
  ue_sha256 :: "string \<Rightarrow> string"
  ue_parse_dual :: "string \<Rightarrow> dual_channel_manifest option"
  ue_parse_flat :: "string \<Rightarrow> latest_release option"
  ue_incoming_only :: bool

datatype updater_action =
    FetchPush
  | FetchLatest
  | DownloadTo string
  | RemovePending
  | LaunchPrivileged nat string bool   \<comment> \<open>session, command line, whether a handle came back\<close>

record updater =
  last_full_check :: "nat option"
  last_deferred_retry :: "nat option"
  last_push_timestamp :: "string option"
  last_push_poll :: "nat option"

section \<open>One update cycle\<close>

definition fetch_latest :: "updater_env \<Rightarrow> cycle_obs \<Rightarrow> updater_error + latest_release" where
  "fetch_latest env co =
     (case co_latest co of
        Inl e \<Rightarrow> Inl (LatestFailed e)
      | Inr body \<Rightarrow>
          (case ue_parse_dual env body of
             Some dual \<Rightarrow> Inr (if ue_incoming_only env then agent dual else hq dual)
           | None \<Rightarrow> (case ue_parse_flat env body of
                 Some release \<Rightarrow> Inr release
               | None \<Rightarrow> Inl LatestUnparsable)))"

text \<open>A path of a directory and a file name; its parent is the directory.\<close>

definition pending_file_path :: "string \<times> string" where
  "pending_file_path = (PENDING_DIR, PENDING_FILE)"

fun path_string :: "string \<times> string \<Rightarrow> string" where
  "path_string (dir, name) = dir @ backslash @ name"

definition install_command :: "string \<times> string \<Rightarrow> string" where
  "install_command setup_path =
     quote_mark @ path_string setup_path @ quote_mark @ '' /VERYSILENT /SUPPRESSMSGBOXES /NORESTART /LOG=''
       @ quote_mark @ path_string (fst setup_path, ''installer.log'') @ quote_mark"

definition spawn_silent_install ::
  "cycle_obs \<Rightarrow> string \<times> string \<Rightarrow> (updater_error + unit) \<times> updater_action list" where
  "spawn_silent_install co setup_path =
     (let cmd = install_command setup_path;
          launch = (\<lambda>sid. case co_launch co of
              Inl e \<Rightarrow> (Inl (LaunchFailed e), [LaunchPrivileged sid cmd False])
            | Inr is_null \<Rightarrow> if is_null then (Inl (NullHandle sid), [LaunchPrivileged sid cmd False])
                           else (Inr (), [LaunchPrivileged sid cmd True]))
      in if co_console co = u32_max then
           (case co_service co of
              Some s \<Rightarrow> launch s
            | None \<Rightarrow> (Inl NoServiceSession, []))
         else launch (co_console co))"

text \<open>The pending file of an earlier cycle is kept when it still has the manifest's hash.\<close>

definition reuse_pending :: "updater_env \<Rightarrow> cycle_obs \<Rightarrow> latest_release \<Rightarrow> bool \<times> updater_action list" where
  "reuse_pending env co latest =
     (case co_existing co of
        None \<Rightarrow> (False, [])
      | Some opened \<Rightarrow>
          (let (r, deleted) = verify_sha256 (ue_sha256 env) opened (lr_sha256 latest)
           in (r = Inr (), if deleted then [RemovePending] else [])))"

definition fetch_pending_file ::
  "updater_env \<Rightarrow> cycle_obs \<Rightarrow> latest_release \<Rightarrow> (updater_error + unit) \<times> updater_action list" where
  "fetch_pending_file env co latest =
     (case co_download co of
        Inl e \<Rightarrow> (Inl (DownloadFailed e), [DownloadTo (lr_url latest)])
      | Inr _ \<Rightarrow>
          (let (r, deleted) = verify_sha256 (ue_sha256 env) (co_downloaded co) (lr_sha256 latest);
               acts = DownloadTo (lr_url latest) # (if deleted then [RemovePending] else [])
           in case r of Inl e \<Rightarrow> (Inl (VerifyError e), acts) | Inr _ \<Rightarrow> (Inr (), acts)))"

definition obtain_pending ::
  "updater_env \<Rightarrow> cycle_obs \<Rightarrow> latest_release \<Rightarrow> (updater_error + unit) \<times> updater_action list" where
  "obtain_pending env co latest =
     (let (valid, acts0) = reuse_pending env co latest
      in if valid then (Inr (), acts0)
         else (let (r, acts1) = fetch_pending_file env co latest in (r, acts0 @ acts1)))"

definition check_and_apply_once ::
  "updater_env \<Rightarrow> cycle_obs \<Rightarrow> (updater_error + cycle_result) \<times> updater_action list" where
  "check_and_apply_once env co =
     (case fetch_latest env co of
        Inl e \<Rightarrow> (Inl e, [FetchLatest])
      | Inr latest \<Rightarrow>
         (case parse_version CHAINREMOTE_VERSION of
            Inl e \<Rightarrow> (Inl (VersionError e), [FetchLatest])
          | Inr current \<Rightarrow>
             (case parse_version (lr_version latest) of
                Inl e \<Rightarrow> (Inl (VersionError e), [FetchLatest])
              | Inr new_v \<Rightarrow>
                  if \<not> is_newer new_v current then (Inr AlreadyLatest, [FetchLatest])
                  else
                    (case co_dir co of
                       Inl e \<Rightarrow> (Inl (FileError e), [FetchLatest])
                     | Inr _ \<Rightarrow>
                        (case obtain_pending env co latest of
                           (Inl e, acts) \<Rightarrow> (Inl e, FetchLatest # acts)
                         | (Inr _, acts) \<Rightarrow>
                             if co_own_conns co \<noteq> 0 then (Inr Deferred, FetchLatest # acts)
                             else
                               (case spawn_silent_install co pending_file_path of
                                  (Inl e, acts') \<Rightarrow> (Inl e, FetchLatest # acts @ acts')
                                | (Inr _, acts') \<Rightarrow> (Inr Applied, FetchLatest # acts @ acts')))))))"

section \<open>The loop\<close>

text \<open>
  Each of the three channels returns \<open>None\<close> when the loop ends, after an installer was
  launched.
\<close>

definition manual_channel :: "updater_env \<Rightarrow> tick_obs \<Rightarrow> updater \<Rightarrow> updater option \<times> updater_action list" where
  "manual_channel env tk u =
     (if \<not> tk_manual tk then (Some u, [])
      else
        (case check_and_apply_once env (tk_manual_cycle tk) of
           (Inr Applied, acts) \<Rightarrow> (None, acts)
         | (Inr AlreadyLatest, acts) \<Rightarrow> (Some (u\<lparr>last_full_check := Some (tk_manual_now tk)\<rparr>), acts)
         | (Inr Deferred, acts) \<Rightarrow> (Some (u\<lparr>last_deferred_retry := Some (tk_manual_now tk)\<rparr>), acts)
         | (Inl _, acts) \<Rightarrow> (Some u, acts)))"

definition elapsed_reached :: "nat option \<Rightarrow> nat \<Rightarrow> nat \<Rightarrow> bool \<Rightarrow> bool" where
  "elapsed_reached since now interval unset = (case since of None \<Rightarrow> unset | Some t \<Rightarrow> interval \<le> now - t)"

definition new_push :: "updater \<Rightarrow> push_signal option \<Rightarrow> push_signal option" where
  "new_push u signal_opt =
     (case signal_opt of
        None \<Rightarrow> None
      | Some push \<Rightarrow> if ps_timestamp push \<noteq> [] \<and> ps_version push \<noteq> []
                      \<and> last_push_timestamp u \<noteq> Some (ps_timestamp push)
                    then Some push else None)"

definition push_channel :: "updater_env \<Rightarrow> tick_obs \<Rightarrow> updater \<Rightarrow> updater option \<times> updater_action list" where
  "push_channel env tk u =
     (if \<not> elapsed_reached (last_push_poll u) (tk_push_gate tk) PUSH_POLL_INTERVAL True then (Some u, [])
      else
        (let u1 = u\<lparr>last_push_poll := Some (tk_push_now tk)\<rparr>
         in case new_push u1 (tk_push tk) of
              None \<Rightarrow> (Some u1, [FetchPush])
            | Some push \<Rightarrow>
                (let u2 = u1\<lparr>last_push_timestamp := Some (ps_timestamp push)\<rparr>
                 in case check_and_apply_once env (tk_push_cycle tk) of
                      (Inr Applied, acts) \<Rightarrow> (None, FetchPush # acts)
                    | (_, acts) \<Rightarrow> (Some u2, FetchPush # acts))))"

definition need_full :: "tick_obs \<Rightarrow> updater \<Rightarrow> bool" where
  "need_full tk u = elapsed_reached (last_full_check u) (tk_full_gate tk) FULL_CHECK_INTERVAL True"

definition need_deferred_retry :: "tick_obs \<Rightarrow> updater \<Rightarrow> bool" where
  "need_deferred_retry tk u =
     elapsed_reached (last_deferred_retry u) (tk_retry_gate tk) DEFERRED_RETRY_INTERVAL False"

definition scheduled_channel :: "updater_env \<Rightarrow> tick_obs \<Rightarrow> updater \<Rightarrow> updater option \<times> updater_action list" where
  "scheduled_channel env tk u =
     (if \<not> (need_full tk u \<or> need_deferred_retry tk u) then (Some u, [])
      else
        (case check_and_apply_once env (tk_cycle tk) of
           (Inr Applied, acts) \<Rightarrow> (None, acts)
         | (Inr AlreadyLatest, acts) \<Rightarrow>
             (Some (u\<lparr>last_full_check := Some (tk_now tk), last_deferred_retry := None\<rparr>), acts)
         | (Inr Deferred, acts) \<Rightarrow> (Some (u\<lparr>last_deferred_retry := Some (tk_now tk)\<rparr>), acts)
         | (Inl _, acts) \<Rightarrow>
             (Some (u\<lparr>last_full_check := Some (tk_now tk), last_deferred_retry := Some (tk_now2 tk)\<rparr>), acts)))"

definition and_then ::
  "updater option \<times> updater_action list \<Rightarrow> (updater \<Rightarrow> updater option \<times> updater_action list)
     \<Rightarrow> updater option \<times> updater_action list" where
  "and_then x f =
     (case x of (None, acts) \<Rightarrow> (None, acts)
              | (Some u, acts) \<Rightarrow> (let (r, acts') = f u in (r, acts @ acts')))"

definition updater_tick :: "updater_env \<Rightarrow> updater \<Rightarrow> tick_obs \<Rightarrow> updater option \<times> updater_action list" where
  "updater_tick env u tk =
     and_then (and_then (manual_channel env tk u) (push_channel env tk)) (scheduled_channel env tk)"

primrec updater_loop :: "updater_env \<Rightarrow> updater \<Rightarrow> tick_obs list \<Rightarrow> updater option \<times> updater_action list" where
  "updater_loop env u [] = (Some u, [])"
| "updater_loop env u (tk # tks) = and_then (updater_tick env u tk) (\<lambda>u'. updater_loop env u' tks)"

definition start_in_service :: "updater_env \<Rightarrow> tick_obs list \<Rightarrow> updater option \<times> updater_action list" where
  "start_in_service env tks =
     (if ue_incoming_only env then (None, [])
      else updater_loop env
             \<lparr>last_full_check = None, last_deferred_retry = None, last_push_timestamp = None, last_push_poll = None\<rparr> tks)"


section \<open>Lemmas\<close>

text \<open>What a launch promises: the installer of a newer release, checked, and no connection in the own process.\<close>

definition ready_cycle :: "updater_env \<Rightarrow> cycle_obs \<Rightarrow> latest_release \<Rightarrow> bool" where
  "ready_cycle env co rel \<longleftrightarrow>
     fetch_latest env co = Inr rel \<and> is_newer_str (lr_version rel) CHAINREMOTE_VERSION = Inr True \<and> co_own_conns co = 0
   \<and> (\<exists>opened. (co_existing co = Some opened \<or> co_downloaded co = opened \<and> co_download co = Inr ())
        \<and> fst (verify_sha256 (ue_sha256 env) opened (lr_sha256 rel)) = Inr ())"

definition launch_session :: "cycle_obs \<Rightarrow> nat \<Rightarrow> bool" where
  "launch_session co sid \<longleftrightarrow>
     (if co_console co = u32_max then co_service co = Some sid else sid = co_console co)"

fun launched :: "updater_action \<Rightarrow> bool" where
  "launched (LaunchPrivileged _ _ ok) = ok"
| "launched _ = False"

definition launch_count :: "updater_action list \<Rightarrow> nat" where
  "launch_count acts = length (filter launched acts)"

definition fetch_count :: "updater_action list \<Rightarrow> nat" where
  "fetch_count acts = length (filter (\<lambda>a. a = FetchLatest) acts)"

lemma count_simps [simp]:
  "launch_count [] = 0" "launch_count (a # acts) = (if launched a then 1 else 0) + launch_count acts"
  "launch_count (acts @ acts') = launch_count acts + launch_count acts'"
  "fetch_count [] = 0" "fetch_count (a # acts) = (if a = FetchLatest then 1 else 0) + fetch_count acts"
  "fetch_count (acts @ acts') = fetch_count acts + fetch_count acts'"
  by (simp_all add: launch_count_def fetch_count_def)

lemma fetch_count_0: "fetch_count acts = 0 \<longleftrightarrow> FetchLatest \<notin> set acts"
  by (induction acts) auto

lemma obtain_pending_checked:
  "fst (obtain_pending env co rel) = Inr () \<Longrightarrow>
   \<exists>opened. (co_existing co = Some opened \<or> co_downloaded co = opened \<and> co_download co = Inr ())
        \<and> fst (verify_sha256 (ue_sha256 env) opened (lr_sha256 rel)) = Inr ()"
  by (force simp: obtain_pending_def reuse_pending_def fetch_pending_file_def Let_def case_prod_beta
      split: option.splits sum.splits if_splits)

lemma obtain_pending_acts:
  "set (snd (obtain_pending env co rel)) \<subseteq> {DownloadTo (lr_url rel), RemovePending}"
  by (auto simp: obtain_pending_def reuse_pending_def fetch_pending_file_def Let_def case_prod_beta
      split: option.splits sum.splits if_splits)

lemma obtain_pending_counts:
  "launch_count (snd (obtain_pending env co rel)) = 0" "fetch_count (snd (obtain_pending env co rel)) = 0"
  using obtain_pending_acts [of env co rel] by (auto simp: launch_count_def fetch_count_def filter_empty_conv)

lemma spawn_acts:
  "LaunchPrivileged sid cmd ok \<in> set (snd (spawn_silent_install co path)) \<Longrightarrow>
   launch_session co sid \<and> cmd = install_command path"
  by (auto simp: spawn_silent_install_def launch_session_def Let_def split: sum.splits if_splits option.splits)

lemma spawn_counts:
  "fetch_count (snd (spawn_silent_install co path)) = 0"
  "launch_count (snd (spawn_silent_install co path)) = (if fst (spawn_silent_install co path) = Inr () then 1 else 0)"
  by (auto simp: spawn_silent_install_def Let_def split: sum.splits option.splits)

lemma cycle_launch:
  assumes "LaunchPrivileged sid cmd ok \<in> set (snd (check_and_apply_once env co))"
  shows "\<exists>rel. ready_cycle env co rel \<and> launch_session co sid \<and> cmd = install_command pending_file_path"
proof -
  have no: "LaunchPrivileged sid cmd ok \<notin> set acts" if "obtain_pending env co rel = (r, acts)" for r acts rel
    using obtain_pending_acts [of env co rel] that by auto
  obtain rel current new_v u acts where r: "fetch_latest env co = Inr rel" "parse_version CHAINREMOTE_VERSION = Inr current"
    "parse_version (lr_version rel) = Inr new_v" "is_newer new_v current" "obtain_pending env co rel = (Inr u, acts)"
    "co_own_conns co = 0" "LaunchPrivileged sid cmd ok \<in> set (snd (spawn_silent_install co pending_file_path))"
    using assms no by (auto simp: check_and_apply_once_def split: sum.splits if_splits prod.splits)
  then have "is_newer_str (lr_version rel) CHAINREMOTE_VERSION = Inr True"
    unfolding is_newer_str_True by blast
  moreover have "fst (obtain_pending env co rel) = Inr ()"
    using r by simp
  ultimately show ?thesis
    using r spawn_acts [of sid cmd ok co pending_file_path] obtain_pending_checked [of env co rel]
    unfolding ready_cycle_def by blast
qed

lemma cycle_counts:
  "launch_count (snd (check_and_apply_once env co)) = (if fst (check_and_apply_once env co) = Inr Applied then 1 else 0)"
  "fetch_count (snd (check_and_apply_once env co)) = 1"
proof -
  have "launch_count acts = 0 \<and> fetch_count acts = 0" if "obtain_pending env co rel = (r, acts)" for r acts rel
    using obtain_pending_counts [of env co rel] that by simp
  moreover have "fetch_count acts = 0 \<and> launch_count acts = (if r = Inr () then 1 else 0)"
    if "spawn_silent_install co pending_file_path = (r, acts)" for r acts
    using spawn_counts [of co pending_file_path] that by simp
  ultimately show
    "launch_count (snd (check_and_apply_once env co)) = (if fst (check_and_apply_once env co) = Inr Applied then 1 else 0)"
    "fetch_count (snd (check_and_apply_once env co)) = 1"
    by (fastforce simp: check_and_apply_once_def split: sum.splits prod.splits)+
qed

text \<open>Counting through the channels.\<close>

definition ends_with_launch :: "updater option \<times> updater_action list \<Rightarrow> bool" where
  "ends_with_launch x \<longleftrightarrow> launch_count (snd x) = (if fst x = None then 1 else 0)"

lemma and_then_ends:
  "ends_with_launch x \<Longrightarrow> (\<And>u. ends_with_launch (f u)) \<Longrightarrow> ends_with_launch (and_then x f)"
  by (cases x) (auto simp: ends_with_launch_def and_then_def Let_def case_prod_beta split: option.splits)

lemma and_then_set: "set (snd (and_then x f)) \<subseteq> set (snd x) \<union> (\<Union>u. set (snd (f u)))"
  by (cases x) (auto simp: and_then_def Let_def case_prod_beta split: option.splits)

lemma channel_ends:
  "ends_with_launch (manual_channel env tk u)" "ends_with_launch (push_channel env tk u)"
  "ends_with_launch (scheduled_channel env tk u)"
  using cycle_counts(1) [of env "tk_manual_cycle tk"] cycle_counts(1) [of env "tk_push_cycle tk"]
    cycle_counts(1) [of env "tk_cycle tk"]
  by (auto simp: manual_channel_def push_channel_def scheduled_channel_def ends_with_launch_def Let_def
      split: prod.splits sum.splits cycle_result.splits option.splits)

lemma updater_tick_ends: "ends_with_launch (updater_tick env u tk)"
  unfolding updater_tick_def by (intro and_then_ends channel_ends)

lemma updater_loop_ends: "ends_with_launch (updater_loop env u tks)"
proof (induction tks arbitrary: u)
  case Nil
  show ?case by (simp add: ends_with_launch_def)
next
  case (Cons tk tks)
  show ?case unfolding updater_loop.simps by (intro and_then_ends updater_tick_ends Cons.IH)
qed

definition tick_cycles :: "tick_obs \<Rightarrow> cycle_obs set" where
  "tick_cycles tk = {tk_manual_cycle tk, tk_push_cycle tk, tk_cycle tk}"

lemma channel_launch:
  assumes "LaunchPrivileged sid cmd ok \<in> set (snd (manual_channel env tk u))
         \<union> set (snd (push_channel env tk u)) \<union> set (snd (scheduled_channel env tk u))"
  shows "\<exists>co\<in>tick_cycles tk. LaunchPrivileged sid cmd ok \<in> set (snd (check_and_apply_once env co))"
  using assms by (auto simp: manual_channel_def push_channel_def scheduled_channel_def tick_cycles_def Let_def
      split: prod.splits sum.splits cycle_result.splits option.splits if_splits)

lemma updater_tick_launch:
  "LaunchPrivileged sid cmd ok \<in> set (snd (updater_tick env u tk)) \<Longrightarrow>
   \<exists>co\<in>tick_cycles tk. LaunchPrivileged sid cmd ok \<in> set (snd (check_and_apply_once env co))"
proof -
  assume "LaunchPrivileged sid cmd ok \<in> set (snd (updater_tick env u tk))"
  then obtain u1 u2 u3 where "LaunchPrivileged sid cmd ok \<in> set (snd (manual_channel env tk u1))
      \<union> set (snd (push_channel env tk u2)) \<union> set (snd (scheduled_channel env tk u3))"
    unfolding updater_tick_def using and_then_set by blast
  then show ?thesis
    using channel_launch by blast
qed

lemma updater_loop_launch:
  "LaunchPrivileged sid cmd ok \<in> set (snd (updater_loop env u tks)) \<Longrightarrow>
   \<exists>tk\<in>set tks. \<exists>co\<in>tick_cycles tk. LaunchPrivileged sid cmd ok \<in> set (snd (check_and_apply_once env co))"
proof (induction tks arbitrary: u)
  case (Cons tk tks)
  then have "LaunchPrivileged sid cmd ok \<in> set (snd (updater_tick env u tk))
      \<or> (\<exists>u'. LaunchPrivileged sid cmd ok \<in> set (snd (updater_loop env u' tks)))"
    using and_then_set [of "updater_tick env u tk"] by fastforce
  then show ?case
    using Cons.IH updater_tick_launch by fastforce
qed simp

text \<open>Passes that start nothing: no trigger, no new push, neither timer expired.\<close>

definition idle_tick :: "updater \<Rightarrow> tick_obs \<Rightarrow> bool" where
  "idle_tick u tk \<longleftrightarrow> \<not> tk_manual tk \<and> new_push u (tk_push tk) = None \<and> \<not> need_full tk u \<and> \<not> need_deferred_retry tk u"

definition same_timers :: "updater \<Rightarrow> updater \<Rightarrow> bool" where
  "same_timers u u' \<longleftrightarrow> last_full_check u' = last_full_check u \<and> last_deferred_retry u' = last_deferred_retry u
     \<and> last_push_timestamp u' = last_push_timestamp u"

lemma same_timers_cong:
  assumes "same_timers u u'"
  shows "new_push u' x = new_push u x" "need_full tk u' = need_full tk u"
    "need_deferred_retry tk u' = need_deferred_retry tk u" "idle_tick u' tk = idle_tick u tk"
proof -
  show "new_push u' x = new_push u x" for x
    using assms by (cases x) (simp_all add: same_timers_def new_push_def)
  then show "need_full tk u' = need_full tk u" "need_deferred_retry tk u' = need_deferred_retry tk u"
    "idle_tick u' tk = idle_tick u tk"
    using assms by (simp_all add: same_timers_def need_full_def need_deferred_retry_def idle_tick_def)
qed

lemma same_timers_trans: "same_timers u u' \<Longrightarrow> same_timers u' u'' \<Longrightarrow> same_timers u u''"
  by (simp add: same_timers_def)

lemma quiet_push_channel:
  assumes "new_push u (tk_push tk) = None"
  obtains u' acts where "push_channel env tk u = (Some u', acts)" "same_timers u u'" "set acts \<subseteq> {FetchPush}"
proof -
  have "new_push (u\<lparr>last_push_poll := p\<rparr>) (tk_push tk) = None" for p
    using assms by (cases "tk_push tk") (auto simp: new_push_def)
  then show thesis
    using that by (cases "elapsed_reached (last_push_poll u) (tk_push_gate tk) PUSH_POLL_INTERVAL True")
      (auto simp: push_channel_def Let_def same_timers_def)
qed

lemma quiet_tick:
  assumes "\<not> tk_manual tk" "new_push u (tk_push tk) = None"
  obtains u' acts where "same_timers u u'" "set acts \<subseteq> {FetchPush}"
    "updater_tick env u tk = (fst (scheduled_channel env tk u'), acts @ snd (scheduled_channel env tk u'))"
proof -
  obtain u' acts where "push_channel env tk u = (Some u', acts)" "same_timers u u'" "set acts \<subseteq> {FetchPush}"
    using quiet_push_channel [OF assms(2)] by blast
  then show thesis
    using that assms(1) by (simp add: updater_tick_def manual_channel_def and_then_def case_prod_beta Let_def)
qed

lemma idle_tick_nothing:
  assumes "idle_tick u tk"
  obtains u' acts where "updater_tick env u tk = (Some u', acts)" "same_timers u u'" "FetchLatest \<notin> set acts"
proof -
  obtain u' acts where u': "same_timers u u'" "set acts \<subseteq> {FetchPush}"
    "updater_tick env u tk = (fst (scheduled_channel env tk u'), acts @ snd (scheduled_channel env tk u'))"
    using quiet_tick assms unfolding idle_tick_def by metis
  then show thesis
    using that assms same_timers_cong [OF u'(1)] by (auto simp: scheduled_channel_def idle_tick_def)
qed

lemma idle_loop:
  assumes "list_all (idle_tick u) tks"
  obtains u' acts where "updater_loop env u tks = (Some u', acts)" "same_timers u u'" "FetchLatest \<notin> set acts"
  using assms
proof (induction tks arbitrary: u thesis)
  case Nil
  then show ?case by (simp add: same_timers_def)
next
  case (Cons tk tks)
  obtain u1 acts1 where u1: "updater_tick env u tk = (Some u1, acts1)" "same_timers u u1" "FetchLatest \<notin> set acts1"
    using Cons.prems(2) idle_tick_nothing [of u tk env] by auto
  have "list_all (idle_tick u1) tks"
    using Cons.prems(2) same_timers_cong(4) [OF u1(2)] by (simp add: list_all_iff)
  then obtain u2 acts2 where "updater_loop env u1 tks = (Some u2, acts2)" "same_timers u1 u2" "FetchLatest \<notin> set acts2"
    using Cons.IH by blast
  then show ?case
    using u1 Cons.prems(1) [of u2 "acts1 @ acts2"] by (auto simp: and_then_def intro: same_timers_trans)
qed

lemma due_tick_fetches:
  assumes "\<not> tk_manual tk" "new_push u (tk_push tk) = None" "need_full tk u \<or> need_deferred_retry tk u"
  shows "fetch_count (snd (updater_tick env u tk)) = 1"
proof -
  obtain u' acts where u': "same_timers u u'" "set acts \<subseteq> {FetchPush}"
    "updater_tick env u tk = (fst (scheduled_channel env tk u'), acts @ snd (scheduled_channel env tk u'))"
    using quiet_tick [OF assms(1,2)] by metis
  have "snd (scheduled_channel env tk u') = snd (check_and_apply_once env (tk_cycle tk))"
    using assms(3) same_timers_cong [OF u'(1)]
    by (auto simp: scheduled_channel_def split: prod.splits sum.splits cycle_result.splits)
  moreover have "fetch_count acts = 0"
    using u'(2) by (auto simp: fetch_count_0)
  ultimately show ?thesis
    using u'(3) cycle_counts(2) [of env "tk_cycle tk"] by simp
qed

section \<open>Properties\<close>

text \<open>
  C19. Whatever the thread meets, every installer it launches is that of a release newer
  than the running build, named by the manifest of the same cycle, whose pending file had
  the manifest's hash, with the silent command line for the pending file and in the console
  session (the service's own one when there is no console). At most one launch succeeds, and
  it ends the thread; the agent build never starts one. (That the registry of the thread's own
  process is empty as well says nothing about sessions: see \<open>Service_Process\<close>.)
\<close>

theorem updater_launch_guards:
  "(\<forall>sid cmd ok. LaunchPrivileged sid cmd ok \<in> set (snd (start_in_service env tks)) \<longrightarrow>
      \<not> ue_incoming_only env \<and>
      (\<exists>tk\<in>set tks. \<exists>co\<in>{tk_manual_cycle tk, tk_push_cycle tk, tk_cycle tk}. \<exists>rel.
         ready_cycle env co rel \<and> launch_session co sid \<and> cmd = install_command pending_file_path))
   \<and> launch_count (snd (start_in_service env tks)) \<le> 1
   \<and> (launch_count (snd (start_in_service env tks)) = 1
        \<longleftrightarrow> \<not> ue_incoming_only env \<and> fst (start_in_service env tks) = None)"
proof (cases "ue_incoming_only env")
  case False
  let ?u = "\<lparr>last_full_check = None, last_deferred_retry = None, last_push_timestamp = None, last_push_poll = None\<rparr>"
  have "start_in_service env tks = updater_loop env ?u tks"
    using False by (simp add: start_in_service_def)
  moreover have "\<exists>tk\<in>set tks. \<exists>co\<in>tick_cycles tk. \<exists>rel.
      ready_cycle env co rel \<and> launch_session co sid \<and> cmd = install_command pending_file_path"
    if "LaunchPrivileged sid cmd ok \<in> set (snd (updater_loop env ?u tks))" for sid cmd ok
    using updater_loop_launch [OF that] cycle_launch by meson
  ultimately show ?thesis
    using False updater_loop_ends [of env ?u tks] by (auto simp: ends_with_launch_def tick_cycles_def)
qed (simp add: start_in_service_def)

definition sample_release :: latest_release where
  "sample_release = \<lparr>lr_version = target_version sample_push, lr_url = ''u'', lr_sha256 = asset_sha256 sample_push, lr_size = 0,
     lr_released_at = [], lr_notes = []\<rparr>"

definition sample_env :: updater_env where
  "sample_env = \<lparr>ue_sha256 = env_sha256 sample_push_env, ue_parse_dual = (\<lambda>_. None),
     ue_parse_flat = (\<lambda>_. Some sample_release), ue_incoming_only = False\<rparr>"

definition sample_cycle :: "nat \<Rightarrow> cycle_obs" where
  "sample_cycle alive = \<lparr>co_latest = Inr [], co_dir = Inr (), co_existing = None, co_download = Inr (),
     co_downloaded = Some [Some ''MZ''], co_own_conns = alive, co_console = 1, co_service = None, co_launch = Inr False\<rparr>"

definition sample_tick :: "nat \<Rightarrow> nat \<Rightarrow> tick_obs" where
  "sample_tick alive now = \<lparr>tk_manual = False, tk_manual_cycle = sample_cycle alive, tk_manual_now = now,
     tk_push_gate = now, tk_push_now = now, tk_push = None, tk_push_cycle = sample_cycle alive,
     tk_full_gate = now, tk_retry_gate = now, tk_cycle = sample_cycle alive, tk_now = now, tk_now2 = now\<rparr>"

lemmas sample_defs = sample_release_def sample_env_def sample_cycle_def sample_tick_def

lemma sample_cycle_result:
  "check_and_apply_once sample_env (sample_cycle alive) =
     (if alive \<noteq> 0 then (Inr Deferred, [FetchLatest, DownloadTo ''u''])
      else (Inr Applied, [FetchLatest, DownloadTo ''u'', LaunchPrivileged 1 (install_command pending_file_path) True]))"
proof -
  obtain new_v current where "parse_version CHAINREMOTE_VERSION = Inr current"
    "parse_version (target_version sample_push) = Inr new_v" "is_newer new_v current"
    using sample_newer unfolding is_newer_str_True by blast
  moreover have "verify_sha256 (env_sha256 sample_push_env) (Some [Some ''MZ'']) (asset_sha256 sample_push) = (Inr (), False)"
    by (simp add: verify_sha256_def sample_valid_sha sample_hash)
  ultimately show ?thesis
    by (simp add: check_and_apply_once_def fetch_latest_def sample_defs obtain_pending_def reuse_pending_def
        fetch_pending_file_def spawn_silent_install_def)
qed

lemma sample_env_hq [simp]: "\<not> ue_incoming_only sample_env"
  by (simp add: sample_env_def)

theorem updater_launch_guards_witness:
  "snd (start_in_service sample_env [sample_tick 0 1000])
     = [FetchPush, FetchLatest, DownloadTo ''u'', LaunchPrivileged 1 (install_command pending_file_path) True]
   \<and> (\<exists>rel. ready_cycle sample_env (sample_cycle 0) rel) \<and> fst (start_in_service sample_env [sample_tick 0 1000]) = None"
proof -
  have acts: "snd (start_in_service sample_env [sample_tick 0 1000])
     = [FetchPush, FetchLatest, DownloadTo ''u'', LaunchPrivileged 1 (install_command pending_file_path) True]"
    by (simp add: start_in_service_def sample_tick_def updater_tick_def manual_channel_def push_channel_def new_push_def
        scheduled_channel_def need_full_def elapsed_reached_def and_then_def sample_cycle_result)
  show ?thesis
    using updater_launch_guards [of sample_env "[sample_tick 0 1000]"]
    unfolding acts by (auto simp: sample_tick_def)
qed

text \<open>
  Backing off after a failure. When the scheduled cycle of a pass fails, the following
  passes, as long as no trigger and no new push arrives, ask for no manifest until fifteen
  minutes after the failure, and the first pass whose clock shows the fifteen minutes asks
  for exactly one.
\<close>

theorem updater_failure_backoff:
  assumes "need_full tk u \<or> need_deferred_retry tk u"
    and "fst (check_and_apply_once env (tk_cycle tk)) = Inl e"
    and "\<forall>t\<in>set tks. \<not> tk_manual t \<and> new_push u (tk_push t) = None
           \<and> tk_full_gate t < tk_now tk + FULL_CHECK_INTERVAL \<and> tk_retry_gate t < tk_now2 tk + DEFERRED_RETRY_INTERVAL"
    and "\<not> tk_manual t'" "new_push u (tk_push t') = None" "tk_now2 tk + DEFERRED_RETRY_INTERVAL \<le> tk_retry_gate t'"
  shows "\<exists>u1 u2 acts. fst (scheduled_channel env tk u) = Some u1 \<and> updater_loop env u1 tks = (Some u2, acts)
     \<and> FetchLatest \<notin> set acts \<and> fetch_count (snd (updater_tick env u2 t')) = 1"
proof -
  define u1 where "u1 = u\<lparr>last_full_check := Some (tk_now tk), last_deferred_retry := Some (tk_now2 tk)\<rparr>"
  have 1: "fst (scheduled_channel env tk u) = Some u1"
    using assms(1,2) by (auto simp: scheduled_channel_def u1_def split: prod.splits)
  have push: "new_push u1 x = new_push u x" for x
    by (cases x) (simp_all add: new_push_def u1_def)
  have "list_all (idle_tick u1) tks"
    unfolding list_all_iff using assms(3) push
    by (fastforce simp: idle_tick_def need_full_def need_deferred_retry_def elapsed_reached_def u1_def not_le
        FULL_CHECK_INTERVAL_def DEFERRED_RETRY_INTERVAL_def)
  then obtain u2 acts where 2: "updater_loop env u1 tks = (Some u2, acts)" "same_timers u1 u2" "FetchLatest \<notin> set acts"
    by (rule idle_loop)
  have "need_deferred_retry t' u1"
    using assms(6) by (simp add: need_deferred_retry_def elapsed_reached_def u1_def)
  then have "fetch_count (snd (updater_tick env u2 t')) = 1"
    using assms(4,5) push same_timers_cong [OF 2(2)] by (intro due_tick_fetches) auto
  then show ?thesis using 1 2 by blast
qed

definition offline_tick :: "nat \<Rightarrow> tick_obs" where
  "offline_tick now = (sample_tick 0 now)\<lparr>tk_cycle := (sample_cycle 0)\<lparr>co_latest := Inl ''timeout''\<rparr>\<rparr>"

definition fresh_updater :: updater where
  "fresh_updater = \<lparr>last_full_check = None, last_deferred_retry = None, last_push_timestamp = None, last_push_poll = None\<rparr>"

theorem updater_failure_backoff_witness:
  "\<exists>u1 u2 acts. fst (scheduled_channel sample_env (offline_tick 1000) fresh_updater) = Some u1
     \<and> updater_loop sample_env u1 [sample_tick 0 3000, sample_tick 0 5000] = (Some u2, acts)
     \<and> FetchLatest \<notin> set acts \<and> fetch_count (snd (updater_tick sample_env u2 (sample_tick 0 901000))) = 1"
  by (rule updater_failure_backoff [where e = "LatestFailed ''timeout''"])
    (simp_all add: fresh_updater_def need_full_def elapsed_reached_def offline_tick_def sample_tick_def sample_cycle_def
      check_and_apply_once_def fetch_latest_def new_push_def FULL_CHECK_INTERVAL_def DEFERRED_RETRY_INTERVAL_def)

text \<open>
  Deferral before the first completed check. A scheduled cycle that is put off because
  of a registered connection is repeated by every pass of the loop, that is every two seconds, for
  as long as the connection lasts, each pass asking for the manifest once: the fifteen minutes
  announced for the retry do not apply, since the check counts as never made.
\<close>

theorem updater_deferral_repeats:
  assumes "\<forall>t\<in>set tks. \<not> tk_manual t \<and> tk_push t = None \<and> fst (check_and_apply_once env (tk_cycle t)) = Inr Deferred"
    and "last_full_check u = None"
  shows "\<exists>u'. fst (updater_loop env u tks) = Some u' \<and> last_full_check u' = None
     \<and> fetch_count (snd (updater_loop env u tks)) = length tks"
  using assms
proof (induction tks arbitrary: u)
  case (Cons tk tks)
  have q: "\<not> tk_manual tk" "new_push u (tk_push tk) = None" "need_full tk u"
    using Cons.prems by (simp_all add: new_push_def need_full_def elapsed_reached_def)
  obtain u' acts where u': "same_timers u u'"
    "updater_tick env u tk = (fst (scheduled_channel env tk u'), acts @ snd (scheduled_channel env tk u'))"
    using quiet_tick [OF q(1,2)] by metis
  have "need_full tk u'"
    using q(3) same_timers_cong(2) [OF u'(1)] by simp
  then have "fst (updater_tick env u tk) = Some (u'\<lparr>last_deferred_retry := Some (tk_now tk)\<rparr>)"
    using Cons.prems(1) u'(2) by (auto simp: scheduled_channel_def split: prod.splits)
  moreover have "last_full_check (u'\<lparr>last_deferred_retry := Some (tk_now tk)\<rparr>) = None"
    using u'(1) Cons.prems(2) by (simp add: same_timers_def)
  ultimately show ?case
    using Cons.IH [of "u'\<lparr>last_deferred_retry := Some (tk_now tk)\<rparr>"] Cons.prems(1) due_tick_fetches [of tk u env] q
    by (auto simp: and_then_def case_prod_beta Let_def split: option.splits)
qed simp

theorem updater_deferral_repeats_witness:
  "\<exists>u'. fst (updater_loop sample_env fresh_updater [sample_tick 1 1000, sample_tick 1 3000, sample_tick 1 5000]) = Some u'
     \<and> last_full_check u' = None
     \<and> fetch_count (snd (updater_loop sample_env fresh_updater [sample_tick 1 1000, sample_tick 1 3000, sample_tick 1 5000]))
        = length [sample_tick 1 1000, sample_tick 1 3000, sample_tick 1 5000]"
  by (rule updater_deferral_repeats)
    (simp_all add: fresh_updater_def sample_tick_def sample_cycle_result)

text \<open>
  Deferral of a push. A push whose cycle was put off because of a registered connection is
  forgotten: with a completed check less than a day ago and no retry pending, no later pass
  before that day is over tries again while the signal stays the same, connection or not.
\<close>

theorem updater_deferred_push_forgotten:
  assumes "last_full_check u = Some full_at" "last_deferred_retry u = None"
    and "elapsed_reached (last_push_poll u) (tk_push_gate tk) PUSH_POLL_INTERVAL True"
    and "new_push u (tk_push tk) = Some push" "fst (check_and_apply_once env (tk_push_cycle tk)) = Inr Deferred"
    and "\<forall>t\<in>set tks. \<not> tk_manual t \<and> (tk_push t = None \<or> map_option ps_timestamp (tk_push t) = Some (ps_timestamp push))
        \<and> tk_full_gate t < full_at + FULL_CHECK_INTERVAL"
  shows "\<exists>u1 u2 acts. fst (push_channel env tk u) = Some u1 \<and> updater_loop env u1 tks = (Some u2, acts)
     \<and> FetchLatest \<notin> set acts"
proof -
  define u1 where "u1 = u\<lparr>last_push_poll := Some (tk_push_now tk), last_push_timestamp := Some (ps_timestamp push)\<rparr>"
  have "new_push (u\<lparr>last_push_poll := Some (tk_push_now tk)\<rparr>) (tk_push tk) = Some push"
    using assms(4) by (cases "tk_push tk") (simp_all add: new_push_def)
  then have 1: "fst (push_channel env tk u) = Some u1"
    using assms(3,5) by (auto simp: push_channel_def u1_def Let_def split: prod.splits)
  have "list_all (idle_tick u1) tks"
    unfolding list_all_iff using assms(1,2,6)
    by (fastforce simp: idle_tick_def need_full_def need_deferred_retry_def elapsed_reached_def u1_def new_push_def not_le
        FULL_CHECK_INTERVAL_def)
  then show ?thesis
    using 1 by (elim idle_loop [of _ _ env]) blast
qed

definition push_tick_obs :: "nat \<Rightarrow> nat \<Rightarrow> tick_obs" where
  "push_tick_obs alive now =
     (sample_tick alive now)\<lparr>tk_push := Some \<lparr>ps_version = ''1.5.0'', ps_timestamp = ''t1'', ps_notes = []\<rparr>\<rparr>"

theorem updater_deferred_push_forgotten_witness:
  "\<exists>u1 u2 acts. fst (push_channel sample_env (push_tick_obs 1 400000) (fresh_updater\<lparr>last_full_check := Some 1000\<rparr>)) = Some u1
     \<and> updater_loop sample_env u1 [push_tick_obs 0 800000, sample_tick 0 3600000] = (Some u2, acts)
     \<and> FetchLatest \<notin> set acts"
  by (rule updater_deferred_push_forgotten
        [where full_at = 1000 and push = "\<lparr>ps_version = ''1.5.0'', ps_timestamp = ''t1'', ps_notes = []\<rparr>"])
    (simp_all add: fresh_updater_def push_tick_obs_def sample_tick_def sample_cycle_result elapsed_reached_def
      new_push_def FULL_CHECK_INTERVAL_def)

end
