(* ===== verification/Firewall.thy ===== *)
theory Firewall
  imports Prelude
begin

text \<open>
  The firewall watch of the agent, \<open>src/src/chainremote_firewall.rs\<close>: on machines the
  panel selected, a thread looks every five seconds whether Windows switched its firewall
  on again, switches it off, and remembers that for the next report.

  The two statics are the record \<open>firewall\<close>; the registry value that silences the security
  centre is a field of it, because the thread writes it. What a turn of the thread reads
  (the registry keys of the three profiles) and how its commands end is \<open>fw_obs\<close>.
\<close>

record firewall =
  fw_control :: bool
  disarmed_pending :: bool
  disable_notifications :: "nat option"  \<comment> \<open>the policy value, \<open>None\<close> when unset or unreadable\<close>

definition firewall_init :: "nat option \<Rightarrow> firewall" where
  "firewall_init policy = \<lparr>fw_control = False, disarmed_pending = False, disable_notifications = policy\<rparr>"

text \<open>A profile key that opens has the value \<open>EnableFirewall\<close> or not.\<close>

record fw_obs =
  fo_profiles :: "nat option option list"  \<comment> \<open>standard, public, domain; \<open>None\<close>: the key does not open\<close>
  fo_netsh_ok :: bool
  fo_set_policy_ok :: bool
  fo_set_policy_again_ok :: bool

definition CONTROL_CACHE_KEY :: string where "CONTROL_CACHE_KEY = ''chainremote-firewall-control''"

definition set_control :: "'c option_ops \<Rightarrow> bool \<Rightarrow> firewall \<Rightarrow> 'c \<Rightarrow> firewall \<times> 'c" where
  "set_control ops on fw c =
     (let want = (if on then ''Y'' else ''N'')
      in (fw\<lparr>fw_control := on\<rparr>,
          if get_option ops c CONTROL_CACHE_KEY \<noteq> want then set_option ops c CONTROL_CACHE_KEY want else c))"

text \<open>The loop over the profiles, with whether one was readable so far.\<close>

fun firewall_scan :: "bool \<Rightarrow> nat option option list \<Rightarrow> bool option" where
  "firewall_scan readable [] = (if readable then Some False else None)"
| "firewall_scan readable (None # ps) = firewall_scan readable ps"
| "firewall_scan readable (Some v # ps) =
     (if (case v of None \<Rightarrow> 1 | Some n \<Rightarrow> n) = 1 then Some True else firewall_scan True ps)"

definition firewall_state :: "nat option option list \<Rightarrow> bool option" where
  "firewall_state profiles = firewall_scan False profiles"

definition current_enabled :: "nat option option list \<Rightarrow> bool option" where
  "current_enabled profiles = firewall_state profiles"

definition peek_disarmed :: "firewall \<Rightarrow> bool" where
  "peek_disarmed fw = disarmed_pending fw"

definition clear_disarmed :: "firewall \<Rightarrow> firewall" where
  "clear_disarmed fw = fw\<lparr>disarmed_pending := False\<rparr>"

definition ensure_notifications_suppressed :: "bool \<Rightarrow> firewall \<Rightarrow> firewall" where
  "ensure_notifications_suppressed write_ok fw =
     (if disable_notifications fw = Some 1 then fw
      else if write_ok then fw\<lparr>disable_notifications := Some 1\<rparr> else fw)"

text \<open>\<open>start_watch\<close>: the state at boot and one turn of the loop, with whether it ran \<open>netsh\<close>.\<close>

definition fw_start_watch :: "'c option_ops \<Rightarrow> 'c \<Rightarrow> firewall \<Rightarrow> firewall" where
  "fw_start_watch ops c fw = (if get_option ops c CONTROL_CACHE_KEY = ''Y'' then fw\<lparr>fw_control := True\<rparr> else fw)"

definition fw_turn :: "fw_obs \<Rightarrow> firewall \<Rightarrow> firewall \<times> bool" where
  "fw_turn obs fw =
     (if \<not> fw_control fw then (fw, False)
      else
        (let fw1 = ensure_notifications_suppressed (fo_set_policy_ok obs) fw
         in if firewall_state (fo_profiles obs) = Some True then
              (if fo_netsh_ok obs
               then (ensure_notifications_suppressed (fo_set_policy_again_ok obs) (fw1\<lparr>disarmed_pending := True\<rparr>), True)
               else (fw1, True))
            else (fw1, False)))"

section \<open>Lemmas\<close>

text \<open>On when some readable profile is on, the default; unknown when none can be read.\<close>

lemma firewall_scan_outcome:
  "firewall_scan r ps =
     (if \<exists>v. Some v \<in> set ps \<and> v \<in> {None, Some 1} then Some True
      else if r \<or> (\<exists>v. Some v \<in> set ps) then Some False else None)"
  by (induction r ps rule: firewall_scan.induct) (auto split: option.splits)

lemma firewall_state_outcome:
  "firewall_state ps =
     (if Some None \<in> set ps \<or> Some (Some 1) \<in> set ps then Some True
      else if \<exists>v. Some v \<in> set ps then Some False else None)"
  by (auto simp: firewall_state_def firewall_scan_outcome)

lemma ensure_notifications_pending [simp]:
  "disarmed_pending (ensure_notifications_suppressed ok fw) = disarmed_pending fw"
  "fw_control (ensure_notifications_suppressed ok fw) = fw_control fw"
  by (simp_all add: ensure_notifications_suppressed_def)

lemma fw_turn_pending:
  "disarmed_pending (fst (fw_turn obs fw)) \<longleftrightarrow>
     disarmed_pending fw \<or> fw_control fw \<and> firewall_state (fo_profiles obs) = Some True \<and> fo_netsh_ok obs"
  by (auto simp: fw_turn_def Let_def)

lemma set_control_pending [simp]: "disarmed_pending (fst (set_control ops on fw c)) = disarmed_pending fw"
  by (simp add: set_control_def Let_def)

lemma set_control_control [simp]: "fw_control (fst (set_control ops on fw c)) = on"
  by (simp add: set_control_def Let_def)

text \<open>A reboot keeps the watch as the last answer left it.\<close>

context option_store
begin

lemma fw_reboot: "fw_control (fw_start_watch ops (snd (set_control ops on fw c)) (firewall_init p)) = on"
  by (auto simp: fw_start_watch_def set_control_def Let_def firewall_init_def get_set)

end

text \<open>
  The flag as a report latch: the thread's own turns never lower it, only the
  acknowledgement of a report does.
\<close>

interpretation fw_latch: report_latch peek_disarmed clear_disarmed "\<lambda>fw obs. fst (fw_turn obs fw)"
  by unfold_locales (simp_all add: peek_disarmed_def clear_disarmed_def fw_turn_pending)

end
