(* ===== verification/Upnp.thy ===== *)
theory Upnp
  imports Prelude
begin

text \<open>
  Port opening at the router, \<open>src/src/chainremote_upnp.rs\<close>. The module's statics are the
  record \<open>upnp\<close>; the threads it spawns are part of it: openers, each at the point its run
  has reached, and renewers. One step is a heartbeat answer that sets the switch, a move of
  one opener up to its next access of shared state or of the network, the wake-up of one
  renewer, or the end of the survey. What the network answered is part of the step, so
  every interleaving of the threads is a list of steps.
\<close>

section \<open>Texts\<close>

text \<open>\<open>str::find\<close> at a string pattern: the index of the first occurrence.\<close>

fun find_str :: "string \<Rightarrow> string \<Rightarrow> nat option" where
  "find_str pat [] = (if pat = [] then Some 0 else None)"
| "find_str pat (c # s) = (if prefix pat (c # s) then Some 0 else map_option Suc (find_str pat s))"

text \<open>The text after the first occurrence of a pattern.\<close>

definition after_str :: "string \<Rightarrow> string \<Rightarrow> string option" where
  "after_str pat s = map_option (\<lambda>i. drop (i + length pat) s) (find_str pat s)"

definition before_str :: "string \<Rightarrow> string \<Rightarrow> string option" where
  "before_str pat s = map_option (\<lambda>i. take i s) (find_str pat s)"

definition http_scheme :: string where "http_scheme = ''http://''"

definition host_port :: "string \<Rightarrow> string" where
  "host_port rest = takeWhile (\<lambda>c. c \<noteq> CHR ''/'') rest"

definition join_url :: "string \<Rightarrow> string \<Rightarrow> string" where
  "join_url base path =
     (if prefix ''http'' path then path
      else
        (let rest = (case strip_prefix http_scheme base of None \<Rightarrow> base | Some r \<Rightarrow> r);
             hostport = host_port rest
         in if prefix ''/'' path then http_scheme @ hostport @ path else http_scheme @ hostport @ ''/'' @ path))"

definition crlf :: string where "crlf = [CHR 0x0D, CHR 0x0A]"

text \<open>The bytes of a request and the address it goes to; \<open>None\<close> for a foreign scheme.\<close>

definition http_request :: "string \<Rightarrow> string \<Rightarrow> string \<Rightarrow> string option \<Rightarrow> (string \<times> string) option" where
  "http_request url method extra body =
     (case strip_prefix http_scheme url of
        None \<Rightarrow> None
      | Some rest \<Rightarrow>
          (let hostport = host_port rest;
               path = (if CHR ''/'' \<in> set rest then drop (length hostport) rest else ''/'');
               payload = (case body of None \<Rightarrow> [] | Some b \<Rightarrow> b)
           in Some (hostport,
                method @ '' '' @ path @ '' HTTP/1.1'' @ crlf @ ''Host: '' @ hostport @ crlf @ ''Connection: close'' @ crlf
                @ ''Content-Length: '' @ show_nat (length payload) @ crlf @ extra @ crlf @ payload)))"

text \<open>
  The reading loop on the results of its reads (\<open>None\<close> an error): it stops at the end of
  the stream, at an error, and once more than 256 KB have arrived.
\<close>

fun read_response :: "string \<Rightarrow> string option list \<Rightarrow> string" where
  "read_response out [] = out"
| "read_response out (None # rs) = out"
| "read_response out (Some chunk # rs) =
     (if chunk = [] then out
      else if 256 * 1024 < length (out @ chunk) then out @ chunk
      else read_response (out @ chunk) rs)"

text \<open>The first \<open>LOCATION\<close> header with an HTTP address among at most four answers.\<close>

definition location_line :: "string \<Rightarrow> string option" where
  "location_line line =
     (if \<not> prefix ''location:'' (to_ascii_lowercase line) then None
      else case split_once (CHR '':'') line of
        None \<Rightarrow> None
      | Some (_, v) \<Rightarrow> if prefix ''http'' (trim v) then Some (trim v) else None)"

fun first_location :: "string list \<Rightarrow> string option" where
  "first_location [] = None"
| "first_location (l # ls) = (case location_line l of Some v \<Rightarrow> Some v | None \<Rightarrow> first_location ls)"

fun discover_loop :: "nat \<Rightarrow> string option list \<Rightarrow> string option" where
  "discover_loop 0 rs = None"
| "discover_loop (Suc n) [] = None"
| "discover_loop (Suc n) (None # rs) = None"
| "discover_loop (Suc n) (Some text # rs) =
     (case first_location (lines text) of Some v \<Rightarrow> Some v | None \<Rightarrow> discover_loop n rs)"

definition discover :: "string option list \<Rightarrow> string option" where
  "discover answers = discover_loop 4 answers"

definition igd_services :: "string list" where
  "igd_services = [''urn:schemas-upnp-org:service:WANIPConnection:1'', ''urn:schemas-upnp-org:service:WANPPPConnection:1'',
     ''urn:schemas-upnp-org:service:WANIPConnection:2'']"

definition control_of :: "string \<Rightarrow> string \<Rightarrow> string \<Rightarrow> (string \<times> string) option" where
  "control_of location xml service =
     (case find_str service xml of
        None \<Rightarrow> None
      | Some pos \<Rightarrow>
          (case after_str ''<controlURL>'' (drop pos xml) of
             None \<Rightarrow> None
           | Some rest \<Rightarrow>
               (case before_str ''</controlURL>'' rest of
                  None \<Rightarrow> None
                | Some path \<Rightarrow> Some (join_url location (trim path), service))))"

fun first_control :: "string \<Rightarrow> string \<Rightarrow> string list \<Rightarrow> (string \<times> string) option" where
  "first_control location xml [] = None"
| "first_control location xml (s # ss) =
     (case control_of location xml s of Some r \<Rightarrow> Some r | None \<Rightarrow> first_control location xml ss)"

definition control_url :: "string \<Rightarrow> string option \<Rightarrow> (string \<times> string) option" where
  "control_url location answer =
     (case answer of None \<Rightarrow> None | Some xml \<Rightarrow> first_control location xml igd_services)"

definition get_external_ip :: "string option \<Rightarrow> string option" where
  "get_external_ip answer =
     (case answer of
        None \<Rightarrow> None
      | Some resp \<Rightarrow>
          (case after_str ''<NewExternalIPAddress>'' resp of
             None \<Rightarrow> None
           | Some rest \<Rightarrow>
               (case before_str ''</NewExternalIPAddress>'' rest of
                  None \<Rightarrow> None
                | Some t \<Rightarrow> (let ip = trim t in if ip = [] \<or> ip = ''0.0.0.0'' then None else Some ip))))"

definition LEASE_SECS :: nat where "LEASE_SECS = 3600"
definition RENEW_SECS :: nat where "RENEW_SECS = LEASE_SECS div 2"

definition mapping_accepted :: "string option \<Rightarrow> bool" where
  "mapping_accepted answer =
     (case answer of
        Some resp \<Rightarrow> contains_str resp ''AddPortMappingResponse'' \<and> \<not> contains_str resp ''UPnPError''
      | None \<Rightarrow> False)"

definition xml_quote :: string where "xml_quote = [CHR 0x22]"

definition soap_head :: string where
  "soap_head = ''<?xml version='' @ xml_quote @ ''1.0'' @ xml_quote @ ''?><s:Envelope xmlns:s='' @ xml_quote
     @ ''http://schemas.xmlsoap.org/soap/envelope/'' @ xml_quote @ '' s:encodingStyle='' @ xml_quote
     @ ''http://schemas.xmlsoap.org/soap/encoding/'' @ xml_quote @ ''><s:Body>''"

definition add_mapping_body :: "string \<Rightarrow> string \<Rightarrow> nat \<Rightarrow> string" where
  "add_mapping_body service local_ip port =
     soap_head @ ''<u:AddPortMapping xmlns:u='' @ xml_quote @ service @ xml_quote
     @ ''><NewRemoteHost></NewRemoteHost><NewExternalPort>'' @ show_nat port
     @ ''</NewExternalPort><NewProtocol>TCP</NewProtocol><NewInternalPort>'' @ show_nat port
     @ ''</NewInternalPort><NewInternalClient>'' @ local_ip
     @ ''</NewInternalClient><NewEnabled>1</NewEnabled><NewPortMappingDescription>ChainRemote</NewPortMappingDescription>''
     @ ''<NewLeaseDuration>'' @ show_nat LEASE_SECS @ ''</NewLeaseDuration></u:AddPortMapping></s:Body></s:Envelope>''"

section \<open>State\<close>

text \<open>Where an opener is: before the latch, or about to make the call the name says.\<close>

datatype opener =
    AtLatch
  | Discovering
  | ReadingDevice string
  | AskingIp string string
  | FindingLocal string string string
  | Mapping string string string string
  | Storing string string string string

record renewer =
  rn_url :: string
  rn_service :: string
  rn_local :: string
  rn_port :: nat

record upnp =
  up_result :: "string option"
  up_endpoint :: "string option"
  up_enabled :: bool
  up_opened :: bool
  up_direct_server :: string      \<comment> \<open>the option sent to the server process\<close>
  openers :: "opener list"
  renewers :: "renewer list"

definition upnp_init :: upnp where
  "upnp_init = \<lparr>up_result = None, up_endpoint = None, up_enabled = False, up_opened = False, up_direct_server = [],
     openers = [], renewers = []\<rparr>"

definition result_text :: "upnp \<Rightarrow> string" where
  "result_text u = (case up_result u of None \<Rightarrow> [] | Some r \<Rightarrow> r)"

definition endpoint_text :: "upnp \<Rightarrow> string" where
  "endpoint_text u = (case up_endpoint u of None \<Rightarrow> [] | Some e \<Rightarrow> e)"

definition set_enabled :: "bool \<Rightarrow> upnp \<Rightarrow> upnp" where
  "set_enabled on u =
     (if up_enabled u = on then u
      else
        (let u1 = u\<lparr>up_enabled := on, up_direct_server := (if on then ''Y'' else [])\<rparr>
         in if on then u1\<lparr>openers := openers u1 @ [AtLatch]\<rparr>
            else u1\<lparr>up_opened := False, up_endpoint := None\<rparr>))"

section \<open>Threads\<close>

record net_answer =
  na_datagrams :: "string option list"
  na_http :: "string option"
  na_local :: "string option"

text \<open>The survey, from the answers to its three exchanges.\<close>

definition probe :: "string option list \<Rightarrow> string option \<Rightarrow> string option \<Rightarrow> string" where
  "probe datagrams device ip_answer =
     (case discover datagrams of
        None \<Rightarrow> ''no''
      | Some location \<Rightarrow>
          (case control_url location device of
             None \<Rightarrow> ''found''
           | Some _ \<Rightarrow> (case get_external_ip ip_answer of None \<Rightarrow> ''found'' | Some _ \<Rightarrow> ''yes'')))"

definition give_up :: "upnp \<Rightarrow> upnp \<times> opener option" where
  "give_up u = (u\<lparr>up_opened := False\<rparr>, None)"

text \<open>One move of an opener: the shared state, and where it is next (\<open>None\<close>: it ended).\<close>

fun opener_move :: "nat \<Rightarrow> net_answer \<Rightarrow> opener \<Rightarrow> upnp \<Rightarrow> upnp \<times> opener option" where
  "opener_move port na AtLatch u = (if up_opened u then (u, None) else (u\<lparr>up_opened := True\<rparr>, Some Discovering))"
| "opener_move port na Discovering u =
     (case discover (na_datagrams na) of None \<Rightarrow> give_up u | Some location \<Rightarrow> (u, Some (ReadingDevice location)))"
| "opener_move port na (ReadingDevice location) u =
     (case control_url location (na_http na) of None \<Rightarrow> give_up u | Some (url, service) \<Rightarrow> (u, Some (AskingIp url service)))"
| "opener_move port na (AskingIp url service) u =
     (case get_external_ip (na_http na) of None \<Rightarrow> give_up u | Some ip \<Rightarrow> (u, Some (FindingLocal url service ip)))"
| "opener_move port na (FindingLocal url service ip) u =
     (case na_local na of None \<Rightarrow> give_up u | Some local_ip \<Rightarrow> (u, Some (Mapping url service ip local_ip)))"
| "opener_move port na (Mapping url service ip local_ip) u =
     (if mapping_accepted (na_http na) then (u, Some (Storing url service ip local_ip)) else give_up u)"
| "opener_move port na (Storing url service ip local_ip) u =
     (u\<lparr>up_endpoint := Some (ip @ '':'' @ show_nat port),
        renewers := renewers u @ [\<lparr>rn_url = url, rn_service = service, rn_local = local_ip, rn_port = port\<rparr>]\<rparr>, None)"

definition remove_nth :: "nat \<Rightarrow> 'a list \<Rightarrow> 'a list" where
  "remove_nth i xs = take i xs @ drop (Suc i) xs"

text \<open>A port mapping asked of the router: address, service, inner address, port.\<close>

type_synonym mapping_request = "string \<times> string \<times> string \<times> nat"

fun opener_request :: "nat \<Rightarrow> opener \<Rightarrow> mapping_request list" where
  "opener_request port (Mapping url service ip local_ip) = [(url, service, local_ip, port)]"
| "opener_request port _ = []"

datatype upnp_step =
    SetEnabled bool
  | ProbeDone string
  | OpenerMoves nat net_answer
  | RenewerWakes nat

fun upnp_exec :: "nat \<Rightarrow> upnp \<times> mapping_request list \<Rightarrow> upnp_step \<Rightarrow> upnp \<times> mapping_request list" where
  "upnp_exec port (u, rs) (SetEnabled on) = (set_enabled on u, rs)"
| "upnp_exec port (u, rs) (ProbeDone r) = (u\<lparr>up_result := Some r\<rparr>, rs)"
| "upnp_exec port (u, rs) (OpenerMoves i na) =
     (if i < length (openers u) then
        (let o1 = openers u ! i;
             (u1, o2) = opener_move port na o1 u
         in (u1\<lparr>openers := (case o2 of None \<Rightarrow> remove_nth i (openers u) | Some o' \<Rightarrow> (openers u)[i := o'])\<rparr>,
             rs @ opener_request port o1))
      else (u, rs))"
| "upnp_exec port (u, rs) (RenewerWakes i) =
     (if i < length (renewers u) then
        (if \<not> up_enabled u then (u\<lparr>renewers := remove_nth i (renewers u)\<rparr>, rs)
         else (let r = renewers u ! i in (u, rs @ [(rn_url r, rn_service r, rn_local r, rn_port r)])))
      else (u, rs))"


section \<open>Lemmas\<close>

lemma find_str_Some: "find_str pat s = Some i \<Longrightarrow> \<exists>a b. s = a @ pat @ b \<and> length a = i"
proof (induction s arbitrary: i)
  case Nil
  then show ?case by (auto split: if_splits)
next
  case (Cons c s)
  show ?case
  proof (cases "prefix pat (c # s)")
    case True
    with Cons.prems show ?thesis by (auto simp: prefix_def)
  next
    case False
    with Cons.prems obtain j where "find_str pat s = Some j" "i = Suc j" by auto
    with Cons.IH obtain a b where "s = a @ pat @ b" "length a = j" by blast
    then have "c # s = (c # a) @ pat @ b \<and> length (c # a) = i" using \<open>i = Suc j\<close> by simp
    then show ?thesis by blast
  qed
qed

text \<open>What is cut out between two tags stood between them in the answer.\<close>

lemma between_tags:
  "after_str t1 s = Some r \<Longrightarrow> before_str t2 r = Some x \<Longrightarrow> \<exists>a b. s = a @ t1 @ x @ t2 @ b"
  using find_str_Some [of t1 s] find_str_Some [of t2 r] by (force simp: after_str_def before_str_def)

lemma read_response_bound:
  "length out \<le> 256 * 1024 \<Longrightarrow> (\<forall>c. Some c \<in> set rs \<longrightarrow> length c \<le> 4096) \<Longrightarrow>
   length (read_response out rs) \<le> 256 * 1024 + 4096"
  by (induction out rs rule: read_response.induct) auto

text \<open>Requests an opener can still make.\<close>

fun pot :: "opener \<Rightarrow> nat" where
  "pot (Storing _ _ _ _) = 0"
| "pot _ = 1"

definition potential :: "upnp \<Rightarrow> nat" where
  "potential u = sum_list (map pot (openers u))"

lemma potential_le: "potential u \<le> length (openers u)"
proof -
  have "sum_list (map pot os) \<le> length os" for os
  proof (induction os)
    case (Cons o1 os)
    then show ?case by (cases o1) auto
  qed simp
  then show ?thesis unfolding potential_def .
qed

lemma sum_list_at:
  "i < length xs \<Longrightarrow> sum_list (map f (xs[i := y])) + f (xs ! i) = sum_list (map f xs) + (f y :: nat)"
  "i < length xs \<Longrightarrow> sum_list (map f (remove_nth i xs)) + f (xs ! i) = (sum_list (map f xs) :: nat)"
proof -
  assume i: "i < length xs"
  have xs: "xs = take i xs @ xs ! i # drop (Suc i) xs"
    using i by (rule id_take_nth_drop)
  show "sum_list (map f (xs[i := y])) + f (xs ! i) = sum_list (map f xs) + f y"
    by (subst (3) xs, subst upd_conv_take_nth_drop [OF i]) simp
  show "sum_list (map f (remove_nth i xs)) + f (xs ! i) = sum_list (map f xs)"
    by (subst (2) xs) (simp add: remove_nth_def)
qed

lemma opener_move_enabled: "up_enabled (fst (opener_move port na o1 u)) = up_enabled u"
  by (cases o1) (auto simp: give_up_def split: option.splits)

lemma opener_move_pot:
  "length (opener_request port o1) + (case snd (opener_move port na o1 u) of None \<Rightarrow> 0 | Some o' \<Rightarrow> pot o') \<le> pot o1"
  by (cases o1) (auto simp: give_up_def split: option.splits)

fun no_switch_on :: "upnp_step \<Rightarrow> bool" where
  "no_switch_on (SetEnabled on) \<longleftrightarrow> \<not> on"
| "no_switch_on _ \<longleftrightarrow> True"

definition off_inv :: "nat \<Rightarrow> nat \<Rightarrow> upnp \<times> mapping_request list \<Rightarrow> bool" where
  "off_inv N n x = (case x of (u, rs) \<Rightarrow>
     \<not> up_enabled u \<and> length rs + potential u \<le> N \<and> length (openers u) \<le> n \<and> (n = 0 \<longrightarrow> up_endpoint u = None))"

lemma off_inv_step:
  assumes inv: "off_inv N n x" and e: "no_switch_on e"
  shows "off_inv N n (upnp_exec port x e)"
proof (cases e)
  case (OpenerMoves i na)
  obtain u rs where x: "x = (u, rs)" by (cases x)
  show ?thesis
  proof (cases "i < length (openers u)")
    case True
    let ?o = "openers u ! i"
    obtain u1 o2 where m: "opener_move port na ?o u = (u1, o2)" by (cases "opener_move port na ?o u")
    define os where "os = (case o2 of None \<Rightarrow> remove_nth i (openers u) | Some o' \<Rightarrow> (openers u)[i := o'])"
    have pot: "length (opener_request port ?o) + (case o2 of None \<Rightarrow> 0 | Some o' \<Rightarrow> pot o') \<le> pot ?o"
      using opener_move_pot [of port ?o na u] m by simp
    have "sum_list (map pot os) + pot ?o = sum_list (map pot (openers u)) + (case o2 of None \<Rightarrow> 0 | Some o' \<Rightarrow> pot o')"
      using sum_list_at [OF True, of pot] by (simp add: os_def split: option.splits)
    with pot have "length (opener_request port ?o) + sum_list (map pot os) \<le> sum_list (map pot (openers u))"
      by linarith
    moreover have "length os \<le> length (openers u)"
      using True by (simp add: os_def remove_nth_def split: option.splits)
    moreover have "up_enabled u1 = up_enabled u"
      using opener_move_enabled [of port na ?o u] m by simp
    moreover have "upnp_exec port x e = (u1\<lparr>openers := os\<rparr>, rs @ opener_request port ?o)"
      using True by (simp add: x OpenerMoves m Let_def os_def)
    ultimately show ?thesis
      using inv True by (simp add: off_inv_def x potential_def)
  qed (use inv in \<open>simp add: x OpenerMoves\<close>)
qed (use inv e in \<open>auto simp: off_inv_def set_enabled_def potential_def split: prod.splits\<close>)

interpretation off: machine "off_inv N n" "upnp_exec port" no_switch_on "off_inv N n" for N n port
  by unfold_locales (simp_all add: off_inv_step)

text \<open>
  An opening that failed is final: as long as the switch stays on, no heartbeat answer
  starts another opener, and the address stays as it is.
\<close>

fun no_switch_off :: "upnp_step \<Rightarrow> bool" where
  "no_switch_off (SetEnabled on) \<longleftrightarrow> on"
| "no_switch_off _ \<longleftrightarrow> True"

lemma failed_opening_final:
  assumes "up_enabled u" "openers u = []" "list_all no_switch_off es"
  shows "openers (fst (run (upnp_exec port) (u, rs) es)) = []
    \<and> up_endpoint (fst (run (upnp_exec port) (u, rs) es)) = up_endpoint u"
  using assms
proof (induction es arbitrary: u rs)
  case (Cons e es)
  obtain u' rs' where e: "upnp_exec port (u, rs) e = (u', rs')" by (cases "upnp_exec port (u, rs) e")
  have "up_enabled u' \<and> openers u' = [] \<and> up_endpoint u' = up_endpoint u"
    using Cons.prems e by (cases e) (auto simp: set_enabled_def Let_def split: if_splits)
  then show ?case
    using Cons.IH [of u' rs'] Cons.prems e by simp
qed simp

section \<open>Properties\<close>

text \<open>
  The switch closes the door. From a moment with the switch off on, and until it is
  switched on again, whatever the threads do in whatever order, renewers ask the router
  for nothing and each opener still under way asks at most once; with no opener under way
  nothing is asked at all and no address is advertised.
\<close>

theorem upnp_off_bounded:
  assumes "\<not> up_enabled u" "list_all no_switch_on es"
    and "run (upnp_exec port) (u, []) es = (u', requests)"
  shows "\<not> up_enabled u' \<and> length requests \<le> length (openers u)
    \<and> (openers u = [] \<and> up_endpoint u = None \<longrightarrow> requests = [] \<and> up_endpoint u' = None)"
proof -
  have 1: "off_inv (length (openers u)) (Suc (length (openers u))) (u, [])"
    using assms(1) potential_le by (simp add: off_inv_def)
  have "off_inv (length (openers u)) (Suc (length (openers u))) (u', requests)"
    using off.run_from_inv [OF 1 assms(2), of port] assms(3) by simp
  moreover have "off_inv 0 0 (u', requests)" if "openers u = []" "up_endpoint u = None"
  proof -
    have "off_inv 0 0 (u, [])"
      using that assms(1) by (simp add: off_inv_def potential_def)
    then show ?thesis
      using off.run_from_inv [OF _ assms(2), of 0 0 "(u, [])" port] assms(3) by simp
  qed
  ultimately show ?thesis
    by (auto simp: off_inv_def)
qed

definition router_yes :: net_answer where
  "router_yes = \<lparr>na_datagrams = [], na_http = Some ''AddPortMappingResponse'', na_local = Some ''10.0.0.2''\<rparr>"

definition mapping_under_way :: upnp where
  "mapping_under_way = upnp_init\<lparr>openers := [Mapping ''http://10.0.0.1/ctl'' ''svc'' ''1.2.3.4'' ''10.0.0.2''],
     renewers := [\<lparr>rn_url = ''http://10.0.0.1/ctl'', rn_service = ''svc'', rn_local = ''10.0.0.2'', rn_port = 21118\<rparr>]\<rparr>"

theorem upnp_off_bounded_witness:
  "\<not> up_enabled (fst (run (upnp_exec 21118) (mapping_under_way, []) [RenewerWakes 0, OpenerMoves 0 router_yes]))
   \<and> length (snd (run (upnp_exec 21118) (mapping_under_way, []) [RenewerWakes 0, OpenerMoves 0 router_yes])) \<le> 1"
  using upnp_off_bounded [of mapping_under_way "[RenewerWakes 0, OpenerMoves 0 router_yes]" 21118
      "fst (run (upnp_exec 21118) (mapping_under_way, []) [RenewerWakes 0, OpenerMoves 0 router_yes])"
      "snd (run (upnp_exec 21118) (mapping_under_way, []) [RenewerWakes 0, OpenerMoves 0 router_yes])"]
  by (simp add: mapping_under_way_def upnp_init_def del: run_simps upnp_exec.simps)

fun settled_step :: "upnp_step \<Rightarrow> bool" where
  "settled_step (SetEnabled on) \<longleftrightarrow> \<not> on"
| "settled_step (OpenerMoves _ _) \<longleftrightarrow> False"
| "settled_step _ \<longleftrightarrow> True"

text \<open>
  An address that outlives the switch. When the switch goes off while an opener is
  about to store the address it obtained, the address is stored after it was cleared: the
  switch is off, and as long as no other opener is under way every later report carries the
  address, whatever the renewers and later answers with the switch off do.
\<close>

theorem upnp_late_endpoint:
  assumes "up_enabled u" "i < length (openers u)" "openers u ! i = Storing url service ip local_ip"
    and "list_all settled_step es"
  shows "\<not> up_enabled (fst (run (upnp_exec port) (u, rs) (SetEnabled False # OpenerMoves i na # es)))
    \<and> endpoint_text (fst (run (upnp_exec port) (u, rs) (SetEnabled False # OpenerMoves i na # es))) = ip @ '':'' @ show_nat port"
proof -
  have stay: "\<not> up_enabled (fst (run (upnp_exec port) (v, qs) es)) \<and> up_endpoint (fst (run (upnp_exec port) (v, qs) es)) = up_endpoint v"
    if "\<not> up_enabled v" for v qs
    using that assms(4)
  proof (induction es arbitrary: v qs)
    case (Cons e es)
    obtain v' qs' where e: "upnp_exec port (v, qs) e = (v', qs')" by (cases "upnp_exec port (v, qs) e")
    have "\<not> up_enabled v' \<and> up_endpoint v' = up_endpoint v"
      using Cons.prems e by (cases e) (auto simp: set_enabled_def Let_def split: if_splits)
    then show ?case
      using Cons.IH [of v' qs'] Cons.prems e by simp
  qed simp
  obtain v qs where v: "run (upnp_exec port) (u, rs) [SetEnabled False, OpenerMoves i na] = (v, qs)"
    by (cases "run (upnp_exec port) (u, rs) [SetEnabled False, OpenerMoves i na]")
  then have "\<not> up_enabled v \<and> up_endpoint v = Some (ip @ '':'' @ show_nat port)"
    using assms(1-3) by (auto simp: set_enabled_def Let_def split: if_splits)
  moreover have "run (upnp_exec port) (u, rs) (SetEnabled False # OpenerMoves i na # es) = run (upnp_exec port) (v, qs) es"
    using v by simp
  ultimately show ?thesis
    using stay [of v qs] by (simp add: endpoint_text_def)
qed

definition about_to_store :: upnp where
  "about_to_store = upnp_init\<lparr>up_enabled := True, up_opened := True,
     openers := [Storing ''http://10.0.0.1/ctl'' ''svc'' ''1.2.3.4'' ''10.0.0.2'']\<rparr>"

theorem upnp_late_endpoint_witness:
  "\<not> up_enabled (fst (run (upnp_exec 21118) (about_to_store, []) [SetEnabled False, OpenerMoves 0 router_yes, SetEnabled False, RenewerWakes 0]))
    \<and> endpoint_text (fst (run (upnp_exec 21118) (about_to_store, []) [SetEnabled False, OpenerMoves 0 router_yes, SetEnabled False, RenewerWakes 0]))
      = ''1.2.3.4'' @ '':'' @ show_nat 21118"
  by (rule upnp_late_endpoint) (simp_all add: about_to_store_def upnp_init_def)

end
