(* ===== verification/Heartbeat.thy ===== *)
theory Heartbeat
  imports Sched Van Firewall Upnp Push_Agent
begin

text \<open>
  The heartbeat of the agent, \<open>src/src/chainremote_heartbeat.rs\<close>: a loop that reports the
  machine's state to the panel, obtains and renews its token, and carries out what the
  answer orders. It drives the firewall watch, the payment daemon watch, the port opening
  and the scheduled access of the other theories, whose states are fields of \<open>agent\<close>.

  What one transmission reads from the machine and gets from the network is \<open>send_obs\<close>;
  \<open>beat_body\<close> is the JSON object it sends, an absent field as \<open>None\<close>. The option store,
  the marker's parser and the text of a cleanup result (\<open>serde_json\<close>) are parameters.
\<close>

section \<open>Data\<close>

definition HEARTBEAT_INTERVAL :: nat where "HEARTBEAT_INTERVAL = 60 * 10"
definition SCHED_INTERVAL :: nat where "SCHED_INTERVAL = 60"
definition NAP_SLICE :: nat where "NAP_SLICE = 10"
definition CLEANUP_DONE_KEY :: string where "CLEANUP_DONE_KEY = ''chainremote-cleanup-done''"
definition SCHED_CLOSE_DONE_KEY :: string where "SCHED_CLOSE_DONE_KEY = ''chainremote-sched-close-done''"
definition CLEANUP_RESULT_KEY :: string where "CLEANUP_RESULT_KEY = ''chainremote-cleanup-result''"
definition AUTOCLEAN_AT_KEY :: string where "AUTOCLEAN_AT_KEY = ''chainremote-autoclean-at''"
definition AUTO_CLEAN_THRESHOLD :: nat where "AUTO_CLEAN_THRESHOLD = 5 * 1024 * 1024 * 1024"
definition AUTO_CLEAN_MIN_INTERVAL_SECS :: nat where "AUTO_CLEAN_MIN_INTERVAL_SECS = 24 * 3600"
definition LOW_BYTES :: nat where "LOW_BYTES = 20 * 1024 * 1024 * 1024"
definition REMEASURE_SECS :: nat where "REMEASURE_SECS = 6 * 3600"
definition TOP_N :: nat where "TOP_N = 8"
definition MIN_REPORT_BYTES :: nat where "MIN_REPORT_BYTES = 200 * 1024 * 1024"

lemmas hb_keys = CLEANUP_DONE_KEY_def SCHED_CLOSE_DONE_KEY_def CLEANUP_RESULT_KEY_def AUTOCLEAN_AT_KEY_def
  TOKEN_KEY_def CONTROL_CACHE_KEY_def KIND_CACHE_KEY_def

lemma hb_keys_distinct [simp]:
  "CLEANUP_DONE_KEY \<noteq> CLEANUP_RESULT_KEY" "CLEANUP_DONE_KEY \<noteq> SCHED_CLOSE_DONE_KEY" "CLEANUP_DONE_KEY \<noteq> AUTOCLEAN_AT_KEY"
  "CLEANUP_DONE_KEY \<noteq> TOKEN_KEY" "CLEANUP_DONE_KEY \<noteq> CONTROL_CACHE_KEY" "CLEANUP_DONE_KEY \<noteq> KIND_CACHE_KEY"
  "CONTROL_CACHE_KEY \<noteq> KIND_CACHE_KEY" "CONTROL_CACHE_KEY \<noteq> SCHED_CLOSE_DONE_KEY" "KIND_CACHE_KEY \<noteq> SCHED_CLOSE_DONE_KEY"
  by (simp_all add: hb_keys)

record ('c, 'f) agent =
  ag_store :: 'c
  ag_fw :: firewall
  ag_van :: van_state
  ag_upnp :: upnp
  ag_sched :: "'f marker"
  ag_support_name :: "string option"
  sched_just_cleared :: bool
  temp_measured_at :: nat
  temp_measured_val :: nat      \<comment> \<open>\<open>u64::MAX\<close> before the first measurement\<close>
  topdirs_measured_at :: nat

record beat_resp =
  br_cleanup :: string
  br_firewall_control :: bool
  br_van_watch :: string
  br_support_name :: string
  br_upnp_enabled :: bool
  br_sched_close :: string

definition default_resp :: beat_resp where
  "default_resp = \<lparr>br_cleanup = [], br_firewall_control = False, br_van_watch = [], br_support_name = [],
     br_upnp_enabled = False, br_sched_close = []\<rparr>"

record os_obs =
  oo_process_x64 :: bool
  oo_wow64 :: bool                                    \<comment> \<open>\<open>PROCESSOR_ARCHITEW6432\<close> is set\<close>
  oo_registry :: "(string option \<times> string option) option"  \<comment> \<open>product name, build number\<close>

record send_obs =
  so_os :: os_obs
  so_machine_uuid :: string
  so_nat_type :: int
  so_disk :: "(nat \<times> nat) option"
  so_temp_now :: "nat option"
  so_temp_total :: nat
  so_temp_done :: nat
  so_top_now :: "nat option"
  so_top_scanned :: "(string \<times> nat) list"
  so_profiles :: "nat option option list"
  so_sched_now :: int
  so_response :: "string + nat \<times> beat_resp option"    \<comment> \<open>status and the parsed body\<close>
  so_support_write_ok :: bool

record beat_body =
  bb_remote_id :: string
  bb_version :: string
  bb_arch :: string
  bb_os :: string
  bb_os_bits :: string
  bb_machine_uuid :: string
  bb_nat_type :: int
  bb_upnp :: "string option"
  bb_upnp_endpoint :: string
  bb_disk :: "(nat \<times> nat) option"
  bb_temp_bytes :: "nat option"
  bb_top_dirs :: "(string \<times> nat) list option"
  bb_cleanup_result :: "string option"
  bb_firewall_enabled :: "bool option"
  bb_firewall_disarmed :: "bool option"
  bb_van_ok :: "bool option option"                   \<comment> \<open>\<open>Some None\<close> is an explicit null\<close>
  bb_van_gave_up :: "bool option"
  bb_van_missing :: "bool option"
  bb_van_restarted :: "bool option"
  bb_sched_open_until :: "int option"

datatype beat_outcome = BeatOk "string option" | AuthRejected

datatype hb_action =
    Sent string beat_body bool     \<comment> \<open>token, body, whether the server took it\<close>
  | RunCleanup bool                \<comment> \<open>with the recycle bin\<close>
  | AcquireToken

section \<open>What a report says of the machine\<close>

definition read_customer_name :: "string option list \<Rightarrow> string \<Rightarrow> string" where
  "read_customer_name views fallback =
     (case find (\<lambda>t. t \<noteq> []) (map trim (List.map_filter (\<lambda>v. v) views)) of Some t \<Rightarrow> t | None \<Rightarrow> fallback)"

definition os_label :: "string \<Rightarrow> nat \<Rightarrow> string option" where
  "os_label product build =
     (if 22000 \<le> build then Some ''Windows 11''
      else if contains_str product ''Windows 7'' then Some ''Windows 7''
      else if contains_str product ''Windows 8.1'' then Some ''Windows 8.1''
      else if contains_str product ''Windows 8'' then Some ''Windows 8''
      else if contains_str product ''Windows 10'' then Some ''Windows 10''
      else if trim product = [] then None else Some (trim product))"

definition read_os_info :: "os_obs \<Rightarrow> string \<times> string" where
  "read_os_info oo =
     ((case oo_registry oo of
         None \<Rightarrow> []
       | Some (product, build) \<Rightarrow>
           (let p = (case product of None \<Rightarrow> [] | Some p \<Rightarrow> p);
                b = (case build of None \<Rightarrow> 0 | Some s \<Rightarrow> (case parse_uint u32_max (trim s) of None \<Rightarrow> 0 | Some n \<Rightarrow> n))
            in case os_label p b of None \<Rightarrow> [] | Some l \<Rightarrow> l)),
      if oo_process_x64 oo \<or> oo_wow64 oo then ''x64'' else ''x86'')"

definition remeasure_temp_now :: "nat \<Rightarrow> nat \<Rightarrow> ('c, 'f) agent \<Rightarrow> nat \<times> ('c, 'f) agent" where
  "remeasure_temp_now now measured a = (measured, a\<lparr>temp_measured_at := now, temp_measured_val := measured\<rparr>)"

definition measured_temp_bytes :: "send_obs \<Rightarrow> nat \<Rightarrow> ('c, 'f) agent \<Rightarrow> nat option \<times> ('c, 'f) agent" where
  "measured_temp_bytes so disk_free a =
     (case so_temp_now so of
        None \<Rightarrow> (None, a)
      | Some now \<Rightarrow>
          (let since = temp_measured_at a
           in if disk_free < LOW_BYTES \<and> (since = 0 \<or> REMEASURE_SECS \<le> now - since)
              then (let (v, a') = remeasure_temp_now (so_temp_done so) (so_temp_total so) a in (Some v, a'))
              else (if temp_measured_val a \<noteq> u64_max then Some (temp_measured_val a) else None, a)))"

text \<open>The largest folders first, small ones left out.\<close>

definition rank_dirs :: "(string \<times> nat) list \<Rightarrow> (string \<times> nat) list" where
  "rank_dirs scanned = take TOP_N (sort_key (\<lambda>p. - int (snd p)) (filter (\<lambda>p. MIN_REPORT_BYTES \<le> snd p) scanned))"

definition measured_top_dirs :: "send_obs \<Rightarrow> nat \<Rightarrow> ('c, 'f) agent \<Rightarrow> (string \<times> nat) list option \<times> ('c, 'f) agent" where
  "measured_top_dirs so disk_free a =
     (case so_top_now so of
        None \<Rightarrow> (None, a)
      | Some now \<Rightarrow>
          (let since = topdirs_measured_at a
           in if LOW_BYTES \<le> disk_free \<or> (since \<noteq> 0 \<and> now - since < REMEASURE_SECS) then (None, a)
              else
                (let found = rank_dirs (so_top_scanned so)
                 in (if found = [] then None else Some found, a\<lparr>topdirs_measured_at := now\<rparr>))))"

definition van_fields :: "van_state \<Rightarrow> bool option option \<times> bool option \<times> bool option" where
  "van_fields v =
     (case current_ok v of
        Some ok \<Rightarrow> (Some (Some ok), Some (gave_up v), Some (not_installed v))
      | None \<Rightarrow> if is_on v then (Some None, Some False, Some False) else (None, None, None))"

section \<open>Transmission\<close>

text \<open>The first half: the body, with the caches the measurements fill.\<close>

definition prepare_beat ::
  "('f \<Rightarrow> sched_window option) \<Rightarrow> send_obs \<Rightarrow> string \<Rightarrow> string \<Rightarrow> string option \<Rightarrow> ('c, 'f) agent
     \<Rightarrow> beat_body \<times> ('c, 'f) agent" where
  "prepare_beat dec so remote_id version cleanup_result a =
     (let (os, os_bits) = read_os_info (so_os so);
          upnp_text = result_text (ag_upnp a);
          (temp, a1) = (case so_disk so of None \<Rightarrow> (None, a) | Some (_, free) \<Rightarrow> measured_temp_bytes so free a);
          (tops, a2) = (case so_disk so of None \<Rightarrow> (None, a1) | Some (_, free) \<Rightarrow> measured_top_dirs so free a1);
          regular = (cleanup_result = None);
          disarmed = (regular \<and> peek_disarmed (ag_fw a2));
          restarted = (regular \<and> restarted_pending (ag_van a2));
          (v_ok, v_gave_up, v_missing) = (if regular then van_fields (ag_van a2) else (None, None, None));
          (w, marker) = (if regular then status dec (so_sched_now so) (ag_sched a2) else (None, ag_sched a2))
      in (\<lparr>bb_remote_id = remote_id, bb_version = version, bb_arch = (if oo_process_x64 (so_os so) then ''x64'' else ''x86''),
           bb_os = os, bb_os_bits = os_bits, bb_machine_uuid = so_machine_uuid so, bb_nat_type = so_nat_type so,
           bb_upnp = (if upnp_text \<noteq> [] then Some upnp_text else None), bb_upnp_endpoint = endpoint_text (ag_upnp a2),
           bb_disk = so_disk so, bb_temp_bytes = temp, bb_top_dirs = tops, bb_cleanup_result = cleanup_result,
           bb_firewall_enabled = (if regular then current_enabled (so_profiles so) else None),
           bb_firewall_disarmed = (if disarmed then Some True else None),
           bb_van_ok = v_ok, bb_van_gave_up = v_gave_up, bb_van_missing = v_missing,
           bb_van_restarted = (if restarted then Some True else None),
           bb_sched_open_until = (if regular then Some (case w of None \<Rightarrow> 0 | Some w \<Rightarrow> sw_end w) else None)\<rparr>,
          a2\<lparr>ag_sched := marker\<rparr>))"

definition handle_sched_close :: "'c option_ops \<Rightarrow> string \<Rightarrow> ('c, 'f) agent \<Rightarrow> ('c, 'f) agent" where
  "handle_sched_close ops requested_at a =
     (if get_option ops (ag_store a) SCHED_CLOSE_DONE_KEY = requested_at then a
      else a\<lparr>ag_sched := sched_clear, sched_just_cleared := True,
             ag_store := set_option ops (ag_store a) SCHED_CLOSE_DONE_KEY requested_at\<rparr>)"

definition read_support_name :: "string option \<Rightarrow> string" where
  "read_support_name content = (case content of None \<Rightarrow> [] | Some s \<Rightarrow> trim s)"

text \<open>What an accepted transmission does with the answer, in the order of the code.\<close>

definition apply_answer ::
  "'c option_ops \<Rightarrow> bool \<Rightarrow> beat_body \<Rightarrow> beat_resp \<Rightarrow> ('c, 'f) agent \<Rightarrow> ('c, 'f) agent" where
  "apply_answer ops write_ok body parsed a =
     (let (fw, c1) = set_control ops (br_firewall_control parsed) (ag_fw a) (ag_store a);
          (van, c2) = set_kind ops (br_van_watch parsed) (ag_van a) c1;
          a1 = a\<lparr>ag_fw := fw, ag_van := van, ag_store := c2, ag_upnp := set_enabled (br_upnp_enabled parsed) (ag_upnp a)\<rparr>;
          a2 = (if br_sched_close parsed \<noteq> [] then handle_sched_close ops (br_sched_close parsed) a1 else a1);
          a3 = (if br_support_name parsed \<noteq> [] \<and> read_support_name (ag_support_name a2) \<noteq> br_support_name parsed \<and> write_ok
                then a2\<lparr>ag_support_name := Some (br_support_name parsed)\<rparr> else a2);
          a4 = (if bb_firewall_disarmed body = Some True then a3\<lparr>ag_fw := clear_disarmed (ag_fw a3)\<rparr> else a3)
      in if bb_van_restarted body = Some True then a4\<lparr>ag_van := clear_restarted (ag_van a4)\<rparr> else a4)"

definition is_success :: "nat \<Rightarrow> bool" where
  "is_success code \<longleftrightarrow> 200 \<le> code \<and> code < 300"

definition finish_beat ::
  "'c option_ops \<Rightarrow> send_obs \<Rightarrow> beat_body \<Rightarrow> ('c, 'f) agent \<Rightarrow> (string + beat_outcome) \<times> ('c, 'f) agent" where
  "finish_beat ops so body a =
     (case so_response so of
        Inl e \<Rightarrow> (Inl e, a)
      | Inr (code, answer) \<Rightarrow>
          if is_success code then
            (let parsed = (case answer of None \<Rightarrow> default_resp | Some r \<Rightarrow> r)
             in (Inr (BeatOk (if br_cleanup parsed \<noteq> [] then Some (br_cleanup parsed) else None)),
                 apply_answer ops (so_support_write_ok so) body parsed a))
          else if code = 401 \<or> code = 403 then (Inr AuthRejected, a)
          else (Inl (''heartbeat HTTP '' @ show_nat code), a))"

definition accepted :: "send_obs \<Rightarrow> bool" where
  "accepted so = (case so_response so of Inl _ \<Rightarrow> False | Inr (code, _) \<Rightarrow> is_success code)"

definition send_heartbeat ::
  "'c option_ops \<Rightarrow> ('f \<Rightarrow> sched_window option) \<Rightarrow> send_obs \<Rightarrow> string \<Rightarrow> string \<Rightarrow> string \<Rightarrow> string option
     \<Rightarrow> ('c, 'f) agent \<Rightarrow> (string + beat_outcome) \<times> ('c, 'f) agent \<times> hb_action list" where
  "send_heartbeat ops dec so remote_id token version cleanup_result a =
     (let (body, a1) = prepare_beat dec so remote_id version cleanup_result a;
          (r, a2) = finish_beat ops so body a1
      in (r, a2, [Sent token body (accepted so)]))"

section \<open>Cleaning the disk\<close>

text \<open>
  A directory tree as the cleanup meets it: a file with its length, modification time
  (\<open>None\<close> when unknown) and whether it can be removed; a directory with whether it can be
  listed; an entry whose metadata cannot be read. Sums of file lengths of one disk stay
  far below the width of \<open>u64\<close> and are natural numbers here.
\<close>

datatype fs_entry =
    FsFile nat "nat option" bool
  | FsDir bool "fs_entry list"
  | FsBroken

text \<open>What is left of an entry, and the freed bytes, deleted files and skipped entries.\<close>

type_synonym clean_counts = "nat \<times> nat \<times> nat"

fun add_counts :: "clean_counts \<Rightarrow> clean_counts \<Rightarrow> clean_counts" where
  "add_counts (a, b, c) (a', b', c') = (a + a', b + b', c + c')"

fun clean_entry :: "nat \<Rightarrow> nat \<Rightarrow> fs_entry \<Rightarrow> fs_entry list \<times> clean_counts"
  and clean_entries :: "nat \<Rightarrow> nat \<Rightarrow> fs_entry list \<Rightarrow> fs_entry list \<times> clean_counts" where
  "clean_entry cutoff depth (FsFile len modified removable) =
     (if (case modified of None \<Rightarrow> True | Some m \<Rightarrow> cutoff \<le> m) then ([FsFile len modified removable], (0, 0, 1))
      else if removable then ([], (len, 1, 0))
      else ([FsFile len modified removable], (0, 0, 1)))"
| "clean_entry cutoff depth (FsDir readable entries) =
     (if 16 < Suc depth \<or> \<not> readable
      then (if entries = [] then [] else [FsDir readable entries], (0, 0, 0))
      else (let (rest, counts) = clean_entries cutoff (Suc depth) entries
            in (if rest = [] then [] else [FsDir readable rest], counts)))"
| "clean_entry cutoff depth FsBroken = ([FsBroken], (0, 0, 1))"
| "clean_entries cutoff depth [] = ([], (0, 0, 0))"
| "clean_entries cutoff depth (e # es) =
     (let (rest, counts) = clean_entry cutoff depth e; (rest', counts') = clean_entries cutoff depth es
      in (rest @ rest', add_counts counts counts'))"

text \<open>All temporary directories, then the recycle bin (its size and items when they can be asked).\<close>

fun clean_all :: "nat \<Rightarrow> fs_entry list list \<Rightarrow> fs_entry list list \<times> clean_counts" where
  "clean_all cutoff [] = ([], (0, 0, 0))"
| "clean_all cutoff (d # ds) =
     (let (rest, counts) = clean_entries cutoff 0 d; (rests, counts') = clean_all cutoff ds
      in (rest # rests, add_counts counts counts'))"

definition run_disk_cleanup ::
  "nat \<Rightarrow> fs_entry list list \<Rightarrow> (nat \<times> nat) option \<Rightarrow> bool \<Rightarrow> fs_entry list list \<times> clean_counts" where
  "run_disk_cleanup now dirs bin include_recycle_bin =
     (let (rests, counts) = clean_all (now - 3600) dirs
      in (rests,
          if include_recycle_bin
          then (case bin of None \<Rightarrow> counts | Some (bytes, items) \<Rightarrow> add_counts counts (bytes, items, 0))
          else counts))"

section \<open>Commands\<close>

record cleanup_obs =
  cu_now :: nat
  cu_dirs :: "fs_entry list list"
  cu_bin :: "(nat \<times> nat) option"
  cu_temp_done :: nat
  cu_temp_total :: nat
  cu_at :: string
  cu_send :: send_obs

definition handle_cleanup_request ::
  "'c option_ops \<Rightarrow> ('f \<Rightarrow> sched_window option) \<Rightarrow> (bool \<Rightarrow> clean_counts \<Rightarrow> string \<Rightarrow> string) \<Rightarrow> cleanup_obs
     \<Rightarrow> string \<Rightarrow> string \<Rightarrow> string \<Rightarrow> ('c, 'f) agent \<Rightarrow> ('c, 'f) agent \<times> hb_action list" where
  "handle_cleanup_request ops dec json cu remote_id token requested_at a =
     (if get_option ops (ag_store a) CLEANUP_DONE_KEY = requested_at then
        (let stored = get_option ops (ag_store a) CLEANUP_RESULT_KEY
         in if stored \<noteq> []
            then (let (_, a', acts) = send_heartbeat ops dec (cu_send cu) remote_id token CHAINREMOTE_VERSION (Some stored) a
                  in (a', acts))
            else (a, []))
      else
        (let (_, counts) = run_disk_cleanup (cu_now cu) (cu_dirs cu) (cu_bin cu) True;
             (_, a1) = remeasure_temp_now (cu_temp_done cu) (cu_temp_total cu) a;
             result = json False counts (cu_at cu);
             c1 = set_option ops (ag_store a1) CLEANUP_DONE_KEY requested_at;
             a2 = a1\<lparr>ag_store := set_option ops c1 CLEANUP_RESULT_KEY result\<rparr>;
             (_, a3, acts) = send_heartbeat ops dec (cu_send cu) remote_id token CHAINREMOTE_VERSION (Some result) a2
         in (a3, RunCleanup True # acts)))"

record auto_obs =
  au_disk :: "(nat \<times> nat) option"
  au_now :: "nat option"
  au_cleanup :: cleanup_obs

definition maybe_auto_cleanup ::
  "'c option_ops \<Rightarrow> ('f \<Rightarrow> sched_window option) \<Rightarrow> (bool \<Rightarrow> clean_counts \<Rightarrow> string \<Rightarrow> string) \<Rightarrow> auto_obs
     \<Rightarrow> string \<Rightarrow> string \<Rightarrow> ('c, 'f) agent \<Rightarrow> ('c, 'f) agent \<times> hb_action list" where
  "maybe_auto_cleanup ops dec json au remote_id token a =
     (case (au_disk au, au_now au) of
        (Some (_, free), Some now) \<Rightarrow>
          (let since = (case parse_uint u64_max (get_option ops (ag_store a) AUTOCLEAN_AT_KEY) of None \<Rightarrow> 0 | Some t \<Rightarrow> t);
               cu = au_cleanup au
           in if AUTO_CLEAN_THRESHOLD \<le> free \<or> now - since < AUTO_CLEAN_MIN_INTERVAL_SECS then (a, [])
              else
                (let a1 = a\<lparr>ag_store := set_option ops (ag_store a) AUTOCLEAN_AT_KEY (show_nat now)\<rparr>;
                     (_, counts) = run_disk_cleanup (cu_now cu) (cu_dirs cu) (cu_bin cu) False;
                     (_, a2) = remeasure_temp_now (cu_temp_done cu) (cu_temp_total cu) a1;
                     result = json True counts (cu_at cu);
                     a3 = a2\<lparr>ag_store := set_option ops (ag_store a2) CLEANUP_RESULT_KEY result\<rparr>;
                     (_, a4, acts) = send_heartbeat ops dec (cu_send cu) remote_id token CHAINREMOTE_VERSION (Some result) a3
                 in (a4, RunCleanup False # acts)))
      | _ \<Rightarrow> (a, []))"

section \<open>One tick\<close>

record hb_obs =
  ho_remote_id :: string
  ho_slug :: string
  ho_enroll_key :: string
  ho_enroll :: "string + string"
  ho_register :: "string + string"
  ho_send :: send_obs
  ho_enroll_again :: "string + string"
  ho_register_again :: "string + string"
  ho_send_again :: send_obs
  ho_cleanup :: cleanup_obs
  ho_auto :: auto_obs

text \<open>The machine enrols itself when its installer named a tenant, else it registers.\<close>

definition acquire_token :: "string \<Rightarrow> string \<Rightarrow> string + string \<Rightarrow> string + string \<Rightarrow> string + string" where
  "acquire_token slug key enroll register = (if slug \<noteq> [] \<and> key \<noteq> [] then enroll else register)"

definition after_beat ::
  "'c option_ops \<Rightarrow> ('f \<Rightarrow> sched_window option) \<Rightarrow> (bool \<Rightarrow> clean_counts \<Rightarrow> string \<Rightarrow> string) \<Rightarrow> hb_obs \<Rightarrow> string
     \<Rightarrow> string option \<Rightarrow> ('c, 'f) agent \<Rightarrow> ('c, 'f) agent \<times> hb_action list" where
  "after_beat ops dec json ho token cleanup a =
     (let (a1, acts1) = (case cleanup of
            None \<Rightarrow> (a, [])
          | Some req \<Rightarrow> handle_cleanup_request ops dec json (ho_cleanup ho) (ho_remote_id ho) token req a);
          (a2, acts2) = maybe_auto_cleanup ops dec json (ho_auto ho) (ho_remote_id ho) token a1
      in (a2, acts1 @ acts2))"

definition retry_beat ::
  "'c option_ops \<Rightarrow> ('f \<Rightarrow> sched_window option) \<Rightarrow> (bool \<Rightarrow> clean_counts \<Rightarrow> string \<Rightarrow> string) \<Rightarrow> hb_obs
     \<Rightarrow> ('c, 'f) agent \<Rightarrow> (string + unit) \<times> ('c, 'f) agent \<times> hb_action list" where
  "retry_beat ops dec json ho a =
     (let a1 = a\<lparr>ag_store := set_option ops (ag_store a) TOKEN_KEY []\<rparr>
      in case acquire_token (ho_slug ho) (ho_enroll_key ho) (ho_enroll_again ho) (ho_register_again ho) of
           Inl e \<Rightarrow> (Inl e, a1, [AcquireToken])
         | Inr fresh \<Rightarrow>
             (let a2 = a1\<lparr>ag_store := set_option ops (ag_store a1) TOKEN_KEY fresh\<rparr>;
                  (r, a3, acts) = send_heartbeat ops dec (ho_send_again ho) (ho_remote_id ho) fresh CHAINREMOTE_VERSION None a2
              in case r of
                   Inl e \<Rightarrow> (Inl e, a3, AcquireToken # acts)
                 | Inr AuthRejected \<Rightarrow> (Inl ''heartbeat auth rejected even after fresh register'', a3, AcquireToken # acts)
                 | Inr (BeatOk cleanup) \<Rightarrow>
                     (let (a4, acts') = after_beat ops dec json ho fresh cleanup a3
                      in (Inr (), a4, AcquireToken # acts @ acts'))))"

definition first_beat ::
  "'c option_ops \<Rightarrow> ('f \<Rightarrow> sched_window option) \<Rightarrow> (bool \<Rightarrow> clean_counts \<Rightarrow> string \<Rightarrow> string) \<Rightarrow> hb_obs \<Rightarrow> string
     \<Rightarrow> ('c, 'f) agent \<Rightarrow> (string + unit) \<times> ('c, 'f) agent \<times> hb_action list" where
  "first_beat ops dec json ho token a =
     (let (r, a1, acts) = send_heartbeat ops dec (ho_send ho) (ho_remote_id ho) token CHAINREMOTE_VERSION None a
      in case r of
           Inl e \<Rightarrow> (Inl e, a1, acts)
         | Inr (BeatOk cleanup) \<Rightarrow>
             (let (a2, acts') = after_beat ops dec json ho token cleanup a1 in (Inr (), a2, acts @ acts'))
         | Inr AuthRejected \<Rightarrow>
             (let (r', a2, acts') = retry_beat ops dec json ho a1 in (r', a2, acts @ acts')))"

definition heartbeat_tick ::
  "'c option_ops \<Rightarrow> ('f \<Rightarrow> sched_window option) \<Rightarrow> (bool \<Rightarrow> clean_counts \<Rightarrow> string \<Rightarrow> string) \<Rightarrow> hb_obs
     \<Rightarrow> ('c, 'f) agent \<Rightarrow> (string + unit) \<times> ('c, 'f) agent \<times> hb_action list" where
  "heartbeat_tick ops dec json ho a =
     (if ho_remote_id ho = [] then (Inl ''remote_id empty (hbbs registration pending)'', a, [])
      else
        (let stored = get_option ops (ag_store a) TOKEN_KEY
         in if stored \<noteq> [] then first_beat ops dec json ho stored a
            else (case acquire_token (ho_slug ho) (ho_enroll_key ho) (ho_enroll ho) (ho_register ho) of
                    Inl e \<Rightarrow> (Inl e, a, [AcquireToken])
                  | Inr new_token \<Rightarrow>
                      (let (r, a1, acts) = first_beat ops dec json ho new_token
                             (a\<lparr>ag_store := set_option ops (ag_store a) TOKEN_KEY new_token\<rparr>)
                       in (r, a1, AcquireToken # acts)))))"

section \<open>The nap between ticks\<close>

text \<open>
  How long the loop wants to sleep, and how long it sleeps: \<open>present k\<close> says whether a
  scheduled access exists at the \<open>k\<close>-th look.
\<close>

definition next_nap :: "('f \<Rightarrow> sched_window option) \<Rightarrow> int \<Rightarrow> ('c, 'f) agent \<Rightarrow> nat \<times> ('c, 'f) agent" where
  "next_nap dec t a =
     (let a1 = a\<lparr>sched_just_cleared := False\<rparr>
      in if sched_just_cleared a then (SCHED_INTERVAL, a1)
         else (let (w, f) = status dec t (ag_sched a1)
               in (if w \<noteq> None then SCHED_INTERVAL else HEARTBEAT_INTERVAL, a1\<lparr>ag_sched := f\<rparr>)))"

function nap_watching_sched :: "bool \<Rightarrow> (nat \<Rightarrow> bool) \<Rightarrow> nat \<Rightarrow> nat \<Rightarrow> nat \<Rightarrow> nat" where
  "nap_watching_sched had_sched present total_s slept k =
     (if slept < total_s then
        (let this = (if total_s - slept < NAP_SLICE then total_s - slept else NAP_SLICE);
             slept' = slept + this
         in if \<not> had_sched \<and> present k then slept' else nap_watching_sched had_sched present total_s slept' (Suc k))
      else slept)"
  by pat_completeness auto
termination
  by (relation "measure (\<lambda>(_, _, total_s, slept, _). total_s - slept)") (auto simp: NAP_SLICE_def Let_def split: if_splits)

declare nap_watching_sched.simps [simp del]

section \<open>Lemmas\<close>

lemma measured_keeps [simp]:
  "ag_fw (snd (measured_temp_bytes so free a)) = ag_fw a" "ag_van (snd (measured_temp_bytes so free a)) = ag_van a"
  "ag_store (snd (measured_temp_bytes so free a)) = ag_store a"
  "ag_fw (snd (measured_top_dirs so free a)) = ag_fw a" "ag_van (snd (measured_top_dirs so free a)) = ag_van a"
  "ag_store (snd (measured_top_dirs so free a)) = ag_store a"
  by (auto simp: measured_temp_bytes_def measured_top_dirs_def remeasure_temp_now_def Let_def split: option.splits)

text \<open>Preparing a transmission only looks at the watches and the options.\<close>

lemma prepare_keeps [simp]:
  "ag_fw (snd (prepare_beat dec so rid ver res a)) = ag_fw a"
  "ag_van (snd (prepare_beat dec so rid ver res a)) = ag_van a"
  "ag_store (snd (prepare_beat dec so rid ver res a)) = ag_store a"
  by (auto simp: prepare_beat_def Let_def case_prod_beta split: option.splits)

lemma prepare_body [simp]:
  "bb_cleanup_result (fst (prepare_beat dec so rid ver res a)) = res"
  "bb_firewall_disarmed (fst (prepare_beat dec so rid ver res a)) =
     (if res = None \<and> disarmed_pending (ag_fw a) then Some True else None)"
  "bb_van_restarted (fst (prepare_beat dec so rid ver res a)) =
     (if res = None \<and> restarted_pending (ag_van a) then Some True else None)"
  by (auto simp: prepare_beat_def Let_def case_prod_beta peek_disarmed_def split: option.splits)

lemma apply_answer_flags:
  "disarmed_pending (ag_fw (apply_answer ops w body parsed a)) \<longleftrightarrow>
     disarmed_pending (ag_fw a) \<and> bb_firewall_disarmed body \<noteq> Some True"
  "restarted_pending (ag_van (apply_answer ops w body parsed a)) \<longleftrightarrow>
     restarted_pending (ag_van a) \<and> bb_van_restarted body \<noteq> Some True"
  by (auto simp: apply_answer_def Let_def case_prod_beta handle_sched_close_def clear_disarmed_def clear_restarted_def)

lemma send_flags:
  "disarmed_pending (ag_fw (fst (snd (send_heartbeat ops dec so rid tok ver res a)))) \<longleftrightarrow>
     disarmed_pending (ag_fw a) \<and> \<not> (accepted so \<and> res = None)"
  "restarted_pending (ag_van (fst (snd (send_heartbeat ops dec so rid tok ver res a)))) \<longleftrightarrow>
     restarted_pending (ag_van a) \<and> \<not> (accepted so \<and> res = None)"
  by (auto simp: send_heartbeat_def finish_beat_def accepted_def Let_def case_prod_beta apply_answer_flags
      split: sum.splits)

lemma send_actions:
  "snd (snd (send_heartbeat ops dec so rid tok ver res a)) =
     [Sent tok (fst (prepare_beat dec so rid ver res a)) (accepted so)]"
  by (simp add: send_heartbeat_def case_prod_beta Let_def)

text \<open>The agent between ticks: both watches turn while reports are sent.\<close>

datatype agent_event =
    FwWatch fw_obs
  | VanWatch van_obs
  | RegularBeat send_obs
  | CleanupBeat send_obs string

fun agent_step ::
  "'c option_ops \<Rightarrow> ('f \<Rightarrow> sched_window option) \<Rightarrow> string \<Rightarrow> string \<Rightarrow> ('c, 'f) agent \<times> hb_action list \<Rightarrow> agent_event
     \<Rightarrow> ('c, 'f) agent \<times> hb_action list" where
  "agent_step ops dec rid tok (a, sent) (FwWatch obs) = (a\<lparr>ag_fw := fst (fw_turn obs (ag_fw a))\<rparr>, sent)"
| "agent_step ops dec rid tok (a, sent) (VanWatch obs) =
     (let (v, c, _) = watch_turn ops obs (ag_van a) (ag_store a) in (a\<lparr>ag_van := v, ag_store := c\<rparr>, sent))"
| "agent_step ops dec rid tok (a, sent) (RegularBeat so) =
     (let (_, a', acts) = send_heartbeat ops dec so rid tok CHAINREMOTE_VERSION None a in (a', sent @ acts))"
| "agent_step ops dec rid tok (a, sent) (CleanupBeat so res) =
     (let (_, a', acts) = send_heartbeat ops dec so rid tok CHAINREMOTE_VERSION (Some res) a in (a', sent @ acts))"

fun not_delivered :: "agent_event \<Rightarrow> bool" where
  "not_delivered (RegularBeat so) \<longleftrightarrow> \<not> accepted so"
| "not_delivered _ \<longleftrightarrow> True"

text \<open>A flag that is up, and every regular report so far said so while no other one did.\<close>

fun carries :: "(beat_body \<Rightarrow> bool option) \<Rightarrow> hb_action \<Rightarrow> bool" where
  "carries field (Sent tok body ok) \<longleftrightarrow> field body = (if bb_cleanup_result body = None then Some True else None)"
| "carries field _ \<longleftrightarrow> True"

definition waiting_report ::
  "(('c, 'f) agent \<Rightarrow> bool) \<Rightarrow> (beat_body \<Rightarrow> bool option) \<Rightarrow> ('c, 'f) agent \<times> hb_action list \<Rightarrow> bool" where
  "waiting_report flag field x \<longleftrightarrow> flag (fst x) \<and> list_all (carries field) (snd x)"

interpretation fw_report: machine "waiting_report (\<lambda>a. disarmed_pending (ag_fw a)) bb_firewall_disarmed"
  "agent_step ops dec rid tok" not_delivered "waiting_report (\<lambda>a. disarmed_pending (ag_fw a)) bb_firewall_disarmed"
  for ops dec rid tok
proof (unfold_locales, goal_cases)
  case (2 x e)
  then show ?case
    using fw_latch.own_keeps [of "ag_fw (fst x)"]
    by (cases x; cases e) (auto simp: waiting_report_def peek_disarmed_def send_flags send_actions Let_def case_prod_beta)
qed simp

interpretation van_report: machine "waiting_report (\<lambda>a. restarted_pending (ag_van a)) bb_van_restarted"
  "agent_step ops dec rid tok" not_delivered "waiting_report (\<lambda>a. restarted_pending (ag_van a)) bb_van_restarted"
  for ops dec rid tok
proof (unfold_locales, goal_cases)
  case (2 x e)
  then show ?case
    using watch_turn_restarted [where s = "ag_van (fst x)"]
    by (cases x; cases e) (auto simp: waiting_report_def send_flags send_actions Let_def case_prod_beta)
qed simp

text \<open>The mark of the last cleanup survives everything but another cleanup.\<close>

abbreviation cleanup_done :: "'c option_ops \<Rightarrow> ('c, 'f) agent \<Rightarrow> string" where
  "cleanup_done ops a \<equiv> get_option ops (ag_store a) CLEANUP_DONE_KEY"

definition ordered_runs :: "hb_action list \<Rightarrow> nat" where
  "ordered_runs acts = length (filter (\<lambda>x. x = RunCleanup True) acts)"

lemma ordered_runs_simps [simp]:
  "ordered_runs [] = 0" "ordered_runs (x # acts) = (if x = RunCleanup True then 1 else 0) + ordered_runs acts"
  "ordered_runs (acts @ acts') = ordered_runs acts + ordered_runs acts'"
  by (simp_all add: ordered_runs_def)

lemma ordered_runs_in: "ordered_runs acts = Suc n \<Longrightarrow> RunCleanup True \<in> set acts"
  by (induction acts) (auto split: if_splits)

lemma ordered_runs_send [simp]: "ordered_runs (snd (snd (send_heartbeat ops dec so rid tok ver res a))) = 0"
  by (simp add: send_actions)

lemma ordered_runs_auto [simp]: "ordered_runs (snd (maybe_auto_cleanup ops dec json au rid tok a)) = 0"
  by (simp add: maybe_auto_cleanup_def Let_def case_prod_beta split: option.splits)

text \<open>The order an answer brings, and ticks whose answers bring no other order.\<close>

definition answered_cleanup :: "send_obs \<Rightarrow> string" where
  "answered_cleanup so = (case so_response so of Inr (_, Some r) \<Rightarrow> br_cleanup r | _ \<Rightarrow> [])"

definition asks_only :: "string \<Rightarrow> hb_obs \<Rightarrow> bool" where
  "asks_only req ho \<longleftrightarrow> answered_cleanup (ho_send ho) \<in> {[], req} \<and> answered_cleanup (ho_send_again ho) \<in> {[], req}"

lemma send_outcome:
  "fst (send_heartbeat ops dec so rid tok ver res a) = Inr (BeatOk cleanup) \<Longrightarrow>
   cleanup = (if answered_cleanup so = [] then None else Some (answered_cleanup so))"
  by (auto simp: send_heartbeat_def finish_beat_def answered_cleanup_def Let_def case_prod_beta default_resp_def
      split: sum.splits if_splits option.splits)

text \<open>A piece of a tick runs the ordered cleanup when it is not marked, and marks it.\<close>

definition step_ok :: "'c option_ops \<Rightarrow> string \<Rightarrow> ('c, 'f) agent \<Rightarrow> hb_action list \<Rightarrow> ('c, 'f) agent \<Rightarrow> bool" where
  "step_ok ops req a acts a' \<longleftrightarrow>
     ordered_runs acts = 0 \<and> cleanup_done ops a' \<in> {cleanup_done ops a, req}
   \<or> ordered_runs acts = 1 \<and> cleanup_done ops a \<noteq> req \<and> cleanup_done ops a' = req"

lemma step_ok_refl [simp]: "step_ok ops req a [] a"
  by (simp add: step_ok_def)

lemma step_ok_append: "step_ok ops req a acts a1 \<Longrightarrow> step_ok ops req a1 acts' a2 \<Longrightarrow> step_ok ops req a (acts @ acts') a2"
  by (auto simp: step_ok_def)

context option_store
begin

lemma apply_answer_done: "cleanup_done ops (apply_answer ops w body parsed a) = cleanup_done ops a"
  by (simp add: apply_answer_def set_control_def set_kind_def handle_sched_close_def Let_def case_prod_beta get_set)

lemma send_done: "cleanup_done ops (fst (snd (send_heartbeat ops dec so rid tok ver res a))) = cleanup_done ops a"
  by (simp add: send_heartbeat_def finish_beat_def Let_def case_prod_beta apply_answer_done split: sum.splits)

lemma auto_done: "cleanup_done ops (fst (maybe_auto_cleanup ops dec json au rid tok a)) = cleanup_done ops a"
  by (auto simp: maybe_auto_cleanup_def Let_def case_prod_beta send_done get_set remeasure_temp_now_def
      split: option.splits)

lemma handle_done:
  "ordered_runs (snd (handle_cleanup_request ops dec json cu rid tok req a)) = (if cleanup_done ops a = req then 0 else 1)
   \<and> cleanup_done ops (fst (handle_cleanup_request ops dec json cu rid tok req a)) = req"
  by (auto simp: handle_cleanup_request_def Let_def case_prod_beta send_done get_set remeasure_temp_now_def)

lemma after_beat_done:
  "ordered_runs (snd (after_beat ops dec json ho tok cleanup a)) =
     (case cleanup of None \<Rightarrow> 0 | Some req \<Rightarrow> if cleanup_done ops a = req then 0 else 1)
   \<and> cleanup_done ops (fst (after_beat ops dec json ho tok cleanup a)) =
     (case cleanup of None \<Rightarrow> cleanup_done ops a | Some req \<Rightarrow> req)"
  by (auto simp: after_beat_def Let_def case_prod_beta auto_done handle_done split: option.splits)

text \<open>A transmission and what follows an accepted one.\<close>

lemma beat_done:
  assumes "send_heartbeat ops dec so rid tok CHAINREMOTE_VERSION None a = (r, a', acts)"
    and "answered_cleanup so \<in> {[], req}"
  shows "step_ok ops req a acts a'"
    and "r = Inr (BeatOk cleanup) \<Longrightarrow> after_beat ops dec json ho tok cleanup a' = (a'', acts') \<Longrightarrow>
         step_ok ops req a (acts @ acts') a''"
proof -
  have d: "cleanup_done ops a' = cleanup_done ops a" "ordered_runs acts = 0"
    using send_done [of dec so rid tok CHAINREMOTE_VERSION None a] assms(1)
      ordered_runs_send [of ops dec so rid tok CHAINREMOTE_VERSION None a] by simp_all
  then show "step_ok ops req a acts a'" by (simp add: step_ok_def)
  assume r: "r = Inr (BeatOk cleanup)" and after: "after_beat ops dec json ho tok cleanup a' = (a'', acts')"
  have "cleanup = None \<or> cleanup = Some req"
    using send_outcome [of ops dec so rid tok CHAINREMOTE_VERSION None a] assms r by auto
  then show "step_ok ops req a (acts @ acts') a''"
    using d after_beat_done [of dec json ho tok cleanup a'] after by (auto simp: step_ok_def split: if_splits)
qed

lemma token_step_ok:
  "step_ok ops req (a\<lparr>ag_store := set_option ops (ag_store a) TOKEN_KEY v\<rparr>) acts a' \<Longrightarrow> step_ok ops req a acts a'"
  by (simp add: step_ok_def get_set)

lemma retry_done:
  assumes "answered_cleanup (ho_send_again ho) \<in> {[], req}" and "retry_beat ops dec json ho a = (r, a', acts)"
  shows "step_ok ops req a acts a'"
proof (cases "acquire_token (ho_slug ho) (ho_enroll_key ho) (ho_enroll_again ho) (ho_register_again ho)")
  case (Inl e)
  then show ?thesis
    using assms(2) by (auto simp: retry_beat_def Let_def get_set step_ok_def)
next
  case (Inr fresh)
  define a2 where "a2 = a\<lparr>ag_store := set_option ops (set_option ops (ag_store a) TOKEN_KEY []) TOKEN_KEY fresh\<rparr>"
  obtain r3 a3 acts3 where send:
    "send_heartbeat ops dec (ho_send_again ho) (ho_remote_id ho) fresh CHAINREMOTE_VERSION None a2 = (r3, a3, acts3)"
    by (metis prod_cases3)
  obtain a4 acts4 where "after_beat ops dec json ho fresh (case r3 of Inr (BeatOk c) \<Rightarrow> c | _ \<Rightarrow> None) a3 = (a4, acts4)"
    by (cases "after_beat ops dec json ho fresh (case r3 of Inr (BeatOk c) \<Rightarrow> c | _ \<Rightarrow> None) a3")
  then have "\<exists>acts0. acts = AcquireToken # acts0 \<and> step_ok ops req a2 acts0 a'"
    using beat_done [OF send assms(1)] assms(2) Inr send
    by (fastforce simp: retry_beat_def Let_def a2_def split: sum.splits beat_outcome.splits prod.splits)
  then show ?thesis
    by (auto simp: step_ok_def a2_def get_set)
qed

lemma first_beat_done:
  assumes "asks_only req ho" and beat: "first_beat ops dec json ho token a = (r, a', acts)"
  shows "step_ok ops req a acts a'"
proof -
  have so: "answered_cleanup (ho_send ho) \<in> {[], req}" "answered_cleanup (ho_send_again ho) \<in> {[], req}"
    using assms(1) by (simp_all add: asks_only_def)
  obtain r1 a1 acts1 where send:
    "send_heartbeat ops dec (ho_send ho) (ho_remote_id ho) token CHAINREMOTE_VERSION None a = (r1, a1, acts1)"
    by (metis prod_cases3)
  note d = beat_done [OF send so(1)]
  consider (err) e where "r1 = Inl e" | (ok) cleanup where "r1 = Inr (BeatOk cleanup)" | (rejected) "r1 = Inr AuthRejected"
    by (metis beat_outcome.exhaust sumE)
  then show ?thesis
  proof cases
    case err
    then show ?thesis using d(1) beat by (auto simp: first_beat_def send)
  next
    case ok
    obtain a2 acts2 where after: "after_beat ops dec json ho token cleanup a1 = (a2, acts2)"
      by (cases "after_beat ops dec json ho token cleanup a1")
    show ?thesis using d(2) [OF ok after] beat by (auto simp: first_beat_def send ok after)
  next
    case rejected
    obtain r2 a2 acts2 where retry: "retry_beat ops dec json ho a1 = (r2, a2, acts2)" by (metis prod_cases3)
    show ?thesis
      using step_ok_append [OF d(1) retry_done [OF so(2) retry]] beat by (auto simp: first_beat_def send rejected retry)
  qed
qed

lemma tick_done:
  assumes "asks_only req ho" and tick: "heartbeat_tick ops dec json ho a = (r, a', acts)"
  shows "step_ok ops req a acts a'"
proof (cases "ho_remote_id ho = [] \<or> get_option ops (ag_store a) TOKEN_KEY \<noteq> []")
  case True
  then show ?thesis
    using tick by (auto simp: heartbeat_tick_def Let_def intro: first_beat_done [OF assms(1)] split: if_splits)
next
  case False
  show ?thesis
  proof (cases "acquire_token (ho_slug ho) (ho_enroll_key ho) (ho_enroll ho) (ho_register ho)")
    case (Inl e)
    with False tick show ?thesis by (auto simp: heartbeat_tick_def Let_def step_ok_def)
  next
    case (Inr new_token)
    let ?a = "a\<lparr>ag_store := set_option ops (ag_store a) TOKEN_KEY new_token\<rparr>"
    obtain r1 a1 acts1 where beat: "first_beat ops dec json ho new_token ?a = (r1, a1, acts1)" by (metis prod_cases3)
    show ?thesis
      using False Inr tick token_step_ok [OF first_beat_done [OF assms(1) beat]]
      by (auto simp: heartbeat_tick_def Let_def beat step_ok_def)
  qed
qed

end

context option_store
begin

text \<open>The default answer switches everything off, in memory and in the cache.\<close>

lemma apply_default:
  "\<not> fw_control (ag_fw (apply_answer ops w body default_resp a)) \<and> \<not> is_on (ag_van (apply_answer ops w body default_resp a))
   \<and> \<not> up_enabled (ag_upnp (apply_answer ops w body default_resp a))
   \<and> \<not> fw_control (fw_start_watch ops (ag_store (apply_answer ops w body default_resp a)) (firewall_init p))
   \<and> \<not> is_on (start_watch ops (ag_store (apply_answer ops w body default_resp a)) van_init)"
  by (simp add: apply_answer_def default_resp_def set_control_def set_kind_def set_enabled_def clear_disarmed_def
      clear_restarted_def is_on_def fw_start_watch_def start_watch_def firewall_init_def van_init_def Let_def get_set)

end

text \<open>Ticks one after the other.\<close>

definition tick_step ::
  "'c option_ops \<Rightarrow> ('f \<Rightarrow> sched_window option) \<Rightarrow> (bool \<Rightarrow> clean_counts \<Rightarrow> string \<Rightarrow> string)
     \<Rightarrow> ('c, 'f) agent \<times> hb_action list \<Rightarrow> hb_obs \<Rightarrow> ('c, 'f) agent \<times> hb_action list" where
  "tick_step ops dec json x ho =
     (case x of (a, acts) \<Rightarrow> case heartbeat_tick ops dec json ho a of (_, a', acts') \<Rightarrow> (a', acts @ acts'))"

definition once_inv :: "'c option_ops \<Rightarrow> string \<Rightarrow> ('c, 'f) agent \<times> hb_action list \<Rightarrow> bool" where
  "once_inv ops req x \<longleftrightarrow>
     ordered_runs (snd x) = 0 \<or> ordered_runs (snd x) = 1 \<and> cleanup_done ops (fst x) = req"

sublocale option_store \<subseteq> cleanup: machine "\<lambda>x. ordered_runs (snd x) = 0" "tick_step ops dec json" "asks_only req" "once_inv ops req"
  for dec json req
proof (unfold_locales, goal_cases)
  case (2 x ho)
  obtain a acts where x: "x = (a, acts)" by (cases x)
  obtain r a' acts' where t: "heartbeat_tick ops dec json ho a = (r, a', acts')" by (metis prod_cases3)
  show ?case
    using 2 tick_done [OF 2(2) t] by (auto simp: x t tick_step_def once_inv_def step_ok_def)
qed (simp add: once_inv_def)

context option_store
begin

lemma cleanup_run_once: "list_all (asks_only req) hos \<Longrightarrow> once_inv ops req (run (tick_step ops dec json) (a, []) hos)"
  by (rule cleanup.run_inv) simp_all

end

text \<open>
  The cleanup accounts for itself: freed bytes and deleted files are what the tree lost,
  and what may be in use (modified within the last hour, or at an unknown time) stays.
\<close>

fun entry_files :: "fs_entry \<Rightarrow> (nat \<times> nat option) list" where
  "entry_files (FsFile len modified _) = [(len, modified)]"
| "entry_files (FsDir _ entries) = concat (map entry_files entries)"
| "entry_files FsBroken = []"

definition tree_files :: "fs_entry list \<Rightarrow> (nat \<times> nat option) list" where
  "tree_files es = concat (map entry_files es)"

definition in_use :: "nat \<Rightarrow> nat \<times> nat option \<Rightarrow> bool" where
  "in_use cutoff f = (case snd f of None \<Rightarrow> True | Some m \<Rightarrow> cutoff \<le> m)"

definition accounted :: "nat \<Rightarrow> (nat \<times> nat option) list \<Rightarrow> (nat \<times> nat option) list \<Rightarrow> clean_counts \<Rightarrow> bool" where
  "accounted cutoff before after counts \<longleftrightarrow>
     (case counts of (freed, deleted, skipped) \<Rightarrow>
        freed + sum_list (map fst after) = sum_list (map fst before) \<and> deleted + length after = length before
      \<and> filter (in_use cutoff) after = filter (in_use cutoff) before)"

lemma tree_files_simps [simp]:
  "tree_files [] = []" "tree_files (e # es) = entry_files e @ tree_files es" "tree_files (xs @ ys) = tree_files xs @ tree_files ys"
  by (simp_all add: tree_files_def)

lemma entry_files_dir: "entry_files (FsDir r es) = tree_files es"
  by (simp add: tree_files_def)

lemma accounted_add:
  "accounted cutoff b1 a1 c1 \<Longrightarrow> accounted cutoff b2 a2 c2 \<Longrightarrow> accounted cutoff (b1 @ b2) (a1 @ a2) (add_counts c1 c2)"
  by (cases c1; cases c2) (auto simp: accounted_def)

lemma clean_accounted:
  "accounted cutoff (entry_files e) (tree_files (fst (clean_entry cutoff depth e))) (snd (clean_entry cutoff depth e))"
  "accounted cutoff (tree_files es) (tree_files (fst (clean_entries cutoff depth es))) (snd (clean_entries cutoff depth es))"
proof (induction cutoff depth e and cutoff depth es rule: clean_entry_clean_entries.induct)
  case (2 cutoff depth readable entries)
  then show ?case
    by (auto simp: accounted_def entry_files_dir Let_def case_prod_beta simp del: entry_files.simps(2))
next
  case (5 cutoff depth e es)
  obtain x f d k where "clean_entry cutoff depth e = (x, f, d, k)" by (metis prod_cases4)
  with 5 show ?case
    by (auto simp: Let_def case_prod_beta intro: accounted_add)
qed (auto simp: accounted_def in_use_def split: option.splits)

text \<open>
  The nap: it never sleeps longer than asked for, and without a wake-up exactly that long;
  a scheduled access that appears at the \<open>k\<close>-th look ends it within the slice.
\<close>

lemma nap_bounds:
  "slept \<le> total_s \<Longrightarrow> slept \<le> nap_watching_sched had present total_s slept k
     \<and> nap_watching_sched had present total_s slept k \<le> total_s"
proof (induction had present total_s slept k rule: nap_watching_sched.induct)
  case (1 had present total_s slept k)
  show ?case
    using 1 by (subst (1 2) nap_watching_sched.simps) (force simp: Let_def NAP_SLICE_def)
qed

lemma nap_full:
  "slept \<le> total_s \<Longrightarrow> had \<or> (\<forall>j. \<not> present j) \<Longrightarrow> nap_watching_sched had present total_s slept k = total_s"
proof (induction had present total_s slept k rule: nap_watching_sched.induct)
  case (1 had present total_s slept k)
  show ?case
    using 1 by (subst nap_watching_sched.simps) (force simp: Let_def NAP_SLICE_def)
qed

lemma nap_wakes:
  "slept < total_s \<Longrightarrow> present k \<Longrightarrow> nap_watching_sched False present total_s slept k \<le> slept + NAP_SLICE"
  by (subst nap_watching_sched.simps) (simp add: Let_def NAP_SLICE_def)

section \<open>Properties\<close>

text \<open>
  C38. A report waits for its delivery. When the firewall was switched off again (or the
  payment daemon restarted) and no regular heartbeat got through since, then however often
  both watches turned and other reports went out meanwhile, every regular heartbeat
  carried the event and no cleanup report did; the first regular heartbeat the server
  accepts carries it too and lowers the flag.
\<close>

theorem heartbeat_report_delivered:
  assumes "list_all not_delivered es" "run (agent_step ops dec rid tok) (a, []) es = (a', acts)" "accepted so"
    and "send_heartbeat ops dec so rid tok ver None a' = (r, a'', sent)"
  shows "(disarmed_pending (ag_fw a) \<longrightarrow> list_all (carries bb_firewall_disarmed) acts
        \<and> (\<exists>body. sent = [Sent tok body True] \<and> bb_firewall_disarmed body = Some True) \<and> \<not> disarmed_pending (ag_fw a''))
    \<and> (restarted_pending (ag_van a) \<longrightarrow> list_all (carries bb_van_restarted) acts
        \<and> (\<exists>body. sent = [Sent tok body True] \<and> bb_van_restarted body = Some True) \<and> \<not> restarted_pending (ag_van a''))"
proof -
  have sent: "sent = [Sent tok (fst (prepare_beat dec so rid ver None a')) True]"
    using send_actions [of ops dec so rid tok ver None a'] assms(3,4) by simp
  have "waiting_report (\<lambda>a. disarmed_pending (ag_fw a)) bb_firewall_disarmed (a', acts)" if "disarmed_pending (ag_fw a)"
    using fw_report.run_from_inv [of "(a, [])" es ops dec rid tok] that assms(1,2) by (simp add: waiting_report_def)
  moreover have "waiting_report (\<lambda>a. restarted_pending (ag_van a)) bb_van_restarted (a', acts)" if "restarted_pending (ag_van a)"
    using van_report.run_from_inv [of "(a, [])" es ops dec rid tok] that assms(1,2) by (simp add: waiting_report_def)
  ultimately show ?thesis
    using send_flags [of ops dec so rid tok ver None a'] assms(3,4) by (auto simp: waiting_report_def sent)
qed

definition sample_beat :: "string + nat \<times> beat_resp option \<Rightarrow> send_obs" where
  "sample_beat resp = \<lparr>so_os = \<lparr>oo_process_x64 = True, oo_wow64 = False, oo_registry = None\<rparr>, so_machine_uuid = ''m'',
     so_nat_type = 1, so_disk = None, so_temp_now = None, so_temp_total = 0, so_temp_done = 0, so_top_now = None,
     so_top_scanned = [], so_profiles = [], so_sched_now = 0, so_response = resp, so_support_write_ok = True\<rparr>"

definition sample_agent :: "(string \<Rightarrow> string, sched_window) agent" where
  "sample_agent = \<lparr>ag_store = (\<lambda>_. [])(TOKEN_KEY := ''token''),
     ag_fw = (firewall_init None)\<lparr>fw_control := True, disarmed_pending := True\<rparr>,
     ag_van = van_init\<lparr>van_kind := ''ksnet''\<rparr>, ag_upnp = upnp_init\<lparr>up_enabled := True\<rparr>, ag_sched = None,
     ag_support_name = None, sched_just_cleared = False, temp_measured_at = 0, temp_measured_val = u64_max,
     topdirs_measured_at = 0\<rparr>"

theorem heartbeat_report_delivered_witness:
  "\<exists>r a'' body. send_heartbeat fun_store Some (sample_beat (Inr (200, None))) ''id'' ''token'' ''v'' None
       (fst (run (agent_step fun_store Some ''id'' ''token'') (sample_agent, []) [RegularBeat (sample_beat (Inl ''timeout''))]))
     = (r, a'', [Sent ''token'' body True]) \<and> bb_firewall_disarmed body = Some True \<and> \<not> disarmed_pending (ag_fw a'')"
proof -
  let ?es = "[RegularBeat (sample_beat (Inl ''timeout''))]" and ?so = "sample_beat (Inr (200, None))"
  obtain a' acts where run: "run (agent_step fun_store Some ''id'' ''token'') (sample_agent, []) ?es = (a', acts)"
    by (cases "run (agent_step fun_store Some ''id'' ''token'') (sample_agent, []) ?es")
  obtain r a'' sent where send: "send_heartbeat fun_store Some ?so ''id'' ''token'' ''v'' None a' = (r, a'', sent)"
    by (metis prod_cases3)
  have "list_all not_delivered ?es" "accepted ?so" "disarmed_pending (ag_fw sample_agent)"
    by (simp_all add: accepted_def sample_beat_def is_success_def sample_agent_def)
  then show ?thesis
    using heartbeat_report_delivered [OF _ run _ send] send run by auto
qed

text \<open>
  An ordered cleanup runs once. Whatever happens between, in any sequence of ticks
  whose answers bring no other order than \<open>req\<close> the cleanup with the recycle bin runs at
  most once; and a tick of a machine with a token that receives the order for the first
  time runs it.
\<close>

theorem heartbeat_cleanup_once:
  assumes "option_store ops"
  shows "(\<forall>hos. list_all (asks_only req) hos \<longrightarrow>
        ordered_runs (snd (run (tick_step ops dec json) (a, []) hos)) \<le> 1)
    \<and> (ho_remote_id ho \<noteq> [] \<and> get_option ops (ag_store a) TOKEN_KEY \<noteq> [] \<and> accepted (ho_send ho)
        \<and> answered_cleanup (ho_send ho) = req \<and> req \<noteq> [] \<and> get_option ops (ag_store a) CLEANUP_DONE_KEY \<noteq> req \<longrightarrow>
        RunCleanup True \<in> set (snd (snd (heartbeat_tick ops dec json ho a))))"
proof (intro conjI allI impI)
  fix hos assume "list_all (asks_only req) hos"
  then have "once_inv ops req (run (tick_step ops dec json) (a, []) hos)"
    by (rule option_store.cleanup_run_once [OF assms])
  then show "ordered_runs (snd (run (tick_step ops dec json) (a, []) hos)) \<le> 1"
    by (auto simp: once_inv_def)
next
  let ?tok = "get_option ops (ag_store a) TOKEN_KEY"
  assume *: "ho_remote_id ho \<noteq> [] \<and> ?tok \<noteq> [] \<and> accepted (ho_send ho)
     \<and> answered_cleanup (ho_send ho) = req \<and> req \<noteq> [] \<and> cleanup_done ops a \<noteq> req"
  obtain r a1 acts where send: "send_heartbeat ops dec (ho_send ho) (ho_remote_id ho) ?tok CHAINREMOTE_VERSION None a = (r, a1, acts)"
    by (metis prod_cases3)
  have "r = Inr (BeatOk (Some req))"
    using send * by (auto simp: send_heartbeat_def finish_beat_def accepted_def answered_cleanup_def Let_def case_prod_beta
        split: sum.splits option.splits)
  moreover have "cleanup_done ops a1 = cleanup_done ops a"
    using option_store.send_done [OF assms, of dec "ho_send ho" "ho_remote_id ho" ?tok CHAINREMOTE_VERSION None a] send by simp
  ultimately show "RunCleanup True \<in> set (snd (snd (heartbeat_tick ops dec json ho a)))"
    using * send option_store.after_beat_done [OF assms, of dec json ho ?tok "Some req" a1]
    by (auto simp: heartbeat_tick_def first_beat_def Let_def case_prod_beta ordered_runs_in)
qed

definition sample_order :: "string \<Rightarrow> beat_resp" where
  "sample_order req = default_resp\<lparr>br_cleanup := req\<rparr>"

definition sample_hb :: "string \<Rightarrow> hb_obs" where
  "sample_hb req =
     (let so = sample_beat (Inr (200, Some (sample_order req)));
          cu = \<lparr>cu_now = 10000, cu_dirs = [], cu_bin = None, cu_temp_done = 0, cu_temp_total = 0, cu_at = [], cu_send = so\<rparr>
      in \<lparr>ho_remote_id = ''id'', ho_slug = [], ho_enroll_key = [], ho_enroll = Inl [], ho_register = Inl [], ho_send = so,
          ho_enroll_again = Inl [], ho_register_again = Inl [], ho_send_again = so, ho_cleanup = cu,
          ho_auto = \<lparr>au_disk = None, au_now = None, au_cleanup = cu\<rparr>\<rparr>)"

theorem heartbeat_cleanup_once_witness:
  "ordered_runs (snd (run (tick_step fun_store Some (\<lambda>_ _ _. ''done'')) (sample_agent, []) [sample_hb ''r1'', sample_hb ''r1''])) \<le> 1
   \<and> RunCleanup True \<in> set (snd (snd (heartbeat_tick fun_store Some (\<lambda>_ _ _. ''done'') (sample_hb ''r1'') sample_agent)))"
proof -
  note once = heartbeat_cleanup_once [OF fun_store.option_store_axioms, of "''r1''" Some "\<lambda>_ _ _. ''done''" sample_agent "sample_hb ''r1''"]
  have "list_all (asks_only ''r1'') [sample_hb ''r1'', sample_hb ''r1'']"
    by (simp add: asks_only_def answered_cleanup_def sample_hb_def sample_beat_def sample_order_def Let_def)
  moreover have "ho_remote_id (sample_hb ''r1'') \<noteq> []" "get_option fun_store (ag_store sample_agent) TOKEN_KEY \<noteq> []"
    "accepted (ho_send (sample_hb ''r1''))" "answered_cleanup (ho_send (sample_hb ''r1'')) = ''r1''"
    "get_option fun_store (ag_store sample_agent) CLEANUP_DONE_KEY \<noteq> ''r1''"
    by (simp_all add: accepted_def answered_cleanup_def sample_hb_def sample_beat_def sample_order_def Let_def
        is_success_def sample_agent_def)
  ultimately show ?thesis
    using once by blast
qed

text \<open>
  An answer that cannot be read disarms the machine. A success status whose body is
  not the expected JSON (a captive portal, a proxy page) is taken for an answer that
  switches everything off: the firewall watch, the daemon watch and the port opening end,
  and the cached values keep both watches off after a restart of the program as well.
\<close>

theorem heartbeat_unreadable_answer_disarms:
  assumes "option_store ops" "so_response so = Inr (code, None)" "is_success code"
    and "send_heartbeat ops dec so rid tok ver res a = (r, a', acts)"
  shows "\<not> fw_control (ag_fw a') \<and> \<not> is_on (ag_van a') \<and> \<not> up_enabled (ag_upnp a')
    \<and> \<not> fw_control (fw_start_watch ops (ag_store a') (firewall_init p)) \<and> \<not> is_on (start_watch ops (ag_store a') van_init)"
proof -
  have a': "a' = apply_answer ops (so_support_write_ok so) (fst (prepare_beat dec so rid ver res a)) default_resp
      (snd (prepare_beat dec so rid ver res a))"
    using assms(2-4) by (auto simp: send_heartbeat_def finish_beat_def Let_def case_prod_beta)
  show ?thesis
    using option_store.apply_default [OF assms(1)] unfolding a' by blast
qed

theorem heartbeat_unreadable_answer_disarms_witness:
  "\<exists>r a' acts. send_heartbeat fun_store Some (sample_beat (Inr (200, None))) ''id'' ''token'' ''v'' None sample_agent = (r, a', acts)
     \<and> fw_control (ag_fw sample_agent) \<and> \<not> fw_control (ag_fw a') \<and> is_on (ag_van sample_agent) \<and> \<not> is_on (ag_van a')"
proof -
  obtain r a' acts where send:
    "send_heartbeat fun_store Some (sample_beat (Inr (200, None))) ''id'' ''token'' ''v'' None sample_agent = (r, a', acts)"
    by (metis prod_cases3)
  have "so_response (sample_beat (Inr (200, None))) = Inr (200, None)" "is_success 200"
    "fw_control (ag_fw sample_agent)" "is_on (ag_van sample_agent)"
    by (simp_all add: sample_beat_def is_success_def sample_agent_def is_on_def)
  then show ?thesis
    using heartbeat_unreadable_answer_disarms [OF fun_store.option_store_axioms _ _ send] send by blast
qed

end
