(* ===== verification/Term_Buffer.thy ===== *)
theory Term_Buffer
  imports Prelude
begin

text \<open>
  The replay buffer of a terminal session: \<open>OutputBuffer\<close> of
  \<open>src/src/server/terminal_service.rs\<close>. The buffer keeps the output as lines and a
  running count of their bytes. The count is a \<open>usize\<close> and stays at its width here, as
  a 64-bit word, because the loop that trims the buffer is controlled by it: subtraction
  wraps around in a release build. That loop is a partial function in the option monad,
  and \<^const>\<open>None\<close> is the loop that never ends.

  The lemmas show when trimming ends and what it leaves, that appending keeps the count
  exact as long as no chunk completes an unfinished line, that the count is lost when one
  does and the loop can then run forever, and what a replay contains.
\<close>

unbundle bit_operations_syntax

abbreviation newline :: char where
  "newline \<equiv> CHR 0x0A"

definition MAX_OUTPUT_BUFFER_SIZE :: nat where
  "MAX_OUTPUT_BUFFER_SIZE = 1024 * 1024"

definition MAX_BUFFER_LINES :: nat where
  "MAX_BUFFER_LINES = 10000"

record out_buf =
  ob_lines :: "string list"
  total_size :: "64 word"
  last_line_incomplete :: bool

definition ob_new :: out_buf where
  "ob_new = \<lparr>ob_lines = [], total_size = 0, last_line_incomplete = False\<rparr>"


section \<open>Appending and trimming\<close>

text \<open>One turn of the loop that splits the remaining data into lines.\<close>

definition append_line :: "nat \<Rightarrow> bool \<Rightarrow> nat \<times> string \<Rightarrow> out_buf \<Rightarrow> out_buf" where
  "append_line n ends_with_newline = (\<lambda>(i, line) b.
     let b1 = (if i = n - 1 \<and> \<not> ends_with_newline \<and> line \<noteq> [] then b\<lparr>last_line_incomplete := True\<rparr> else b)
     in if line \<noteq> [] \<or> i < n - 1
        then let line_data = (if i < n - 1 \<or> ends_with_newline then line @ [newline] else line)
             in b1\<lparr>total_size := total_size b1 + word_of_nat (length line_data),
                   ob_lines := ob_lines b1 @ [line_data]\<rparr>
        else b1)"

definition append_lines :: "string \<Rightarrow> out_buf \<Rightarrow> out_buf" where
  "append_lines remaining b =
     (let ends_with_newline = (remaining \<noteq> [] \<and> last remaining = newline);
          ls = split_on newline remaining
      in fold (append_line (length ls) ends_with_newline) (enumerate 0 ls) b)"

definition over_limit :: "out_buf \<Rightarrow> bool" where
  "over_limit b \<longleftrightarrow>
     total_size b > word_of_nat MAX_OUTPUT_BUFFER_SIZE \<or> length (ob_lines b) > MAX_BUFFER_LINES"

definition pop_line :: "out_buf \<Rightarrow> out_buf" where
  "pop_line b =
     (case ob_lines b of
        [] \<Rightarrow> b
      | removed # ls \<Rightarrow> b\<lparr>ob_lines := ls, total_size := total_size b - word_of_nat (length removed)\<rparr>)"

partial_function (option) trim_buffer :: "out_buf \<Rightarrow> out_buf option" where
  "trim_buffer b = (if over_limit b then trim_buffer (pop_line b) else Some b)"

definition extend_last :: "string \<Rightarrow> out_buf \<Rightarrow> out_buf" where
  "extend_last d b = b\<lparr>ob_lines := butlast (ob_lines b) @ [last (ob_lines b) @ d]\<rparr>"

definition ob_append :: "string \<Rightarrow> out_buf \<Rightarrow> out_buf option" where
  "ob_append data b =
     (if data = [] then Some b
      else if last_line_incomplete b \<and> ob_lines b \<noteq> [] then
        (case split_once newline data of
           Some (before, rest) \<Rightarrow>
             trim_buffer (append_lines rest
               ((extend_last (before @ [newline]) b)\<lparr>last_line_incomplete := False\<rparr>))
         | None \<Rightarrow>
             Some ((extend_last data b)\<lparr>total_size := total_size b + word_of_nat (length data)\<rparr>))
      else trim_buffer (append_lines data b))"

text \<open>The chunks of one pass of \<open>read_outputs\<close>, appended in turn.\<close>

fun ob_append_all :: "string list \<Rightarrow> out_buf \<Rightarrow> out_buf option" where
  "ob_append_all [] b = Some b"
| "ob_append_all (d # ds) b =
     (case ob_append d b of None \<Rightarrow> None | Some b' \<Rightarrow> ob_append_all ds b')"


section \<open>Replay\<close>

definition is_continuation :: "char \<Rightarrow> bool" where
  "is_continuation c \<longleftrightarrow> byte c AND 0xC0 = 0x80"

fun skip_continuation :: "nat \<Rightarrow> string \<Rightarrow> string" where
  "skip_continuation 0 s = s"
| "skip_continuation (Suc n) [] = []"
| "skip_continuation (Suc n) (c # s) = (if is_continuation c then skip_continuation n s else c # s)"

text \<open>
  The loop over the lines from the newest to the oldest; \<open>chunks\<close> is in the order the
  code pushes them, newest first.
\<close>

fun recent_chunks :: "nat \<Rightarrow> nat \<Rightarrow> string list \<Rightarrow> string list \<Rightarrow> string list" where
  "recent_chunks max_bytes sz chunks [] = chunks"
| "recent_chunks max_bytes sz chunks (line # older) =
     (if sz + length line > max_bytes then
        (if sz = 0 \<and> length line > max_bytes then
           (let tail = skip_continuation 3 (drop (length line - max_bytes) line)
            in if tail \<noteq> [] then chunks @ [tail] else chunks)
         else chunks)
      else recent_chunks max_bytes (sz + length line) (chunks @ [line]) older)"

definition get_recent :: "nat \<Rightarrow> out_buf \<Rightarrow> string" where
  "get_recent max_bytes b =
     (if max_bytes = 0 then []
      else concat (rev (recent_chunks max_bytes 0 [] (rev (ob_lines b)))))"


section \<open>The trim loop\<close>

text \<open>The state after \<open>k\<close> turns, and the bytes the buffer really holds.\<close>

definition popped :: "nat \<Rightarrow> out_buf \<Rightarrow> out_buf" where
  "popped k b = (pop_line ^^ k) b"

definition held :: "out_buf \<Rightarrow> nat" where
  "held b = sum_list (map length (ob_lines b))"

definition accounted :: "out_buf \<Rightarrow> bool" where
  "accounted b \<longleftrightarrow> total_size b = word_of_nat (held b) \<and> held b < 2 ^ 64"

lemma popped_0 [simp]: "popped 0 b = b"
  by (simp add: popped_def)

lemma popped_Suc: "popped (Suc k) b = popped k (pop_line b)"
  by (simp add: popped_def funpow_swap1)

lemma popped_lines: "ob_lines (popped k b) = drop k (ob_lines b)"
proof (induction k arbitrary: b)
  case (Suc k)
  show ?case
    by (simp add: popped_Suc Suc pop_line_def split: list.splits)
qed simp

lemma pop_line_total:
  "ob_lines b = l # ls \<Longrightarrow> total_size (pop_line b) = total_size b - word_of_nat (length l)"
  by (simp add: pop_line_def)

lemma popped_total:
  "total_size (popped k b) = total_size b - word_of_nat (sum_list (map length (take k (ob_lines b))))"
proof (induction k arbitrary: b)
  case (Suc k)
  show ?case
    by (cases "ob_lines b") (simp_all add: popped_Suc Suc pop_line_def)
qed simp

text \<open>Trimming stops at the first state that is within both limits.\<close>

lemma trim_buffer_popped:
  assumes "\<not> over_limit (popped k b)"
  shows "\<exists>j\<le>k. trim_buffer b = Some (popped j b) \<and> \<not> over_limit (popped j b)"
  using assms
proof (induction k arbitrary: b)
  case 0
  then show ?case
    by (auto simp: trim_buffer.simps)
next
  case (Suc k)
  show ?case
  proof (cases "over_limit b")
    case True
    from Suc.IH [of "pop_line b"] Suc.prems obtain j
      where "j \<le> k" "trim_buffer (pop_line b) = Some (popped j (pop_line b))"
        "\<not> over_limit (popped j (pop_line b))"
      by (auto simp: popped_Suc)
    then show ?thesis
      using True by (intro exI [of _ "Suc j"]) (simp add: popped_Suc trim_buffer.simps [of b])
  next
    case False
    then show ?thesis
      by (intro exI [of _ 0]) (simp add: trim_buffer.simps)
  qed
qed

lemma trim_buffer_result:
  assumes "trim_buffer b = Some r"
  shows "\<exists>k. r = popped k b \<and> \<not> over_limit r"
proof (rule trim_buffer.raw_induct [OF _ assms])
  fix f b r
  assume IH: "\<And>b r. f b = Some r \<Longrightarrow> \<exists>k. r = popped k b \<and> \<not> over_limit r"
    and body: "(if over_limit b then f (pop_line b) else Some b) = Some r"
  show "\<exists>k. r = popped k b \<and> \<not> over_limit r"
  proof (cases "over_limit b")
    case True
    with IH body obtain k where "r = popped k (pop_line b)" "\<not> over_limit r"
      by (metis (full_types))
    then show ?thesis
      by (metis popped_Suc)
  next
    case False
    with body have "r = popped 0 b" "\<not> over_limit r"
      by simp_all
    then show ?thesis
      by blast
  qed
qed

lemma popped_beyond: "popped (length (ob_lines b) + k) b = popped (length (ob_lines b)) b"
proof -
  have "ob_lines c = [] \<Longrightarrow> (pop_line ^^ k) c = c" for c
    by (induction k) (simp_all add: pop_line_def)
  moreover have "ob_lines (popped (length (ob_lines b)) b) = []"
    by (simp add: popped_lines)
  ultimately show ?thesis
    by (simp add: popped_def funpow_add add.commute [of _ k])
qed

lemma trim_buffer_within:
  assumes "\<not> over_limit (popped k b)"
  shows "\<exists>j\<le>length (ob_lines b). \<not> over_limit (popped j b)"
proof (cases "k \<le> length (ob_lines b)")
  case False
  then have "popped k b = popped (length (ob_lines b)) b"
    using popped_beyond [of b "k - length (ob_lines b)"] by simp
  with assms show ?thesis by auto
qed (use assms in blast)

lemma held_popped: "held (popped k b) + sum_list (map length (take k (ob_lines b))) = held b"
  unfolding held_def popped_lines
  by (metis add.commute append_take_drop_id map_append sum_list_append)

lemma accounted_popped:
  assumes "accounted b"
  shows "accounted (popped k b)"
proof -
  have "(word_of_nat (held b) :: 64 word) =
      word_of_nat (held (popped k b)) + word_of_nat (sum_list (map length (take k (ob_lines b))))"
    by (metis held_popped of_nat_add)
  then show ?thesis
    using assms held_popped [of k b] by (simp add: accounted_def popped_total)
qed

lemma accounted_over_limit:
  assumes "accounted b"
  shows "over_limit b \<longleftrightarrow> MAX_OUTPUT_BUFFER_SIZE < held b \<or> MAX_BUFFER_LINES < length (ob_lines b)"
proof -
  have "unat (word_of_nat (held b) :: 64 word) = held b"
    using assms by (simp add: accounted_def unat_of_nat)
  then show ?thesis
    using assms by (auto simp: over_limit_def accounted_def word_less_nat_alt MAX_OUTPUT_BUFFER_SIZE_def)
qed

text \<open>
  Trimming returns exactly when dropping some number of the oldest lines brings both
  counters under their limits, counted with the 64-bit counter of the code.
\<close>

theorem trim_buffer_returns_iff:
  "(\<exists>r. trim_buffer b = Some r) \<longleftrightarrow> (\<exists>k\<le>length (ob_lines b). \<not> over_limit (popped k b))"
proof
  assume "\<exists>r. trim_buffer b = Some r"
  then show "\<exists>k\<le>length (ob_lines b). \<not> over_limit (popped k b)"
    using trim_buffer_result trim_buffer_within by metis
next
  assume "\<exists>k\<le>length (ob_lines b). \<not> over_limit (popped k b)"
  then show "\<exists>r. trim_buffer b = Some r"
    using trim_buffer_popped by blast
qed

lemma trim_buffer_accounted:
  assumes "accounted b"
  shows "\<exists>k. trim_buffer b = Some (popped k b) \<and> accounted (popped k b)
    \<and> held (popped k b) \<le> MAX_OUTPUT_BUFFER_SIZE \<and> length (ob_lines (popped k b)) \<le> MAX_BUFFER_LINES"
proof -
  let ?n = "length (ob_lines b)"
  have "held (popped ?n b) = 0" "length (ob_lines (popped ?n b)) = 0"
    by (simp_all add: held_def popped_lines)
  then have "\<not> over_limit (popped ?n b)"
    using accounted_over_limit [OF accounted_popped [OF assms]] by simp
  then obtain j where j: "trim_buffer b = Some (popped j b)" "\<not> over_limit (popped j b)"
    using trim_buffer_popped by blast
  then show ?thesis
    using accounted_popped [OF assms, of j] accounted_over_limit [of "popped j b"]
    by (metis not_le)
qed

lemma trim_buffer_stuck:
  assumes "\<And>k. k \<le> length (ob_lines b) \<Longrightarrow> over_limit (popped k b)"
  shows "trim_buffer b = None"
  using assms trim_buffer_returns_iff [of b] by (metis not_None_eq)


section \<open>What an append adds\<close>

text \<open>The pieces the split loop pushes: every line with its newline, a last one without.\<close>

fun line_pieces :: "string list \<Rightarrow> string list" where
  "line_pieces [] = []"
| "line_pieces [l] = (if l = [] then [] else [l])"
| "line_pieces (l # l' # ls) = (l @ [newline]) # line_pieces (l' # ls)"

lemma fold_append_line:
  assumes "ls \<noteq> []" and "e \<Longrightarrow> last ls = []" and "n = i + length ls"
  shows "fold (append_line n e) (enumerate i ls) b =
    b\<lparr>ob_lines := ob_lines b @ line_pieces ls,
      total_size := total_size b + word_of_nat (sum_list (map length (line_pieces ls))),
      last_line_incomplete := last_line_incomplete b \<or> (\<not> e \<and> last ls \<noteq> [])\<rparr>"
  using assms
proof (induction ls arbitrary: i b rule: line_pieces.induct)
  case (2 l)
  then show ?case
    by (cases b) (auto simp: append_line_def Let_def)
next
  case (3 l l' ls)
  have "append_line n e (i, l) b =
      b\<lparr>total_size := total_size b + word_of_nat (length l + 1), ob_lines := ob_lines b @ [l @ [newline]]\<rparr>"
    using 3(4) by (simp add: append_line_def Let_def)
  then have "fold (append_line n e) (enumerate i (l # l' # ls)) b =
      fold (append_line n e) (enumerate (Suc i) (l' # ls))
        (b\<lparr>total_size := total_size b + word_of_nat (length l + 1), ob_lines := ob_lines b @ [l @ [newline]]\<rparr>)"
    by (simp only: enumerate_simps fold_simps)
  also note 3(1)
  finally show ?case
    using 3(3,4) by (simp add: add.assoc)
qed simp

lemma line_pieces_Cons:
  "line_pieces (split_on newline (c # d)) =
     (if c = newline then [newline] # line_pieces (split_on newline d)
      else case split_on newline d of
        [] \<Rightarrow> [] | p # ps \<Rightarrow> line_pieces ((c # p) # ps))"
  by (cases "split_on newline d") simp_all

lemma concat_line_pieces: "concat (line_pieces (split_on newline d)) = d"
proof (induction d)
  case (Cons c d)
  obtain p ps where ps: "split_on newline d = p # ps"
    by (cases "split_on newline d") simp_all
  show ?case
    using Cons by (cases ps) (auto simp: line_pieces_Cons ps simp del: split_on.simps split: if_splits)
qed simp

lemma last_split_on: "last (split_on newline d) = [] \<longleftrightarrow> d = [] \<or> last d = newline"
proof (induction d)
  case (Cons c d)
  have "split_on newline d = [[]] \<Longrightarrow> d = []"
    by (cases d) (auto split: list.splits if_splits)
  with Cons show ?case
    by (auto split: list.splits if_splits)
qed simp

lemma append_lines_eq:
  "append_lines d b =
    b\<lparr>ob_lines := ob_lines b @ line_pieces (split_on newline d),
      total_size := total_size b + word_of_nat (length d),
      last_line_incomplete := last_line_incomplete b \<or> (d \<noteq> [] \<and> last d \<noteq> newline)\<rparr>"
  (is "_ = ?r")
proof -
  have len: "sum_list (map length (line_pieces (split_on newline d))) = length d"
    by (metis concat_line_pieces length_concat)
  have "append_lines d b = fold (append_line (0 + length (split_on newline d))
      (d \<noteq> [] \<and> last d = newline)) (enumerate 0 (split_on newline d)) b"
    by (simp add: append_lines_def Let_def)
  also have "\<dots> = ?r"
    by (subst fold_append_line) (auto simp: last_split_on len intro: arg_cong [where f = "\<lambda>l. b\<lparr>ob_lines := ob_lines b @ line_pieces (split_on newline d), total_size := total_size b + word_of_nat (length d), last_line_incomplete := l\<rparr>"])
  finally show ?thesis .
qed

text \<open>What the buffer replays is always the end of what the terminal printed.\<close>

lemma suffix_popped: "suffix (concat (ob_lines (popped k b))) (concat (ob_lines b))"
  unfolding suffix_def popped_lines by (metis append_take_drop_id concat_append)

lemma concat_extend_last:
  "ob_lines b \<noteq> [] \<Longrightarrow> concat (ob_lines (extend_last d b)) = concat (ob_lines b) @ d"
  by (cases "ob_lines b" rule: rev_cases) (simp_all add: extend_last_def)

lemma held_concat: "held b = length (concat (ob_lines b))"
  by (simp add: held_def length_concat)

definition completes_line :: "string \<Rightarrow> out_buf \<Rightarrow> bool" where
  "completes_line d b \<longleftrightarrow> last_line_incomplete b \<and> ob_lines b \<noteq> [] \<and> newline \<in> set d"

definition continues_line :: "string \<Rightarrow> out_buf \<Rightarrow> bool" where
  "continues_line d b \<longleftrightarrow> last_line_incomplete b \<and> ob_lines b \<noteq> [] \<and> newline \<notin> set d"

lemma split_once_None: "split_once d s = None \<longleftrightarrow> d \<notin> set s"
  by (induction s) auto

lemma append_lines_accounted:
  "accounted b \<Longrightarrow> held b + length d < 2 ^ 64 \<Longrightarrow> accounted (append_lines d b)"
  by (simp add: accounted_def held_concat append_lines_eq concat_line_pieces)

text \<open>
  C30. While the byte count is exact, a chunk that does not complete an unfinished line is
  stored by a call that returns, the count stays exact, and the buffer is the end of what
  it held followed by the chunk. Unless the chunk only continues an unfinished line, the
  buffer is then within 1 MiB and 10000 lines.
\<close>

theorem ob_append_returns:
  assumes "accounted b" and "held b + length d < 2 ^ 64" and "d \<noteq> []" and "\<not> completes_line d b"
  shows "\<exists>b'. ob_append d b = Some b' \<and> accounted b'
    \<and> suffix (concat (ob_lines b')) (concat (ob_lines b) @ d)
    \<and> (\<not> continues_line d b \<longrightarrow>
          held b' \<le> MAX_OUTPUT_BUFFER_SIZE \<and> length (ob_lines b') \<le> MAX_BUFFER_LINES)"
proof (cases "continues_line d b")
  case True
  let ?b' = "(extend_last d b)\<lparr>total_size := total_size b + word_of_nat (length d)\<rparr>"
  from True have "ob_append d b = Some ?b'"
    using assms(3) by (simp add: ob_append_def continues_line_def split_once_None [THEN iffD2])
  moreover have "concat (ob_lines ?b') = concat (ob_lines b) @ d"
    using True concat_extend_last [of b d] by (simp add: continues_line_def)
  moreover from this have "accounted ?b'"
    using assms(1,2) by (simp add: accounted_def held_concat)
  ultimately show ?thesis
    using True by (metis suffix_order.refl)
next
  case False
  then have "ob_append d b = trim_buffer (append_lines d b)"
    using assms(3,4) by (auto simp: ob_append_def continues_line_def completes_line_def)
  then show ?thesis
    using trim_buffer_accounted [OF append_lines_accounted [OF assms(1,2)]]
      suffix_popped [of _ "append_lines d b"]
    by (auto simp: append_lines_eq concat_line_pieces)
qed

theorem ob_append_returns_witness:
  "\<exists>b'. ob_append ''ab'' ob_new = Some b' \<and> accounted b'
    \<and> suffix (concat (ob_lines b')) ''ab'' \<and> held b' \<le> MAX_OUTPUT_BUFFER_SIZE"
proof -
  have "accounted ob_new" "held ob_new + length ''ab'' < 2 ^ 64" "\<not> completes_line ''ab'' ob_new"
    "\<not> continues_line ''ab'' ob_new"
    by (simp_all add: accounted_def held_def ob_new_def completes_line_def continues_line_def)
  then show ?thesis
    using ob_append_returns [of ob_new "''ab''"] by (auto simp: ob_new_def)
qed


section \<open>The loop that does not end\<close>

lemma ob_append_all_append:
  "ob_append_all (ds @ es) b =
     (case ob_append_all ds b of None \<Rightarrow> None | Some b' \<Rightarrow> ob_append_all es b')"
  by (induction ds arbitrary: b) (auto split: option.splits)

lemma ob_append_first:
  assumes "d \<noteq> []" "newline \<notin> set d" "length d \<le> MAX_OUTPUT_BUFFER_SIZE"
  shows "ob_append d ob_new =
    Some \<lparr>ob_lines = [d], total_size = word_of_nat (length d), last_line_incomplete = True\<rparr>"
proof -
  have "last d \<noteq> newline"
    using assms(1,2) last_in_set by fastforce
  then have "append_lines d ob_new =
      \<lparr>ob_lines = [d], total_size = word_of_nat (length d), last_line_incomplete = True\<rparr>" (is "_ = ?b")
    using assms(1,2) by (simp add: append_lines_eq ob_new_def split_on_no_sep)
  moreover have "accounted ?b"
    using assms(3) by (simp add: accounted_def held_def MAX_OUTPUT_BUFFER_SIZE_def)
  then have "\<not> over_limit ?b"
    using assms(3) accounted_over_limit [of ?b] by (simp add: held_def MAX_BUFFER_LINES_def)
  ultimately show ?thesis
    using assms(1) by (simp add: ob_append_def trim_buffer.simps ob_new_def)
qed

lemma ob_append_all_continue:
  assumes "list_all (\<lambda>d. d \<noteq> [] \<and> newline \<notin> set d) ds"
  shows "ob_append_all ds \<lparr>ob_lines = [x], total_size = word_of_nat (length x), last_line_incomplete = True\<rparr> =
    Some \<lparr>ob_lines = [x @ concat ds], total_size = word_of_nat (length (x @ concat ds)),
          last_line_incomplete = True\<rparr>"
  using assms
proof (induction ds arbitrary: x)
  case (Cons d ds)
  have "ob_append d \<lparr>ob_lines = [x], total_size = word_of_nat (length x), last_line_incomplete = True\<rparr> =
    Some \<lparr>ob_lines = [x @ d], total_size = word_of_nat (length (x @ d)), last_line_incomplete = True\<rparr>"
    using Cons.prems by (simp add: ob_append_def split_once_None [THEN iffD2] extend_last_def)
  moreover have "list_all (\<lambda>d. d \<noteq> [] \<and> newline \<notin> set d) ds"
    using Cons.prems by simp
  note Cons.IH [OF this, of "x @ d"]
  ultimately show ?case
    by (simp only: ob_append_all.simps option.case append_assoc concat.simps)
qed simp

lemma wrapped_count_over:
  assumes "0 < x" and "x \<le> 2 ^ 33"
  shows "(1048576 :: 64 word) < - word_of_nat x"
proof -
  have "(word_of_nat (2 ^ 64 - x) :: 64 word) + word_of_nat x = word_of_nat (2 ^ 64 - x + x)"
    by (simp only: of_nat_add)
  also have "\<dots> = 0"
    using assms by simp
  finally have "- word_of_nat x = (word_of_nat (2 ^ 64 - x) :: 64 word)"
    by (metis add.commute minus_unique)
  moreover have "unat (word_of_nat (2 ^ 64 - x) :: 64 word) = 2 ^ 64 - x"
    using assms by (subst unat_of_nat) simp
  moreover have "1048576 < (2 ^ 64 :: nat) - x"
    using assms by simp
  ultimately show ?thesis
    by (simp only: word_less_nat_alt) simp
qed

text \<open>
  The state in which the first line was longer than the buffer and its last bytes were
  not counted: every further turn of the loop leaves the counter above the limit.
\<close>

lemma trim_buffer_undercounted:
  assumes "MAX_OUTPUT_BUFFER_SIZE < n + length q" and "n + length q < 2 ^ 64"
    and "length q < m" and "m \<le> 2 ^ 33"
    and "ob_lines b = l # line_pieces (split_on newline q)" and "length l = n + m"
    and "total_size b = word_of_nat (n + length q)"
  shows "trim_buffer b = None"
proof (rule trim_buffer_stuck)
  fix k
  show "over_limit (popped k b)"
  proof (cases k)
    case 0
    have "unat (word_of_nat (n + length q) :: 64 word) = n + length q"
      using assms(2) by (simp add: unat_of_nat del: of_nat_add)
    then show ?thesis
      using 0 assms(1,7) by (simp add: over_limit_def word_less_nat_alt MAX_OUTPUT_BUFFER_SIZE_def del: of_nat_add)
  next
    case (Suc j)
    define r where "r = sum_list (map length (take j (line_pieces (split_on newline q))))"
    have "length q = r + sum_list (map length (drop j (line_pieces (split_on newline q))))"
      unfolding r_def by (metis append_take_drop_id concat_line_pieces length_concat map_append sum_list_append)
    then have r: "r \<le> length q" by simp
    have "total_size (popped k b) = word_of_nat (n + length q) - word_of_nat (n + m + r)"
      using assms(5-7) Suc by (simp add: popped_total r_def)
    also have "n + m + r = (m + r - length q) + (n + length q)"
      using r assms(3) by simp
    finally have "total_size (popped k b) = - word_of_nat (m + r - length q)"
      by (simp only: of_nat_add) simp
    moreover have "(1048576 :: 64 word) < - word_of_nat (m + r - length q)"
      using r assms(3,4) by (intro wrapped_count_over) simp_all
    ultimately show ?thesis
      by (simp add: over_limit_def MAX_OUTPUT_BUFFER_SIZE_def)
  qed
qed

text \<open>
  C31. A terminal that prints more than 1 MiB without a newline, in chunks of the reader's
  size, and then a chunk whose first newline comes no earlier than half way, is never read
  again: the call that stores this chunk does not return.
\<close>

theorem ob_append_hangs:
  assumes "list_all (\<lambda>d. d \<noteq> [] \<and> newline \<notin> set d \<and> length d \<le> 4096) ds"
    and "MAX_OUTPUT_BUFFER_SIZE < length (concat ds)" and "length (concat ds) < 2 ^ 63"
    and "newline \<notin> set p" and "length q \<le> length p" and "length p \<le> 4096"
  shows "ob_append_all (ds @ [p @ newline # q]) ob_new = None"
proof -
  from assms(2) obtain d ds' where ds: "ds = d # ds'"
    by (cases ds) simp_all
  have "list_all (\<lambda>d. d \<noteq> [] \<and> newline \<notin> set d) ds'"
    using assms(1) ds by (auto simp: list_all_iff)
  then have before: "ob_append_all ds ob_new = Some \<lparr>ob_lines = [concat ds],
      total_size = word_of_nat (length (concat ds)), last_line_incomplete = True\<rparr>" (is "_ = Some ?b")
    using assms(1) ob_append_all_continue [of ds' d]
    by (simp add: ds ob_append_first MAX_OUTPUT_BUFFER_SIZE_def)
  define b' where "b' = append_lines q
      ((extend_last (p @ [newline]) ?b)\<lparr>last_line_incomplete := False\<rparr>)"
  have "ob_append (p @ newline # q) ?b = trim_buffer b'"
    unfolding b'_def ob_append_def using assms(4) by (simp add: split_once_append)
  also have "\<dots> = None"
  proof (rule trim_buffer_undercounted)
    show "ob_lines b' = (concat ds @ p @ [newline]) # line_pieces (split_on newline q)"
      by (simp add: b'_def append_lines_eq extend_last_def)
    show "total_size b' = word_of_nat (length (concat ds) + length q)"
      by (simp add: b'_def append_lines_eq extend_last_def)
    show "length q < length p + 1" "length p + 1 \<le> 2 ^ 33"
      using assms(5,6) by simp_all
  qed (use assms in simp_all)
  finally show ?thesis
    by (simp add: ob_append_all_append before)
qed

theorem ob_append_hangs_witness:
  "ob_append_all (replicate 257 (replicate 4096 CHR ''x'') @ [[newline]]) ob_new = None"
proof -
  have "length (concat (replicate 257 (replicate 4096 CHR ''x''))) = 1052672"
    by (simp add: length_concat sum_list_replicate)
  then show ?thesis
    using ob_append_hangs [of "replicate 257 (replicate 4096 CHR ''x'')" "[]" "[]"]
    by (simp add: MAX_OUTPUT_BUFFER_SIZE_def list_all_iff)
qed


section \<open>What a replay contains\<close>

lemma skip_continuation_drop: "\<exists>k\<le>n. skip_continuation n s = drop k s"
proof (induction n s rule: skip_continuation.induct)
  case (3 n c s)
  then show ?case
    by (metis Suc_le_mono drop0 drop_Suc_Cons le0 skip_continuation.simps(3))
qed (auto intro: exI [of _ 0])

lemma skip_continuation_suffix: "suffix (skip_continuation n s) s"
  by (metis skip_continuation_drop suffix_drop)

lemma recent_chunks_suffix:
  "suffix (concat (rev (recent_chunks m sz chunks older))) (concat (rev older) @ concat (rev chunks))"
proof (induction m sz chunks older rule: recent_chunks.induct)
  case (2 m sz chunks line older)
  have "suffix (skip_continuation 3 (drop (length line - m) line)) line"
    by (metis skip_continuation_suffix suffix_drop suffix_order.trans)
  then show ?case
    using 2 by (auto simp: Let_def suffix_append intro: suffix_appendI)
qed simp

lemma recent_chunks_length:
  "sz = length (concat chunks) \<Longrightarrow> sz \<le> m \<Longrightarrow> length (concat (recent_chunks m sz chunks older)) \<le> m"
proof (induction m sz chunks older rule: recent_chunks.induct)
  case (2 m sz chunks line older)
  have "length (skip_continuation 3 (drop (length line - m) line)) \<le> m" if "m < length line"
    using skip_continuation_suffix [THEN suffix_length_le, of 3 "drop (length line - m) line"] that by simp
  then show ?case
    using 2 by (auto simp: Let_def simp del: concat_eq_Nil_conv)
qed simp

lemma length_concat_rev: "length (concat (rev xs)) = length (concat xs)"
  by (simp add: length_concat rev_map [symmetric])

lemma get_recent_bounded:
  "length (get_recent m b) \<le> m" "suffix (get_recent m b) (concat (ob_lines b))"
  using recent_chunks_length [of 0 "[]" m] recent_chunks_suffix [of m 0 "[]" "rev (ob_lines b)"]
  by (simp_all add: get_recent_def length_concat_rev)

lemma recent_chunks_whole:
  assumes "[] \<notin> set older" and "sz = length (concat chunks)" and "sz \<le> m"
    and "sz = 0 \<Longrightarrow> older = [] \<or> length (hd older) \<le> m"
  shows "\<exists>k\<le>length older. recent_chunks m sz chunks older = chunks @ take k older
    \<and> (k < length older \<longrightarrow> m < length (concat (chunks @ take (Suc k) older)))"
  using assms
proof (induction m sz chunks older rule: recent_chunks.induct)
  case (2 m sz chunks line older)
  show ?case
  proof (cases "sz + length line > m")
    case True
    with 2 have "recent_chunks m sz chunks (line # older) = chunks @ take 0 (line # older)"
      by auto
    with True 2 show ?thesis
      by (intro exI [of _ 0]) simp
  next
    case False
    have "sz + length line \<noteq> 0" using 2(2) by auto
    then have "\<exists>k\<le>length older. recent_chunks m (sz + length line) (chunks @ [line]) older
        = (chunks @ [line]) @ take k older
      \<and> (k < length older \<longrightarrow> m < length (concat ((chunks @ [line]) @ take (Suc k) older)))"
      using False 2(2,3) by (intro 2(1)) simp_all
    then obtain k where "k \<le> length older"
      "recent_chunks m (sz + length line) (chunks @ [line]) older = (chunks @ [line]) @ take k older"
      "k < length older \<longrightarrow> m < length (concat ((chunks @ [line]) @ take (Suc k) older))"
      by blast
    with False show ?thesis
      by (intro exI [of _ "Suc k"]) simp
  qed
qed simp

text \<open>
  When the newest line fits, a replay consists of whole lines, and of as many as fit:
  one more would exceed the bytes asked for. A newest line that does not fit alone is cut
  to its last bytes, less at most three continuation bytes of a split character.
\<close>

theorem get_recent_whole_lines:
  assumes "0 < m" and "[] \<notin> set (ob_lines b)" and "ob_lines b \<noteq> []"
  shows "(length (last (ob_lines b)) \<le> m \<longrightarrow>
      (\<exists>k. get_recent m b = concat (drop k (ob_lines b))
         \<and> (0 < k \<longrightarrow> m < length (concat (drop (k - 1) (ob_lines b))))))
    \<and> (m < length (last (ob_lines b)) \<longrightarrow>
      (\<exists>j\<le>3. get_recent m b = drop (length (last (ob_lines b)) - m + j) (last (ob_lines b))))"
    (is "(_ \<longrightarrow> ?fits) \<and> (_ \<longrightarrow> ?cut)")
proof (intro conjI impI)
  let ?ls = "ob_lines b"
  assume "length (last ?ls) \<le> m"
  then obtain k where k: "k \<le> length ?ls"
    "recent_chunks m 0 [] (rev ?ls) = take k (rev ?ls)"
    "k < length ?ls \<longrightarrow> m < length (concat (take (Suc k) (rev ?ls)))"
    using recent_chunks_whole [of "rev ?ls" 0 "[]" m] assms by (auto simp: hd_rev)
  have "get_recent m b = concat (drop (length ?ls - k) ?ls)"
    using k(1,2) assms(1) by (simp add: get_recent_def take_rev)
  moreover have "m < length (concat (drop (length ?ls - k - 1) ?ls))" if "0 < length ?ls - k"
    using k(3) that length_concat_rev [of "drop (length ?ls - Suc k) ?ls"] by (simp add: take_rev)
  ultimately show ?fits
    by (intro exI [of _ "length ?ls - k"] conjI impI)
next
  let ?l = "last (ob_lines b)"
  assume long: "m < length ?l"
  obtain r where "rev (ob_lines b) = ?l # r"
    using assms(3) by (cases "ob_lines b" rule: rev_cases) auto
  then have "get_recent m b = skip_continuation 3 (drop (length ?l - m) ?l)"
    using long assms(1) by (simp add: get_recent_def Let_def del: rev_eq_Cons_iff)
  then show ?cut
    using skip_continuation_drop [of 3 "drop (length ?l - m) ?l"] by (auto simp: add.commute)
qed

theorem get_recent_whole_lines_witness:
  "\<exists>k. get_recent 5 \<lparr>ob_lines = [''abc'', ''de'', ''fg''], total_size = 7, last_line_incomplete = True\<rparr>
    = concat (drop k [''abc'', ''de'', ''fg''])"
  using get_recent_whole_lines [of 5
      "\<lparr>ob_lines = [''abc'', ''de'', ''fg''], total_size = 7, last_line_incomplete = True\<rparr>"]
  by auto

end
