(* ===== verification/Term_Helper.thy ===== *)
theory Term_Helper
  imports Prelude
begin

text \<open>
  The message protocol between the terminal service and its helper process on Windows:
  the encoders of \<open>src/src/server/terminal_helper.rs\<close> and the input thread of
  \<open>run_terminal_helper\<close>, which reads the pipe, cuts it into messages and hands them to
  the console.

  The pipe is the list of what its successive reads have to offer; a read takes no more
  than the caller's buffer holds, returns nothing at the end of the pipe, may be
  interrupted, and may fail. The console is the list of the commands it received. What
  the console's writes return and when the helper is told to exit are observations, one
  per turn of the loop.
\<close>

definition MSG_TYPE_DATA :: nat where
  "MSG_TYPE_DATA = 1"

definition MSG_TYPE_RESIZE :: nat where
  "MSG_TYPE_RESIZE = 2"

definition MSG_HEADER_SIZE :: nat where
  "MSG_HEADER_SIZE = 5"

definition MAX_PAYLOAD_SIZE :: nat where
  "MAX_PAYLOAD_SIZE = 16 * 1024 * 1024"


section \<open>Encoding\<close>

primrec to_le_bytes :: "nat \<Rightarrow> nat \<Rightarrow> string" where
  "to_le_bytes 0 n = []"
| "to_le_bytes (Suc k) n = char_of (n mod 256) # to_le_bytes k (n div 256)"

fun from_le_bytes :: "string \<Rightarrow> nat" where
  "from_le_bytes [] = 0"
| "from_le_bytes (c # s) = byte c + 256 * from_le_bytes s"

definition encode_helper_message :: "nat \<Rightarrow> string \<Rightarrow> string" where
  "encode_helper_message msg_type payload =
     char_of msg_type # to_le_bytes 4 (length payload mod 2 ^ 32) @ payload"

definition encode_resize_message :: "16 word \<Rightarrow> 16 word \<Rightarrow> string" where
  "encode_resize_message rows cols =
     encode_helper_message MSG_TYPE_RESIZE (to_le_bytes 2 (unat rows) @ to_le_bytes 2 (unat cols))"


section \<open>Reading the pipe\<close>

datatype read_event = Chunk string | Interrupted | ReadError

datatype read_outcome = RdOk | RdEof | RdErr

fun event_weight :: "read_event \<Rightarrow> nat" where
  "event_weight (Chunk s) = Suc (length s)"
| "event_weight _ = 1"

definition pipe_weight :: "read_event list \<Rightarrow> nat" where
  "pipe_weight evs = sum_list (map event_weight evs)"

lemma pipe_weight_simps [simp]:
  "pipe_weight [] = 0"
  "pipe_weight (e # evs) = event_weight e + pipe_weight evs"
  by (simp_all add: pipe_weight_def)

function read_exact_or_eof :: "nat \<Rightarrow> string \<Rightarrow> read_event list \<Rightarrow> read_outcome \<times> string \<times> read_event list" where
  "read_exact_or_eof need acc evs =
     (if need = 0 then (RdOk, acc, evs)
      else case evs of
        [] \<Rightarrow> (RdEof, acc, [])
      | Chunk s # rest \<Rightarrow>
          if s = [] then (RdEof, acc, rest)
          else read_exact_or_eof (need - length s) (acc @ take need s)
                 (if need < length s then Chunk (drop need s) # rest else rest)
      | Interrupted # rest \<Rightarrow> read_exact_or_eof need acc rest
      | ReadError # rest \<Rightarrow> (RdErr, acc, rest))"
  by pat_completeness auto
termination
  by (relation "measure (\<lambda>(_, _, evs). pipe_weight evs)") auto

declare read_exact_or_eof.simps [simp del]


section \<open>The input thread\<close>

datatype pty_command = PtyWrite string | PtyResize "16 word" "16 word"

datatype input_stop =
    StopExiting | StopHeaderEof | StopHeaderError | StopTooLarge nat | StopPayloadEof
  | StopPayloadError | StopWriteError | StopFlushError | StopUnknownType nat

record helper_obs =
  ho_exiting :: bool
  ho_write_ok :: bool
  ho_flush_ok :: bool

text \<open>The message of one turn, once header and payload are read.\<close>

definition handle_message :: "helper_obs \<Rightarrow> nat \<Rightarrow> string \<Rightarrow> pty_command list \<times> input_stop option" where
  "handle_message ho msg_type payload =
     (if msg_type = MSG_TYPE_DATA then
        (if \<not> ho_write_ok ho then ([], Some StopWriteError)
         else if \<not> ho_flush_ok ho then ([PtyWrite payload], Some StopFlushError)
         else ([PtyWrite payload], None))
      else if msg_type = MSG_TYPE_RESIZE then
        (if 4 \<le> length payload
         then ([PtyResize (word_of_nat (from_le_bytes (take 2 payload)))
                  (word_of_nat (from_le_bytes (take 2 (drop 2 payload))))], None)
         else ([], None))
      else ([], Some (StopUnknownType msg_type)))"

text \<open>One turn: what it did, what is left of the pipe, and why it stopped, if it did.\<close>

definition input_turn :: "helper_obs \<Rightarrow> read_event list \<Rightarrow> pty_command list \<times> read_event list \<times> input_stop option" where
  "input_turn ho evs =
     (if ho_exiting ho then ([], evs, Some StopExiting)
      else case read_exact_or_eof MSG_HEADER_SIZE [] evs of
        (RdEof, _, evs1) \<Rightarrow> ([], evs1, Some StopHeaderEof)
      | (RdErr, _, evs1) \<Rightarrow> ([], evs1, Some StopHeaderError)
      | (RdOk, header, evs1) \<Rightarrow>
          let msg_type = byte (header ! 0);
              payload_len = from_le_bytes (take 4 (drop 1 header))
          in if payload_len > MAX_PAYLOAD_SIZE then ([], evs1, Some (StopTooLarge payload_len))
             else case (if payload_len > 0 then read_exact_or_eof payload_len [] evs1 else (RdOk, [], evs1)) of
               (RdEof, _, evs2) \<Rightarrow> ([], evs2, Some StopPayloadEof)
             | (RdErr, _, evs2) \<Rightarrow> ([], evs2, Some StopPayloadError)
             | (RdOk, payload, evs2) \<Rightarrow>
                 (let (cmds, stop) = handle_message ho msg_type payload in (cmds, evs2, stop)))"

lemma read_exact_simps [simp]:
  "read_exact_or_eof 0 acc evs = (RdOk, acc, evs)"
  "0 < need \<Longrightarrow> read_exact_or_eof need acc [] = (RdEof, acc, [])"
  "0 < need \<Longrightarrow> read_exact_or_eof need acc (Chunk [] # evs) = (RdEof, acc, evs)"
  "0 < need \<Longrightarrow> s \<noteq> [] \<Longrightarrow> read_exact_or_eof need acc (Chunk s # evs) =
     read_exact_or_eof (need - length s) (acc @ take need s)
       (if need < length s then Chunk (drop need s) # evs else evs)"
  "0 < need \<Longrightarrow> read_exact_or_eof need acc (Interrupted # evs) = read_exact_or_eof need acc evs"
  "0 < need \<Longrightarrow> read_exact_or_eof need acc (ReadError # evs) = (RdErr, acc, evs)"
  by (simp_all add: read_exact_or_eof.simps)

text \<open>Induction along the reads, with the cases of the code's match.\<close>

lemma read_exact_induct [case_names enough eof empty chunk interrupted error]:
  assumes "\<And>acc evs. P 0 acc evs"
    and "\<And>need acc. 0 < need \<Longrightarrow> P need acc []"
    and "\<And>need acc evs. 0 < need \<Longrightarrow> P need acc (Chunk [] # evs)"
    and "\<And>need acc s evs. 0 < need \<Longrightarrow> s \<noteq> [] \<Longrightarrow>
      P (need - length s) (acc @ take need s) (if need < length s then Chunk (drop need s) # evs else evs) \<Longrightarrow>
      P need acc (Chunk s # evs)"
    and "\<And>need acc evs. 0 < need \<Longrightarrow> P need acc evs \<Longrightarrow> P need acc (Interrupted # evs)"
    and "\<And>need acc evs. 0 < need \<Longrightarrow> P need acc (ReadError # evs)"
  shows "P need acc evs"
proof (induction need acc evs rule: read_exact_or_eof.induct)
  case (1 need acc evs)
  show ?case
  proof (cases "need = 0")
    case True
    then show ?thesis by (simp add: assms(1))
  next
    case need: False
    show ?thesis
    proof (cases evs)
      case Nil
      with need show ?thesis by (simp add: assms(2))
    next
      case (Cons e rest)
      show ?thesis
      proof (cases e)
        case (Chunk s)
        with 1 need Cons assms(3) assms(4) [of need s acc rest] show ?thesis
          by (cases "s = []") simp_all
      next
        case Interrupted
        with 1 need Cons show ?thesis
          by (simp add: assms(5))
      next
        case ReadError
        with need Cons show ?thesis
          by (simp add: assms(6))
      qed
    qed
  qed
qed

lemma read_exact_weight:
  assumes "read_exact_or_eof need acc evs = (r, s, left)"
  shows "pipe_weight left \<le> pipe_weight evs \<and> (r = RdOk \<and> 0 < need \<longrightarrow> pipe_weight left < pipe_weight evs)"
  using assms
  by (induction need acc evs rule: read_exact_induct) (auto split: if_splits)

lemma input_turn_weight:
  assumes "input_turn ho evs = (cmds, left, None)"
  shows "pipe_weight left < pipe_weight evs"
proof -
  obtain r header evs1 where rd: "read_exact_or_eof MSG_HEADER_SIZE [] evs = (r, header, evs1)"
    by (metis prod_cases3)
  have r: "\<not> ho_exiting ho" "r = RdOk"
    using assms rd by (auto simp: input_turn_def split: if_splits read_outcome.splits)
  have w1: "pipe_weight evs1 < pipe_weight evs"
    using read_exact_weight [OF rd] r by (simp add: MSG_HEADER_SIZE_def)
  define n where "n = from_le_bytes (take 4 (drop 1 header))"
  obtain r2 payload evs2 where rd2: "(if n > 0 then read_exact_or_eof n [] evs1 else (RdOk, [], evs1)) = (r2, payload, evs2)"
    by (metis prod_cases3)
  have "pipe_weight evs2 \<le> pipe_weight evs1"
    using rd2 read_exact_weight [of n "[]" evs1 r2 payload evs2] by (auto split: if_splits)
  moreover have "left = evs2"
    using assms r rd rd2 by (auto simp: input_turn_def Let_def n_def
        split: if_splits read_outcome.splits prod.splits)
  ultimately show ?thesis
    using w1 by simp
qed

function input_loop :: "(nat \<Rightarrow> helper_obs) \<Rightarrow> nat \<Rightarrow> read_event list \<Rightarrow> pty_command list \<times> input_stop" where
  "input_loop obs i evs =
     (case input_turn (obs i) evs of
        (cmds, _, Some stop) \<Rightarrow> (cmds, stop)
      | (cmds, left, None) \<Rightarrow>
          (let (more, stop) = input_loop obs (Suc i) left in (cmds @ more, stop)))"
  by pat_completeness auto
termination
  by (relation "measure (\<lambda>(_, _, evs). pipe_weight evs)") (auto dest: input_turn_weight [OF sym])

declare input_loop.simps [simp del]


section \<open>The protocol round trip\<close>

text \<open>
  A pipe that works: its reads bring at least one byte or are interrupted. Its bytes are
  what the service wrote, cut anywhere.
\<close>

definition working :: "read_event list \<Rightarrow> bool" where
  "working evs = list_all (\<lambda>e. e \<noteq> Chunk [] \<and> e \<noteq> ReadError) evs"

fun event_bytes :: "read_event \<Rightarrow> string" where
  "event_bytes (Chunk s) = s"
| "event_bytes _ = []"

definition pipe_bytes :: "read_event list \<Rightarrow> string" where
  "pipe_bytes evs = concat (map event_bytes evs)"

lemma working_simps [simp]:
  "working []"
  "working (e # evs) \<longleftrightarrow> e \<noteq> Chunk [] \<and> e \<noteq> ReadError \<and> working evs"
  by (simp_all add: working_def)

lemma pipe_bytes_simps [simp]:
  "pipe_bytes [] = []"
  "pipe_bytes (e # evs) = event_bytes e @ pipe_bytes evs"
  by (simp_all add: pipe_bytes_def)

lemma read_exact_working:
  assumes "working evs" and "need \<le> length (pipe_bytes evs)"
  shows "\<exists>left. read_exact_or_eof need acc evs = (RdOk, acc @ take need (pipe_bytes evs), left)
    \<and> working left \<and> pipe_bytes left = drop need (pipe_bytes evs)"
  using assms
  by (induction need acc evs rule: read_exact_induct) (auto split: if_splits)

lemma read_exact_short:
  assumes "working evs" and "length (pipe_bytes evs) < need"
  shows "\<exists>s. read_exact_or_eof need acc evs = (RdEof, s, [])"
  using assms
  by (induction need acc evs rule: read_exact_induct) (auto split: if_splits)

lemma length_to_le_bytes [simp]: "length (to_le_bytes k n) = k"
  by (induction k arbitrary: n) simp_all

lemma from_to_le_bytes: "n < 256 ^ k \<Longrightarrow> from_le_bytes (to_le_bytes k n) = n"
proof (induction k arbitrary: n)
  case (Suc k)
  have "n div 256 < 256 ^ k"
    using Suc.prems by (simp add: less_mult_imp_div_less mult.commute)
  with Suc.IH show ?case
    by simp
qed simp

lemma length_encode_helper_message [simp]:
  "length (encode_helper_message t payload) = MSG_HEADER_SIZE + length payload"
  by (simp add: encode_helper_message_def MSG_HEADER_SIZE_def)

lemma header_of_message:
  assumes "t < 256" and "length payload < 2 ^ 32"
  shows "take MSG_HEADER_SIZE (encode_helper_message t payload @ rest) = char_of t # to_le_bytes 4 (length payload)"
    and "drop MSG_HEADER_SIZE (encode_helper_message t payload @ rest) = payload @ rest"
  using assms by (simp_all add: encode_helper_message_def MSG_HEADER_SIZE_def take_Cons' drop_Cons')

lemma input_turn_message:
  assumes "\<not> ho_exiting ho" and "working evs" and "t < 256" and "length payload \<le> MAX_PAYLOAD_SIZE"
    and "pipe_bytes evs = encode_helper_message t payload @ rest"
  shows "\<exists>left. input_turn ho evs = (fst (handle_message ho t payload), left, snd (handle_message ho t payload))
    \<and> working left \<and> pipe_bytes left = rest"
proof -
  have len: "length payload < 2 ^ 32"
    using assms(4) by (simp add: MAX_PAYLOAD_SIZE_def)
  note header = header_of_message [OF assms(3) len, of rest]
  have "MSG_HEADER_SIZE \<le> length (pipe_bytes evs)"
    using assms(5) by simp
  from read_exact_working [OF assms(2) this, of "[]"] obtain evs1
    where rd1: "read_exact_or_eof MSG_HEADER_SIZE [] evs = (RdOk, char_of t # to_le_bytes 4 (length payload), evs1)"
      "working evs1" "pipe_bytes evs1 = payload @ rest"
    using assms(5) header by auto
  have n: "from_le_bytes (to_le_bytes 4 (length payload)) = length payload"
    using len by (intro from_to_le_bytes) simp
  from read_exact_working [OF rd1(2), of "length payload" "[]"] rd1(3) obtain evs2
    where rd2: "read_exact_or_eof (length payload) [] evs1 = (RdOk, payload, evs2)"
      "working evs2" "pipe_bytes evs2 = rest"
    by auto
  then have "(if 0 < length payload then read_exact_or_eof (length payload) [] evs1 else (RdOk, [], evs1))
      = (RdOk, payload, evs2)"
    by auto
  then have "input_turn ho evs = (fst (handle_message ho t payload), evs2, snd (handle_message ho t payload))"
    using assms(1,3,4) rd1(1) n by (cases "payload = []") (simp_all add: input_turn_def case_prod_beta)
  with rd2 show ?thesis
    by blast
qed

datatype helper_msg = MsgData string | MsgResize "16 word" "16 word"

fun encode_msg :: "helper_msg \<Rightarrow> string" where
  "encode_msg (MsgData payload) = encode_helper_message MSG_TYPE_DATA payload"
| "encode_msg (MsgResize rows cols) = encode_resize_message rows cols"

fun msg_command :: "helper_msg \<Rightarrow> pty_command" where
  "msg_command (MsgData payload) = PtyWrite payload"
| "msg_command (MsgResize rows cols) = PtyResize rows cols"

fun msg_fits :: "helper_msg \<Rightarrow> bool" where
  "msg_fits (MsgData payload) = (length payload \<le> MAX_PAYLOAD_SIZE)"
| "msg_fits (MsgResize rows cols) = True"

definition helper_fine :: "helper_obs \<Rightarrow> bool" where
  "helper_fine ho \<longleftrightarrow> \<not> ho_exiting ho \<and> ho_write_ok ho \<and> ho_flush_ok ho"

lemma word_of_le_bytes: "word_of_nat (from_le_bytes (to_le_bytes 2 (unat w))) = (w :: 16 word)"
proof -
  have "unat w < 256 ^ 2"
    using unsigned_less [of w] by simp
  then show ?thesis
    by (simp add: from_to_le_bytes)
qed

lemma input_turn_msg:
  assumes "helper_fine ho" and "working evs" and "msg_fits m" and "pipe_bytes evs = encode_msg m @ rest"
  shows "\<exists>left. input_turn ho evs = ([msg_command m], left, None) \<and> working left \<and> pipe_bytes left = rest"
proof (cases m)
  case (MsgData payload)
  with assms input_turn_message [of ho evs MSG_TYPE_DATA payload rest] show ?thesis
    by (auto simp: helper_fine_def handle_message_def MSG_TYPE_DATA_def)
next
  case (MsgResize rows cols)
  with assms input_turn_message [of ho evs MSG_TYPE_RESIZE "to_le_bytes 2 (unat rows) @ to_le_bytes 2 (unat cols)" rest]
  show ?thesis
    by (auto simp: helper_fine_def handle_message_def MSG_TYPE_DATA_def MSG_TYPE_RESIZE_def
        encode_resize_message_def MAX_PAYLOAD_SIZE_def word_of_le_bytes)
qed

text \<open>
  C20. Whatever the pipe makes of the byte stream, cutting it anywhere and interrupting
  reads, the helper hands the console exactly the messages the service encoded, in order,
  and stops at the end of the pipe.
\<close>

theorem helper_protocol_roundtrip:
  assumes "\<forall>i. helper_fine (obs i)" and "working evs" and "list_all msg_fits msgs"
    and "pipe_bytes evs = concat (map encode_msg msgs) @ part" and "length part < MSG_HEADER_SIZE"
  shows "input_loop obs i evs = (map msg_command msgs, StopHeaderEof)"
  using assms(2-4)
proof (induction msgs arbitrary: i evs)
  case Nil
  then obtain s where "read_exact_or_eof MSG_HEADER_SIZE [] evs = (RdEof, s, [])"
    using read_exact_short [of evs MSG_HEADER_SIZE "[]"] assms(5) by auto
  then show ?case
    using assms(1) by (simp add: input_loop.simps [of obs i] input_turn_def helper_fine_def)
next
  case (Cons m msgs)
  have "pipe_bytes evs = encode_msg m @ (concat (map encode_msg msgs) @ part)"
    using Cons.prems(3) by simp
  with Cons.prems assms(1) obtain left where
    "input_turn (obs i) evs = ([msg_command m], left, None)" "working left"
    "pipe_bytes left = concat (map encode_msg msgs) @ part"
    using input_turn_msg [of "obs i" evs m] by auto
  with Cons.IH [of left "Suc i"] Cons.prems(2) show ?case
    by (simp add: input_loop.simps [of obs i])
qed

theorem helper_protocol_roundtrip_witness:
  "input_loop (\<lambda>_. \<lparr>ho_exiting = False, ho_write_ok = True, ho_flush_ok = True\<rparr>) 0
     [Chunk (take 3 (encode_msg (MsgData ''ls'') @ encode_msg (MsgResize 24 80))), Interrupted,
      Chunk (drop 3 (encode_msg (MsgData ''ls'') @ encode_msg (MsgResize 24 80)))]
   = ([PtyWrite ''ls'', PtyResize 24 80], StopHeaderEof)"
proof -
  define s where "s = encode_msg (MsgData ''ls'') @ encode_msg (MsgResize 24 80)"
  have "take 3 s \<noteq> []" "drop 3 s \<noteq> []"
    by (simp_all add: s_def MSG_HEADER_SIZE_def flip: length_greater_0_conv)
  then show ?thesis
    unfolding s_def [symmetric]
    using helper_protocol_roundtrip [of "\<lambda>_. \<lparr>ho_exiting = False, ho_write_ok = True, ho_flush_ok = True\<rparr>"
        "[Chunk (take 3 s), Interrupted, Chunk (drop 3 s)]" "[MsgData ''ls'', MsgResize 24 80]" "[]" 0]
    by (simp add: s_def [symmetric] helper_fine_def MAX_PAYLOAD_SIZE_def MSG_HEADER_SIZE_def del: encode_msg.simps)
qed


section \<open>Messages the helper refuses\<close>

lemma read_exact_length:
  "read_exact_or_eof need acc evs = (RdOk, s, left) \<Longrightarrow> length s = length acc + need"
  by (induction need acc evs rule: read_exact_induct) (auto split: if_splits)

lemma handle_message_write:
  "PtyWrite p \<in> set (fst (handle_message ho t payload)) \<Longrightarrow> p = payload"
  by (auto simp: handle_message_def split: if_splits)

lemma input_turn_write:
  assumes "input_turn ho evs = (cmds, left, stop)" and "PtyWrite p \<in> set cmds"
  shows "length p \<le> MAX_PAYLOAD_SIZE"
proof -
  obtain r header evs1 where rd: "read_exact_or_eof MSG_HEADER_SIZE [] evs = (r, header, evs1)"
    by (metis prod_cases3)
  have r: "\<not> ho_exiting ho" "r = RdOk"
    using assms rd by (auto simp: input_turn_def split: if_splits read_outcome.splits)
  define n where "n = from_le_bytes (take 4 (drop 1 header))"
  obtain r2 payload evs2 where rd2: "(if n > 0 then read_exact_or_eof n [] evs1 else (RdOk, [], evs1)) = (r2, payload, evs2)"
    by (metis prod_cases3)
  have n: "n \<le> MAX_PAYLOAD_SIZE" "r2 = RdOk" "cmds = fst (handle_message ho (byte (header ! 0)) payload)"
    using assms r rd rd2 by (auto simp: input_turn_def Let_def n_def
        split: if_splits read_outcome.splits prod.splits)
  moreover have "length payload = n"
    using rd2 n(2) read_exact_length [of n "[]" evs1 payload evs2] by (auto split: if_splits)
  ultimately show ?thesis
    using assms(2) handle_message_write by metis
qed

text \<open>
  Nothing the service sends makes the helper hand the console a write of more than
  16 MiB.
\<close>

theorem helper_payload_bound:
  "list_all (\<lambda>c. case c of PtyWrite p \<Rightarrow> length p \<le> MAX_PAYLOAD_SIZE | PtyResize rows cols \<Rightarrow> True)
     (fst (input_loop obs i evs))"
proof (induction obs i evs rule: input_loop.induct)
  case (1 obs i evs)
  obtain cmds left stop where turn: "input_turn (obs i) evs = (cmds, left, stop)"
    by (metis prod_cases3)
  have "list_all (\<lambda>c. case c of PtyWrite p \<Rightarrow> length p \<le> MAX_PAYLOAD_SIZE | PtyResize rows cols \<Rightarrow> True) cmds"
    using input_turn_write [OF turn] by (auto simp: list_all_iff split: pty_command.splits)
  with 1 turn show ?case
    by (cases stop) (simp_all add: input_loop.simps [of obs i] case_prod_beta)
qed

text \<open>
  A header that announces more than 16 MiB, or a complete message of a type that is
  neither data nor resize, stops the helper's input before anything of it reaches the
  console, whatever follows on the pipe.
\<close>

theorem helper_refuses:
  assumes "\<not> ho_exiting (obs i)" and "working evs" and "t < 256" and "length payload \<le> MAX_PAYLOAD_SIZE"
    and "pipe_bytes evs = (if big then char_of t # to_le_bytes 4 n else encode_helper_message t payload) @ rest"
    and "if big then MAX_PAYLOAD_SIZE < n \<and> n < 2 ^ 32 else t \<noteq> MSG_TYPE_DATA \<and> t \<noteq> MSG_TYPE_RESIZE"
  shows "input_loop obs i evs = ([], if big then StopTooLarge n else StopUnknownType t)"
proof (cases big)
  case False
  with assms input_turn_message [of "obs i" evs t payload rest] show ?thesis
    by (auto simp: input_loop.simps [of obs i] handle_message_def)
next
  case True
  then have bytes: "pipe_bytes evs = char_of t # to_le_bytes 4 n @ rest" and n: "MAX_PAYLOAD_SIZE < n" "n < 256 ^ 4"
    using assms(5,6) by simp_all
  obtain evs1 where "read_exact_or_eof MSG_HEADER_SIZE [] evs = (RdOk, char_of t # to_le_bytes 4 n, evs1)"
    using read_exact_working [OF assms(2), of MSG_HEADER_SIZE "[]"] bytes
    by (auto simp: MSG_HEADER_SIZE_def take_Cons')
  then have "input_turn (obs i) evs = ([], evs1, Some (StopTooLarge n))"
    using assms(1) n from_to_le_bytes [OF n(2)] by (simp add: input_turn_def Let_def)
  with True show ?thesis
    by (simp add: input_loop.simps [of obs i])
qed

theorem helper_refuses_witness:
  "input_loop (\<lambda>_. \<lparr>ho_exiting = False, ho_write_ok = True, ho_flush_ok = True\<rparr>) 0
     [Chunk (encode_helper_message 7 ''x'')] = ([], StopUnknownType 7)"
  using helper_refuses [of "\<lambda>_. \<lparr>ho_exiting = False, ho_write_ok = True, ho_flush_ok = True\<rparr>" 0
      "[Chunk (encode_helper_message 7 ''x'')]" 7 "''x''" False 0 "[]"]
  by (simp add: MAX_PAYLOAD_SIZE_def MSG_TYPE_DATA_def MSG_TYPE_RESIZE_def encode_helper_message_def)

end
