(* ===== verification/Terminal.thy ===== *)
theory Terminal
  imports Term_Buffer Term_Helper
begin

text \<open>
  The terminal service: \<open>src/src/server/terminal_service.rs\<close>. A registry maps service
  ids to services; a service owns terminal sessions under client-chosen ids; a session
  owns a shell behind a console, the channel its output arrives on, and a replay buffer.
  A connection opens, resizes, feeds and closes sessions with \<open>handle_action\<close>, a poll
  every 30 ms collects their output with \<open>read_outputs\<close>, and a background task removes
  services nobody uses.

  Hash maps are association lists with distinct keys, in their iteration order. An
  instant is a number of milliseconds, and \<open>duration_since\<close> saturates at zero as in Rust.
  What the operating system answers (opening a console, spawning a shell, resizing,
  polling a child) is an observation; what the code does to it is the list of actions a
  definition returns. A poll is \<^const>\<open>None\<close> when the replay buffer's trim loop does not
  end.
\<close>

definition MAX_SERVICES :: nat where
  "MAX_SERVICES = 100"

definition SERVICE_IDLE_TIMEOUT :: nat where
  "SERVICE_IDLE_TIMEOUT = 3600 * 1000"

definition COMPRESS_THRESHOLD :: nat where
  "COMPRESS_THRESHOLD = 512"

definition DEFAULT_RECONNECT_BUFFER_BYTES :: nat where
  "DEFAULT_RECONNECT_BUFFER_BYTES = 8 * 1024"

definition MAX_SIGWINCH_PHASE_ATTEMPTS :: nat where
  "MAX_SIGWINCH_PHASE_ATTEMPTS = 3"


section \<open>State\<close>

datatype sigwinch_phase = Idle | TempResize nat | Restore nat

datatype sigwinch_action = ActTempResize | ActRestore

datatype session_state = Closed | Active "string option" sigwinch_phase

record session =
  s_created_at :: nat
  s_last_activity :: nat
  pty_pair :: bool
  child :: "nat option"
  input_tx :: bool
  output_rx :: bool
  s_exiting :: bool
  reader_thread :: bool
  writer_thread :: bool
  output_buffer :: out_buf
  title :: string
  pid :: nat
  s_rows :: "16 word"
  s_cols :: "16 word"
  closed_message_sent :: bool
  s_state :: session_state
  is_helper_mode :: bool
  helper_process_handle :: "nat option"

record service =
  service_id :: string
  sessions :: "(int \<times> session) list"
  created_at :: nat
  last_activity :: nat
  is_persistent :: bool
  needs_session_sync :: bool
  is_specified_user :: bool

text \<open>What the service does to the system around it.\<close>

datatype term_act =
    SendInput string
  | ResizePty "16 word" "16 word"
  | EndHelper nat
  | JoinReader
  | JoinWriter
  | Kill nat
  | Reap nat

text \<open>The two globals: the registry and the children waiting to be reaped.\<close>

record term_world =
  services :: "(string \<times> service) list"
  tasks :: "nat list"

text \<open>What the service answers to the client.\<close>

record opened =
  op_terminal_id :: int
  op_success :: bool
  op_message :: string
  op_pid :: nat
  op_service_id :: string
  persistent_sessions :: "int list"

datatype response =
    TermError string
  | TermOpened opened
  | TermData int bool string
  | TermClosed int int


section \<open>Sessions\<close>

definition session_new :: "nat \<Rightarrow> string \<Rightarrow> 16 word \<Rightarrow> 16 word \<Rightarrow> session" where
  "session_new now ttl rows cols =
     \<lparr>s_created_at = now, s_last_activity = now, pty_pair = False, child = None, input_tx = False,
      output_rx = False, s_exiting = False, reader_thread = False, writer_thread = False,
      output_buffer = ob_new, title = ttl, pid = 0, s_rows = rows, s_cols = cols,
      closed_message_sent = False, s_state = Closed, is_helper_mode = False,
      helper_process_handle = None\<rparr>"

definition helper_wrap :: "session \<Rightarrow> string \<Rightarrow> string" where
  "helper_wrap s d = (if is_helper_mode s then encode_helper_message MSG_TYPE_DATA d else d)"

definition stop :: "session \<Rightarrow> session \<times> term_act list" where
  "stop s =
     (s\<lparr>s_state := Closed, s_exiting := True, input_tx := False, output_rx := False,
        helper_process_handle := (if is_helper_mode s then None else helper_process_handle s),
        pty_pair := False, reader_thread := False, writer_thread := False, child := None\<rparr>,
      (if input_tx s then [SendInput (helper_wrap s [CHR 0x0D, CHR 0x0A])] else [])
      @ (case helper_process_handle s of
           Some h \<Rightarrow> if is_helper_mode s then [EndHelper h] else []
         | None \<Rightarrow> [])
      @ (if reader_thread s then [JoinReader] else [])
      @ (if writer_thread s then [JoinWriter] else [])
      @ (case child s of Some c \<Rightarrow> [Kill c, Reap c] | None \<Rightarrow> []))"


section \<open>Services\<close>

definition service_new :: "nat \<Rightarrow> string \<Rightarrow> bool \<Rightarrow> bool \<Rightarrow> service" where
  "service_new now sid persistent specified_user =
     \<lparr>service_id = sid, sessions = [], created_at = now, last_activity = now,
      is_persistent = persistent, needs_session_sync = False, is_specified_user = specified_user\<rparr>"

definition list_terminals :: "service \<Rightarrow> (int \<times> string \<times> nat \<times> nat) list" where
  "list_terminals svc = map (\<lambda>(i, s). (i, title s, pid s, s_created_at s)) (sessions svc)"

definition get_terminal_buffer :: "service \<Rightarrow> int \<Rightarrow> nat \<Rightarrow> string option" where
  "get_terminal_buffer svc tid max_bytes =
     map_option (\<lambda>s. get_recent max_bytes (output_buffer s)) (map_of (sessions svc) tid)"

definition get_terminal_info :: "service \<Rightarrow> int \<Rightarrow> (16 word \<times> 16 word \<times> string) option" where
  "get_terminal_info svc tid =
     map_option (\<lambda>s. (s_rows s, s_cols s, get_recent DEFAULT_RECONNECT_BUFFER_BYTES (output_buffer s)))
       (map_of (sessions svc) tid)"

definition has_active_terminals :: "service \<Rightarrow> bool" where
  "has_active_terminals svc \<longleftrightarrow> sessions svc \<noteq> []"

definition reset_status :: "bool \<Rightarrow> service \<Rightarrow> service" where
  "reset_status persistent svc =
     svc\<lparr>is_persistent := persistent, needs_session_sync := True,
         sessions := map (\<lambda>(i, s). (i, s\<lparr>s_state := Closed\<rparr>)) (sessions svc)\<rparr>"


section \<open>The registry\<close>

definition get_service :: "term_world \<Rightarrow> string \<Rightarrow> service option" where
  "get_service w sid = map_of (services w) sid"

definition put_service :: "string \<Rightarrow> service \<Rightarrow> term_world \<Rightarrow> term_world" where
  "put_service sid svc w = w\<lparr>services := AList.update sid svc (services w)\<rparr>"

text \<open>\<open>add_to_reaper\<close> for every child an operation hands over.\<close>

fun reaped :: "term_act \<Rightarrow> nat option" where
  "reaped (Reap c) = Some c"
| "reaped _ = None"

definition add_to_reaper :: "term_act list \<Rightarrow> term_world \<Rightarrow> term_world" where
  "add_to_reaper acts w = w\<lparr>tasks := tasks w @ List.map_filter reaped acts\<rparr>"

definition is_service_specified_user :: "term_world \<Rightarrow> string \<Rightarrow> bool option" where
  "is_service_specified_user w sid = map_option is_specified_user (get_service w sid)"

datatype term_error = TooManyServices | ServiceNotFound string | OpenFailed string | KillFailed | ResizeFailed

definition get_or_create_service ::
    "nat \<Rightarrow> string \<Rightarrow> bool \<Rightarrow> bool \<Rightarrow> term_world \<Rightarrow> (term_error + service) \<times> term_world" where
  "get_or_create_service now sid persistent specified_user w =
     (if get_service w sid = None \<and> length (services w) \<ge> MAX_SERVICES then (Inl TooManyServices, w)
      else let svc = (case get_service w sid of
                        Some svc \<Rightarrow> svc | None \<Rightarrow> service_new now sid persistent specified_user);
               svc' = reset_status persistent svc
           in (Inr svc', put_service sid svc' w))"

definition stop_all :: "(int \<times> session) list \<Rightarrow> term_act list" where
  "stop_all ss = concat (map (\<lambda>(i, s). snd (stop s)) ss)"

definition remove_service :: "string \<Rightarrow> term_world \<Rightarrow> term_world \<times> term_act list" where
  "remove_service sid w =
     (case get_service w sid of
        None \<Rightarrow> (w, [])
      | Some svc \<Rightarrow>
          let acts = stop_all (sessions svc)
          in (add_to_reaper acts (w\<lparr>services := AList.delete sid (services w)\<rparr>), acts))"

definition list_services :: "term_world \<Rightarrow> (string \<times> nat \<times> nat \<times> bool) list" where
  "list_services w =
     map (\<lambda>(i, svc). (i, created_at svc, length (sessions svc), is_persistent svc)) (services w)"

definition service_expired :: "nat \<Rightarrow> service \<Rightarrow> bool" where
  "service_expired now svc \<longleftrightarrow>
     (if \<not> is_persistent svc \<and> now - last_activity svc > SERVICE_IDLE_TIMEOUT then True
      else is_persistent svc \<and> sessions svc = [] \<and> now - last_activity svc > SERVICE_IDLE_TIMEOUT * 2)"

fun remove_services :: "string list \<Rightarrow> term_world \<Rightarrow> term_world \<times> term_act list" where
  "remove_services [] w = (w, [])"
| "remove_services (i # is) w =
     (let (w1, a1) = remove_service i w; (w2, a2) = remove_services is w1 in (w2, a1 @ a2))"

definition cleanup_inactive_services :: "nat \<Rightarrow> term_world \<Rightarrow> term_world \<times> term_act list" where
  "cleanup_inactive_services now w =
     remove_services (map fst (filter (\<lambda>(i, svc). service_expired now svc) (services w))) w"

definition set_persistent :: "string \<Rightarrow> bool \<Rightarrow> term_world \<Rightarrow> (term_error + unit) \<times> term_world" where
  "set_persistent sid persistent w =
     (case get_service w sid of
        Some svc \<Rightarrow> (Inr (), put_service sid (svc\<lparr>is_persistent := persistent\<rparr>) w)
      | None \<Rightarrow> (Inl (ServiceNotFound sid), w))"

text \<open>The reaper's pass over the children; \<open>i\<close> is the index of the loop.\<close>

datatype wait_result = Exited | Running | WaitError

function check_zombie_from :: "(nat \<Rightarrow> wait_result) \<Rightarrow> nat \<Rightarrow> nat list \<Rightarrow> nat list" where
  "check_zombie_from poll i ts =
     (if i < length ts then
        (case poll (ts ! i) of
           Exited \<Rightarrow> check_zombie_from poll i (take i ts @ drop (Suc i) ts)
         | Running \<Rightarrow> check_zombie_from poll (Suc i) ts
         | WaitError \<Rightarrow> check_zombie_from poll i (take i ts @ drop (Suc i) ts))
      else ts)"
  by pat_completeness auto
termination
  by (relation "measure (\<lambda>(_, i, ts). length ts - i)") auto

declare check_zombie_from.simps [simp del]

definition check_zombie_terminals :: "(nat \<Rightarrow> wait_result) \<Rightarrow> term_world \<Rightarrow> term_world" where
  "check_zombie_terminals poll w = w\<lparr>tasks := check_zombie_from poll 0 (tasks w)\<rparr>"

definition get_terminal_session_count :: "bool \<Rightarrow> term_world \<Rightarrow> nat" where
  "get_terminal_session_count include_zombie_tasks w =
     length (services w) + (if include_zombie_tasks then length (tasks w) else 0)"


section \<open>Opening a terminal\<close>

record proxy =
  px_service_id :: string
  px_is_persistent :: bool
  px_user_token :: bool

definition proxy_new :: "term_world \<Rightarrow> string \<Rightarrow> bool option \<Rightarrow> bool \<Rightarrow> proxy" where
  "proxy_new w sid persistent user_token =
     \<lparr>px_service_id = sid,
      px_is_persistent = (case persistent of
          Some p \<Rightarrow> p
        | None \<Rightarrow> (case get_service w sid of Some svc \<Rightarrow> is_persistent svc | None \<Rightarrow> False)),
      px_user_token = user_token\<rparr>"

record open_terminal =
  o_terminal_id :: int
  o_rows :: nat
  o_cols :: nat

text \<open>What the system answers while a shell is started, directly or through the helper.\<close>

record open_obs =
  oo_openpty :: bool
  oo_spawn :: bool
  oo_writer :: bool
  oo_reader :: bool
  oo_child :: nat
  oo_pid :: "nat option"
  oo_input_pipe :: bool
  oo_output_pipe :: bool
  oo_launch :: "(nat \<times> nat) option"
  oo_wait_input :: bool
  oo_wait_output :: bool
  oo_running :: bool

definition show_i32 :: "int \<Rightarrow> string" where
  "show_i32 i = (if i < 0 then CHR ''-'' # show_nat (nat (- i)) else show_nat (nat i))"

definition lowest_id :: "(int \<times> session) list \<Rightarrow> int option" where
  "lowest_id ss = (case map fst ss of [] \<Rightarrow> None | k # ks \<Rightarrow> Some (fold min ks k))"

definition remap_lowest :: "int \<Rightarrow> service \<Rightarrow> service" where
  "remap_lowest tid svc =
     (if map_of (sessions svc) tid = None \<and> needs_session_sync svc \<and> sessions svc \<noteq> [] then
        (case lowest_id (sessions svc) of
           None \<Rightarrow> svc
         | Some low \<Rightarrow>
             (case map_of (sessions svc) low of
                None \<Rightarrow> svc
              | Some s \<Rightarrow> svc\<lparr>sessions := AList.update tid s (AList.delete low (sessions svc))\<rparr>))
      else svc)"

definition reconnect_state :: "session \<Rightarrow> session_state" where
  "reconnect_state s =
     (let buffer = get_recent DEFAULT_RECONNECT_BUFFER_BYTES (output_buffer s)
      in Active (if buffer \<noteq> [] then Some buffer else None) (TempResize MAX_SIGWINCH_PHASE_ATTEMPTS))"

definition reconnect :: "proxy \<Rightarrow> int \<Rightarrow> session \<Rightarrow> service \<Rightarrow> response \<times> service" where
  "reconnect px tid s svc =
     (let svc1 = svc\<lparr>sessions := AList.update tid (s\<lparr>s_state := reconnect_state s\<rparr>) (sessions svc)\<rparr>
      in (TermOpened \<lparr>op_terminal_id = tid, op_success = True,
            op_message = ''Reconnected to existing terminal'', op_pid = pid s,
            op_service_id = px_service_id px,
            persistent_sessions =
              (if needs_session_sync svc \<and> length (sessions svc) > 1
               then filter (\<lambda>i. i \<noteq> tid) (map fst (sessions svc)) else [])\<rparr>,
          svc1\<lparr>needs_session_sync := False\<rparr>))"

definition register_session :: "string \<Rightarrow> int \<Rightarrow> session \<Rightarrow> service \<Rightarrow> response \<times> service" where
  "register_session msg tid s svc =
     (TermOpened \<lparr>op_terminal_id = tid, op_success = True, op_message = msg, op_pid = pid s,
        op_service_id = service_id svc,
        persistent_sessions = (if needs_session_sync svc then map fst (sessions svc) else [])\<rparr>,
      svc\<lparr>needs_session_sync := False, sessions := AList.update tid s (sessions svc)\<rparr>)"

definition open_direct ::
    "nat \<Rightarrow> open_obs \<Rightarrow> open_terminal \<Rightarrow> service \<Rightarrow> (term_error + response) \<times> service \<times> term_act list" where
  "open_direct now oo op svc =
     (let tid = o_terminal_id op;
          s = session_new now (''Terminal '' @ show_i32 tid) (word_of_nat (o_rows op)) (word_of_nat (o_cols op))
      in if \<not> oo_openpty oo then (Inl (OpenFailed ''Failed to open PTY''), svc, [])
         else if \<not> oo_spawn oo then (Inl (OpenFailed ''Failed to spawn command''), svc, [])
         else if \<not> oo_writer oo then (Inl (OpenFailed ''Failed to get writer''), svc, [])
         else if \<not> oo_reader oo then (Inl (OpenFailed ''Failed to get reader''), svc, [])
         else let s' = s\<lparr>pid := (case oo_pid oo of Some p \<Rightarrow> p | None \<Rightarrow> 0), pty_pair := True,
                          child := Some (oo_child oo), input_tx := True, output_rx := True,
                          reader_thread := True, writer_thread := True, s_state := Active None Idle\<rparr>;
                  (r, svc') = register_session ''Terminal opened'' tid s' svc
              in (Inr r, svc', []))"

definition handle_open_with_helper ::
    "nat \<Rightarrow> open_obs \<Rightarrow> open_terminal \<Rightarrow> service \<Rightarrow> (term_error + response) \<times> service \<times> term_act list" where
  "handle_open_with_helper now oo op svc =
     (let tid = o_terminal_id op;
          s = session_new now (''Terminal '' @ show_i32 tid) (word_of_nat (o_rows op)) (word_of_nat (o_cols op))
      in if \<not> oo_input_pipe oo \<or> \<not> oo_output_pipe oo then (Inl (OpenFailed ''pipe''), svc, [])
         else case oo_launch oo of
           None \<Rightarrow> (Inl (OpenFailed ''launch''), svc, [])
         | Some (h, p) \<Rightarrow>
             if \<not> oo_wait_input oo \<or> \<not> oo_wait_output oo
             then (Inl (OpenFailed ''connection''), svc, [EndHelper h])
             else if \<not> oo_running oo then (Inl (OpenFailed ''Helper process exited unexpectedly''), svc, [EndHelper h])
             else let s' = s\<lparr>pid := p, pty_pair := False, child := None, input_tx := True, output_rx := True,
                              reader_thread := True, writer_thread := True, s_state := Active None Idle,
                              is_helper_mode := True, helper_process_handle := Some h\<rparr>;
                      (r, svc') = register_session ''Terminal opened (helper mode)'' tid s' svc
                  in (Inr r, svc', []))"

definition handle_open ::
    "nat \<Rightarrow> open_obs \<Rightarrow> proxy \<Rightarrow> open_terminal \<Rightarrow> service \<Rightarrow> (term_error + response) \<times> service \<times> term_act list" where
  "handle_open now oo px op svc =
     (let svc1 = remap_lowest (o_terminal_id op) svc
      in case map_of (sessions svc1) (o_terminal_id op) of
           Some s \<Rightarrow> (let (r, svc2) = reconnect px (o_terminal_id op) s svc1 in (Inr r, svc2, []))
         | None \<Rightarrow>
             if px_user_token px then handle_open_with_helper now oo op svc1
             else open_direct now oo op svc1)"


section \<open>Feeding and closing a terminal\<close>

definition resize_pty :: "bool \<Rightarrow> session \<Rightarrow> 16 word \<Rightarrow> 16 word \<Rightarrow> (term_error + unit) \<times> term_act list" where
  "resize_pty ok s rows cols =
     (if pty_pair s then (if ok then Inr () else Inl ResizeFailed, [ResizePty rows cols]) else (Inr (), []))"

definition handle_resize ::
    "nat \<Rightarrow> bool \<Rightarrow> nat \<Rightarrow> nat \<Rightarrow> session \<Rightarrow> (term_error + unit) \<times> session \<times> term_act list" where
  "handle_resize now ok rows cols s =
     (let r = word_of_nat rows; c = word_of_nat cols;
          s' = s\<lparr>s_last_activity := now, s_rows := r, s_cols := c\<rparr>
      in if is_helper_mode s'
         then (Inr (), s', if input_tx s' then [SendInput (encode_resize_message r c)] else [])
         else (let (res, acts) = resize_pty ok s' r c in (res, s', acts)))"

definition handle_data :: "nat \<Rightarrow> string \<Rightarrow> session \<Rightarrow> session \<times> term_act list" where
  "handle_data now d s =
     (s\<lparr>s_last_activity := now\<rparr>, if input_tx s then [SendInput (helper_wrap s d)] else [])"

definition handle_close ::
    "bool \<Rightarrow> int \<Rightarrow> service \<Rightarrow> (term_error + response option) \<times> service \<times> term_act list" where
  "handle_close kill_ok tid svc =
     (case map_of (sessions svc) tid of
        None \<Rightarrow> (Inr None, svc, [])
      | Some s \<Rightarrow>
          let svc' = svc\<lparr>sessions := AList.delete tid (sessions svc)\<rparr>;
              dropped = snd (stop (s\<lparr>child := None\<rparr>))
          in (case child s of
                None \<Rightarrow> (Inr (Some (TermClosed tid 0)), svc', dropped)
              | Some c \<Rightarrow>
                  if kill_ok then (Inr (Some (TermClosed tid (- 1))), svc', [Kill c, Reap c] @ dropped)
                  else (Inl KillFailed, svc', Kill c # dropped)))"

datatype terminal_action =
    OpenTerminal open_terminal
  | ResizeTerminal int nat nat
  | DataTerminal int string
  | CloseTerminal int
  | OtherAction

record action_obs =
  ao_now :: nat
  ao_open :: open_obs
  ao_resize_ok :: bool
  ao_kill_ok :: bool

definition with_session ::
    "int \<Rightarrow> (session \<Rightarrow> (term_error + unit) \<times> session \<times> term_act list) \<Rightarrow> service
       \<Rightarrow> (term_error + response option) \<times> service \<times> term_act list" where
  "with_session tid f svc =
     (case map_of (sessions svc) tid of
        None \<Rightarrow> (Inr None, svc, [])
      | Some s \<Rightarrow>
          (let (res, s', acts) = f s
           in (case res of Inl e \<Rightarrow> Inl e | Inr _ \<Rightarrow> Inr None,
               svc\<lparr>sessions := AList.update tid s' (sessions svc)\<rparr>, acts)))"

definition service_action ::
    "action_obs \<Rightarrow> proxy \<Rightarrow> terminal_action \<Rightarrow> service
       \<Rightarrow> (term_error + response option) \<times> service \<times> term_act list" where
  "service_action ao px act svc =
     (case act of
        OpenTerminal op \<Rightarrow>
          (let (res, svc', acts) = handle_open (ao_now ao) (ao_open ao) px op svc
           in (case res of Inl e \<Rightarrow> Inl e | Inr r \<Rightarrow> Inr (Some r), svc', acts))
      | ResizeTerminal tid rows cols \<Rightarrow>
          with_session tid (handle_resize (ao_now ao) (ao_resize_ok ao) rows cols) svc
      | DataTerminal tid d \<Rightarrow>
          with_session tid (\<lambda>s. let (s', acts) = handle_data (ao_now ao) d s in (Inr (), s', acts)) svc
      | CloseTerminal tid \<Rightarrow> handle_close (ao_kill_ok ao) tid svc
      | OtherAction \<Rightarrow> (Inr None, svc, []))"

definition handle_action ::
    "action_obs \<Rightarrow> proxy \<Rightarrow> terminal_action \<Rightarrow> term_world
       \<Rightarrow> (term_error + response option) \<times> term_world \<times> term_act list" where
  "handle_action ao px act w =
     (case get_service w (px_service_id px) of
        None \<Rightarrow> (Inr (Some (TermError (''Terminal service '' @ px_service_id px @ '' not found''))), w, [])
      | Some svc \<Rightarrow>
          (let (res, svc', acts) = service_action ao px act (svc\<lparr>last_activity := ao_now ao\<rparr>)
           in (res, add_to_reaper acts (put_service (px_service_id px) svc' w), acts)))"


section \<open>Collecting output\<close>

definition target_rows :: "sigwinch_action \<Rightarrow> 16 word \<Rightarrow> 16 word" where
  "target_rows a rows =
     (case a of
        ActTempResize \<Rightarrow>
          if rows > 2 then (if rows = 0 then 0 else rows - 1)
          else (if rows = - 1 then - 1 else rows + 1)
      | ActRestore \<Rightarrow> rows)"

text \<open>\<open>ok\<close> is whether the system, or the helper's channel, takes the request.\<close>

definition do_sigwinch_resize :: "bool \<Rightarrow> session \<Rightarrow> sigwinch_action \<Rightarrow> bool \<times> term_act list" where
  "do_sigwinch_resize ok s a =
     (if s_rows s = 0 \<or> s_cols s = 0 then (False, [])
      else if is_helper_mode s then
        (if input_tx s then (ok, if ok then [SendInput (encode_resize_message (target_rows a (s_rows s)) (s_cols s))] else [])
         else (False, []))
      else if pty_pair s then (ok, [ResizePty (target_rows a (s_rows s)) (s_cols s)])
      else (False, []))"

text \<open>The code's \<open>compress\<close> is a parameter.\<close>

definition create_terminal_data_response :: "(string \<Rightarrow> string) \<Rightarrow> int \<Rightarrow> string \<Rightarrow> response" where
  "create_terminal_data_response compress tid d =
     (if length d > COMPRESS_THRESHOLD then
        (let compressed = compress d
         in if length compressed < length d then TermData tid True compressed else TermData tid False d)
      else TermData tid False d)"

definition sigwinch_select :: "sigwinch_phase \<Rightarrow> sigwinch_phase \<times> sigwinch_action option" where
  "sigwinch_select ph =
     (case ph of
        TempResize retries \<Rightarrow> if retries = 0 then (Idle, None) else (TempResize (retries - 1), Some ActTempResize)
      | Restore retries \<Rightarrow> if retries = 0 then (Idle, None) else (Restore (retries - 1), Some ActRestore)
      | Idle \<Rightarrow> (Idle, None))"

definition sigwinch_advance :: "sigwinch_action \<Rightarrow> bool \<Rightarrow> sigwinch_phase \<Rightarrow> sigwinch_phase" where
  "sigwinch_advance a ok ph =
     (case a of
        ActTempResize \<Rightarrow> if ok then Restore MAX_SIGWINCH_PHASE_ATTEMPTS else ph
      | ActRestore \<Rightarrow> if ok then Idle else ph)"

definition sigwinch_step :: "bool \<Rightarrow> session \<Rightarrow> sigwinch_phase \<Rightarrow> sigwinch_phase \<times> term_act list" where
  "sigwinch_step ok s ph =
     (case sigwinch_select ph of
        (ph1, None) \<Rightarrow> (ph1, [])
      | (ph1, Some a) \<Rightarrow>
          (let (done_ok, acts) = do_sigwinch_resize ok s a in (sigwinch_advance a done_ok ph1, acts)))"

record poll_obs =
  so_busy :: bool
  so_reader_finished :: bool
  so_chunks :: "string list"
  so_resize_ok :: bool
  so_exit_code :: "int option"

text \<open>One session's share of a poll: its responses, its actions, and whether it just ended.\<close>

definition read_session ::
    "(string \<Rightarrow> string) \<Rightarrow> nat \<Rightarrow> poll_obs \<Rightarrow> int \<Rightarrow> session \<Rightarrow> (session \<times> response list \<times> term_act list \<times> bool) option" where
  "read_session compress now po tid s =
     (if so_busy po then Some (s, [], [], False)
      else
        let should_send_closed = (\<not> closed_message_sent s \<and> reader_thread s \<and> so_reader_finished po);
            s1 = (if should_send_closed then s\<lparr>closed_message_sent := True\<rparr> else s);
            received = (if output_rx s1 then so_chunks po else []);
            s2 = (if received \<noteq> [] then s1\<lparr>s_last_activity := now\<rparr> else s1)
        in case ob_append_all received (output_buffer s2) of
             None \<Rightarrow> None
           | Some b \<Rightarrow>
               let s3 = s2\<lparr>output_buffer := b\<rparr>
               in (case s_state s3 of
                     Closed \<Rightarrow> Some (s3, [], [], should_send_closed)
                   | Active pending ph \<Rightarrow>
                       let history = (case pending of
                                        Some buf \<Rightarrow> if buf \<noteq> [] then [create_terminal_data_response compress tid buf] else []
                                      | None \<Rightarrow> []);
                           (ph', acts) = sigwinch_step (so_resize_ok po) s3 ph
                       in Some (s3\<lparr>s_state := Active None ph'\<rparr>,
                                history @ map (create_terminal_data_response compress tid) received,
                                acts, should_send_closed)))"

text \<open>
  The loop over the sessions; the observation of a session is looked up by its id. The
  accumulated state is the sessions after the pass, the responses, the actions and the
  ids whose shell has ended.
\<close>

fun read_sessions ::
    "(string \<Rightarrow> string) \<Rightarrow> nat \<Rightarrow> (int \<Rightarrow> poll_obs) \<Rightarrow> (int \<times> session) list
       \<Rightarrow> ((int \<times> session) list \<times> response list \<times> term_act list \<times> int list) option" where
  "read_sessions compress now po [] = Some ([], [], [], [])"
| "read_sessions compress now po ((tid, s) # ss) =
     (case read_session compress now (po tid) tid s of
        None \<Rightarrow> None
      | Some (s', rs, acts, closed) \<Rightarrow>
          (case read_sessions compress now po ss of
             None \<Rightarrow> None
           | Some (ss', rs', acts', ids) \<Rightarrow>
               Some ((tid, s') # ss', rs @ rs', acts @ acts', (if closed then [tid] else []) @ ids)))"

text \<open>The clean-up of one session whose shell has ended.\<close>

definition close_finished ::
    "bool \<Rightarrow> (int \<Rightarrow> poll_obs) \<Rightarrow> int \<Rightarrow> (int \<times> session) list \<Rightarrow> (int \<times> session) list \<times> response \<times> term_act list" where
  "close_finished persistent po tid ss =
     (case map_of ss tid of
        None \<Rightarrow> (ss, TermClosed tid 0, [])
      | Some s \<Rightarrow>
          let exit_code = (case child s of
                             None \<Rightarrow> 0
                           | Some _ \<Rightarrow> (case so_exit_code (po tid) of Some c \<Rightarrow> c | None \<Rightarrow> 0));
              reap = (case child s of Some c \<Rightarrow> [Reap c] | None \<Rightarrow> []);
              s' = s\<lparr>child := None\<rparr>
          in if persistent then (AList.update tid s' ss, TermClosed tid exit_code, reap)
             else (AList.delete tid ss, TermClosed tid exit_code, reap @ snd (stop s')))"

fun close_all ::
    "bool \<Rightarrow> (int \<Rightarrow> poll_obs) \<Rightarrow> int list \<Rightarrow> (int \<times> session) list \<Rightarrow> (int \<times> session) list \<times> response list \<times> term_act list" where
  "close_all persistent po [] ss = (ss, [], [])"
| "close_all persistent po (tid # ids) ss =
     (let (ss1, r, a) = close_finished persistent po tid ss;
          (ss2, rs, as) = close_all persistent po ids ss1
      in (ss2, r # rs, a @ as))"

definition read_outputs ::
    "(string \<Rightarrow> string) \<Rightarrow> nat \<Rightarrow> (int \<Rightarrow> poll_obs) \<Rightarrow> proxy \<Rightarrow> term_world
       \<Rightarrow> (response list \<times> term_world \<times> term_act list) option" where
  "read_outputs compress now po px w =
     (case get_service w (px_service_id px) of
        None \<Rightarrow> Some ([], w, [])
      | Some svc \<Rightarrow>
          (case read_sessions compress now po (sessions svc) of
             None \<Rightarrow> None
           | Some (ss, rs, acts, ids) \<Rightarrow>
               (let (ss', rs', acts') = close_all (px_is_persistent px) po ids ss
                in Some (rs @ rs',
                         add_to_reaper (acts @ acts') (put_service (px_service_id px) (svc\<lparr>sessions := ss'\<rparr>) w),
                         acts @ acts'))))"

text \<open>The end of a connection, and the end of the polling thread.\<close>

definition on_disconnect :: "proxy \<Rightarrow> term_world \<Rightarrow> term_world \<times> term_act list" where
  "on_disconnect px w = (if \<not> px_is_persistent px then remove_service (px_service_id px) w else (w, []))"

definition run_exit :: "string \<Rightarrow> term_world \<Rightarrow> term_world \<times> term_act list" where
  "run_exit sid w =
     (case get_service w sid of
        Some svc \<Rightarrow> if \<not> is_persistent svc then remove_service sid w else (w, [])
      | None \<Rightarrow> (w, []))"

text \<open>
  \<open>try_send_output\<close> of the reader thread: the chunks dropped since the last report, when
  the last report was, and whether the thread ends. The channel holds 500 chunks.
\<close>

datatype send_result = SendOk | SendFull | SendDisconnected

definition try_send_output :: "nat \<Rightarrow> send_result \<Rightarrow> nat \<times> nat \<Rightarrow> bool \<times> nat \<times> nat" where
  "try_send_output now r = (\<lambda>(drop_count, last_drop_warn).
     case r of
       SendOk \<Rightarrow> (False, 0, last_drop_warn)
     | SendFull \<Rightarrow>
         if now - last_drop_warn \<ge> 5000 then (False, 0, now) else (False, drop_count + 1, last_drop_warn)
     | SendDisconnected \<Rightarrow> (True, drop_count, last_drop_warn))"


section \<open>The two-phase resize ends\<close>

text \<open>The polls of a session: what the resize would return, and the session at that poll.\<close>

fun sigwinch_run :: "(bool \<times> session) list \<Rightarrow> sigwinch_phase \<Rightarrow> sigwinch_phase \<times> term_act list" where
  "sigwinch_run [] ph = (ph, [])"
| "sigwinch_run ((ok, s) # ps) ph =
     (let (ph1, a1) = sigwinch_step ok s ph; (ph2, a2) = sigwinch_run ps ph1 in (ph2, a1 @ a2))"

fun phase_polls :: "sigwinch_phase \<Rightarrow> nat" where
  "phase_polls Idle = 0"
| "phase_polls (Restore r) = r + 1"
| "phase_polls (TempResize r) = (if r = 0 then 1 else r + MAX_SIGWINCH_PHASE_ATTEMPTS + 1)"

lemma sigwinch_step_polls:
  "phase_polls (fst (sigwinch_step ok s ph)) \<le> phase_polls ph - 1"
  by (cases ph) (auto simp: sigwinch_step_def sigwinch_select_def sigwinch_advance_def
      MAX_SIGWINCH_PHASE_ATTEMPTS_def split: prod.splits)

lemma sigwinch_run_Cons:
  "sigwinch_run (p # ps) ph =
     (fst (sigwinch_run ps (fst (sigwinch_step (fst p) (snd p) ph))),
      snd (sigwinch_step (fst p) (snd p) ph) @ snd (sigwinch_run ps (fst (sigwinch_step (fst p) (snd p) ph))))"
  by (cases p) (simp add: case_prod_beta)

lemma sigwinch_run_polls: "phase_polls (fst (sigwinch_run ps ph)) \<le> phase_polls ph - length ps"
proof (induction ps arbitrary: ph)
  case (Cons p ps)
  show ?case
    using Cons [of "fst (sigwinch_step (fst p) (snd p) ph)"] sigwinch_step_polls [of "fst p" "snd p" ph]
    by (simp add: sigwinch_run_Cons)
qed simp

lemma sigwinch_step_acts:
  "length (snd (sigwinch_step ok s ph)) + (phase_polls (fst (sigwinch_step ok s ph)) - 1) \<le> phase_polls ph - 1"
  by (cases ph) (auto simp: sigwinch_step_def sigwinch_select_def sigwinch_advance_def do_sigwinch_resize_def
      MAX_SIGWINCH_PHASE_ATTEMPTS_def split: prod.splits if_splits)

lemma sigwinch_run_acts: "length (snd (sigwinch_run ps ph)) \<le> phase_polls ph - 1"
proof (induction ps arbitrary: ph)
  case (Cons p ps)
  show ?case
    using Cons [of "fst (sigwinch_step (fst p) (snd p) ph)"] sigwinch_step_acts [of "fst p" "snd p" ph]
    by (simp add: sigwinch_run_Cons)
qed simp

lemma phase_polls_0: "phase_polls ph = 0 \<longleftrightarrow> ph = Idle"
  by (cases ph) simp_all

text \<open>
  After a reconnection the two-phase resize is over within seven polls, whatever each
  resize returns and however the client resizes in between, and it has resized the console
  at most six times.
\<close>

theorem sigwinch_ends:
  assumes "7 \<le> length ps"
  shows "fst (sigwinch_run ps (TempResize MAX_SIGWINCH_PHASE_ATTEMPTS)) = Idle
    \<and> length (snd (sigwinch_run ps (TempResize MAX_SIGWINCH_PHASE_ATTEMPTS))) \<le> 6"
  using sigwinch_run_polls [of ps "TempResize MAX_SIGWINCH_PHASE_ATTEMPTS"]
    sigwinch_run_acts [of ps "TempResize MAX_SIGWINCH_PHASE_ATTEMPTS"] assms
  by (auto simp: MAX_SIGWINCH_PHASE_ATTEMPTS_def phase_polls_0 [symmetric])

theorem sigwinch_ends_witness:
  "fst (sigwinch_run (replicate 7 (False, session_new 0 [] 24 80)) (TempResize MAX_SIGWINCH_PHASE_ATTEMPTS)) = Idle"
  using sigwinch_ends [of "replicate 7 (False, session_new 0 [] 24 80)"] by simp

text \<open>
  The temporary size always differs from the real one in its rows and never has zero
  rows, so that the application sees a change; and when both resizes succeed, the console
  first gets the temporary and then the real size and is left alone afterwards.
\<close>

theorem sigwinch_restores:
  assumes "s_rows s \<noteq> 0" and "s_cols s \<noteq> 0" and "pty_pair s" and "\<not> is_helper_mode s"
  shows "target_rows ActTempResize (s_rows s) \<noteq> s_rows s
    \<and> target_rows ActTempResize (s_rows s) \<noteq> 0
    \<and> sigwinch_run [(True, s), (True, s)] (TempResize MAX_SIGWINCH_PHASE_ATTEMPTS) =
        (Idle, [ResizePty (target_rows ActTempResize (s_rows s)) (s_cols s), ResizePty (s_rows s) (s_cols s)])"
proof -
  have "target_rows ActTempResize r \<noteq> r \<and> target_rows ActTempResize r \<noteq> 0" if "r \<noteq> 0" for r
  proof (cases "r > 2")
    case True
    then have "r - 1 \<noteq> 0" by auto
    with True show ?thesis by (auto simp: target_rows_def)
  next
    case False
    then have "unat r \<le> 2" by (simp add: word_less_nat_alt word_le_nat_alt not_less)
    then have "unat r = unat (0 :: 16 word) \<or> unat r = unat (1 :: 16 word) \<or> unat r = unat (2 :: 16 word)"
      by auto
    then have "r \<in> {0, 1, 2}" by (simp only: word_unat_eq_iff insert_iff) blast
    with that show ?thesis by (auto simp: target_rows_def)
  qed
  moreover have "sigwinch_step True s (TempResize MAX_SIGWINCH_PHASE_ATTEMPTS) =
      (Restore MAX_SIGWINCH_PHASE_ATTEMPTS, [ResizePty (target_rows ActTempResize (s_rows s)) (s_cols s)])"
    using assms by (simp add: sigwinch_step_def sigwinch_select_def sigwinch_advance_def
        do_sigwinch_resize_def MAX_SIGWINCH_PHASE_ATTEMPTS_def)
  moreover have "sigwinch_step True s (Restore MAX_SIGWINCH_PHASE_ATTEMPTS) =
      (Idle, [ResizePty (s_rows s) (s_cols s)])"
    using assms by (simp add: sigwinch_step_def sigwinch_select_def sigwinch_advance_def
        do_sigwinch_resize_def MAX_SIGWINCH_PHASE_ATTEMPTS_def target_rows_def)
  ultimately show ?thesis
    using assms(1) by simp
qed

theorem sigwinch_restores_witness:
  "sigwinch_run [(True, (session_new 0 [] 24 80)\<lparr>pty_pair := True\<rparr>), (True, (session_new 0 [] 24 80)\<lparr>pty_pair := True\<rparr>)]
       (TempResize MAX_SIGWINCH_PHASE_ATTEMPTS) =
     (Idle, [ResizePty 23 80, ResizePty 24 80])"
  using sigwinch_restores [of "(session_new 0 [] 24 80)\<lparr>pty_pair := True\<rparr>"]
  by (simp add: session_new_def target_rows_def del: sigwinch_run.simps)


section \<open>The registry as a state machine\<close>

text \<open>
  The steps of the program on the registry: a connection, an action, a poll, the two ends
  of a connection, the cleanup task, a change of persistence. A poll whose trim loop does
  not end has no successor.
\<close>

inductive term_step :: "term_world \<Rightarrow> term_world \<Rightarrow> bool" where
  connect: "get_or_create_service now sid p u w = (r, w') \<Longrightarrow> term_step w w'"
| action: "handle_action ao px act w = (r, w', acts) \<Longrightarrow> term_step w w'"
| poll: "read_outputs compress now po px w = Some (rs, w', acts) \<Longrightarrow> term_step w w'"
| disconnect: "on_disconnect px w = (w', acts) \<Longrightarrow> term_step w w'"
| thread_exit: "run_exit sid w = (w', acts) \<Longrightarrow> term_step w w'"
| cleanup: "cleanup_inactive_services now w = (w', acts) \<Longrightarrow> term_step w w'"
| zombies: "check_zombie_terminals pl w = w' \<Longrightarrow> term_step w w'"
| persistence: "set_persistent sid p w = (r, w') \<Longrightarrow> term_step w w'"

definition term_start :: term_world where
  "term_start = \<lparr>services = [], tasks = []\<rparr>"

definition term_reachable :: "term_world \<Rightarrow> bool" where
  "term_reachable w \<longleftrightarrow> term_step\<^sup>*\<^sup>* term_start w"

definition wf_service :: "string \<Rightarrow> service \<Rightarrow> bool" where
  "wf_service sid svc \<longleftrightarrow> service_id svc = sid \<and> distinct (map fst (sessions svc))"

definition wf_registry :: "(string \<times> service) list \<Rightarrow> bool" where
  "wf_registry rs \<longleftrightarrow> distinct (map fst rs) \<and> length rs \<le> MAX_SERVICES \<and> (\<forall>(sid, svc) \<in> set rs. wf_service sid svc)"

lemma length_alist_update:
  "length (AList.update k v xs) = (if k \<in> fst ` set xs then length xs else Suc (length xs))"
proof -
  have "length (map fst (AList.update k v xs)) = (if k \<in> set (map fst xs) then length xs else Suc (length xs))"
    by (simp add: update_keys)
  then show ?thesis by simp
qed

lemma set_alist_update: "distinct (map fst xs) \<Longrightarrow>
    set (AList.update k v xs) = insert (k, v) {(a, b) \<in> set xs. a \<noteq> k}"
  by (induction xs) (auto simp: image_iff)

lemma alist_map_of_key: "map_of xs k = Some v \<Longrightarrow> k \<in> fst ` set xs"
  by (metis domI dom_map_of_conv_image_fst)

lemma wf_registry_get: "wf_registry (services w) \<Longrightarrow> get_service w sid = Some svc \<Longrightarrow> wf_service sid svc"
  by (auto simp: wf_registry_def get_service_def dest: map_of_SomeD)

lemma wf_registry_put:
  assumes "wf_registry (services w)" and "wf_service sid svc"
    and "get_service w sid \<noteq> None \<or> length (services w) < MAX_SERVICES"
  shows "wf_registry (services (put_service sid svc w))"
  using assms by (auto simp: wf_registry_def put_service_def get_service_def length_alist_update
      set_alist_update distinct_update image_iff dest!: map_of_SomeD)

lemma services_add_to_reaper [simp]: "services (add_to_reaper acts w) = services w"
  by (simp add: add_to_reaper_def)

lemma get_service_add_to_reaper [simp]: "get_service (add_to_reaper acts w) sid = get_service w sid"
  by (simp add: get_service_def)

lemma wf_registry_delete: "wf_registry rs \<Longrightarrow> wf_registry (AList.delete k rs)"
  unfolding wf_registry_def AList.delete_eq
  by (auto simp: distinct_map inj_on_def intro: order_trans [OF length_filter_le])

lemma remove_service_wf: "wf_registry (services w) \<Longrightarrow> wf_registry (services (fst (remove_service sid w)))"
  by (auto simp: remove_service_def Let_def wf_registry_delete split: option.splits)

lemma remove_services_wf: "wf_registry (services w) \<Longrightarrow> wf_registry (services (fst (remove_services sids w)))"
  by (induction sids arbitrary: w) (simp_all add: case_prod_beta remove_service_wf)

text \<open>Every operation on a service keeps its id and the distinctness of its session ids.\<close>

lemma wf_service_sessions:
  "wf_service sid svc \<Longrightarrow> distinct (map fst ss) \<Longrightarrow> wf_service sid (svc\<lparr>sessions := ss\<rparr>)"
  by (simp add: wf_service_def)

lemma distinct_alist_delete: "distinct (map fst xs) \<Longrightarrow> distinct (map fst (AList.delete k xs))"
  by (simp add: delete_keys distinct_removeAll)

lemma remap_lowest_wf: "wf_service sid svc \<Longrightarrow> wf_service sid (remap_lowest tid svc)"
  by (auto simp: remap_lowest_def wf_service_def distinct_update distinct_alist_delete split: option.splits)

lemma register_session_wf: "wf_service sid svc \<Longrightarrow> wf_service sid (snd (register_session msg tid s svc))"
  by (simp add: register_session_def wf_service_def distinct_update)

lemma handle_open_wf: "wf_service sid svc \<Longrightarrow> wf_service sid (fst (snd (handle_open now oo px op svc)))"
  using remap_lowest_wf [of sid svc "o_terminal_id op"]
  by (auto simp: handle_open_def open_direct_def handle_open_with_helper_def reconnect_def Let_def
      wf_service_def distinct_update register_session_def case_prod_beta split: option.splits)

lemma with_session_wf: "wf_service sid svc \<Longrightarrow> wf_service sid (fst (snd (with_session tid f svc)))"
  by (auto simp: with_session_def wf_service_def distinct_update case_prod_beta split: option.splits)

lemma handle_close_wf: "wf_service sid svc \<Longrightarrow> wf_service sid (fst (snd (handle_close ok tid svc)))"
  by (auto simp: handle_close_def wf_service_def distinct_alist_delete Let_def split: option.splits)

lemma service_action_wf: "wf_service sid svc \<Longrightarrow> wf_service sid (fst (snd (service_action ao px act svc)))"
  by (cases act) (simp_all add: service_action_def case_prod_beta handle_open_wf with_session_wf handle_close_wf)

lemma reset_status_wf: "wf_service sid svc \<Longrightarrow> wf_service sid (reset_status p svc)"
  by (auto simp: reset_status_def wf_service_def comp_def case_prod_beta)

lemma read_sessions_keys: "read_sessions compress now po ss = Some (ss', rs, acts, ids) \<Longrightarrow> map fst ss' = map fst ss"
  by (induction ss arbitrary: ss' rs acts ids) (auto split: option.splits)

lemma close_finished_distinct:
  "distinct (map fst ss) \<Longrightarrow> distinct (map fst (fst (close_finished p po tid ss)))"
  by (auto simp: close_finished_def Let_def distinct_update distinct_alist_delete split: option.splits)

lemma close_all_distinct: "distinct (map fst ss) \<Longrightarrow> distinct (map fst (fst (close_all p po ids ss)))"
  by (induction ids arbitrary: ss) (simp_all add: case_prod_beta close_finished_distinct)

lemma get_or_create_service_wf:
  assumes wf: "wf_registry (services w)"
  shows "wf_registry (services (snd (get_or_create_service now sid p u w)))"
proof -
  have "wf_service sid (case get_service w sid of Some svc \<Rightarrow> svc | None \<Rightarrow> service_new now sid p u)"
    using wf_registry_get [OF wf] by (auto simp: wf_service_def service_new_def split: option.splits)
  from reset_status_wf [OF this] show ?thesis
    using wf wf_registry_put [OF wf] by (auto simp: get_or_create_service_def Let_def not_le)
qed

lemma handle_action_wf:
  assumes wf: "wf_registry (services w)"
  shows "wf_registry (services (fst (snd (handle_action ao px act w))))"
proof (cases "get_service w (px_service_id px)")
  case (Some svc)
  then have "wf_service (px_service_id px) (svc\<lparr>last_activity := ao_now ao\<rparr>)"
    using wf_registry_get [OF wf] by (simp add: wf_service_def)
  from service_action_wf [OF this] show ?thesis
    using Some wf_registry_put [OF wf] by (simp add: handle_action_def case_prod_beta)
qed (simp add: wf handle_action_def)

lemma read_outputs_wf:
  assumes wf: "wf_registry (services w)" and "read_outputs compress now po px w = Some (rs, w', acts)"
  shows "wf_registry (services w')"
proof (cases "get_service w (px_service_id px)")
  case (Some svc)
  with assms(2) obtain ss rs1 acts1 ids where rd: "read_sessions compress now po (sessions svc) = Some (ss, rs1, acts1, ids)"
    by (auto simp: read_outputs_def split: option.splits)
  have "wf_service (px_service_id px) (svc\<lparr>sessions := fst (close_all (px_is_persistent px) po ids ss)\<rparr>)"
    using wf_registry_get [OF wf Some] read_sessions_keys [OF rd]
    by (intro wf_service_sessions close_all_distinct) (simp_all add: wf_service_def)
  then show ?thesis
    using assms(2) Some rd wf_registry_put [OF wf] by (auto simp: read_outputs_def case_prod_beta)
qed (use assms in \<open>simp add: read_outputs_def\<close>)

lemma set_persistent_wf:
  assumes wf: "wf_registry (services w)"
  shows "wf_registry (services (snd (set_persistent sid p w)))"
proof (cases "get_service w sid")
  case (Some svc)
  then have "wf_service sid (svc\<lparr>is_persistent := p\<rparr>)"
    using wf_registry_get [OF wf] by (simp add: wf_service_def)
  then show ?thesis
    using Some wf_registry_put [OF wf] by (simp add: set_persistent_def)
qed (simp add: wf set_persistent_def)

lemma term_step_wf:
  assumes "term_step w w'" and wf: "wf_registry (services w)"
  shows "wf_registry (services w')"
  using assms(1)
proof (cases rule: term_step.cases)
  case connect
  then show ?thesis by (metis get_or_create_service_wf [OF wf] snd_conv)
next
  case action
  then show ?thesis by (metis handle_action_wf [OF wf] fst_conv snd_conv)
next
  case poll
  then show ?thesis by (rule read_outputs_wf [OF wf])
next
  case (disconnect px acts)
  then show ?thesis
    using remove_service_wf [OF wf, of "px_service_id px"] wf by (auto simp: on_disconnect_def split: if_splits)
next
  case (thread_exit sid acts)
  then show ?thesis
    using remove_service_wf [OF wf, of sid] wf by (auto simp: run_exit_def split: if_splits option.splits)
next
  case cleanup
  then show ?thesis by (metis remove_services_wf [OF wf] cleanup_inactive_services_def fst_conv)
next
  case zombies
  then show ?thesis using wf by (auto simp: check_zombie_terminals_def)
next
  case persistence
  then show ?thesis by (metis set_persistent_wf [OF wf] snd_conv)
qed

lemma registry_reachable_wf:
  assumes "term_reachable w"
  shows "wf_registry (services w)"
  using assms unfolding term_reachable_def
proof (induction rule: rtranclp_induct)
  case base
  show ?case by (simp add: term_start_def wf_registry_def)
qed (blast intro: term_step_wf)

text \<open>
  C29. In every reachable state the registry holds at most 100 services, each under its own
  id and once, and no service holds two sessions under one id.
\<close>

theorem registry_wf:
  assumes "term_reachable w"
  shows "length (services w) \<le> 100 \<and> distinct (map fst (services w))
    \<and> (\<forall>sid svc. get_service w sid = Some svc \<longrightarrow> service_id svc = sid \<and> distinct (map fst (sessions svc)))"
  using registry_reachable_wf [OF assms] wf_registry_get [OF registry_reachable_wf [OF assms]]
  by (simp add: wf_registry_def wf_service_def MAX_SERVICES_def)

theorem registry_wf_witness:
  "length (services (snd (get_or_create_service 0 ''a'' True False term_start))) \<le> 100"
proof -
  have "term_step term_start (snd (get_or_create_service 0 ''a'' True False term_start))"
    by (rule term_step.connect [OF surjective_pairing])
  then show ?thesis
    using registry_wf [unfolded term_reachable_def, OF r_into_rtranclp] by blast
qed


section \<open>What the cleanup removes\<close>

lemma get_service_remove:
  "get_service (fst (remove_service k w)) sid = (if sid = k then None else get_service w sid)"
  by (auto simp: remove_service_def get_service_def Let_def delete_conv split: option.splits)

lemma get_service_remove_all:
  "get_service (fst (remove_services ks w)) sid = (if sid \<in> set ks then None else get_service w sid)"
  by (induction ks arbitrary: w) (simp_all add: case_prod_beta get_service_remove)

text \<open>
  The cleanup task removes exactly the services whose time is over: one that is not
  persistent after an hour without an action of its client, a persistent one after two
  hours and only when it has no session left. Every other service is untouched.
\<close>

theorem cleanup_exact:
  assumes "term_reachable w"
  shows "get_service (fst (cleanup_inactive_services now w)) sid =
    (case get_service w sid of
       None \<Rightarrow> None
     | Some svc \<Rightarrow>
         if now - last_activity svc > (if is_persistent svc then 2 else 1) * SERVICE_IDLE_TIMEOUT
            \<and> (is_persistent svc \<longrightarrow> sessions svc = [])
         then None else Some svc)"
proof -
  have "distinct (map fst (services w))"
    using term_reachable_def assms registry_reachable_wf by (simp add: wf_registry_def)
  then have "sid \<in> set (map fst (filter (\<lambda>(i, svc). service_expired now svc) (services w))) \<longleftrightarrow>
      (\<exists>svc. get_service w sid = Some svc \<and> service_expired now svc)"
    by (force simp: get_service_def)
  then show ?thesis
    by (auto simp: cleanup_inactive_services_def get_service_remove_all service_expired_def
        mult.commute split: option.splits)
qed

text \<open>A concrete run: a service with one terminal, opened at time 0.\<close>

definition sample_open :: action_obs where
  "sample_open = \<lparr>ao_now = 0,
     ao_open = \<lparr>oo_openpty = True, oo_spawn = True, oo_writer = True, oo_reader = True, oo_child = 7,
       oo_pid = Some 7, oo_input_pipe = False, oo_output_pipe = False, oo_launch = None,
       oo_wait_input = False, oo_wait_output = False, oo_running = False\<rparr>,
     ao_resize_ok = True, ao_kill_ok = True\<rparr>"

definition sample_session :: session where
  "sample_session = (session_new 0 (''Terminal '' @ show_i32 1) 24 80)\<lparr>pid := 7, pty_pair := True, child := Some 7,
     input_tx := True, output_rx := True, reader_thread := True, writer_thread := True, s_state := Active None Idle\<rparr>"

definition sample_world :: term_world where
  "sample_world = \<lparr>services = [(''a'', \<lparr>service_id = ''a'', sessions = [(1, sample_session)], created_at = 0,
     last_activity = 0, is_persistent = False, needs_session_sync = False, is_specified_user = False\<rparr>)],
     tasks = []\<rparr>"

lemma sample_connect:
  "snd (get_or_create_service 0 ''a'' False False term_start) =
     \<lparr>services = [(''a'', \<lparr>service_id = ''a'', sessions = [], created_at = 0, last_activity = 0,
        is_persistent = False, needs_session_sync = True, is_specified_user = False\<rparr>)], tasks = []\<rparr>"
  by (simp add: get_or_create_service_def term_start_def get_service_def put_service_def
      service_new_def reset_status_def MAX_SERVICES_def Let_def)

lemma sample_action:
  "fst (snd (handle_action sample_open \<lparr>px_service_id = ''a'', px_is_persistent = False, px_user_token = False\<rparr>
      (OpenTerminal \<lparr>o_terminal_id = 1, o_rows = 24, o_cols = 80\<rparr>)
      (snd (get_or_create_service 0 ''a'' False False term_start)))) = sample_world"
  unfolding sample_connect
  by (simp add: handle_action_def get_service_def service_action_def handle_open_def remap_lowest_def
      open_direct_def register_session_def sample_open_def sample_world_def put_service_def add_to_reaper_def
      sample_session_def session_new_def map_filter_simps Let_def)

lemma sample_reachable: "term_reachable sample_world"
proof -
  let ?w = "snd (get_or_create_service 0 ''a'' False False term_start)"
  have "term_step term_start ?w"
    by (rule term_step.connect [OF surjective_pairing])
  moreover have "term_step ?w sample_world"
    unfolding sample_action [symmetric]
    by (rule term_step.action [OF trans [OF surjective_pairing arg_cong [OF surjective_pairing, where f = "Pair _"]]])
  ultimately show ?thesis
    by (simp add: term_reachable_def)
qed

theorem cleanup_exact_witness:
  "get_service (fst (cleanup_inactive_services 3600001 sample_world)) ''a'' = None"
  using cleanup_exact [OF sample_reachable, of 3600001 "''a''"]
  by (simp add: get_service_def sample_world_def SERVICE_IDLE_TIMEOUT_def)

lemma read_outputs_keeps_activity:
  assumes "read_outputs compress now po px w = Some (rs, w', acts)" and "get_service w sid = Some svc"
  shows "\<exists>ss. get_service w' sid = Some (svc\<lparr>sessions := ss\<rparr>)"
proof (cases "sid = px_service_id px")
  case True
  with assms show ?thesis
    by (auto simp: read_outputs_def get_service_def put_service_def add_to_reaper_def update_conv'
        case_prod_beta split: option.splits)
next
  case False
  with assms have "get_service w' sid = Some svc"
    by (auto simp: read_outputs_def get_service_def put_service_def add_to_reaper_def update_conv'
        case_prod_beta split: option.splits)
  then show ?thesis
    by (intro exI [of _ "sessions svc"]) simp
qed

text \<open>
  Output does not count as activity: a service that is not persistent is removed by the
  cleanup one hour after the last action of its client, whatever its terminals printed in
  the poll before.
\<close>

theorem streaming_service_removed:
  assumes "term_reachable w" and "get_service w sid = Some svc" and "\<not> is_persistent svc"
    and "read_outputs compress t po px w = Some (rs, w', acts)"
    and "now - last_activity svc > SERVICE_IDLE_TIMEOUT"
  shows "get_service (fst (cleanup_inactive_services now w')) sid = None"
proof -
  obtain ss where ss: "get_service w' sid = Some (svc\<lparr>sessions := ss\<rparr>)"
    using read_outputs_keeps_activity [OF assms(4,2)] by blast
  then have "sid \<in> set (map fst (filter (\<lambda>(i, svc). service_expired now svc) (services w')))"
    using assms(3,5) by (force simp: get_service_def service_expired_def dest: map_of_SomeD)
  then show ?thesis
    by (simp add: cleanup_inactive_services_def get_service_remove_all)
qed

theorem streaming_service_removed_witness:
  "\<exists>rs w' acts. read_outputs (\<lambda>d. d) 3600000
      (\<lambda>_. \<lparr>so_busy = False, so_reader_finished = False, so_chunks = [''x''], so_resize_ok = True, so_exit_code = None\<rparr>)
      \<lparr>px_service_id = ''a'', px_is_persistent = False, px_user_token = False\<rparr> sample_world = Some (rs, w', acts)
    \<and> rs = [TermData 1 False ''x''] \<and> get_service (fst (cleanup_inactive_services 3600001 w')) ''a'' = None"
proof -
  let ?po = "\<lambda>_ :: int. \<lparr>so_busy = False, so_reader_finished = False, so_chunks = [''x''], so_resize_ok = True, so_exit_code = None\<rparr>"
  let ?px = "\<lparr>px_service_id = ''a'', px_is_persistent = False, px_user_token = False\<rparr>"
  have "\<exists>s'. read_session (\<lambda>d. d) 3600000 (?po 1) 1 sample_session = Some (s', [TermData 1 False ''x''], [], False)"
    by (simp add: read_session_def sample_session_def session_new_def ob_append_first MAX_OUTPUT_BUFFER_SIZE_def
        sigwinch_step_def sigwinch_select_def create_terminal_data_response_def COMPRESS_THRESHOLD_def)
  then obtain w' acts where poll: "read_outputs (\<lambda>d. d) 3600000 ?po ?px sample_world = Some ([TermData 1 False ''x''], w', acts)"
    by (auto simp: read_outputs_def get_service_def sample_world_def)
  have "get_service (fst (cleanup_inactive_services 3600001 w')) ''a'' = None"
    by (rule streaming_service_removed [OF sample_reachable _ _ poll, where svc = "snd (hd (services sample_world))"])
      (simp_all add: get_service_def sample_world_def SERVICE_IDLE_TIMEOUT_def)
  with poll show ?thesis
    by blast
qed


section \<open>Reconnecting\<close>

lemma fold_min_mem: "fold min ks (k :: int) \<in> insert k (set ks)"
  by (induction ks arbitrary: k) (auto simp: min_def split: if_splits)

lemma lowest_id_Some:
  assumes "ss \<noteq> []"
  obtains low s where "lowest_id ss = Some low" and "map_of ss low = Some s"
proof -
  obtain k ks where ks: "map fst ss = k # ks"
    using assms by (cases "map fst ss") simp_all
  have "fold min ks k \<in> set (map fst ss)"
    unfolding ks using fold_min_mem [of ks k] by simp
  then obtain s where "map_of ss (fold min ks k) = Some s"
    by (metis domD dom_map_of_conv_image_fst set_map)
  with ks show thesis
    using that by (simp add: lowest_id_def)
qed

lemma remap_lowest_cases:
  assumes "needs_session_sync svc" and "sessions svc \<noteq> []" and "distinct (map fst (sessions svc))"
  obtains s where "map_of (sessions (remap_lowest tid svc)) tid = Some s"
    and "length (sessions (remap_lowest tid svc)) = length (sessions svc)"
    and "needs_session_sync (remap_lowest tid svc)"
    and "s \<in> snd ` set (sessions svc)"
proof (cases "map_of (sessions svc) tid")
  case (Some s)
  then have "remap_lowest tid svc = svc" "s \<in> snd ` set (sessions svc)"
    by (simp add: remap_lowest_def) (use Some in \<open>force dest: map_of_SomeD\<close>)
  with Some assms show thesis
    using that [of s] by simp
next
  case None
  obtain low s where low: "lowest_id (sessions svc) = Some low" "map_of (sessions svc) low = Some s"
    using lowest_id_Some [OF assms(2)] by blast
  then have "remap_lowest tid svc = svc\<lparr>sessions := AList.update tid s (AList.delete low (sessions svc))\<rparr>"
    using None assms by (simp add: remap_lowest_def)
  moreover have "length (AList.update tid s (AList.delete low (sessions svc))) = length (sessions svc)"
  proof -
    have "length (removeAll low (map fst (sessions svc))) = length (sessions svc) - 1"
      using assms(3) alist_map_of_key [OF low(2)] by (simp add: distinct_remove1_removeAll [symmetric] length_remove1)
    then have "length (AList.delete low (sessions svc)) = length (sessions svc) - 1"
      by (metis delete_keys length_map)
    moreover have "tid \<notin> fst ` set (AList.delete low (sessions svc))"
      using None by (auto simp: map_of_eq_None_iff AList.delete_eq)
    ultimately show ?thesis
      using assms(2) by (simp add: length_alist_update)
  qed
  moreover have "s \<in> snd ` set (sessions svc)"
    using map_of_SomeD [OF low(2)] by (force simp: image_iff)
  ultimately show thesis
    using that [of s] assms(1) by (simp add: update_conv')
qed

text \<open>
  C11. A client that comes back to a service with surviving sessions never gets a new shell:
  whatever id it asks for, it is reconnected to a survivor, no session is lost and none is
  started, and it is told the ids of all the others.
\<close>

theorem reopen_reconnects:
  assumes "needs_session_sync svc" and "sessions svc \<noteq> []" and "distinct (map fst (sessions svc))"
  shows "\<exists>op' svc' s. handle_open now oo px op svc = (Inr (TermOpened op'), svc', [])
    \<and> op_success op' \<and> op_terminal_id op' = o_terminal_id op
    \<and> s \<in> snd ` set (sessions svc) \<and> op_pid op' = pid s
    \<and> map_of (sessions svc') (o_terminal_id op) = Some (s\<lparr>s_state := reconnect_state s\<rparr>)
    \<and> length (sessions svc') = length (sessions svc) \<and> \<not> needs_session_sync svc'
    \<and> set (persistent_sessions op') = fst ` set (sessions svc') - {o_terminal_id op}"
proof -
  let ?tid = "o_terminal_id op"
  let ?svc1 = "remap_lowest ?tid svc"
  from assms obtain s where s: "map_of (sessions ?svc1) ?tid = Some s"
    "length (sessions ?svc1) = length (sessions svc)" "needs_session_sync ?svc1" "s \<in> snd ` set (sessions svc)"
    by (rule remap_lowest_cases)
  let ?svc' = "snd (reconnect px ?tid s ?svc1)"
  have keys: "map fst (sessions ?svc') = map fst (sessions ?svc1)"
    using alist_map_of_key [OF s(1)] by (simp add: reconnect_def update_keys)
  have key: "?tid \<in> set (map fst (sessions ?svc1))"
    using alist_map_of_key [OF s(1)] by simp
  have "fst ` set (sessions ?svc1) = {?tid}" if "\<not> 1 < length (sessions ?svc1)"
    using that alist_map_of_key [OF s(1)] by (cases "sessions ?svc1") auto
  then have "set (if 1 < length (sessions ?svc1) then filter (\<lambda>i. i \<noteq> ?tid) (map fst (sessions ?svc1)) else [])
      = fst ` set (sessions ?svc1) - {?tid}"
    by auto
  moreover have "fst ` set (sessions ?svc') = fst ` set (sessions ?svc1)"
    using keys by (metis set_map)
  moreover have "length (sessions ?svc') = length (sessions svc)"
    using keys s(2) by (metis length_map)
  ultimately show ?thesis
    using s by (auto simp: handle_open_def reconnect_def Let_def update_conv')
qed

theorem reopen_reconnects_witness:
  "\<exists>op' svc'. handle_open 0 (ao_open sample_open) \<lparr>px_service_id = ''a'', px_is_persistent = True, px_user_token = False\<rparr>
      \<lparr>o_terminal_id = 5, o_rows = 24, o_cols = 80\<rparr>
      (reset_status True (snd (hd (services sample_world)))) = (Inr (TermOpened op'), svc', [])
    \<and> op_pid op' = 7"
  using reopen_reconnects [of "reset_status True (snd (hd (services sample_world)))" 0 "ao_open sample_open"
      "\<lparr>px_service_id = ''a'', px_is_persistent = True, px_user_token = False\<rparr>"
      "\<lparr>o_terminal_id = 5, o_rows = 24, o_cols = 80\<rparr>"]
  by (auto simp: reset_status_def sample_world_def sample_session_def)


section \<open>What the client sees\<close>

text \<open>
  The client's side of a data response, \<open>handle_terminal_response\<close> of
  \<open>src/src/flutter.rs\<close>: the bytes it hands to the terminal widget, with the
  decompressor of \<open>hbb_common\<close> as a parameter.
\<close>

fun client_output :: "(string \<Rightarrow> string) \<Rightarrow> response \<Rightarrow> (int \<times> string) option" where
  "client_output decompress (TermData tid compressed d) = Some (tid, if compressed then decompress d else d)"
| "client_output decompress _ = None"

definition client_sees :: "(string \<Rightarrow> string) \<Rightarrow> response list \<Rightarrow> (int \<times> string) list" where
  "client_sees decompress rs = List.map_filter (client_output decompress) rs"

text \<open>
  The interface the service relies on: what the compressor of \<open>hbb_common\<close> made, its
  decompressor undoes. Data then arrives as it was printed, compressed or not.
\<close>

lemma read_session_responses:
  assumes "read_session compress now po tid s = Some (s', rs, acts, c)"
    and "\<not> so_busy po" and "output_rx s" and "s_state s = Active pending ph"
  shows "rs = (case pending of
        Some buf \<Rightarrow> if buf \<noteq> [] then [create_terminal_data_response compress tid buf] else []
      | None \<Rightarrow> []) @ map (create_terminal_data_response compress tid) (so_chunks po)"
proof -
  define b1 where "b1 \<longleftrightarrow> \<not> closed_message_sent s \<and> reader_thread s \<and> so_reader_finished po"
  show ?thesis
    using assms unfolding read_session_def b1_def [symmetric] Let_def
    by (cases b1; cases "so_chunks po = []") (auto simp: case_prod_beta split: option.splits)
qed

locale terminal_link =
  fixes compress decompress :: "string \<Rightarrow> string"
  assumes decompress_compress: "decompress (compress d) = d"
begin

lemma client_output_data: "client_output decompress (create_terminal_data_response compress tid d) = Some (tid, d)"
  by (simp add: create_terminal_data_response_def Let_def decompress_compress)

lemma client_sees_data:
  "client_sees decompress (map (create_terminal_data_response compress tid) ds) = map (Pair tid) ds"
  by (induction ds) (simp_all add: client_sees_def map_filter_simps client_output_data)

lemma read_after_reconnect:
  assumes "read_session compress now po tid (s\<lparr>s_state := reconnect_state s\<rparr>) = Some (s', rs, acts, c)"
    and "\<not> so_busy po" and "output_rx s"
  shows "concat (map snd (client_sees decompress rs)) =
      get_recent DEFAULT_RECONNECT_BUFFER_BYTES (output_buffer s) @ concat (so_chunks po)"
proof -
  let ?buf = "get_recent DEFAULT_RECONNECT_BUFFER_BYTES (output_buffer s)"
  have "rs = (if ?buf \<noteq> [] then [create_terminal_data_response compress tid ?buf] else [])
      @ map (create_terminal_data_response compress tid) (so_chunks po)"
    using read_session_responses [OF assms(1,2)] assms(3) by (simp add: reconnect_state_def Let_def)
  then have "rs = map (create_terminal_data_response compress tid) ((if ?buf \<noteq> [] then [?buf] else []) @ so_chunks po)"
    by simp
  then have "client_sees decompress rs = map (Pair tid) ((if ?buf \<noteq> [] then [?buf] else []) @ so_chunks po)"
    by (simp only: client_sees_data)
  then show ?thesis
    by (simp add: comp_def)
qed

end

interpretation plain_link: terminal_link "\<lambda>d. d" "\<lambda>d. d"
  by unfold_locales simp

text \<open>
  After a reconnection the first poll shows the client, in this order, the end of the
  buffered output, at most 8 KiB of it, and then what the shell printed since, nothing
  twice and nothing left out. The compressor is only assumed to be undone by its
  decompressor.
\<close>

theorem reconnect_replay:
  assumes "\<forall>d. decompress (compress d) = d"
    and "read_session compress now po tid (s\<lparr>s_state := reconnect_state s\<rparr>) = Some (s', rs, acts, c)"
    and "\<not> so_busy po" and "output_rx s"
  shows "\<exists>replay. concat (map snd (client_sees decompress rs)) = replay @ concat (so_chunks po)
    \<and> suffix replay (concat (ob_lines (output_buffer s))) \<and> length replay \<le> 8192"
proof -
  have "terminal_link compress decompress"
    using assms(1) by (simp add: terminal_link_def)
  from terminal_link.read_after_reconnect [OF this assms(2-4)] show ?thesis
    using get_recent_bounded [of DEFAULT_RECONNECT_BUFFER_BYTES "output_buffer s"]
    by (auto simp: DEFAULT_RECONNECT_BUFFER_BYTES_def)
qed

theorem reconnect_replay_witness:
  "\<exists>s' rs acts c replay. read_session (\<lambda>d. d) 5
      \<lparr>so_busy = False, so_reader_finished = False, so_chunks = [''x''], so_resize_ok = True, so_exit_code = None\<rparr>
      1 (sample_session\<lparr>s_state := reconnect_state sample_session\<rparr>) = Some (s', rs, acts, c)
    \<and> concat (map snd (client_sees (\<lambda>d. d) rs)) = replay @ ''x''"
proof -
  let ?po = "\<lparr>so_busy = False, so_reader_finished = False, so_chunks = [''x''], so_resize_ok = True, so_exit_code = None\<rparr>"
  have buf: "output_buffer (sample_session\<lparr>s_state := reconnect_state sample_session\<rparr>) = ob_new" "output_rx sample_session"
    by (simp_all add: sample_session_def session_new_def)
  have "read_session (\<lambda>d. d) 5 ?po 1 (sample_session\<lparr>s_state := reconnect_state sample_session\<rparr>) \<noteq> None"
    by (simp add: read_session_def buf ob_append_first MAX_OUTPUT_BUFFER_SIZE_def Let_def case_prod_beta
        reconnect_state_def sample_session_def session_new_def)
  then obtain s' rs acts c where poll: "read_session (\<lambda>d. d) 5 ?po 1 (sample_session\<lparr>s_state := reconnect_state sample_session\<rparr>) = Some (s', rs, acts, c)"
    by (metis not_None_eq prod_cases4)
  from reconnect_replay [OF _ poll, of "\<lambda>d. d"] show ?thesis
    using poll buf(2) by auto
qed

text \<open>
  A session whose shell has ended stays in a persistent service. Reopening it reports
  success, and no later poll of it reports the end again.
\<close>

lemma dead_session_reopened:
  assumes "map_of (sessions svc) (o_terminal_id op) = Some s" and "closed_message_sent s"
  shows "(\<exists>op' svc'. handle_open now oo px op svc = (Inr (TermOpened op'), svc', []) \<and> op_success op')
    \<and> (\<forall>compress t po tid s' rs acts c.
          read_session compress t po tid (s\<lparr>s_state := reconnect_state s\<rparr>) = Some (s', rs, acts, c) \<longrightarrow>
          \<not> c \<and> closed_message_sent s')"
  using assms
  by (auto simp: handle_open_def remap_lowest_def reconnect_def read_session_def Let_def case_prod_beta
      reconnect_state_def split: option.splits if_splits)

end
