(* ===== verification/Auth.thy ===== *)
theory Auth
  imports Prelude
begin

text \<open>
  The account of the head office app: \<open>src/src/chainremote_auth.rs\<close>. Token and user are
  kept in memory only, the panel's address and the owner of the connection records in the
  local options, and the connection records themselves in folders next to the
  configuration: \<open>peers\<close> for the account in use and one folder per other account.

  \<open>http_request_sync\<close> is what the panel answered, an error text or a raw reply; the
  decoders that \<open>serde\<close> derives, and \<open>base64\<close>, are parameters. The result of each file
  operation is an observation. The lemmas show when a login or a heartbeat changes the
  credentials, that switching accounts implements one record store per account as long as
  the folders can be renamed, and where it does not.
\<close>

definition DEFAULT_API_BASE :: string where
  "DEFAULT_API_BASE = ''https://api.626.kr''"

definition KEY_API_BASE :: string where
  "KEY_API_BASE = ''chainremote-api-base''"

definition PEERS_OWNER_KEY :: string where
  "PEERS_OWNER_KEY = ''chainremote-peers-owner''"

lemma auth_keys [simp]: "KEY_API_BASE \<noteq> PEERS_OWNER_KEY" "PEERS_OWNER_KEY \<noteq> KEY_API_BASE"
  by (simp_all add: KEY_API_BASE_def PEERS_OWNER_KEY_def)


section \<open>State\<close>

record user_info =
  u_id :: string
  u_email :: string
  u_display_name :: string
  u_role :: string
  u_tenant_id :: string
  u_tenant_name :: "string option"
  u_greeting :: "string option"

datatype login_outcome = LoginSuccess user_info | LoginOccupied "string option" "string option"

datatype heartbeat_status = HbOk | HbRevoked | HbExpired | HbError

datatype auth_error =
    NetError string | NoInternet | NoServer | BadReply | ServerMessage string
  | LoginFailed nat | TakeoverFailed nat | UserNotSerialized | NotLoggedIn
  | PwFormat | PwMismatch | PanelOutdated | PanelError | PwFailed

datatype 'd dir_entry = Folder "'d list" | PlainFile

record ('c, 'd) auth =
  a_config :: 'c
  a_token :: string
  a_user_json :: string
  expired_streak :: "32 word"
  a_files :: "string \<Rightarrow> 'd dir_entry option"

record http_post =
  hp_url :: string
  hp_bearer :: "string option"
  hp_body :: "(string \<times> string) list"

text \<open>The decoders of the replies, and the encoder of the user.\<close>

record auth_json =
  parse_wrapper :: "string \<Rightarrow> (nat \<times> string) option"
  parse_token :: "string \<Rightarrow> (string \<times> user_info) option"
  parse_occupied :: "string \<Rightarrow> (string option \<times> string option) option"
  parse_error :: "string \<Rightarrow> string option"
  parse_ok_token :: "string \<Rightarrow> string option"
  parse_revoked :: "string \<Rightarrow> bool option"
  user_to_json :: "user_info \<Rightarrow> string option"


section \<open>The panel's address\<close>

definition api_base :: "'c option_ops \<Rightarrow> 'c \<Rightarrow> string" where
  "api_base ops c =
     (let v = get_option ops c KEY_API_BASE;
          base = (if trim v = [] then DEFAULT_API_BASE else v)
      in trim_end_matches (CHR ''/'') base)"

definition set_api_base :: "'c option_ops \<Rightarrow> string \<Rightarrow> ('c, 'd) auth \<Rightarrow> ('c, 'd) auth" where
  "set_api_base ops url a = a\<lparr>a_config := set_option ops (a_config a) KEY_API_BASE (trim url)\<rparr>"

definition is_authenticated :: "('c, 'd) auth \<Rightarrow> bool" where
  "is_authenticated a \<longleftrightarrow> a_token a \<noteq> []"

definition logout :: "'c option_ops \<Rightarrow> ('c, 'd) auth \<Rightarrow> ('c, 'd) auth \<times> http_post list" where
  "logout ops a =
     (a\<lparr>a_token := [], a_user_json := []\<rparr>,
      if a_token a \<noteq> []
      then [\<lparr>hp_url = api_base ops (a_config a) @ ''/api/auth/logout'', hp_bearer = Some (a_token a), hp_body = []\<rparr>]
      else [])"

definition device_info :: "(string \<Rightarrow> string) \<Rightarrow> string \<Rightarrow> string \<Rightarrow> string \<Rightarrow> string \<times> string" where
  "device_info encode64 uuid remote_id hostname = (encode64 (if uuid = [] then remote_id else uuid), hostname)"


section \<open>Requests\<close>

text \<open>
  \<open>to_lowercase\<close> as far as an ASCII pattern can see it: besides the ASCII letters, only
  the Kelvin sign and the dotted capital I have an ASCII letter in their lower case.
\<close>

fun to_lowercase :: "string \<Rightarrow> string" where
  "to_lowercase [] = []"
| "to_lowercase (a # s) =
     (case s of
        b # s' \<Rightarrow>
          if byte a = 196 \<and> byte b = 176 then CHR ''i'' # CHR 0xCC # CHR 0x87 # to_lowercase s'
          else (case s' of
                  c # s'' \<Rightarrow>
                    if byte a = 226 \<and> byte b = 132 \<and> byte c = 170 then CHR ''k'' # to_lowercase s''
                    else ascii_lower a # to_lowercase s
                | [] \<Rightarrow> ascii_lower a # to_lowercase s)
      | [] \<Rightarrow> [ascii_lower a])"

definition friendly_net_error :: "string \<Rightarrow> auth_error" where
  "friendly_net_error raw =
     (let low = to_lowercase raw;
          dns = (contains_str low ''dns error'' \<or> contains_str low ''failed to lookup address''
               \<or> contains_str low ''nodename nor servname'' \<or> contains_str low ''name or service not known'');
          unreachable = (contains_str low ''connect'' \<or> contains_str low ''timed out''
               \<or> contains_str low ''timeout'' \<or> contains_str low ''unreachable'' \<or> contains_str low ''refused'')
      in if \<not> (dns \<or> unreachable) then NetError raw
         else if dns then NoInternet else NoServer)"

definition post_json ::
    "'c option_ops \<Rightarrow> auth_json \<Rightarrow> string + string \<Rightarrow> string \<Rightarrow> (string \<times> string) list \<Rightarrow> string option \<Rightarrow> 'c
       \<Rightarrow> (auth_error + nat \<times> string) \<times> http_post" where
  "post_json ops js http path body bearer c =
     (case http of
        Inl raw \<Rightarrow> Inl (friendly_net_error raw)
      | Inr raw \<Rightarrow> (case parse_wrapper js raw of None \<Rightarrow> Inl BadReply | Some w \<Rightarrow> Inr w),
      \<lparr>hp_url = api_base ops c @ path, hp_bearer = bearer, hp_body = body\<rparr>)"

abbreviation status_ok :: "nat \<Rightarrow> bool" where
  "status_ok s \<equiv> 200 \<le> s \<and> s < 300"

definition store :: "auth_json \<Rightarrow> string \<Rightarrow> user_info \<Rightarrow> ('c, 'd) auth \<Rightarrow> (auth_error + ('c, 'd) auth)" where
  "store js token user a =
     (case user_to_json js user of
        None \<Rightarrow> Inl UserNotSerialized
      | Some uj \<Rightarrow> Inr (a\<lparr>a_token := token, a_user_json := uj\<rparr>))"


section \<open>The connection records\<close>

text \<open>A character that is not an ASCII letter or digit, of one byte or more, becomes one underscore.\<close>

definition peer_store_tag :: "string \<Rightarrow> string" where
  "peer_store_tag owner =
     map (\<lambda>c. if is_ascii_alphanumeric c then c else CHR ''_'')
       (filter (\<lambda>c. \<not> (128 \<le> byte c \<and> byte c < 192)) owner)"

definition live_dir :: string where
  "live_dir = ''peers''"

definition archived_dir :: "string \<Rightarrow> string" where
  "archived_dir owner = ''peers-'' @ peer_store_tag owner"

record swap_obs =
  sw_parent :: bool
  sw_remove_ok :: bool
  sw_rename_out_ok :: bool
  sw_rename_in_ok :: bool
  sw_create_ok :: bool

fun is_dir :: "'d dir_entry option \<Rightarrow> bool" where
  "is_dir (Some (Folder _)) = True"
| "is_dir _ = False"

definition create_dir_all :: "bool \<Rightarrow> string \<Rightarrow> (string \<Rightarrow> 'd dir_entry option) \<Rightarrow> string \<Rightarrow> 'd dir_entry option" where
  "create_dir_all ok p fs = (if ok \<and> fs p = None then fs(p := Some (Folder [])) else fs)"

definition swap_peer_store ::
    "swap_obs \<Rightarrow> string \<Rightarrow> string \<Rightarrow> (string \<Rightarrow> 'd dir_entry option) \<Rightarrow> string \<Rightarrow> 'd dir_entry option" where
  "swap_peer_store so prev next_owner fs =
     (if \<not> sw_parent so then fs
      else
        let prev_dir = archived_dir prev;
            next_dir = archived_dir next_owner;
            fs1 = (if is_dir (fs live_dir) \<and> fs prev_dir \<noteq> None \<and> sw_remove_ok so then fs(prev_dir := None) else fs);
            fs2 = (if is_dir (fs live_dir) then fs1(prev_dir := fs1 live_dir, live_dir := None) else fs1)
        in if is_dir (fs live_dir) \<and> \<not> sw_rename_out_ok so then fs1
           else if is_dir (fs2 next_dir) then
             (if sw_rename_in_ok so then fs2(live_dir := fs2 next_dir, next_dir := None)
              else create_dir_all (sw_create_ok so) live_dir fs2)
           else create_dir_all (sw_create_ok so) live_dir fs2)"

definition owner_of :: "user_info \<Rightarrow> string" where
  "owner_of user = u_tenant_id user @ ''|'' @ u_email user"

definition reset_peers_if_account_changed ::
    "'c option_ops \<Rightarrow> swap_obs \<Rightarrow> user_info \<Rightarrow> ('c, 'd) auth \<Rightarrow> ('c, 'd) auth" where
  "reset_peers_if_account_changed ops so user a =
     (let owner = owner_of user; prev = get_option ops (a_config a) PEERS_OWNER_KEY
      in if prev = owner then a
         else a\<lparr>a_files := (if prev \<noteq> [] then swap_peer_store so prev owner (a_files a) else a_files a),
                a_config := set_option ops (a_config a) PEERS_OWNER_KEY owner\<rparr>)"


section \<open>Login, takeover, heartbeat\<close>

definition credentials_body :: "string \<Rightarrow> string \<Rightarrow> string \<times> string \<Rightarrow> (string \<times> string) list" where
  "credentials_body email password dev =
     [(''email'', email), (''password'', password), (''deviceId'', fst dev), (''deviceLabel'', snd dev)]"

definition login ::
    "'c option_ops \<Rightarrow> auth_json \<Rightarrow> swap_obs \<Rightarrow> string + string \<Rightarrow> string \<times> string \<Rightarrow> string \<Rightarrow> string \<Rightarrow> ('c, 'd) auth
       \<Rightarrow> (auth_error + login_outcome) \<times> ('c, 'd) auth \<times> http_post" where
  "login ops js so http dev email password a =
     (let (reply, req) = post_json ops js http ''/api/auth/token'' (credentials_body email password dev) None (a_config a)
      in case reply of
           Inl e \<Rightarrow> (Inl e, a, req)
         | Inr (status, body) \<Rightarrow>
             if status_ok status then
               (case parse_token js body of
                  None \<Rightarrow> (Inl BadReply, a, req)
                | Some (token, user) \<Rightarrow>
                    (case store js token user a of
                       Inl e \<Rightarrow> (Inl e, a, req)
                     | Inr a1 \<Rightarrow>
                         (Inr (LoginSuccess user), reset_peers_if_account_changed ops so user a1, req)))
             else if status = 409 then
               (let (label, since) = (case parse_occupied js body of None \<Rightarrow> (None, None) | Some p \<Rightarrow> p)
                in (Inr (LoginOccupied label since), a, req))
             else (case parse_error js body of
                     Some m \<Rightarrow> (Inl (ServerMessage m), a, req)
                   | None \<Rightarrow> (Inl (LoginFailed status), a, req)))"

definition takeover ::
    "'c option_ops \<Rightarrow> auth_json \<Rightarrow> swap_obs \<Rightarrow> string + string \<Rightarrow> string \<times> string \<Rightarrow> string \<Rightarrow> string \<Rightarrow> ('c, 'd) auth
       \<Rightarrow> (auth_error + user_info) \<times> ('c, 'd) auth \<times> http_post" where
  "takeover ops js so http dev email password a =
     (let (reply, req) = post_json ops js http ''/api/auth/takeover'' (credentials_body email password dev) None (a_config a)
      in case reply of
           Inl e \<Rightarrow> (Inl e, a, req)
         | Inr (status, body) \<Rightarrow>
             if status_ok status then
               (case parse_token js body of
                  None \<Rightarrow> (Inl BadReply, a, req)
                | Some (token, user) \<Rightarrow>
                    (case store js token user a of
                       Inl e \<Rightarrow> (Inl e, a, req)
                     | Inr a1 \<Rightarrow> (Inr user, reset_peers_if_account_changed ops so user a1, req)))
             else (case parse_error js body of
                     Some m \<Rightarrow> (Inl (ServerMessage m), a, req)
                   | None \<Rightarrow> (Inl (TakeoverFailed status), a, req)))"

definition heartbeat ::
    "'c option_ops \<Rightarrow> auth_json \<Rightarrow> string + string \<Rightarrow> string \<Rightarrow> ('c, 'd) auth \<Rightarrow> heartbeat_status \<times> ('c, 'd) auth" where
  "heartbeat ops js http version a =
     (if a_token a = [] then (HbError, a)
      else case fst (post_json ops js http ''/api/auth/heartbeat'' [(''version'', version)] (Some (a_token a)) (a_config a)) of
        Inl _ \<Rightarrow> (HbError, a)
      | Inr (status, body) \<Rightarrow>
          if status_ok status then
            (let a1 = a\<lparr>expired_streak := 0\<rparr>
             in (HbOk, case parse_ok_token js body of
                         Some t \<Rightarrow> if t \<noteq> [] then a1\<lparr>a_token := t\<rparr> else a1
                       | None \<Rightarrow> a1))
          else if status = 401 then
            (if parse_revoked js body = Some True then (HbRevoked, a)
             else let streak = expired_streak a + 1; a1 = a\<lparr>expired_streak := streak\<rparr>
                  in if streak \<ge> 3 then (HbExpired, a1) else (HbError, a1))
          else (HbError, a))"

definition change_password ::
    "'c option_ops \<Rightarrow> auth_json \<Rightarrow> string + string \<Rightarrow> string \<Rightarrow> string \<Rightarrow> ('c, 'd) auth
       \<Rightarrow> (auth_error + unit) \<times> http_post list" where
  "change_password ops js http current new a =
     (if a_token a = [] then (Inl NotLoggedIn, [])
      else
        let (reply, req) = post_json ops js http ''/api/me/password''
              [(''currentPassword'', current), (''newPassword'', new)] (Some (a_token a)) (a_config a)
        in (case reply of
              Inl e \<Rightarrow> Inl e
            | Inr (status, body) \<Rightarrow>
                if status_ok status then Inr ()
                else case parse_error js body of
                  Some m \<Rightarrow> Inl (ServerMessage m)
                | None \<Rightarrow>
                    Inl (if status = 400 then PwFormat
                         else if status = 401 \<or> status = 403 then PwMismatch
                         else if status = 404 then PanelOutdated
                         else if 500 \<le> status \<and> status \<le> 599 then PanelError
                         else PwFailed),
            [req]))"


section \<open>One record store per account\<close>

text \<open>
  The contract of switching accounts, independent of folders: every account has its own
  records, switching changes whose records are in use and nobody's records.
\<close>

locale account_store =
  fixes current :: "'s \<Rightarrow> 'o"
    and records :: "'s \<Rightarrow> 'o \<Rightarrow> 'r"
    and switch :: "'s \<Rightarrow> 'u \<Rightarrow> 's"
    and owner :: "'u \<Rightarrow> 'o"
    and wf :: "'s \<Rightarrow> bool"
    and accounts :: "'o set"
  assumes wf_switch: "wf s \<Longrightarrow> current s \<in> accounts \<Longrightarrow> owner u \<in> accounts \<Longrightarrow> wf (switch s u)"
    and current_switch: "wf s \<Longrightarrow> current s \<in> accounts \<Longrightarrow> owner u \<in> accounts \<Longrightarrow> current (switch s u) = owner u"
    and records_switch: "wf s \<Longrightarrow> current s \<in> accounts \<Longrightarrow> owner u \<in> accounts \<Longrightarrow>
      o' \<in> accounts \<Longrightarrow> records (switch s u) o' = records s o'"
begin

lemma run_switches:
  assumes "wf s" and "current s \<in> accounts" and "owner ` set us \<subseteq> accounts"
  shows "wf (run switch s us) \<and> current (run switch s us) = last (current s # map owner us)
    \<and> (\<forall>o' \<in> accounts. records (run switch s us) o' = records s o')"
  using assms
proof (induction us arbitrary: s)
  case (Cons u us)
  then have u: "owner u \<in> accounts" by simp
  note sw = wf_switch [OF Cons.prems(1,2) u] current_switch [OF Cons.prems(1,2) u] records_switch [OF Cons.prems(1,2) u]
  then show ?case
    using Cons.IH [OF sw(1)] Cons.prems u by auto
qed simp

end

definition fine_swap :: swap_obs where
  "fine_swap = \<lparr>sw_parent = True, sw_remove_ok = True, sw_rename_out_ok = True, sw_rename_in_ok = True, sw_create_ok = True\<rparr>"

definition peers_owner :: "'c option_ops \<Rightarrow> ('c, 'd) auth \<Rightarrow> string" where
  "peers_owner ops a = get_option ops (a_config a) PEERS_OWNER_KEY"

fun contents :: "'d dir_entry option \<Rightarrow> 'd list" where
  "contents (Some (Folder ds)) = ds"
| "contents _ = []"

definition visible_peers :: "('c, 'd) auth \<Rightarrow> 'd list" where
  "visible_peers a = contents (a_files a live_dir)"

definition records_of :: "'c option_ops \<Rightarrow> ('c, 'd) auth \<Rightarrow> string \<Rightarrow> 'd list" where
  "records_of ops a owner =
     (if owner = peers_owner ops a then visible_peers a else contents (a_files a (archived_dir owner)))"

definition peers_wf :: "'c option_ops \<Rightarrow> ('c, 'd) auth \<Rightarrow> bool" where
  "peers_wf ops a \<longleftrightarrow> is_dir (a_files a live_dir) \<and> peers_owner ops a \<noteq> []
     \<and> a_files a (archived_dir (peers_owner ops a)) = None
     \<and> (\<forall>t. a_files a (''peers-'' @ t) \<noteq> Some PlainFile)"

lemma archived_not_live [simp]: "archived_dir owner \<noteq> live_dir" "live_dir \<noteq> archived_dir owner"
  by (simp_all add: archived_dir_def live_dir_def)

lemma archived_eq: "archived_dir o1 = archived_dir o2 \<longleftrightarrow> peer_store_tag o1 = peer_store_tag o2"
  by (simp add: archived_dir_def)

lemma is_dir_iff: "is_dir e \<longleftrightarrow> (\<exists>ds. e = Some (Folder ds))"
  by (cases e rule: is_dir.cases) simp_all

lemma not_plain_cases: "e \<noteq> Some PlainFile \<Longrightarrow> e = None \<or> (\<exists>ds. e = Some (Folder ds))"
  by (metis dir_entry.exhaust not_None_eq)

text \<open>When the folders can be renamed, a switch is two moves.\<close>

lemma swap_fine:
  assumes "is_dir (fs live_dir)" and "fs (archived_dir prev) = None" and "archived_dir prev \<noteq> archived_dir nxt"
    and "fs (archived_dir nxt) \<noteq> Some PlainFile"
  shows "swap_peer_store fine_swap prev nxt fs =
    fs(archived_dir prev := fs live_dir, archived_dir nxt := None,
       live_dir := Some (Folder (contents (fs (archived_dir nxt)))))"
  using assms not_plain_cases [OF assms(4)]
  by (auto simp: swap_peer_store_def fine_swap_def Let_def create_dir_all_def fun_eq_iff)

locale account_switch = option_store ops for ops :: "'c option_ops" +
  fixes accounts :: "string set"
  assumes tags_inj: "inj_on peer_store_tag accounts"
begin

lemma switch_same: "owner_of u = peers_owner ops a \<Longrightarrow> reset_peers_if_account_changed ops so u a = a"
  by (simp add: reset_peers_if_account_changed_def peers_owner_def)

lemma switch_other:
  assumes "owner_of u \<noteq> peers_owner ops a" and "peers_owner ops a \<noteq> []"
  shows "reset_peers_if_account_changed ops so u a =
    a\<lparr>a_files := swap_peer_store so (peers_owner ops a) (owner_of u) (a_files a),
      a_config := set_option ops (a_config a) PEERS_OWNER_KEY (owner_of u)\<rparr>"
  using assms by (auto simp: reset_peers_if_account_changed_def peers_owner_def Let_def)

lemma tag_neq:
  "o1 \<in> accounts \<Longrightarrow> o2 \<in> accounts \<Longrightarrow> archived_dir o1 = archived_dir o2 \<longleftrightarrow> o1 = o2"
  using tags_inj by (auto simp: archived_eq inj_on_def)

lemma owner_nonempty [simp]: "owner_of u \<noteq> []"
  by (simp add: owner_of_def)

lemma switch_files:
  assumes "peers_wf ops a" "peers_owner ops a \<in> accounts" "owner_of u \<in> accounts" "owner_of u \<noteq> peers_owner ops a"
  shows "a_files (reset_peers_if_account_changed ops fine_swap u a) =
      (a_files a)(archived_dir (peers_owner ops a) := a_files a live_dir, archived_dir (owner_of u) := None,
         live_dir := Some (Folder (contents (a_files a (archived_dir (owner_of u))))))"
    and "peers_owner ops (reset_peers_if_account_changed ops fine_swap u a) = owner_of u"
proof -
  have wf: "is_dir (a_files a live_dir)" "peers_owner ops a \<noteq> []" "a_files a (archived_dir (peers_owner ops a)) = None"
    "a_files a (archived_dir (owner_of u)) \<noteq> Some PlainFile"
    using assms(1) by (auto simp: peers_wf_def archived_dir_def)
  have "archived_dir (peers_owner ops a) \<noteq> archived_dir (owner_of u)"
    using assms tag_neq by auto
  from swap_fine [OF wf(1,3) this wf(4)] show "a_files (reset_peers_if_account_changed ops fine_swap u a) =
      (a_files a)(archived_dir (peers_owner ops a) := a_files a live_dir, archived_dir (owner_of u) := None,
         live_dir := Some (Folder (contents (a_files a (archived_dir (owner_of u))))))"
    using switch_other [OF assms(4) wf(2)] by simp
  show "peers_owner ops (reset_peers_if_account_changed ops fine_swap u a) = owner_of u"
    unfolding switch_other [OF assms(4) wf(2)] by (simp add: peers_owner_def get_set)
qed

lemma switch_wf:
  assumes "peers_wf ops a" "peers_owner ops a \<in> accounts" "owner_of u \<in> accounts"
  shows "peers_wf ops (reset_peers_if_account_changed ops fine_swap u a)"
proof (cases "owner_of u = peers_owner ops a")
  case True
  then show ?thesis using assms(1) by (simp add: switch_same)
next
  case False
  note sw = switch_files [OF assms False]
  have "a_files a live_dir \<noteq> Some PlainFile"
    using assms(1) by (auto simp: peers_wf_def is_dir_iff)
  then show ?thesis
    using assms(1) unfolding peers_wf_def sw by simp
qed

lemma switch_records:
  assumes "peers_wf ops a" "peers_owner ops a \<in> accounts" "owner_of u \<in> accounts" "o' \<in> accounts"
  shows "records_of ops (reset_peers_if_account_changed ops fine_swap u a) o' = records_of ops a o'"
proof (cases "owner_of u = peers_owner ops a")
  case True
  then show ?thesis by (simp add: switch_same)
next
  case False
  show ?thesis
    using False assms tag_neq
    unfolding records_of_def visible_peers_def switch_files [OF assms(1-3) False] by auto
qed

end

sublocale account_switch \<subseteq> account_store "peers_owner ops" "records_of ops"
  "\<lambda>a u. reset_peers_if_account_changed ops fine_swap u a" owner_of "peers_wf ops" accounts
proof unfold_locales
  fix a :: "('c, 'f) auth" and u
  assume "peers_wf ops a" "peers_owner ops a \<in> accounts" "owner_of u \<in> accounts"
  then show "peers_owner ops (reset_peers_if_account_changed ops fine_swap u a) = owner_of u"
    using switch_files(2) [of a u] switch_same [of u a fine_swap] by (cases "owner_of u = peers_owner ops a") auto
qed (fact switch_wf switch_records)+

context account_switch
begin

lemma logins_keep_records:
  assumes "peers_wf ops a" and "peers_owner ops a \<in> accounts" and "owner_of ` set us \<subseteq> accounts"
  shows "visible_peers (run (\<lambda>a u. reset_peers_if_account_changed ops fine_swap u a) a us) =
      records_of ops a (last (peers_owner ops a # map owner_of us))"
    and "\<forall>o' \<in> accounts. records_of ops (run (\<lambda>a u. reset_peers_if_account_changed ops fine_swap u a) a us) o' = records_of ops a o'"
proof -
  let ?a' = "run (\<lambda>a u. reset_peers_if_account_changed ops fine_swap u a) a us"
  note r = run_switches [OF assms]
  then show "\<forall>o' \<in> accounts. records_of ops ?a' o' = records_of ops a o'" by blast
  have "last (peers_owner ops a # map owner_of us) \<in> accounts"
    using assms(2,3) by (metis in_mono last_in_set last.simps list.distinct(1) set_map)
  then have "records_of ops ?a' (peers_owner ops ?a') = records_of ops a (last (peers_owner ops a # map owner_of us))"
    using r by metis
  then show "visible_peers ?a' = records_of ops a (last (peers_owner ops a # map owner_of us))"
    by (simp add: records_of_def)
qed

end

definition sample_user :: "string \<Rightarrow> string \<Rightarrow> user_info" where
  "sample_user tenant email = \<lparr>u_id = ''1'', u_email = email, u_display_name = ''n'', u_role = ''r'',
     u_tenant_id = tenant, u_tenant_name = None, u_greeting = None\<rparr>"

lemma sample_owner: "owner_of (sample_user tenant email) = tenant @ ''|'' @ email"
  by (simp add: owner_of_def sample_user_def)

lemma sample_tags: "peer_store_tag ''t|a'' = ''t_a''" "peer_store_tag ''s|b'' = ''s_b''"
  by (simp_all add: peer_store_tag_def is_ascii_alphanumeric_def is_ascii_digit_def)

interpretation two_accounts: account_switch fun_store "{''t|a'', ''s|b''}"
  by unfold_locales (simp add: inj_on_def sample_tags)

text \<open>
  C12. Refinement: over any sequence of logins whose folders could be renamed, the folders
  implement one record store per account. The app shows exactly the records of the account
  that logged in last, and no account's records have changed, so coming back restores
  them. The accounts need distinct folder names.
\<close>

theorem peers_per_account:
  assumes "option_store ops" and "inj_on peer_store_tag accounts"
    and "peers_wf ops a" and "peers_owner ops a \<in> accounts" and "owner_of ` set us \<subseteq> accounts"
  shows "visible_peers (run (\<lambda>a u. reset_peers_if_account_changed ops fine_swap u a) a us) =
      records_of ops a (last (peers_owner ops a # map owner_of us))
    \<and> (\<forall>o' \<in> accounts.
        records_of ops (run (\<lambda>a u. reset_peers_if_account_changed ops fine_swap u a) a us) o' = records_of ops a o')"
proof -
  have "account_switch ops accounts"
    using assms(1,2) by (simp add: account_switch_def account_switch_axioms_def)
  from account_switch.logins_keep_records [OF this assms(3-5)] show ?thesis
    by blast
qed

definition sample_auth :: "(string \<Rightarrow> string, nat) auth" where
  "sample_auth = \<lparr>a_config = (\<lambda>_. [])(PEERS_OWNER_KEY := ''t|a''), a_token = [], a_user_json = [], expired_streak = 0,
     a_files = (\<lambda>_. None)(live_dir := Some (Folder [1, 2, 3]))\<rparr>"

lemma sample_auth_wf: "peers_wf fun_store sample_auth" "peers_owner fun_store sample_auth = ''t|a''"
  by (simp_all add: peers_wf_def peers_owner_def sample_auth_def live_dir_def archived_dir_def)

theorem peers_per_account_witness:
  "visible_peers (run (\<lambda>a u. reset_peers_if_account_changed fun_store fine_swap u a) sample_auth
      [sample_user ''s'' ''b'', sample_user ''t'' ''a'']) = [1, 2, 3]"
proof -
  have "inj_on peer_store_tag {''t|a'', ''s|b''}"
    by (simp add: inj_on_def sample_tags)
  from peers_per_account [OF fun_store.option_store_axioms this sample_auth_wf(1),
      of "[sample_user ''s'' ''b'', sample_user ''t'' ''a'']"]
  show ?thesis
    by (simp add: sample_auth_wf sample_owner records_of_def del: run_simps)
      (simp add: visible_peers_def sample_auth_def)
qed


section \<open>Where the isolation fails\<close>

text \<open>
  When the folder in use cannot be renamed, the switch stops, but the new account is
  recorded as the owner all the same: it sees the records of the account before it, and
  every later login of that account leaves them there.
\<close>

theorem rename_failure_leaks:
  assumes "option_store ops" and "peers_wf ops a" and "owner_of u \<noteq> peers_owner ops a"
    and "sw_parent so" and "\<not> sw_rename_out_ok so"
  shows "visible_peers (reset_peers_if_account_changed ops so u a) = visible_peers a
    \<and> peers_owner ops (reset_peers_if_account_changed ops so u a) = owner_of u
    \<and> (\<forall>so'. reset_peers_if_account_changed ops so' u (reset_peers_if_account_changed ops so u a) =
          reset_peers_if_account_changed ops so u a)"
proof -
  let ?a' = "reset_peers_if_account_changed ops so u a"
  have a': "?a' = a\<lparr>a_files := swap_peer_store so (peers_owner ops a) (owner_of u) (a_files a),
      a_config := set_option ops (a_config a) PEERS_OWNER_KEY (owner_of u)\<rparr>"
    using assms(2,3) by (auto simp: reset_peers_if_account_changed_def peers_owner_def peers_wf_def Let_def)
  have "swap_peer_store so (peers_owner ops a) (owner_of u) (a_files a) live_dir = a_files a live_dir"
    using assms(2,4,5) by (auto simp: swap_peer_store_def peers_wf_def Let_def)
  moreover have owner: "peers_owner ops ?a' = owner_of u"
    unfolding a' using option_store.get_set [OF assms(1)] by (simp add: peers_owner_def)
  moreover have "\<forall>so'. reset_peers_if_account_changed ops so' u ?a' = ?a'"
    using owner by (simp add: reset_peers_if_account_changed_def peers_owner_def)
  ultimately show ?thesis
    by (simp add: a' visible_peers_def)
qed

theorem rename_failure_leaks_witness:
  "visible_peers (reset_peers_if_account_changed fun_store (fine_swap\<lparr>sw_rename_out_ok := False\<rparr>)
      (sample_user ''s'' ''b'') sample_auth) = [1, 2, 3]"
  using rename_failure_leaks [OF fun_store.option_store_axioms sample_auth_wf(1),
      of "sample_user ''s'' ''b''" "fine_swap\<lparr>sw_rename_out_ok := False\<rparr>"]
  by (simp add: sample_auth_wf sample_owner fine_swap_def) (simp add: visible_peers_def sample_auth_def)

text \<open>
  Two accounts of one dealer whose addresses differ only in a punctuation mark share a
  folder name, and each then sees the other's records after a switch.
\<close>

theorem tag_collision_leaks:
  assumes "option_store ops" and "peers_wf ops a" and "peers_owner ops a = tenant @ ''|'' @ p @ ''.'' @ q"
    and "u_tenant_id u = tenant" and "u_email u = p @ ''_'' @ q"
  shows "visible_peers (reset_peers_if_account_changed ops fine_swap u a) = visible_peers a
    \<and> peers_owner ops (reset_peers_if_account_changed ops fine_swap u a) \<noteq> peers_owner ops a"
proof -
  have owner: "owner_of u = tenant @ ''|'' @ p @ ''_'' @ q"
    using assms(4,5) by (simp add: owner_of_def)
  have dirs: "archived_dir (owner_of u) = archived_dir (peers_owner ops a)"
    using assms(3) by (simp add: archived_eq owner peer_store_tag_def is_ascii_alphanumeric_def is_ascii_digit_def)
  have neq: "owner_of u \<noteq> peers_owner ops a"
    using assms(3) by (simp add: owner)
  let ?a' = "reset_peers_if_account_changed ops fine_swap u a"
  have a': "?a' = a\<lparr>a_files := swap_peer_store fine_swap (peers_owner ops a) (owner_of u) (a_files a),
      a_config := set_option ops (a_config a) PEERS_OWNER_KEY (owner_of u)\<rparr>"
    using assms(2) neq by (auto simp: reset_peers_if_account_changed_def peers_owner_def peers_wf_def Let_def)
  have "swap_peer_store fine_swap (peers_owner ops a) (owner_of u) (a_files a) live_dir = a_files a live_dir"
    using assms(2) by (auto simp: swap_peer_store_def peers_wf_def Let_def fine_swap_def dirs)
  moreover have "peers_owner ops ?a' = owner_of u"
    unfolding a' using option_store.get_set [OF assms(1)] by (simp add: peers_owner_def)
  ultimately show ?thesis
    using neq by (simp add: a' visible_peers_def)
qed

theorem tag_collision_leaks_witness:
  "visible_peers (reset_peers_if_account_changed fun_store fine_swap (sample_user ''t'' ''k_m'')
      (sample_auth\<lparr>a_config := (\<lambda>_. [])(PEERS_OWNER_KEY := ''t|k.m'')\<rparr>)) = [1, 2, 3]"
proof -
  let ?a = "sample_auth\<lparr>a_config := (\<lambda>_. [])(PEERS_OWNER_KEY := ''t|k.m'')\<rparr>"
  have "peers_wf fun_store ?a" "peers_owner fun_store ?a = ''t'' @ ''|'' @ ''k'' @ ''.'' @ ''m''"
    "u_tenant_id (sample_user ''t'' ''k_m'') = ''t''" "u_email (sample_user ''t'' ''k_m'') = ''k'' @ ''_'' @ ''m''"
    by (simp_all add: peers_wf_def peers_owner_def sample_auth_def live_dir_def archived_dir_def sample_user_def)
  from tag_collision_leaks [OF fun_store.option_store_axioms this] show ?thesis
    by (simp add: visible_peers_def [of ?a]) (simp add: sample_auth_def)
qed


section \<open>Credentials\<close>

lemma reset_peers_keeps [simp]:
  "a_token (reset_peers_if_account_changed ops so u a) = a_token a"
  "a_user_json (reset_peers_if_account_changed ops so u a) = a_user_json a"
  "expired_streak (reset_peers_if_account_changed ops so u a) = expired_streak a"
  by (simp_all add: reset_peers_if_account_changed_def Let_def)

lemma reset_peers_owner:
  assumes "option_store ops"
  shows "peers_owner ops (reset_peers_if_account_changed ops so u a) = owner_of u"
  using option_store.get_set [OF assms]
  by (simp add: reset_peers_if_account_changed_def peers_owner_def Let_def)

lemma login_cases:
  assumes "login ops js so http dev email password a = (res, a', req)"
  shows "(\<exists>raw body status token user uj. http = Inr raw \<and> parse_wrapper js raw = Some (status, body)
        \<and> status_ok status \<and> parse_token js body = Some (token, user) \<and> user_to_json js user = Some uj
        \<and> res = Inr (LoginSuccess user)
        \<and> a' = reset_peers_if_account_changed ops so user (a\<lparr>a_token := token, a_user_json := uj\<rparr>))
    \<or> (a' = a \<and> \<not> (\<exists>user. res = Inr (LoginSuccess user)))"
proof (cases "fst (post_json ops js http ''/api/auth/token'' (credentials_body email password dev) None (a_config a))")
  case (Inl e)
  with assms show ?thesis
    by (auto simp: login_def case_prod_beta)
next
  case (Inr w)
  then obtain raw where raw: "http = Inr raw" "parse_wrapper js raw = Some w"
    by (auto simp: post_json_def split: sum.splits option.splits)
  obtain status body where w: "w = (status, body)" by (cases w)
  show ?thesis
  proof (cases "status_ok status")
    case True
    with assms Inr w raw show ?thesis
      by (auto simp: login_def case_prod_beta store_def split: option.splits)
  next
    case False
    with assms Inr w show ?thesis
      by (auto simp: login_def case_prod_beta split: option.splits if_splits)
  qed
qed

text \<open>
  A login stores a token exactly when the panel granted one: the reply has a 2xx status
  and a readable token. Then the user is signed in, the records in use are the user's, and
  the failure counter of the heartbeat is what it was. Every other outcome, the seat being
  taken included, leaves the credentials, the options and the records untouched.
\<close>

theorem login_effect:
  assumes "option_store ops" and "login ops js so http dev email password a = (res, a', req)"
  shows "(\<exists>user token uj. res = Inr (LoginSuccess user) \<and> a_token a' = token \<and> a_user_json a' = uj
        \<and> user_to_json js user = Some uj \<and> peers_owner ops a' = owner_of user
        \<and> expired_streak a' = expired_streak a
        \<and> (\<exists>raw status body. http = Inr raw \<and> parse_wrapper js raw = Some (status, body)
              \<and> status_ok status \<and> parse_token js body = Some (token, user)))
    \<or> (a' = a \<and> \<not> (\<exists>user. res = Inr (LoginSuccess user)))"
  using login_cases [OF assms(2)] reset_peers_owner [OF assms(1)] by fastforce

definition sample_json :: auth_json where
  "sample_json = \<lparr>parse_wrapper = (\<lambda>raw. if raw = ''ok'' then Some (200, ''body'') else if raw = ''401'' then Some (401, ''{}'') else None),
     parse_token = (\<lambda>body. Some (''tok'', sample_user ''s'' ''b'')), parse_occupied = (\<lambda>_. None), parse_error = (\<lambda>_. None),
     parse_ok_token = (\<lambda>_. None), parse_revoked = (\<lambda>_. Some False), user_to_json = (\<lambda>_. Some ''{}'')\<rparr>"

lemma sample_login:
  "login fun_store sample_json fine_swap (Inr ''ok'') (''d'', ''l'') ''b'' ''pw'' a =
     (Inr (LoginSuccess (sample_user ''s'' ''b'')),
      reset_peers_if_account_changed fun_store fine_swap (sample_user ''s'' ''b'') (a\<lparr>a_token := ''tok'', a_user_json := ''{}''\<rparr>),
      \<lparr>hp_url = api_base fun_store (a_config a) @ ''/api/auth/token'', hp_bearer = None,
       hp_body = credentials_body ''b'' ''pw'' (''d'', ''l'')\<rparr>)"
  by (simp add: login_def post_json_def sample_json_def store_def)

theorem login_effect_witness:
  "peers_owner fun_store (fst (snd (login fun_store sample_json fine_swap (Inr ''ok'') (''d'', ''l'') ''b'' ''pw'' sample_auth))) = ''s|b''"
  using login_effect [OF fun_store.option_store_axioms sample_login, of sample_auth]
  by (auto simp: sample_login sample_owner)


section \<open>Heartbeats\<close>

text \<open>The replies of the panel as the heartbeat tells them apart.\<close>

datatype hb_reply = ReplyOk | ReplyRevoked | ReplyUnauthorized | ReplyOther

definition classify :: "auth_json \<Rightarrow> string + string \<Rightarrow> hb_reply" where
  "classify js http =
     (case http of
        Inl _ \<Rightarrow> ReplyOther
      | Inr raw \<Rightarrow> (case parse_wrapper js raw of
          None \<Rightarrow> ReplyOther
        | Some (status, body) \<Rightarrow>
            if status_ok status then ReplyOk
            else if status = 401 then (if parse_revoked js body = Some True then ReplyRevoked else ReplyUnauthorized)
            else ReplyOther))"

lemma heartbeat_classified:
  assumes "a_token a \<noteq> []"
  shows "classify js http = ReplyOk \<Longrightarrow>
      fst (heartbeat ops js http v a) = HbOk \<and> expired_streak (snd (heartbeat ops js http v a)) = 0"
    and "classify js http = ReplyRevoked \<Longrightarrow> heartbeat ops js http v a = (HbRevoked, a)"
    and "classify js http = ReplyOther \<Longrightarrow> heartbeat ops js http v a = (HbError, a)"
    and "classify js http = ReplyUnauthorized \<Longrightarrow> heartbeat ops js http v a =
      (if expired_streak a + 1 \<ge> 3 then HbExpired else HbError, a\<lparr>expired_streak := expired_streak a + 1\<rparr>)"
  using assms by (auto simp: classify_def heartbeat_def post_json_def Let_def split: sum.splits option.splits if_splits)

definition hb_run ::
    "'c option_ops \<Rightarrow> auth_json \<Rightarrow> string \<Rightarrow> ('c, 'd) auth \<Rightarrow> (string + string) list \<Rightarrow> ('c, 'd) auth" where
  "hb_run ops js v = run (\<lambda>a http. snd (heartbeat ops js http v a))"

lemma heartbeat_token: "a_token a \<noteq> [] \<Longrightarrow> a_token (snd (heartbeat ops js http v a)) \<noteq> []"
  by (auto simp: heartbeat_def Let_def split: sum.splits option.splits)

lemma hb_run_streak:
  assumes "a_token a \<noteq> []" and "ReplyOk \<notin> classify js ` set hs"
  shows "a_token (hb_run ops js v a hs) \<noteq> []
    \<and> expired_streak (hb_run ops js v a hs) =
        expired_streak a + word_of_nat (length (filter (\<lambda>h. classify js h = ReplyUnauthorized) hs))"
  using assms
proof (induction hs arbitrary: a)
  case (Cons h hs)
  have "expired_streak (snd (heartbeat ops js h v a)) =
      expired_streak a + (if classify js h = ReplyUnauthorized then 1 else 0)"
    using Cons.prems heartbeat_classified [OF Cons.prems(1), of js h ops v] by (cases "classify js h") auto
  then show ?case
    using Cons.IH [of "snd (heartbeat ops js h v a)"] Cons.prems heartbeat_token [of a ops js h v]
    by (auto simp: hb_run_def ac_simps)
qed (simp add: hb_run_def)

text \<open>
  Expiry is decided by a count that only a successful heartbeat resets: after any replies
  without a success, a further 401 that is not a revocation ends the login exactly when at
  least two such replies came before it, however many other failures lie between them.
\<close>

theorem expiry_counts:
  assumes "a_token a \<noteq> []" and "expired_streak a = 0" and "ReplyOk \<notin> classify js ` set hs"
    and "length hs < 2 ^ 31" and "classify js h = ReplyUnauthorized"
  shows "fst (heartbeat ops js h v (hb_run ops js v a hs)) = HbExpired \<longleftrightarrow>
    2 \<le> length (filter (\<lambda>h. classify js h = ReplyUnauthorized) hs)"
proof -
  let ?n = "length (filter (\<lambda>h. classify js h = ReplyUnauthorized) hs)"
  let ?a' = "hb_run ops js v a hs"
  have streak: "a_token ?a' \<noteq> []" "expired_streak ?a' + 1 = word_of_nat (?n + 1)"
    using hb_run_streak [OF assms(1,3), of ops v] assms(2) by simp_all
  have "?n + 1 < 2 ^ 32"
    using assms(4) le_less_trans [OF length_filter_le [of "\<lambda>h. classify js h = ReplyUnauthorized" hs] assms(4)]
    by simp
  then have "unat (word_of_nat (?n + 1) :: 32 word) = ?n + 1"
    by (simp add: unat_of_nat del: of_nat_Suc of_nat_add)
  then have "(3 :: 32 word) \<le> word_of_nat (?n + 1) \<longleftrightarrow> 2 \<le> ?n"
    by (simp add: word_le_nat_alt del: of_nat_Suc of_nat_add)
  then show ?thesis
    using heartbeat_classified(4) [OF streak(1) assms(5), of ops v] streak(2) by simp
qed

theorem expiry_counts_witness:
  "fst (heartbeat fun_store sample_json (Inr ''401'') ''1.0''
      (hb_run fun_store sample_json ''1.0'' (sample_auth\<lparr>a_token := ''tok''\<rparr>) [Inr ''401'', Inl ''timeout'', Inr ''401'', Inl ''timeout''])) = HbExpired"
proof -
  have c: "classify sample_json (Inr ''401'') = ReplyUnauthorized" "classify sample_json (Inl ''timeout'') = ReplyOther"
    by (simp_all add: classify_def sample_json_def)
  show ?thesis
    using expiry_counts [of "sample_auth\<lparr>a_token := ''tok''\<rparr>" sample_json
        "[Inr ''401'', Inl ''timeout'', Inr ''401'', Inl ''timeout'']" "Inr ''401''" fun_store "''1.0''"]
    by (simp add: c) (simp add: sample_auth_def)
qed

text \<open>
  The count survives a new login: when a login follows an expiry, a single 401 that is
  not a revocation declares the fresh token expired.
\<close>

theorem relogin_expires_at_once:
  assumes "login ops js so http dev email password a = (Inr (LoginSuccess user), a1, req)"
    and "expired_streak a = 2 \<or> expired_streak a = 3" and "a_token a1 \<noteq> []"
    and "classify js h = ReplyUnauthorized"
  shows "fst (heartbeat ops js h v a1) = HbExpired"
proof -
  have "expired_streak a1 = expired_streak a"
    using login_cases [OF assms(1)] by auto
  then have "3 \<le> expired_streak a1 + 1"
    using assms(2) by auto
  then show ?thesis
    using heartbeat_classified(4) [OF assms(3,4)] by simp
qed

theorem relogin_expires_at_once_witness:
  "fst (heartbeat fun_store sample_json (Inr ''401'') ''1.0''
      (fst (snd (login fun_store sample_json fine_swap (Inr ''ok'') (''d'', ''l'') ''b'' ''pw''
        (sample_auth\<lparr>expired_streak := 3\<rparr>))))) = HbExpired"
proof -
  have "classify sample_json (Inr ''401'') = ReplyUnauthorized"
    by (simp add: classify_def sample_json_def)
  then show ?thesis
    using relogin_expires_at_once [OF sample_login, of "sample_auth\<lparr>expired_streak := 3\<rparr>" "Inr ''401''" "''1.0''"]
    by (simp add: sample_login)
qed

lemma api_base_no_slash: "api_base ops c = [] \<or> last (api_base ops c) \<noteq> CHR ''/''"
proof -
  have "dropWhile (\<lambda>x. x = CHR ''/'') xs = [] \<or> hd (dropWhile (\<lambda>x. x = CHR ''/'') xs) \<noteq> CHR ''/''" for xs
    by (induction xs) auto
  note this [of "rev (if trim (get_option ops c KEY_API_BASE) = [] then DEFAULT_API_BASE else get_option ops c KEY_API_BASE)"]
  then show ?thesis
    unfolding api_base_def trim_end_matches_def Let_def by (simp only: last_rev rev_is_Nil_conv)
qed

lemma logout_clears:
  "\<not> is_authenticated (fst (logout ops a)) \<and> a_user_json (fst (logout ops a)) = []
    \<and> a_files (fst (logout ops a)) = a_files a \<and> a_config (fst (logout ops a)) = a_config a"
  by (simp add: logout_def is_authenticated_def)

end
