(* ===== verification/Session_Msgs.thy ===== *)
theory Session_Msgs
  imports Login
begin

text \<open>
  What an incoming connection may do once it is authorized: the last branch of
  \<open>on_message\<close> of \<open>src/src/server/connection.rs\<close> with the handlers it calls, and the
  commands of the connection manager that change permissions or report on file jobs. The
  build modelled is the one installed at customers: Windows, Flutter, no Unix file
  clipboard, no plugins.

  The state is the connection of the login with the permissions the host grants, the
  switches the peer sets, and the jobs under way. A handler returns the new state and the
  list of what it does: input it injects, requests to the connection manager, messages to
  the peer, subscriptions. Payloads that no decision depends on are not carried. What the
  system answers is an observation.

  The lemmas show that every effect is covered by a permission the host granted, that no
  message of the peer raises a permission, and what the connection's kind does and does
  not restrict.
\<close>

section \<open>State\<close>

record removed_entry =
  re_id :: int
  re_path :: string

record remove_log =
  rl_instant :: nat
  removed_files :: "removed_entry list"
  removed_dirs :: "removed_entry list"

record peer_conn =
  base :: conn
  p_keyboard :: bool
  p_clipboard :: bool
  p_audio :: bool
  p_file :: bool
  p_restart :: bool
  p_recording :: bool
  p_block_input :: bool
  disable_keyboard :: bool
  disable_clipboard :: bool
  disable_audio :: bool
  enable_file_transfer :: bool
  show_my_cursor :: bool
  cr_annotating :: bool
  show_remote_cursor :: bool
  follow_remote_cursor :: bool
  follow_remote_window :: bool
  multi_ui_session :: bool
  lock_after_session_end :: bool
  display_idx :: nat
  voice_call_request :: "int option"
  voice_calling :: bool
  audio_sender :: bool
  delayed_read_dir :: "(string \<times> bool) option"
  printer_data :: "(nat \<times> string) list"
  cm_read_job_ids :: "int list"
  read_jobs :: "int list"
  terminal_user_token :: bool
  terminal_persistent :: bool
  pressed_modifiers :: "nat list"
  auto_disconnect_timer :: "(nat \<times> nat) option"
  services_subed :: bool
  file_remove_log :: remove_log
  chat_unanswered :: bool
  file_transferred :: bool

datatype bool_option = NotSet | Yes | No

text \<open>The option message; an unknown enumeration value decodes to \<^const>\<open>None\<close>.\<close>

record option_msg =
  om_image_quality :: "int option"     \<comment> \<open>\<open>Some 0\<close> is \<open>NotSet\<close>\<close>
  om_custom_image_quality :: int
  om_custom_fps :: int
  om_supported_decoding :: bool
  om_lock_after_session_end :: "bool_option option"
  om_show_remote_cursor :: "bool_option option"
  om_follow_remote_cursor :: "bool_option option"
  om_follow_remote_window :: "bool_option option"
  om_disable_audio :: "bool_option option"
  om_enable_file_transfer :: "bool_option option"
  om_disable_clipboard :: "bool_option option"
  om_disable_keyboard :: "bool_option option"
  om_privacy_mode :: "bool_option option"
  om_block_input :: "bool_option option"
  om_terminal_persistent :: "bool_option option"
  om_show_my_cursor :: "bool_option option"


section \<open>Messages and effects\<close>

datatype file_action =
    FaReadEmptyDirs string bool
  | FaReadDir string bool
  | FaAllFiles int string bool
  | FaSend int string bool               \<comment> \<open>the job is a printer job\<close>
  | FaReceive int string
  | FaRemoveDir int string bool
  | FaRemoveFile int string
  | FaCreate int string
  | FaCancel int
  | FaSendConfirm int
  | FaRename int string string
  | FaCopy int string string bool
  | FaOther

datatype file_response = FrBlock int | FrDone int | FrDigest int | FrError int | FrOther

datatype annotate_op = AnStop | AnClear | AnDraw

datatype misc_msg =
    SwitchDisplay nat nat nat
  | CaptureDisplays "nat list" "nat list" "nat list"
  | ToggleVirtualDisplay int bool
  | TogglePrivacyMode string bool
  | CrChatPanel bool
  | CrSchedReq sched_req bool
  | ChatMessage string
  | OptionMessage option_msg
  | RefreshVideo bool
  | RefreshVideoDisplay nat
  | VideoReceived
  | RestartRemoteDevice
  | ElevationRequest bool
  | AudioFormat
  | SwitchSidesRequest bool              \<comment> \<open>the bytes are a UUID\<close>
  | ChangeResolution nat nat
  | ChangeDisplayResolution nat nat nat
  | AutoAdjustFps nat
  | ClientRecordStatus bool
  | SelectedSid nat
  | CrAnnotate annotate_op
  | MessageQuery nat
  | MiscOther

datatype peer_msg =
    MouseEvent bool                      \<comment> \<open>the left button goes up\<close>
  | PointerDeviceEvent
  | KeyEvent bool "nat option" bool      \<comment> \<open>press, modifier key, text input\<close>
  | Clipboard
  | MultiClipboards
  | Cliprdr bool bool                    \<comment> \<open>a list of files for the audit; decodable\<close>
  | FileAction file_action
  | FileResponse file_response
  | Misc misc_msg
  | AudioFrame
  | VoiceCallRequest bool int
  | VoiceCallResponse
  | ScreenshotRequest nat
  | TerminalAction
  | OtherMsg

datatype fs_request =
    FsReadEmptyDirs string bool | FsReadDir string bool | FsReadAllFiles int string bool
  | FsReadFile int string | FsNewWrite int string | FsRemoveDir int string bool | FsRemoveFile int string
  | FsCreateDir int string | FsCancelWrite int | FsCancelRead int | FsSendConfirmForRead int | FsSendConfirm int
  | FsRename int string string | FsCopy int string string bool
  | FsWriteBlock int | FsWriteDone int | FsCheckDigest int | FsWriteError int

datatype service_name =
    SvcClipboard | SvcCursor | SvcPos | SvcWindowFocus | SvcAudio | SvcVideo bool nat  \<comment> \<open>camera, index\<close>

datatype effect =
    InputMouse bool bool                 \<comment> \<open>simulate, show the cursor\<close>
  | InputPointer
  | InputKey bool
  | BlockOn
  | BlockOff
  | UpdateClipboard
  | ClipboardFileToCm
  | FsRequest fs_request
  | RemoveLog int string bool            \<comment> \<open>a removal in the transfer log, of a directory\<close>
  | ActionLog string
  | FileAudit bool                       \<comment> \<open>towards the host\<close>
  | ChatToCm string
  | ChatPanelToCm bool
  | SchedReqToCm sched_req
  | SchedClear
  | SchedAck
  | SchedState
  | ClipboardFileEnabled bool
  | VoiceCallIncoming
  | StartVoiceCall
  | CloseVoiceCall
  | VoiceCallAnswer bool
  | SendFile int string                  \<comment> \<open>what of a file job goes to the peer\<close>
  | SendError int string
  | SendNotice string
  | SendPermission string bool
  | Subscribe service_name bool
  | AddService service_name
  | CaptureServices "service_name list" bool bool
  | RefreshDisplay "nat option"
  | TakeScreenshot nat
  | FrameFetched
  | DisplayChangedMsg nat
  | Reboot
  | RestartGrace string
  | Elevate bool
  | StartAudioThread
  | PlayAudio
  | RunSwitchSides
  | SetResolution nat nat nat
  | PlugMonitor int bool
  | PrivacyOn string
  | PrivacyOff
  | QosImageQuality int
  | QosCustomFps int
  | QosAutoAdjustFps nat
  | QosRecord bool
  | UpdateDecoding
  | SwitchUserSession nat
  | SubMonitors "service_name list"    \<comment> \<open>the services left out\<close>
  | SubCameras
  | Whiteboard string
  | HandleTerminal
  | SetTerminalPersistent bool

record msg_env =
  me_now :: nat
  me_one_way_file :: bool
  me_one_way_clipboard :: bool
  me_fs_via_cm :: bool                   \<comment> \<open>\<open>need_fs_cm_send_files\<close>\<close>
  me_read_job :: "string + nat"          \<comment> \<open>what \<open>new_read\<close> answers: an error, or the number of files\<close>
  me_file_limit :: nat
  me_all_files :: "string + nat"
  me_allow_auto_disconnect :: string
  me_auto_disconnect_timeout :: string
  me_server :: bool                      \<comment> \<open>the server still exists\<close>
  me_has_service :: "service_name \<Rightarrow> bool"
  me_primary_display :: nat
  me_multi_ui :: bool                    \<comment> \<open>\<open>is_support_multi_ui_session\<close>\<close>
  me_subbed_displays :: nat
  me_displays :: "nat option"            \<comment> \<open>the number of displays, when they can be listed\<close>
  me_old_peer :: bool                    \<comment> \<open>older than 1.2.4\<close>
  me_installed :: bool
  me_portable_running :: bool
  me_overlay :: bool
  me_win10 :: bool
  me_virtual_display :: bool
  me_plug_ok :: bool
  me_privacy_supported :: bool
  me_privacy_ok :: bool
  me_sids :: "nat option \<times> nat list"    \<comment> \<open>the own session, all sessions\<close>
  me_share_rdp :: bool
  me_conn_count :: nat                   \<comment> \<open>\<open>non_port_forward_conn_count\<close>\<close>


section \<open>Permissions\<close>

definition peer_keyboard_enabled :: "peer_conn \<Rightarrow> bool" where
  "peer_keyboard_enabled p \<longleftrightarrow> p_keyboard p \<and> \<not> disable_keyboard p"

definition clipboard_enabled :: "peer_conn \<Rightarrow> bool" where
  "clipboard_enabled p \<longleftrightarrow> p_clipboard p \<and> \<not> disable_clipboard p"

definition can_sub_clipboard_service :: "msg_env \<Rightarrow> peer_conn \<Rightarrow> bool" where
  "can_sub_clipboard_service env p \<longleftrightarrow>
     clipboard_enabled p \<and> peer_keyboard_enabled p \<and> \<not> me_one_way_clipboard env"

definition audio_enabled :: "peer_conn \<Rightarrow> bool" where
  "audio_enabled p \<longleftrightarrow> p_audio p \<and> \<not> disable_audio p"

definition file_transfer_enabled :: "peer_conn \<Rightarrow> bool" where
  "file_transfer_enabled p \<longleftrightarrow> p_file p \<and> enable_file_transfer p"

definition is_authed_view_camera_conn :: "peer_conn \<Rightarrow> bool" where
  "is_authed_view_camera_conn p \<longleftrightarrow> auth_type (base p) = Some ViewCamera"

definition is_remote :: "peer_conn \<Rightarrow> bool" where
  "is_remote p \<longleftrightarrow> \<not> file_transfer (base p) \<and> \<not> port_forward_socket (base p)
     \<and> \<not> view_camera (base p) \<and> \<not> terminal (base p)"

definition update_auto_disconnect_timer :: "msg_env \<Rightarrow> peer_conn \<Rightarrow> peer_conn" where
  "update_auto_disconnect_timer env p =
     p\<lparr>auto_disconnect_timer := map_option (\<lambda>(_, m). (me_now env, m)) (auto_disconnect_timer p)\<rparr>"

definition get_auto_disconenct_timer :: "msg_env \<Rightarrow> (nat \<times> nat) option" where
  "get_auto_disconenct_timer env =
     (if me_allow_auto_disconnect env = ''Y'' then
        (let minute = (case parse_uint u64_max (me_auto_disconnect_timeout env) of Some m \<Rightarrow> m | None \<Rightarrow> 10)
         in Some (me_now env, if minute = 0 then 10 else minute))
      else None)"

definition via_server :: "msg_env \<Rightarrow> effect list \<Rightarrow> effect list" where
  "via_server env es = (if me_server env then es else [])"

definition subscribe_audio :: "msg_env \<Rightarrow> peer_conn \<Rightarrow> effect list" where
  "subscribe_audio env p =
     via_server env
       (if is_authed_view_camera_conn p
        then (if voice_calling p \<or> \<not> audio_enabled p then [Subscribe SvcAudio (audio_enabled p)] else [])
        else [Subscribe SvcAudio (audio_enabled p)])"

text \<open>The services a remote control connection is subscribed to, less those it may not have.\<close>

definition try_sub_monitor_services :: "msg_env \<Rightarrow> peer_conn \<Rightarrow> peer_conn \<times> effect list" where
  "try_sub_monitor_services env p =
     (if is_remote p \<and> \<not> services_subed p then
        (let p1 = p\<lparr>services_subed := True\<rparr>
         in if \<not> me_server env then (p1, [])
            else (p1\<lparr>auto_disconnect_timer := get_auto_disconenct_timer env\<rparr>,
                  [SubMonitors
                    ((if \<not> peer_keyboard_enabled p \<and> \<not> show_remote_cursor p then [SvcCursor] else [])
                     @ (if \<not> show_remote_cursor p then [SvcPos] else [])
                     @ (if \<not> follow_remote_window p then [SvcWindowFocus] else [])
                     @ (if \<not> can_sub_clipboard_service env p then [SvcClipboard] else [])
                     @ (if \<not> audio_enabled p then [SvcAudio] else []))]))
      else (p, []))"

text \<open>The host switches a permission in the connection manager.\<close>

definition switch_permission :: "msg_env \<Rightarrow> string \<Rightarrow> bool \<Rightarrow> peer_conn \<Rightarrow> peer_conn \<times> effect list" where
  "switch_permission env name enabled p =
     (if name = ''keyboard'' then
        (let p1 = p\<lparr>p_keyboard := enabled\<rparr>
         in (p1, SendPermission name enabled # via_server env
               [Subscribe SvcClipboard (can_sub_clipboard_service env p1),
                Subscribe SvcCursor (enabled \<or> show_remote_cursor p1)]))
      else if name = ''clipboard'' then
        (let p1 = p\<lparr>p_clipboard := enabled\<rparr>
         in (p1, SendPermission name enabled # via_server env [Subscribe SvcClipboard (can_sub_clipboard_service env p1)]))
      else if name = ''audio'' then
        (let p1 = p\<lparr>p_audio := enabled\<rparr>
         in (p1, SendPermission name enabled # (if authorized (base p1) then subscribe_audio env p1 else [])))
      else if name = ''file'' then (p\<lparr>p_file := enabled\<rparr>, [SendPermission name enabled])
      else if name = ''restart'' then (p\<lparr>p_restart := enabled\<rparr>, [SendPermission name enabled])
      else if name = ''recording'' then (p\<lparr>p_recording := enabled\<rparr>, [SendPermission name enabled])
      else if name = ''block_input'' then (p\<lparr>p_block_input := enabled\<rparr>, [SendPermission name enabled])
      else (p, []))"


section \<open>The log of removals\<close>

text \<open>
  A Windows path as its components: the drive, whether it has a root, and the names. Empty
  names and inner dots do not count; network and verbatim prefixes are not told apart from
  names.
\<close>

definition is_sep :: "char \<Rightarrow> bool" where
  "is_sep c \<longleftrightarrow> c = CHR ''/'' \<or> c = CHR 0x5C"

fun split_seps :: "string \<Rightarrow> string list" where
  "split_seps [] = [[]]"
| "split_seps (c # s) =
     (if is_sep c then [] # split_seps s
      else (case split_seps s of [] \<Rightarrow> [[c]] | w # ws \<Rightarrow> (c # w) # ws))"

definition split_drive :: "string \<Rightarrow> string \<times> string" where
  "split_drive s = (if 2 \<le> length s \<and> s ! 1 = CHR '':'' then (take 2 s, drop 2 s) else ([], s))"

definition path_comps :: "string \<Rightarrow> string \<times> bool \<times> string list" where
  "path_comps s =
     (let (drive, rest) = split_drive s;
          root = (rest \<noteq> [] \<and> is_sep (hd rest));
          names = filter (\<lambda>w. w \<noteq> []) (split_seps rest)
      in (drive, root,
          if \<not> root \<and> drive = [] \<and> names \<noteq> [] \<and> hd names = ''.''
          then hd names # filter (\<lambda>w. w \<noteq> ''.'') (tl names)
          else filter (\<lambda>w. w \<noteq> ''.'') names))"

definition path_parent :: "string \<times> bool \<times> string list \<Rightarrow> (string \<times> bool \<times> string list) option" where
  "path_parent = (\<lambda>(drive, root, names). if names = [] then None else Some (drive, root, butlast names))"

definition direct_child :: "string \<Rightarrow> string \<Rightarrow> bool" where
  "direct_child parent child \<longleftrightarrow> path_parent (path_comps child) = Some (path_comps parent)"

definition on_remove_file :: "nat \<Rightarrow> removed_entry \<Rightarrow> remove_log \<Rightarrow> remove_log" where
  "on_remove_file now f l = l\<lparr>rl_instant := now, removed_files := removed_files l @ [f]\<rparr>"

definition on_remove_dir :: "nat \<Rightarrow> removed_entry \<Rightarrow> remove_log \<Rightarrow> remove_log" where
  "on_remove_dir now d l =
     (let files = filter (\<lambda>f. \<not> direct_child (re_path f) (re_path d)) (removed_files l);
          dirs = filter (\<lambda>x. \<not> direct_child (re_path d) (re_path x)) (removed_dirs l)
      in l\<lparr>rl_instant := now, removed_files := files,
           removed_dirs := (if list_ex (\<lambda>x. direct_child (re_path x) (re_path d)) dirs then dirs else dirs @ [d])\<rparr>)"

definition on_timer :: "nat \<Rightarrow> remove_log \<Rightarrow> remove_log \<times> effect list" where
  "on_timer now l =
     (if now - rl_instant l < 1000 then (l, [])
      else (l\<lparr>removed_files := [], removed_dirs := []\<rparr>,
            map (\<lambda>f. RemoveLog (re_id f) (re_path f) False) (removed_files l)
            @ map (\<lambda>d. RemoveLog (re_id d) (re_path d) True) (removed_dirs l)))"


section \<open>Input\<close>

definition on_mouse :: "msg_env \<Rightarrow> bool \<Rightarrow> peer_conn \<Rightarrow> peer_conn \<times> effect list" where
  "on_mouse env left_up p =
     (if is_authed_view_camera_conn p then (p, [])
      else (update_auto_disconnect_timer env p,
            if peer_keyboard_enabled p then [InputMouse True (show_my_cursor p)]
            else if show_my_cursor p then [InputMouse False True] else []))"

definition on_pointer :: "msg_env \<Rightarrow> peer_conn \<Rightarrow> peer_conn \<times> effect list" where
  "on_pointer env p =
     (if is_authed_view_camera_conn p then (p, [])
      else (update_auto_disconnect_timer env p, if peer_keyboard_enabled p then [InputPointer] else []))"

definition on_key :: "msg_env \<Rightarrow> bool \<Rightarrow> nat option \<Rightarrow> bool \<Rightarrow> peer_conn \<Rightarrow> peer_conn \<times> effect list" where
  "on_key env press modifier is_text p =
     (if is_authed_view_camera_conn p then (p, [])
      else if peer_keyboard_enabled p then
        (let p1 = (case modifier of
                     None \<Rightarrow> p
                   | Some k \<Rightarrow> p\<lparr>pressed_modifiers :=
                       (if press then List.insert k (pressed_modifiers p) else removeAll k (pressed_modifiers p))\<rparr>)
         in (update_auto_disconnect_timer env p1, [InputKey (press \<and> \<not> is_text)]))
      else (update_auto_disconnect_timer env p, []))"

definition on_cliprdr :: "bool \<Rightarrow> bool \<Rightarrow> effect list" where
  "on_cliprdr is_files decodable = (if is_files then [FileAudit True] else if decodable then [ClipboardFileToCm] else [])"


section \<open>Files\<close>

definition job_of_one_way :: "file_action \<Rightarrow> int option" where
  "job_of_one_way fa =
     (case fa of
        FaSend i _ _ \<Rightarrow> Some i
      | FaRemoveFile i _ \<Rightarrow> Some i
      | FaRename i _ _ \<Rightarrow> Some i
      | FaCreate i _ \<Rightarrow> Some i
      | FaRemoveDir i _ _ \<Rightarrow> Some i
      | FaCopy i _ _ _ \<Rightarrow> Some i
      | _ \<Rightarrow> None)"

definition process_new_read_job :: "int \<Rightarrow> string \<Rightarrow> peer_conn \<Rightarrow> peer_conn \<times> effect list" where
  "process_new_read_job i path p = (p\<lparr>read_jobs := read_jobs p @ [i]\<rparr>, [SendFile i path, FileAudit False])"

definition create_and_start_read_job :: "msg_env \<Rightarrow> int \<Rightarrow> string \<Rightarrow> bool \<Rightarrow> peer_conn \<Rightarrow> peer_conn \<times> effect list" where
  "create_and_start_read_job env i path check_limit p =
     (case me_read_job env of
        Inl err \<Rightarrow> (p, [SendError i err])
      | Inr n \<Rightarrow>
          if check_limit \<and> n > me_file_limit env then (p, [SendError i ''too many files''])
          else process_new_read_job i path p)"

fun take_printer_data :: "string \<Rightarrow> (nat \<times> string) list \<Rightarrow> (nat \<times> string) list option" where
  "take_printer_data path [] = None"
| "take_printer_data path ((t, q) # ds) =
     (if q = path then Some ds else map_option (Cons (t, q)) (take_printer_data path ds))"

definition on_fa_send :: "msg_env \<Rightarrow> int \<Rightarrow> string \<Rightarrow> bool \<Rightarrow> peer_conn \<Rightarrow> peer_conn \<times> effect list" where
  "on_fa_send env i path is_printer p =
     (if is_printer then
        (case take_printer_data path (printer_data p) of
           None \<Rightarrow> (p, [])
         | Some ds \<Rightarrow>
             (let (p1, es) = create_and_start_read_job env i path False (p\<lparr>printer_data := ds\<rparr>)
              in (p1\<lparr>file_transferred := True\<rparr>, es)))
      else if me_fs_via_cm env then
        (p\<lparr>cm_read_job_ids := List.insert i (cm_read_job_ids p), file_transferred := True\<rparr>, [FsRequest (FsReadFile i path)])
      else (let (p1, es) = create_and_start_read_job env i path True p in (p1\<lparr>file_transferred := True\<rparr>, es)))"

definition run_file_action :: "msg_env \<Rightarrow> file_action \<Rightarrow> peer_conn \<Rightarrow> peer_conn \<times> effect list" where
  "run_file_action env fa p =
     (case fa of
        FaReadEmptyDirs path hid \<Rightarrow> (p, [FsRequest (FsReadEmptyDirs path hid)])
      | FaReadDir path hid \<Rightarrow> (p, [FsRequest (FsReadDir path hid)])
      | FaAllFiles i path hid \<Rightarrow>
          (p, if me_fs_via_cm env then [FsRequest (FsReadAllFiles i path hid)]
              else case me_all_files env of
                     Inl err \<Rightarrow> [SendError i err]
                   | Inr n \<Rightarrow> if n > me_file_limit env then [SendError i ''too many files''] else [SendFile i path])
      | FaSend i path is_printer \<Rightarrow> on_fa_send env i path is_printer p
      | FaReceive i path \<Rightarrow> (p\<lparr>file_transferred := True\<rparr>, [FsRequest (FsNewWrite i path), FileAudit True])
      | FaRemoveDir i path rec \<Rightarrow>
          (p\<lparr>file_remove_log := on_remove_dir (me_now env) \<lparr>re_id = i, re_path = path\<rparr> (file_remove_log p)\<rparr>,
           [FsRequest (FsRemoveDir i path rec)])
      | FaRemoveFile i path \<Rightarrow>
          (p\<lparr>file_remove_log := on_remove_file (me_now env) \<lparr>re_id = i, re_path = path\<rparr> (file_remove_log p)\<rparr>,
           [FsRequest (FsRemoveFile i path)])
      | FaCreate i path \<Rightarrow> (p, [FsRequest (FsCreateDir i path), ActionLog ''create_dir''])
      | FaCancel i \<Rightarrow>
          (p\<lparr>cm_read_job_ids := removeAll i (cm_read_job_ids p), read_jobs := removeAll i (read_jobs p)\<rparr>,
           [FsRequest (FsCancelWrite i), FsRequest (FsCancelRead i)]
           @ (if i \<in> set (read_jobs p) then [ActionLog ''transfer''] else []))
      | FaSendConfirm i \<Rightarrow>
          (p, if i \<in> set (read_jobs p) then []
              else if i \<in> set (cm_read_job_ids p) then [FsRequest (FsSendConfirmForRead i)]
              else [FsRequest (FsSendConfirm i)])
      | FaRename i path new_name \<Rightarrow> (p, [FsRequest (FsRename i path new_name), ActionLog ''rename''])
      | FaCopy i src dst is_move \<Rightarrow> (p, [FsRequest (FsCopy i src dst is_move), ActionLog ''copy''])
      | FaOther \<Rightarrow> (p, []))"

definition on_file_action :: "msg_env \<Rightarrow> file_action \<Rightarrow> peer_conn \<Rightarrow> peer_conn \<times> effect list" where
  "on_file_action env fa p =
     (let handle_fa = (file_transfer (base p) \<or> (case fa of FaSend _ _ is_printer \<Rightarrow> is_printer | _ \<Rightarrow> False))
      in if \<not> handle_fa then (p, [])
         else if delayed_read_dir p \<noteq> None then
           (case fa of FaReadDir path hid \<Rightarrow> (p\<lparr>delayed_read_dir := Some (path, hid)\<rparr>, []) | _ \<Rightarrow> (p, []))
         else case (if me_one_way_file env then job_of_one_way fa else None) of
           Some i \<Rightarrow> (p, [SendError i ''one-way-file-transfer-tip''])
         | None \<Rightarrow> run_file_action env fa p)"

definition on_file_response :: "file_response \<Rightarrow> effect list" where
  "on_file_response fr =
     (case fr of
        FrBlock i \<Rightarrow> [FsRequest (FsWriteBlock i)]
      | FrDone i \<Rightarrow> [FsRequest (FsWriteDone i)]
      | FrDigest i \<Rightarrow> [FsRequest (FsCheckDigest i)]
      | FrError i \<Rightarrow> [FsRequest (FsWriteError i)]
      | FrOther \<Rightarrow> [])"

text \<open>What the connection manager reports on a read job it runs for this connection.\<close>

datatype cm_report =
    CmReadInit int "string + bool"       \<comment> \<open>an error, or whether the listing decodes\<close>
  | CmBlock int
  | CmReadDone int
  | CmReadError int string
  | CmDigest int
  | CmAllFiles int "string + bool"

definition on_cm_report :: "cm_report \<Rightarrow> peer_conn \<Rightarrow> peer_conn \<times> effect list" where
  "on_cm_report r p =
     (case r of
        CmReadInit i res \<Rightarrow>
          if i \<notin> set (cm_read_job_ids p) then (p, [])
          else (case res of
                  Inl err \<Rightarrow> (p\<lparr>cm_read_job_ids := removeAll i (cm_read_job_ids p)\<rparr>, [SendError i err])
                | Inr decodes \<Rightarrow>
                    if \<not> decodes
                    then (p\<lparr>cm_read_job_ids := removeAll i (cm_read_job_ids p)\<rparr>, [SendError i ''internal error''])
                    else (p\<lparr>file_transferred := True\<rparr>, [SendFile i ''dir'', FileAudit False]))
      | CmBlock i \<Rightarrow> (p, if i \<in> set (cm_read_job_ids p) then [SendFile i ''block''] else [])
      | CmReadDone i \<Rightarrow>
          if i \<in> set (cm_read_job_ids p)
          then (p\<lparr>cm_read_job_ids := removeAll i (cm_read_job_ids p)\<rparr>, [SendFile i ''done'']) else (p, [])
      | CmReadError i err \<Rightarrow>
          if i \<in> set (cm_read_job_ids p)
          then (p\<lparr>cm_read_job_ids := removeAll i (cm_read_job_ids p)\<rparr>, [SendError i err]) else (p, [])
      | CmDigest i \<Rightarrow> (p, if i \<in> set (cm_read_job_ids p) then [SendFile i ''digest''] else [])
      | CmAllFiles i res \<Rightarrow>
          (p, case res of
                Inl err \<Rightarrow> [SendError i err]
              | Inr decodes \<Rightarrow> if decodes then [SendFile i ''dir''] else [SendError i ''deserialize failed'']))"


section \<open>Voice calls and privacy mode\<close>

definition handle_voice_call :: "msg_env \<Rightarrow> bool \<Rightarrow> peer_conn \<Rightarrow> peer_conn \<times> effect list" where
  "handle_voice_call env accepted p =
     (case voice_call_request p of
        None \<Rightarrow> (p, [])
      | Some _ \<Rightarrow>
          (let p1 = p\<lparr>voice_call_request := None, voice_calling := accepted\<rparr>
           in (p1, [if accepted then StartVoiceCall else CloseVoiceCall, VoiceCallAnswer accepted]
                 @ (if is_authed_view_camera_conn p1
                    then via_server env [Subscribe SvcAudio (audio_enabled p1 \<and> accepted)] else []))))"

definition close_voice_call :: "msg_env \<Rightarrow> peer_conn \<Rightarrow> peer_conn \<times> effect list" where
  "close_voice_call env p =
     (p\<lparr>voice_calling := False\<rparr>,
      CloseVoiceCall # (if is_authed_view_camera_conn p then via_server env [Subscribe SvcAudio False] else []))"

definition turn_on_privacy :: "msg_env \<Rightarrow> string \<Rightarrow> effect list" where
  "turn_on_privacy env impl_key =
     (if \<not> me_privacy_supported env then [SendNotice ''PrvNotSupported'']
      else [PrivacyOn impl_key, SendNotice (if me_privacy_ok env then ''PrvOnSucceeded'' else ''PrvOnFailed'')])"

definition turn_off_privacy :: "msg_env \<Rightarrow> effect list" where
  "turn_off_privacy env =
     (if \<not> me_privacy_supported env then [SendNotice ''PrvNotSupported'']
      else [PrivacyOff, SendNotice (if me_privacy_ok env then ''PrvOffSucceeded'' else ''PrvOffFailed'')])"


section \<open>Options the peer sets\<close>

definition set_yes :: "bool_option option \<Rightarrow> (bool \<Rightarrow> peer_conn \<Rightarrow> peer_conn \<times> effect list) \<Rightarrow> peer_conn \<Rightarrow> peer_conn \<times> effect list" where
  "set_yes q f p = (case q of None \<Rightarrow> (p, []) | Some NotSet \<Rightarrow> (p, []) | Some Yes \<Rightarrow> f True p | Some No \<Rightarrow> f False p)"

definition and_then ::
    "(peer_conn \<Rightarrow> peer_conn \<times> effect list) \<Rightarrow> (peer_conn \<Rightarrow> peer_conn \<times> effect list) \<Rightarrow> peer_conn \<Rightarrow> peer_conn \<times> effect list" where
  "and_then f g p = (let (p1, e1) = f p; (p2, e2) = g p1 in (p2, e1 @ e2))"

definition opt_quality :: "option_msg \<Rightarrow> peer_conn \<Rightarrow> peer_conn \<times> effect list" where
  "opt_quality o_msg p =
     (p, (case om_image_quality o_msg of
            None \<Rightarrow> []
          | Some q \<Rightarrow>
              (let image_quality = (if q = 0 then (if om_custom_image_quality o_msg > 0 then om_custom_image_quality o_msg else - 1) else q)
               in if image_quality > 0 then [QosImageQuality image_quality] else []))
         @ (if om_custom_fps o_msg > 0 then [QosCustomFps (om_custom_fps o_msg)] else [])
         @ (if om_supported_decoding o_msg then [UpdateDecoding] else []))"

definition opt_cursor :: "msg_env \<Rightarrow> bool \<Rightarrow> peer_conn \<Rightarrow> peer_conn \<times> effect list" where
  "opt_cursor env v p =
     (let p1 = p\<lparr>show_remote_cursor := v\<rparr>
      in (p1, via_server env [Subscribe SvcCursor (peer_keyboard_enabled p1 \<or> v), Subscribe SvcPos v]))"

definition opt_window :: "msg_env \<Rightarrow> bool \<Rightarrow> peer_conn \<Rightarrow> peer_conn \<times> effect list" where
  "opt_window env v p = (p\<lparr>follow_remote_window := v\<rparr>, via_server env [Subscribe SvcWindowFocus v])"

definition opt_audio :: "msg_env \<Rightarrow> bool \<Rightarrow> peer_conn \<Rightarrow> peer_conn \<times> effect list" where
  "opt_audio env v p = (let p1 = p\<lparr>disable_audio := v\<rparr> in (p1, subscribe_audio env p1))"

definition opt_file :: "bool \<Rightarrow> peer_conn \<Rightarrow> peer_conn \<times> effect list" where
  "opt_file v p = (let p1 = p\<lparr>enable_file_transfer := v\<rparr> in (p1, [ClipboardFileEnabled (file_transfer_enabled p1)]))"

definition opt_clipboard :: "msg_env \<Rightarrow> bool \<Rightarrow> peer_conn \<Rightarrow> peer_conn \<times> effect list" where
  "opt_clipboard env v p =
     (let p1 = p\<lparr>disable_clipboard := v\<rparr>
      in (p1, via_server env [Subscribe SvcClipboard (can_sub_clipboard_service env p1)]))"

definition opt_keyboard :: "msg_env \<Rightarrow> bool \<Rightarrow> peer_conn \<Rightarrow> peer_conn \<times> effect list" where
  "opt_keyboard env v p =
     (let p1 = p\<lparr>disable_keyboard := v\<rparr>
      in (p1, via_server env [Subscribe SvcClipboard (can_sub_clipboard_service env p1),
                              Subscribe SvcCursor (peer_keyboard_enabled p1 \<or> show_remote_cursor p1)]))"

definition opt_privacy :: "msg_env \<Rightarrow> option_msg \<Rightarrow> peer_conn \<Rightarrow> peer_conn \<times> effect list" where
  "opt_privacy env o_msg p =
     (if me_old_peer env then
        set_yes (om_privacy_mode o_msg)
          (\<lambda>v p. (p, if p_keyboard p then (if v then turn_on_privacy env [] else turn_off_privacy env) else [])) p
      else (p, []))"

definition opt_block_input :: "bool \<Rightarrow> peer_conn \<Rightarrow> peer_conn \<times> effect list" where
  "opt_block_input v p =
     (p, if p_keyboard p \<and> p_block_input p then [if v then BlockOn else BlockOff]
         else [SendNotice (if v then ''BlkOnFailed'' else ''BlkOffFailed'')])"

definition opt_my_cursor :: "msg_env \<Rightarrow> bool \<Rightarrow> peer_conn \<Rightarrow> peer_conn \<times> effect list" where
  "opt_my_cursor env v p =
     (p\<lparr>show_my_cursor := v\<rparr>,
      if me_win10 env then [Whiteboard (if v then ''register'' else ''unregister'')]
      else if v then [SendNotice ''Windows 10 or greater is required.''] else [])"

definition update_options :: "msg_env \<Rightarrow> option_msg \<Rightarrow> peer_conn \<Rightarrow> peer_conn \<times> effect list" where
  "update_options env o_msg =
     and_then (opt_quality o_msg)
     (and_then (set_yes (om_lock_after_session_end o_msg) (\<lambda>v p. (p\<lparr>lock_after_session_end := v\<rparr>, [])))
     (and_then (set_yes (om_show_remote_cursor o_msg) (opt_cursor env))
     (and_then (set_yes (om_follow_remote_cursor o_msg) (\<lambda>v p. (p\<lparr>follow_remote_cursor := v\<rparr>, [])))
     (and_then (set_yes (om_follow_remote_window o_msg) (opt_window env))
     (and_then (set_yes (om_disable_audio o_msg) (opt_audio env))
     (and_then (set_yes (om_enable_file_transfer o_msg) opt_file)
     (and_then (set_yes (om_disable_clipboard o_msg) (opt_clipboard env))
     (and_then (set_yes (om_disable_keyboard o_msg) (opt_keyboard env))
     (and_then (opt_privacy env o_msg)
     (and_then (set_yes (om_block_input o_msg) opt_block_input)
     (and_then (set_yes (om_terminal_persistent o_msg)
        (\<lambda>v p. (p\<lparr>terminal_persistent := v\<rparr>, [SetTerminalPersistent v])))
     (set_yes (om_show_my_cursor o_msg) (opt_my_cursor env)))))))))))))"


section \<open>Displays\<close>

definition change_resolution :: "msg_env \<Rightarrow> nat option \<Rightarrow> nat \<Rightarrow> nat \<Rightarrow> peer_conn \<Rightarrow> effect list" where
  "change_resolution env d w h p =
     (if p_keyboard p then
        (case me_displays env of
           None \<Rightarrow> []
         | Some n \<Rightarrow>
             (let idx = (case d of Some i \<Rightarrow> i | None \<Rightarrow> display_idx p)
              in if idx < n then [SetResolution idx w h] else []))
      else [])"

definition switch_display_to :: "msg_env \<Rightarrow> nat \<Rightarrow> peer_conn \<Rightarrow> peer_conn \<times> effect list" where
  "switch_display_to env idx p =
     (let new_svc = SvcVideo (view_camera (base p)) idx; old_svc = SvcVideo (view_camera (base p)) (display_idx p)
      in (p\<lparr>display_idx := idx\<rparr>,
          (if idx \<noteq> me_primary_display env \<and> \<not> me_has_service env new_svc then [AddService new_svc] else [])
          @ (if \<not> me_multi_ui env then [Subscribe old_svc False] else [])
          @ [Subscribe new_svc True]))"

definition handle_switch_display :: "msg_env \<Rightarrow> nat \<Rightarrow> nat \<Rightarrow> nat \<Rightarrow> peer_conn \<Rightarrow> peer_conn \<times> effect list" where
  "handle_switch_display env idx w h p =
     (if display_idx p = idx then (p, [])
      else
        let (p1, e1) = (if me_server env then
                          (let (p1, e) = switch_display_to env idx p
                           in (p1, e @ (if w \<noteq> 0 \<and> h \<noteq> 0 then change_resolution env None w h p1 else [])))
                        else (p, []))
        in (p1, e1 @ [DisplayChangedMsg (display_idx p1)]))"

definition capture_displays :: "msg_env \<Rightarrow> nat list \<Rightarrow> nat list \<Rightarrow> nat list \<Rightarrow> peer_conn \<Rightarrow> peer_conn \<times> effect list" where
  "capture_displays env adds subs sets p =
     (if \<not> me_server env then (p, [])
      else
        let svc = SvcVideo (view_camera (base p));
            created = map AddService (filter (\<lambda>s. \<not> me_has_service env s) (map svc (adds @ sets)));
            capture = (if adds \<noteq> [] then CaptureServices (map svc adds) True False
                       else if subs \<noteq> [] then CaptureServices (map svc subs) False True
                       else CaptureServices (map svc sets) True True);
            p1 = p\<lparr>multi_ui_session := me_subbed_displays env > 1\<rparr>
        in (p1, created @ [capture]
              @ (if follow_remote_window p1 then [Subscribe SvcWindowFocus (\<not> multi_ui_session p1)] else [])))"

definition toggle_virtual_display :: "msg_env \<Rightarrow> int \<Rightarrow> bool \<Rightarrow> effect list" where
  "toggle_virtual_display env d on =
     (if on then
        (if \<not> me_virtual_display env then [SendNotice ''idd_not_support_under_win10_2004_tip'']
         else PlugMonitor d True # (if me_plug_ok env then [] else [SendNotice ''Failed to plug in virtual display'']))
      else PlugMonitor d False # (if me_plug_ok env then [] else [SendNotice ''Failed to plug out virtual displays'']))"

definition handle_elevation_request :: "msg_env \<Rightarrow> bool \<Rightarrow> peer_conn \<Rightarrow> peer_conn \<times> effect list" where
  "handle_elevation_request env direct p =
     (update_auto_disconnect_timer env p,
      if \<not> p_keyboard p then [SendNotice ''No permission'']
      else if \<not> me_installed env \<and> \<not> me_portable_running env then [Elevate direct, SendNotice ''elevation'']
      else [SendNotice ''No need to elevate''])"

definition on_annotate :: "msg_env \<Rightarrow> annotate_op \<Rightarrow> peer_conn \<Rightarrow> peer_conn \<times> effect list" where
  "on_annotate env op p =
     (case op of
        AnStop \<Rightarrow>
          if cr_annotating p
          then (p\<lparr>cr_annotating := False\<rparr>,
                Whiteboard ''clear'' # (if \<not> show_my_cursor p then [Whiteboard ''unregister''] else []))
          else (p, [])
      | AnClear \<Rightarrow> (p, [Whiteboard ''clear''])
      | AnDraw \<Rightarrow>
          (let (p1, e1) = (if cr_annotating p then (p, [])
                           else if me_overlay env then (p\<lparr>cr_annotating := True\<rparr>, [Whiteboard ''register''])
                           else (p, [SendNotice ''no overlay'']))
           in (p1, e1 @ (if cr_annotating p1 then [Whiteboard ''mark''] else []))))"

text \<open>The result of a choice of user session is \<^const>\<open>None\<close> when the connection ends.\<close>

definition on_selected_sid :: "msg_env \<Rightarrow> nat \<Rightarrow> peer_conn \<Rightarrow> (peer_conn \<times> effect list) \<times> bool" where
  "on_selected_sid env sid p =
     (case fst (me_sids env) of
        None \<Rightarrow> ((p, []), True)
      | Some own \<Rightarrow>
          if me_installed env \<and> me_share_rdp env \<and> me_conn_count env = 1 \<and> length (snd (me_sids env)) > 1
             \<and> own \<noteq> sid \<and> sid \<in> set (snd (me_sids env))
          then ((p, [SwitchUserSession sid]), False)
          else if file_transfer (base p) then
            (case delayed_read_dir p of
               Some (dir, hid) \<Rightarrow> ((p\<lparr>delayed_read_dir := None\<rparr>, [FsRequest (FsReadDir dir hid)]), True)
             | None \<Rightarrow> ((p, []), True))
          else if view_camera (base p) then ((p, [SubCameras]), True)
          else if \<not> terminal (base p) then (try_sub_monitor_services env p, True)
          else ((p, []), True))"


section \<open>The dispatcher\<close>

abbreviation continue :: "peer_conn \<times> effect list \<Rightarrow> (peer_conn \<times> effect list) \<times> bool" where
  "continue r \<equiv> (r, True)"

definition on_misc :: "msg_env \<Rightarrow> misc_msg \<Rightarrow> peer_conn \<Rightarrow> (peer_conn \<times> effect list) \<times> bool" where
  "on_misc env m p =
     (case m of
        SwitchDisplay idx w h \<Rightarrow> continue (handle_switch_display env idx w h p)
      | CaptureDisplays adds subs sets \<Rightarrow> continue (capture_displays env adds subs sets p)
      | ToggleVirtualDisplay d on \<Rightarrow> continue (p, toggle_virtual_display env d on)
      | TogglePrivacyMode key on \<Rightarrow> continue (p, if on then turn_on_privacy env key else turn_off_privacy env)
      | CrChatPanel opn \<Rightarrow> continue (p, [ChatPanelToCm opn])
      | CrSchedReq r close \<Rightarrow>
          continue (p, if close then [SchedClear, SchedState] else [SchedReqToCm r, SchedAck])
      | ChatMessage t \<Rightarrow>
          continue (update_auto_disconnect_timer env (p\<lparr>chat_unanswered := True\<rparr>), [ChatToCm t])
      | OptionMessage o_msg \<Rightarrow> continue (update_options env o_msg p)
      | RefreshVideo r \<Rightarrow> continue (update_auto_disconnect_timer env p, if r then [RefreshDisplay None] else [])
      | RefreshVideoDisplay d \<Rightarrow> continue (update_auto_disconnect_timer env p, [RefreshDisplay (Some d)])
      | VideoReceived \<Rightarrow> continue (p, [FrameFetched])
      | RestartRemoteDevice \<Rightarrow>
          continue (p, if p_restart p then [RestartGrace (lr_my_id (conn_lr (base p))), Reboot] else [])
      | ElevationRequest direct \<Rightarrow> continue (handle_elevation_request env direct p)
      | AudioFormat \<Rightarrow>
          continue (if \<not> disable_audio p then (p\<lparr>audio_sender := True\<rparr>, [StartAudioThread]) else (p, []))
      | SwitchSidesRequest valid \<Rightarrow> if valid then ((p, [RunSwitchSides]), False) else continue (p, [])
      | ChangeResolution w h \<Rightarrow> continue (p, change_resolution env None w h p)
      | ChangeDisplayResolution d w h \<Rightarrow> continue (p, change_resolution env (Some d) w h p)
      | AutoAdjustFps fps \<Rightarrow> continue (p, [QosAutoAdjustFps fps])
      | ClientRecordStatus st \<Rightarrow> continue (p, [QosRecord st])
      | SelectedSid sid \<Rightarrow> on_selected_sid env sid p
      | CrAnnotate op \<Rightarrow> continue (on_annotate env op p)
      | MessageQuery d \<Rightarrow> continue (p, [DisplayChangedMsg d])
      | MiscOther \<Rightarrow> continue (p, []))"

definition on_voice_call_request :: "msg_env \<Rightarrow> bool \<Rightarrow> int \<Rightarrow> peer_conn \<Rightarrow> peer_conn \<times> effect list" where
  "on_voice_call_request env is_connect ts p =
     (if is_connect
      then (p\<lparr>voice_call_request := Some (if ts \<noteq> 0 then ts else int (me_now env))\<rparr>, [VoiceCallIncoming])
      else close_voice_call env p)"

definition on_authorized_message :: "msg_env \<Rightarrow> peer_msg \<Rightarrow> peer_conn \<Rightarrow> (peer_conn \<times> effect list) \<times> bool" where
  "on_authorized_message env m p =
     (if \<not> authorized (base p) then continue (p, [])
      else if port_forward_socket (base p) then continue (p, [])
      else case m of
        MouseEvent left_up \<Rightarrow> continue (on_mouse env left_up p)
      | PointerDeviceEvent \<Rightarrow> continue (on_pointer env p)
      | KeyEvent press modifier is_text \<Rightarrow> continue (on_key env press modifier is_text p)
      | Clipboard \<Rightarrow> continue (p, if p_clipboard p then [UpdateClipboard] else [])
      | MultiClipboards \<Rightarrow> continue (p, if p_clipboard p then [UpdateClipboard] else [])
      | Cliprdr is_files decodable \<Rightarrow> continue (p, on_cliprdr is_files decodable)
      | FileAction fa \<Rightarrow> continue (on_file_action env fa p)
      | FileResponse fr \<Rightarrow> continue (p, on_file_response fr)
      | Misc mm \<Rightarrow> on_misc env mm p
      | AudioFrame \<Rightarrow> continue (p, if \<not> disable_audio p \<and> audio_sender p then [PlayAudio] else [])
      | VoiceCallRequest is_connect ts \<Rightarrow> continue (on_voice_call_request env is_connect ts p)
      | VoiceCallResponse \<Rightarrow> continue (p, [])
      | ScreenshotRequest d \<Rightarrow> continue (p, [TakeScreenshot d, RefreshDisplay (Some d)])
      | TerminalAction \<Rightarrow> continue (p, if terminal_user_token p then [HandleTerminal] else [])
      | OtherMsg \<Rightarrow> continue (p, []))"


section \<open>Every effect is covered by a permission\<close>

named_theorems guarded "handlers whose effects are covered by the host's permissions"

text \<open>What the host granted: its switches, the kind of the connection, the shell token.\<close>

definition host_grants :: "peer_conn \<Rightarrow> conn \<times> bool list" where
  "host_grants p = (base p, [p_keyboard p, p_clipboard p, p_audio p, p_file p, p_restart p, p_recording p,
     p_block_input p, terminal_user_token p])"

text \<open>The permission an effect needs. Whatever is not listed needs only the authorization.\<close>

fun touches_files :: "fs_request \<Rightarrow> bool" where
  "touches_files (FsWriteBlock _) = False"
| "touches_files (FsWriteDone _) = False"
| "touches_files (FsCheckDigest _) = False"
| "touches_files (FsWriteError _) = False"
| "touches_files _ = True"

fun changes_remote :: "fs_request \<Rightarrow> bool" where
  "changes_remote (FsRemoveDir _ _ _) = True"
| "changes_remote (FsRemoveFile _ _) = True"
| "changes_remote (FsCreateDir _ _) = True"
| "changes_remote (FsRename _ _ _) = True"
| "changes_remote (FsCopy _ _ _ _) = True"
| "changes_remote (FsReadFile _ _) = True"
| "changes_remote _ = False"

fun granted :: "msg_env \<Rightarrow> peer_conn \<Rightarrow> effect \<Rightarrow> bool" where
  "granted env p (InputMouse simulate _) = (simulate \<longrightarrow> p_keyboard p \<and> \<not> is_authed_view_camera_conn p)"
| "granted env p InputPointer = (p_keyboard p \<and> \<not> is_authed_view_camera_conn p)"
| "granted env p (InputKey _) = (p_keyboard p \<and> \<not> is_authed_view_camera_conn p)"
| "granted env p BlockOn = (p_keyboard p \<and> p_block_input p)"
| "granted env p BlockOff = (p_keyboard p \<and> p_block_input p)"
| "granted env p (SetResolution _ _ _) = p_keyboard p"
| "granted env p (Elevate _) = p_keyboard p"
| "granted env p UpdateClipboard = p_clipboard p"
| "granted env p Reboot = p_restart p"
| "granted env p (RestartGrace _) = p_restart p"
| "granted env p HandleTerminal = terminal_user_token p"
| "granted env p (ClipboardFileEnabled b) = (b \<longrightarrow> p_file p)"
| "granted env p (Subscribe SvcClipboard b) = (b \<longrightarrow> p_clipboard p \<and> p_keyboard p \<and> \<not> me_one_way_clipboard env)"
| "granted env p (Subscribe SvcAudio b) = (b \<longrightarrow> p_audio p)"
| "granted env p (SubMonitors left_out) = ((\<not> p_audio p \<longrightarrow> SvcAudio \<in> set left_out)
     \<and> (\<not> (p_clipboard p \<and> p_keyboard p) \<longrightarrow> SvcClipboard \<in> set left_out))"
| "granted env p (FsRequest r) = ((touches_files r \<longrightarrow> file_transfer (base p))
     \<and> (changes_remote r \<longrightarrow> \<not> me_one_way_file env))"
| "granted env p _ = True"

definition covered :: "msg_env \<Rightarrow> (peer_conn \<Rightarrow> peer_conn \<times> effect list) \<Rightarrow> bool" where
  "covered env f \<longleftrightarrow> (\<forall>p. authorized (base p) \<longrightarrow> \<not> port_forward_socket (base p) \<longrightarrow>
     host_grants (fst (f p)) = host_grants p \<and> list_all (granted env p) (snd (f p)))"

lemma granted_cong:
  assumes "host_grants p = host_grants q"
  shows "granted env p e = granted env q e"
proof -
  have "base p = base q" "p_keyboard p = p_keyboard q" "p_clipboard p = p_clipboard q" "p_audio p = p_audio q"
    "p_file p = p_file q" "p_restart p = p_restart q" "p_block_input p = p_block_input q"
    "terminal_user_token p = terminal_user_token q"
    using assms by (simp_all add: host_grants_def)
  then show ?thesis
    by (cases "(env, p, e)" rule: granted.cases) (simp_all add: is_authed_view_camera_conn_def)
qed

lemma covered_and_then [guarded]: "covered env f \<Longrightarrow> covered env g \<Longrightarrow> covered env (and_then f g)"
proof -
  assume f: "covered env f" and g: "covered env g"
  show ?thesis
    unfolding covered_def
  proof (intro allI impI)
    fix p :: peer_conn
    assume p: "authorized (base p)" "\<not> port_forward_socket (base p)"
    have f': "host_grants (fst (f p)) = host_grants p" "list_all (granted env p) (snd (f p))"
      using f p by (simp_all add: covered_def)
    then have b: "base (fst (f p)) = base p" by (simp add: host_grants_def)
    then have g': "host_grants (fst (g (fst (f p)))) = host_grants p"
      "list_all (granted env (fst (f p))) (snd (g (fst (f p))))"
      using g p f'(1) by (simp_all add: covered_def)
    moreover have "granted env (fst (f p)) = granted env p"
      using granted_cong [OF f'(1)] by blast
    ultimately show "host_grants (fst (and_then f g p)) = host_grants p \<and> list_all (granted env p) (snd (and_then f g p))"
      using f'(2) by (simp add: and_then_def case_prod_beta)
  qed
qed

lemma covered_set_yes [guarded]: "(\<And>v. covered env (f v)) \<Longrightarrow> covered env (set_yes q f)"
  unfolding covered_def set_yes_def by (auto simp: host_grants_def split: option.splits bool_option.splits)

lemmas covered_simps = covered_def host_grants_def via_server_def Let_def

lemma covered_options [guarded]:
  "covered env (opt_quality o_msg)" "covered env (opt_cursor env v)" "covered env (opt_window env v)"
  "covered env (opt_audio env v)" "covered env (opt_file v)" "covered env (opt_clipboard env v)"
  "covered env (opt_keyboard env v)" "covered env (opt_block_input v)" "covered env (opt_my_cursor env v)"
  by (auto simp: covered_simps opt_quality_def opt_cursor_def opt_window_def opt_audio_def opt_file_def opt_clipboard_def
      opt_keyboard_def opt_block_input_def opt_my_cursor_def subscribe_audio_def audio_enabled_def
      file_transfer_enabled_def can_sub_clipboard_service_def clipboard_enabled_def peer_keyboard_enabled_def
      split: option.splits)

lemma covered_privacy [guarded]: "covered env (opt_privacy env o_msg)"
  by (auto simp: covered_simps opt_privacy_def set_yes_def turn_on_privacy_def turn_off_privacy_def
      split: option.splits bool_option.splits)

lemma covered_plain [guarded]:
  "covered env (\<lambda>p. (p\<lparr>lock_after_session_end := v\<rparr>, []))"
  "covered env (\<lambda>p. (p\<lparr>follow_remote_cursor := v\<rparr>, []))"
  "covered env (\<lambda>p. (p\<lparr>terminal_persistent := v\<rparr>, [SetTerminalPersistent v]))"
  by (simp_all add: covered_simps)

lemma covered_update_options [guarded]: "covered env (update_options env o_msg)"
  unfolding update_options_def by (intro guarded)

lemma covered_input [guarded]:
  "covered env (on_mouse env left_up)" "covered env (on_pointer env)" "covered env (on_key env press modifier is_text)"
  by (auto simp: covered_simps on_mouse_def on_pointer_def on_key_def update_auto_disconnect_timer_def
      peer_keyboard_enabled_def is_authed_view_camera_conn_def split: option.splits)

lemma covered_read_job:
  "host_grants (fst (create_and_start_read_job env i path lim p)) = host_grants p
    \<and> list_all (granted env p') (snd (create_and_start_read_job env i path lim p))"
  by (auto simp: create_and_start_read_job_def process_new_read_job_def host_grants_def split: sum.splits)

lemma covered_fa_send:
  assumes "is_printer \<or> file_transfer (base p) \<and> \<not> me_one_way_file env"
  shows "host_grants (fst (on_fa_send env i path is_printer p)) = host_grants p
    \<and> list_all (granted env p) (snd (on_fa_send env i path is_printer p))"
proof (cases is_printer)
  case True
  then show ?thesis
  proof (cases "take_printer_data path (printer_data p)")
    case (Some ds)
    with True show ?thesis
      using covered_read_job [of env i path False "p\<lparr>printer_data := ds\<rparr>" p]
      by (simp add: on_fa_send_def case_prod_beta host_grants_def)
  qed (simp add: on_fa_send_def)
next
  case False
  with assms covered_read_job [of env i path True p p] show ?thesis
    by (simp add: on_fa_send_def case_prod_beta host_grants_def)
qed

lemma covered_run_file_action:
  assumes "file_transfer (base p)" and "me_one_way_file env \<longrightarrow> job_of_one_way fa = None"
  shows "host_grants (fst (run_file_action env fa p)) = host_grants p
    \<and> list_all (granted env p) (snd (run_file_action env fa p))"
proof (cases fa)
  case (FaSend i path is_printer)
  with assms covered_fa_send [of is_printer p env i path] show ?thesis
    by (auto simp: run_file_action_def job_of_one_way_def)
next
  case (FaAllFiles i path hid)
  with assms show ?thesis
    by (auto simp: run_file_action_def host_grants_def split: sum.splits)
qed (use assms in \<open>auto simp: run_file_action_def job_of_one_way_def host_grants_def\<close>)

lemma covered_file_action [guarded]: "covered env (on_file_action env fa)"
  unfolding covered_def
proof (intro allI impI)
  fix p :: peer_conn
  let ?printer = "case fa of FaSend _ _ is_printer \<Rightarrow> is_printer | _ \<Rightarrow> False"
  let ?one_way = "if me_one_way_file env then job_of_one_way fa else None"
  let ?ok = "\<lambda>r. host_grants (fst r) = host_grants p \<and> list_all (granted env p) (snd r)"
  consider "\<not> (file_transfer (base p) \<or> ?printer)"
    | "file_transfer (base p) \<or> ?printer" "delayed_read_dir p \<noteq> None"
    | i where "file_transfer (base p) \<or> ?printer" "delayed_read_dir p = None" "?one_way = Some i"
    | "file_transfer (base p)" "delayed_read_dir p = None" "?one_way = None"
    | "\<not> file_transfer (base p)" "?printer" "delayed_read_dir p = None" "?one_way = None"
    by (cases "?one_way") blast+
  then show "?ok (on_file_action env fa p)"
  proof cases
    case 1
    then show ?thesis by (simp add: on_file_action_def)
  next
    case 2
    then show ?thesis by (cases fa) (simp_all add: on_file_action_def host_grants_def)
  next
    case 3
    then show ?thesis by (simp add: on_file_action_def)
  next
    case 4
    then have "on_file_action env fa p = run_file_action env fa p"
      by (simp add: on_file_action_def)
    with 4 covered_run_file_action [of p env fa] show ?thesis by (auto split: if_splits)
  next
    case 5
    then obtain i path where fa: "fa = FaSend i path True" by (cases fa) simp_all
    with 5 have "on_file_action env fa p = on_fa_send env i path True p"
      by (auto simp: on_file_action_def run_file_action_def job_of_one_way_def split: if_splits)
    with covered_fa_send [of True p env i path] show ?thesis by simp
  qed
qed

lemma covered_resolution: "list_all (granted env p) (change_resolution env d w h p)"
  by (auto simp: change_resolution_def Let_def split: option.splits)

lemma covered_displays [guarded]:
  "covered env (handle_switch_display env idx w h)" "covered env (capture_displays env adds subs sets)"
  "covered env (\<lambda>p. (p, change_resolution env d w h p))" "covered env (handle_elevation_request env direct)"
  "covered env (on_annotate env op)" "covered env (try_sub_monitor_services env)"
proof -
  show "covered env (handle_switch_display env idx w h)"
    by (auto simp: covered_simps handle_switch_display_def switch_display_to_def change_resolution_def
        split: option.splits)
  show "covered env (capture_displays env adds subs sets)"
    by (auto simp: covered_simps capture_displays_def list_all_iff)
  show "covered env (\<lambda>p. (p, change_resolution env d w h p))"
    by (simp add: covered_def covered_resolution)
  show "covered env (handle_elevation_request env direct)"
    by (auto simp: covered_simps handle_elevation_request_def update_auto_disconnect_timer_def)
  show "covered env (on_annotate env op)"
    by (cases op) (auto simp: covered_simps on_annotate_def)
  show "covered env (try_sub_monitor_services env)"
    by (auto simp: covered_simps try_sub_monitor_services_def can_sub_clipboard_service_def clipboard_enabled_def
        peer_keyboard_enabled_def audio_enabled_def)
qed

lemma covered_voice [guarded]:
  "covered env (on_voice_call_request env is_connect ts)" "covered env (handle_voice_call env accepted)"
  by (auto simp: covered_simps on_voice_call_request_def close_voice_call_def handle_voice_call_def audio_enabled_def
      split: option.splits)

lemma covered_selected_sid [guarded]: "covered env (\<lambda>p. fst (on_selected_sid env sid p))"
  unfolding covered_def
proof (intro allI impI)
  fix p :: peer_conn
  assume p: "authorized (base p)" "\<not> port_forward_socket (base p)"
  have "host_grants (fst (try_sub_monitor_services env p)) = host_grants p
      \<and> list_all (granted env p) (snd (try_sub_monitor_services env p))"
    using covered_displays(6) p by (simp add: covered_def)
  then show "host_grants (fst (fst (on_selected_sid env sid p))) = host_grants p
      \<and> list_all (granted env p) (snd (fst (on_selected_sid env sid p)))"
    by (auto simp: on_selected_sid_def host_grants_def split: option.splits)
qed

lemma covered_misc [guarded]: "covered env (\<lambda>p. fst (on_misc env m p))"
proof (cases m)
  case (SwitchDisplay idx w h)
  then show ?thesis using covered_displays(1) by (simp add: on_misc_def)
next
  case (CaptureDisplays adds subs sets)
  then show ?thesis using covered_displays(2) by (simp add: on_misc_def)
next
  case (OptionMessage o_msg)
  then show ?thesis using covered_update_options by (simp add: on_misc_def)
next
  case (ElevationRequest direct)
  then show ?thesis using covered_displays(4) by (simp add: on_misc_def)
next
  case (ChangeResolution w h)
  then show ?thesis using covered_displays(3) by (simp add: on_misc_def)
next
  case (ChangeDisplayResolution d w h)
  then show ?thesis using covered_displays(3) by (simp add: on_misc_def)
next
  case (CrAnnotate op)
  then show ?thesis using covered_displays(5) by (simp add: on_misc_def)
next
  case (SelectedSid sid)
  then show ?thesis using covered_selected_sid by (simp add: on_misc_def)
next
  case (SwitchSidesRequest valid)
  then show ?thesis by (cases valid) (simp_all add: on_misc_def covered_def)
qed (auto simp: on_misc_def covered_simps toggle_virtual_display_def turn_on_privacy_def turn_off_privacy_def
    update_auto_disconnect_timer_def)

lemma covered_message [guarded]: "covered env (\<lambda>p. fst (on_authorized_message env m p))"
proof -
  have "covered env (\<lambda>p. fst (case m of
        MouseEvent left_up \<Rightarrow> continue (on_mouse env left_up p)
      | PointerDeviceEvent \<Rightarrow> continue (on_pointer env p)
      | KeyEvent press modifier is_text \<Rightarrow> continue (on_key env press modifier is_text p)
      | FileAction fa \<Rightarrow> continue (on_file_action env fa p)
      | Misc mm \<Rightarrow> on_misc env mm p
      | VoiceCallRequest is_connect ts \<Rightarrow> continue (on_voice_call_request env is_connect ts p)
      | _ \<Rightarrow> continue (p, [])))"
    using guarded by (cases m) (simp_all add: covered_def)
  then show ?thesis
    by (cases m) (auto simp: covered_def on_authorized_message_def on_cliprdr_def on_file_response_def
        split: file_response.splits)
qed

text \<open>A sequence of messages of the peer, each with what the system answers.\<close>

fun peer_run :: "(msg_env \<times> peer_msg) list \<Rightarrow> peer_conn \<Rightarrow> peer_conn \<times> (msg_env \<times> effect) list" where
  "peer_run [] p = (p, [])"
| "peer_run ((env, m) # ms) p =
     (let ((p1, es), go) = on_authorized_message env m p
      in if go then (let (p2, es') = peer_run ms p1 in (p2, map (Pair env) es @ es'))
         else (p1, map (Pair env) es))"

lemma message_covered:
  "host_grants (fst (fst (on_authorized_message env m p))) = host_grants p
    \<and> list_all (granted env p) (snd (fst (on_authorized_message env m p)))
    \<and> (\<not> (authorized (base p) \<and> \<not> port_forward_socket (base p)) \<longrightarrow> snd (fst (on_authorized_message env m p)) = [])"
proof (cases "authorized (base p) \<and> \<not> port_forward_socket (base p)")
  case True
  then show ?thesis using covered_message [of env m] by (simp add: covered_def)
qed (auto simp: on_authorized_message_def)

lemma peer_run_covered:
  "host_grants (fst (peer_run ms p)) = host_grants p \<and>
    list_all (\<lambda>(env, e). granted env p e \<and> authorized (base p) \<and> \<not> port_forward_socket (base p)) (snd (peer_run ms p))"
proof (induction ms arbitrary: p)
  case (Cons x ms)
  obtain env m where x: "x = (env, m)" by (cases x)
  obtain p1 es go where step: "on_authorized_message env m p = ((p1, es), go)"
    by (metis surj_pair)
  have now: "host_grants p1 = host_grants p" "list_all (granted env p) es"
    "\<not> (authorized (base p) \<and> \<not> port_forward_socket (base p)) \<longrightarrow> es = []"
    using message_covered [of env m p] step by simp_all
  have "base p1 = base p"
    using now(1) by (simp add: host_grants_def)
  then show ?case
    using Cons.IH [of p1] now step granted_cong [OF now(1)]
    by (auto simp: x list_all_iff case_prod_beta)
qed simp

text \<open>
  C5. Over any sequence of messages the peer sends, every effect happens on an authorized
  connection that is no port forward and is covered by what the host granted: input and
  resolution by the keyboard permission and never for a camera connection, blocking the
  host's input by its own permission as well, the clipboard, restarts, the audio service,
  the shell and the file requests by theirs. No sequence changes what the host granted.
\<close>

theorem peer_messages_granted:
  "host_grants (fst (peer_run ms p)) = host_grants p
    \<and> list_all (\<lambda>(env, e). authorized (base p) \<and> \<not> port_forward_socket (base p) \<and> granted env p e)
         (snd (peer_run ms p))"
  using peer_run_covered [of ms p] by (auto simp: list_all_iff)

fun is_control :: "effect \<Rightarrow> bool" where
  "is_control (InputMouse simulate _) = simulate"
| "is_control InputPointer = True"
| "is_control (InputKey _) = True"
| "is_control BlockOn = True"
| "is_control BlockOff = True"
| "is_control (SetResolution _ _ _) = True"
| "is_control (Elevate _) = True"
| "is_control (Subscribe SvcClipboard b) = b"
| "is_control _ = False"

lemma granted_control: "granted env p e \<Longrightarrow> is_control e \<Longrightarrow> p_keyboard p"
  by (cases e rule: is_control.cases) auto

text \<open>
  When the host switches the keyboard permission off, nothing the peer sends from then
  on injects input, blocks the host's input, changes the resolution, elevates or subscribes
  to the clipboard.
\<close>

theorem keyboard_revoked:
  "list_all (\<lambda>(env, e). \<not> is_control e)
     (snd (peer_run ms (fst (switch_permission env ''keyboard'' False p))))"
proof -
  let ?p = "fst (switch_permission env ''keyboard'' False p)"
  have "\<not> p_keyboard ?p" by (simp add: switch_permission_def Let_def)
  then have "granted env' ?p e \<Longrightarrow> \<not> is_control e" for env' e
    using granted_control by blast
  moreover note conjunct2 [OF peer_run_covered [of ms ?p]]
  ultimately show ?thesis
    by (elim list.pred_mono_strong) blast
qed


section \<open>What the kind of a connection does not restrict\<close>

definition host_conn :: "auth_conn_type \<Rightarrow> conn" where
  "host_conn k = \<lparr>conn_id = 1, conn_ip = [], conn_challenge = [], conn_salt = [],
     conn_lr = \<lparr>lr_username = [], lr_my_id = ''op'', lr_my_name = [], lr_my_platform = [], lr_password = [], lr_session_id = 0,
       lr_hwid = [], lr_version = [], lr_os_username = [], lr_union_of = LrDefault, lr_sched = None\<rparr>,
     authorized = True, auth_type = Some k, require_2fa = False, from_switch = False, file_transfer = (k = FileTransfer),
     view_camera = (k = ViewCamera), terminal = (k = Terminal), port_forward_address = [], port_forward_socket = False,
     sched_window_session = False, control_permissions = None, conn_closed = False\<rparr>"

definition sample_peer :: "auth_conn_type \<Rightarrow> peer_conn" where
  "sample_peer k = \<lparr>base = host_conn k, p_keyboard = False, p_clipboard = False, p_audio = False, p_file = False,
     p_restart = False, p_recording = False, p_block_input = False, disable_keyboard = False, disable_clipboard = False,
     disable_audio = False, enable_file_transfer = False, show_my_cursor = False, cr_annotating = False,
     show_remote_cursor = False, follow_remote_cursor = False, follow_remote_window = False, multi_ui_session = False,
     lock_after_session_end = False, display_idx = 0, voice_call_request = None, voice_calling = False,
     audio_sender = False, delayed_read_dir = None, printer_data = [], cm_read_job_ids = [], read_jobs = [],
     terminal_user_token = False, terminal_persistent = False, pressed_modifiers = [], auto_disconnect_timer = None,
     services_subed = False, file_remove_log = \<lparr>rl_instant = 0, removed_files = [], removed_dirs = []\<rparr>,
     chat_unanswered = False, file_transferred = False\<rparr>"

definition sample_env :: msg_env where
  "sample_env = \<lparr>me_now = 0, me_one_way_file = False, me_one_way_clipboard = False, me_fs_via_cm = True,
     me_read_job = Inr 1, me_file_limit = 10, me_all_files = Inr 1, me_allow_auto_disconnect = [],
     me_auto_disconnect_timeout = [], me_server = True, me_has_service = (\<lambda>_. True), me_primary_display = 0,
     me_multi_ui = True, me_subbed_displays = 1, me_displays = Some 1, me_old_peer = False, me_installed = True,
     me_portable_running = False, me_overlay = True, me_win10 = True, me_virtual_display = True, me_plug_ok = True,
     me_privacy_supported = True, me_privacy_ok = True, me_sids = (None, []), me_share_rdp = False, me_conn_count = 1\<rparr>"

text \<open>
  Three requests are served on every authorized connection that is no port forward,
  whatever its kind and without any permission: capturing the displays, privacy mode, and
  playing the peer's audio although no call was accepted. The older form of the privacy
  request is refused without the keyboard permission.
\<close>

theorem kind_not_enforced:
  assumes "authorized (base p)" and "\<not> port_forward_socket (base p)" and "me_server env"
    and "me_privacy_supported env" and "\<not> disable_audio p" and "\<not> p_keyboard p" and "\<not> view_camera (base p)"
  shows "CaptureServices [SvcVideo False d] True True \<in> set (snd (fst (on_authorized_message env (Misc (CaptureDisplays [] [] [d])) p)))
    \<and> PrivacyOn key \<in> set (snd (fst (on_authorized_message env (Misc (TogglePrivacyMode key True)) p)))
    \<and> (env, PlayAudio) \<in> set (snd (peer_run [(env, Misc AudioFormat), (env, AudioFrame)] p))
    \<and> snd (opt_privacy env o_msg p) = []"
proof (intro conjI)
  show "snd (opt_privacy env o_msg p) = []"
    using assms(6) by (simp add: opt_privacy_def set_yes_def split: option.splits bool_option.splits)
qed (use assms in \<open>simp_all add: on_authorized_message_def on_misc_def capture_displays_def turn_on_privacy_def Let_def\<close>)

theorem kind_not_enforced_witness:
  "CaptureServices [SvcVideo False 0] True True \<in>
     set (snd (fst (on_authorized_message sample_env (Misc (CaptureDisplays [] [] [0])) (sample_peer FileTransfer))))"
proof -
  have "authorized (base (sample_peer FileTransfer))" "\<not> port_forward_socket (base (sample_peer FileTransfer))"
    "me_server sample_env" "me_privacy_supported sample_env" "\<not> disable_audio (sample_peer FileTransfer)"
    "\<not> p_keyboard (sample_peer FileTransfer)" "\<not> view_camera (base (sample_peer FileTransfer))"
    by (simp_all add: sample_peer_def host_conn_def sample_env_def)
  from kind_not_enforced [OF this] show ?thesis by blast
qed


section \<open>Jobs the peer cancelled\<close>

fun report_job :: "cm_report \<Rightarrow> int option" where
  "report_job (CmAllFiles _ _) = None"
| "report_job (CmReadInit i _) = Some i"
| "report_job (CmBlock i) = Some i"
| "report_job (CmReadDone i) = Some i"
| "report_job (CmReadError i _) = Some i"
| "report_job (CmDigest i) = Some i"

fun report_run :: "cm_report list \<Rightarrow> peer_conn \<Rightarrow> peer_conn \<times> effect list" where
  "report_run [] p = (p, [])"
| "report_run (r # rs) p = and_then (on_cm_report r) (report_run rs) p"

lemma report_silent:
  assumes "i \<notin> set (cm_read_job_ids p)" and "report_job r = Some i"
  shows "on_cm_report r p = (p, [])"
  using assms by (cases r) (auto simp: on_cm_report_def)

lemma report_keeps_absent:
  "i \<notin> set (cm_read_job_ids p) \<Longrightarrow> i \<notin> set (cm_read_job_ids (fst (on_cm_report r p)))"
  by (cases r) (auto simp: on_cm_report_def split: sum.splits)

definition of_job :: "int \<Rightarrow> effect \<Rightarrow> bool" where
  "of_job i e \<longleftrightarrow> (\<exists>t. e = SendFile i t) \<or> (\<exists>t. e = SendError i t)"

lemma report_other_job:
  "report_job r = Some j \<Longrightarrow> j \<noteq> i \<Longrightarrow> list_all (\<lambda>e. \<not> of_job i e) (snd (on_cm_report r p))"
  by (cases r) (auto simp: on_cm_report_def of_job_def split: sum.splits)

lemma report_run_silent:
  assumes "i \<notin> set (cm_read_job_ids p)" and "None \<notin> report_job ` set rs"
  shows "list_all (\<lambda>e. \<not> of_job i e) (snd (report_run rs p))"
  using assms
proof (induction rs arbitrary: p)
  case (Cons r rs)
  then obtain j where j: "report_job r = Some j"
    by (cases "report_job r") auto
  have "list_all (\<lambda>e. \<not> of_job i e) (snd (on_cm_report r p))"
    using report_silent [OF Cons.prems(1)] report_other_job [OF j] j by (cases "j = i") auto
  then show ?case
    using Cons.IH [OF report_keeps_absent [OF Cons.prems(1)]] Cons.prems(2)
    by (auto simp: and_then_def case_prod_beta)
qed simp

text \<open>
  Once the peer cancelled a file job, nothing the connection manager still reports on it
  reaches the peer, in whatever order the late blocks, digests, errors and ends arrive.
\<close>

theorem cancelled_job_silent:
  assumes "file_transfer (base p)" and "delayed_read_dir p = None" and "None \<notin> report_job ` set rs"
  shows "list_all (\<lambda>e. \<not> of_job i e) (snd (report_run rs (fst (on_file_action env (FaCancel i) p))))"
proof -
  have "i \<notin> set (cm_read_job_ids (fst (on_file_action env (FaCancel i) p)))"
    using assms(1,2) by (simp add: on_file_action_def run_file_action_def job_of_one_way_def)
  then show ?thesis
    using assms(3) by (rule report_run_silent)
qed

theorem cancelled_job_silent_witness:
  "list_all (\<lambda>e. \<not> of_job 4 e) (snd (report_run [CmBlock 4, CmReadDone 4]
     (fst (on_file_action sample_env (FaCancel 4) ((sample_peer FileTransfer)\<lparr>cm_read_job_ids := [4]\<rparr>)))))"
  using cancelled_job_silent [of "(sample_peer FileTransfer)\<lparr>cm_read_job_ids := [4]\<rparr>" "[CmBlock 4, CmReadDone 4]" 4 sample_env]
  by (simp add: sample_peer_def host_conn_def)


section \<open>The removal log\<close>

text \<open>Each removal is logged once: after a report the log is empty.\<close>

lemma on_timer_once: "snd (on_timer now (fst (on_timer now l))) = [] \<or> snd (on_timer now l) = []"
  by (simp add: on_timer_def)

text \<open>
  Removing a directory does not drop its files from the log: the filter for the files asks
  whether the directory lies in the file.
\<close>

lemma removed_children_stay:
  assumes "direct_child (re_path d) (re_path f)" and "f \<in> set (removed_files l)"
  shows "f \<in> set (removed_files (on_remove_dir now d l))"
proof -
  obtain dd dr dn where d: "path_comps (re_path d) = (dd, dr, dn)" by (metis prod_cases3)
  obtain fd fr fn where f: "path_comps (re_path f) = (fd, fr, fn)" by (metis prod_cases3)
  have "fn \<noteq> []" "dn = butlast fn"
    using assms(1) d f by (auto simp: direct_child_def path_parent_def split: if_splits)
  then have "length dn < length fn" by simp
  then have "\<not> direct_child (re_path f) (re_path d)"
    using d f by (auto simp: direct_child_def path_parent_def split: if_splits)
  then show ?thesis
    using assms(2) by (simp add: on_remove_dir_def Let_def)
qed

lemma removed_children_stay_example:
  "let l = on_remove_dir 5 \<lparr>re_id = 2, re_path = ''C:'' @ [CHR 0x5C] @ ''a''\<rparr>
      (on_remove_file 4 \<lparr>re_id = 1, re_path = ''C:'' @ [CHR 0x5C] @ ''a'' @ [CHR 0x5C] @ ''f''\<rparr>
        \<lparr>rl_instant = 0, removed_files = [], removed_dirs = []\<rparr>)
   in length (snd (on_timer 2000 l)) = 2"
  by (simp add: Let_def on_remove_dir_def on_remove_file_def on_timer_def direct_child_def path_parent_def
      path_comps_def split_drive_def is_sep_def)

end
