(* ===== verification/Conn_Registry.thy ===== *)
theory Conn_Registry
  imports Login Video_Qos
begin

text \<open>
  The registries of live and of authorized connections, the array of control permissions
  and the wake lock: the module \<open>raii\<close>, \<open>get_control_permission_state\<close> and
  \<open>start_wakelock_thread\<close> of \<open>src/src/server/connection.rs\<close>, and \<open>get_new_id\<close> of
  \<open>src/src/server.rs\<close>. The objects of \<open>raii\<close> register a connection when they are made
  and remove it when they are dropped, in the reverse order of their declaration; the
  authorized ones also add and remove a user of the video quality controller.

  The program is a step relation; the invariant ties the registries, the controller's
  users, the permissions and the queue of the wake lock thread together.
\<close>

record authed_entry =
  ae_id :: int
  ae_type :: auth_conn_type
  ae_printer :: bool

record conn_registry =
  id_count :: int
  cr_alive :: "int list"
  cr_authed :: "authed_entry list"
  cr_control :: "(int \<times> 64 word) list"
  cr_qos :: video_qos
  wallpaper_removed :: bool
  wake_queue :: "(nat \<times> nat) list"
  wakelock :: "bool option"              \<comment> \<open>held, with the display kept on or not\<close>
  wl_last_display :: bool
  wl_option :: "bool option"             \<comment> \<open>\<open>WAKELOCK_KEEP_AWAKE_OPTION\<close>\<close>

text \<open>The counter of ids starts at a random remainder: \<open>random::<i32>() % 1000 + 1000\<close>.\<close>

definition registry_start :: "int \<Rightarrow> nat \<Rightarrow> conn_registry" where
  "registry_start r now = \<lparr>id_count = sgn r * (\<bar>r\<bar> mod 1000) + 1000, cr_alive = [], cr_authed = [], cr_control = [], cr_qos = qos_default now,
     wallpaper_removed = False, wake_queue = [], wakelock = None, wl_last_display = False, wl_option = None\<rparr>"


section \<open>Operations\<close>

text \<open>The counter of ids is an \<open>i32\<close> and wraps around.\<close>

definition get_new_id :: "conn_registry \<Rightarrow> int \<times> conn_registry" where
  "get_new_id s = (let i = (id_count s + 1 + 2 ^ 31) mod 2 ^ 32 - 2 ^ 31 in (i, s\<lparr>id_count := i\<rparr>))"

definition connection_id_new :: "int \<Rightarrow> conn_registry \<Rightarrow> conn_registry" where
  "connection_id_new i s = s\<lparr>cr_alive := cr_alive s @ [i]\<rparr>"

definition connection_id_drop :: "int \<Rightarrow> conn_registry \<Rightarrow> conn_registry" where
  "connection_id_drop i s = s\<lparr>cr_alive := filter (\<lambda>c. c \<noteq> i) (cr_alive s)\<rparr>"

definition control_permissions_new :: "int \<Rightarrow> 64 word option \<Rightarrow> conn_registry \<Rightarrow> conn_registry" where
  "control_permissions_new i cp s =
     (case cp of None \<Rightarrow> s | Some w \<Rightarrow> s\<lparr>cr_control := cr_control s @ [(i, w)]\<rparr>)"

definition control_permissions_drop :: "int \<Rightarrow> 64 word option \<Rightarrow> conn_registry \<Rightarrow> conn_registry" where
  "control_permissions_drop i cp s =
     (if cp \<noteq> None then s\<lparr>cr_control := filter (\<lambda>(c, _). c \<noteq> i) (cr_control s)\<rparr> else s)"

definition remote_count :: "conn_registry \<Rightarrow> nat" where
  "remote_count s = length (filter (\<lambda>c. ae_type c = Remote) (cr_authed s))"

definition check_wake_lock :: "conn_registry \<Rightarrow> conn_registry" where
  "check_wake_lock s = s\<lparr>wake_queue := wake_queue s @ [(length (cr_authed s), remote_count s)]\<rparr>"

definition check_wake_lock_on_setting_changed :: "bool \<Rightarrow> conn_registry \<Rightarrow> conn_registry" where
  "check_wake_lock_on_setting_changed current s =
     (if wl_option s \<noteq> Some current then check_wake_lock s else s)"

definition non_port_forward_conn_count :: "conn_registry \<Rightarrow> nat" where
  "non_port_forward_conn_count s = length (filter (\<lambda>c. ae_type c \<noteq> PortForward) (cr_authed s))"

definition needs_video :: "auth_conn_type \<Rightarrow> bool" where
  "needs_video ty \<longleftrightarrow> ty = Remote \<or> ty = ViewCamera"

definition authed_conn_new ::
    "nat \<Rightarrow> string \<Rightarrow> int \<Rightarrow> auth_conn_type \<Rightarrow> bool \<Rightarrow> bool \<Rightarrow> conn_registry \<Rightarrow> conn_registry" where
  "authed_conn_new now enable_abr i ty print_version windows_peer s =
     (let printer = (ty = Remote \<and> print_version \<and> windows_peer);
          s1 = check_wake_lock (s\<lparr>cr_authed := cr_authed s @ [\<lparr>ae_id = i, ae_type = ty, ae_printer = printer\<rparr>]\<rparr>)
      in if needs_video ty then s1\<lparr>cr_qos := on_connection_open now enable_abr i (cr_qos s1)\<rparr> else s1)"

definition authed_conn_drop :: "nat \<Rightarrow> int \<Rightarrow> auth_conn_type \<Rightarrow> conn_registry \<Rightarrow> conn_registry" where
  "authed_conn_drop now i ty s =
     (let s1 = (if needs_video ty then s\<lparr>cr_qos := on_connection_close now i (cr_qos s)\<rparr> else s);
          s2 = s1\<lparr>cr_authed := filter (\<lambda>c. ae_id c \<noteq> i) (cr_authed s1)\<rparr>;
          s3 = (if remote_count s2 = 0 then s2\<lparr>wallpaper_removed := False\<rparr> else s2)
      in check_wake_lock s3)"

text \<open>
  One message of the wake lock thread; \<open>keep\<close> is the option at that moment, the platform
  is not Linux.
\<close>

definition wakelock_step :: "bool \<Rightarrow> conn_registry \<Rightarrow> conn_registry" where
  "wakelock_step keep s =
     (case wake_queue s of
        [] \<Rightarrow> s
      | (conn_count, remotes) # q \<Rightarrow>
          (let s1 = s\<lparr>wake_queue := q, wl_option := Some keep\<rparr>
           in if conn_count = 0 \<or> \<not> keep then s1\<lparr>wakelock := None\<rparr>
              else let display = (remotes > 0)
                   in (case wakelock s1 of
                         Some old \<Rightarrow> s1\<lparr>wakelock := Some (if display \<noteq> wl_last_display s1 then display else old),
                                        wl_last_display := display\<rparr>
                       | None \<Rightarrow> s1\<lparr>wakelock := Some display, wl_last_display := display\<rparr>)))"

text \<open>The permissions of all connections, combined.\<close>

definition get_control_permission_state :: "conn_registry \<Rightarrow> int \<Rightarrow> bool \<Rightarrow> bool option" where
  "get_control_permission_state s perm disable_if_has_disabled =
     (let vs = map (\<lambda>(_, w). get_control_permission w perm) (cr_control s);
          has_enable = (Some True \<in> set vs); has_disable = (Some False \<in> set vs)
      in if disable_if_has_disabled
         then (if has_disable then Some False else if has_enable then Some True else None)
         else (if has_enable then Some True else if has_disable then Some False else None))"


section \<open>The program as a step relation\<close>

text \<open>
  A connection starts with a new id and ends by dropping what it made. It is authorized at
  most once, because \<open>send_logon_response_and_keep_alive\<close> returns at once on an authorized
  connection. The controller's other operations keep its users.

  The wrap-around of the counter is left out of the relation. The registry and the controller
  have a lock each: between the two the code holds neither, so another thread may see a
  connection authorized that is not a user of the controller yet; here both are one step.
\<close>

definition conn_start :: "64 word option \<Rightarrow> conn_registry \<Rightarrow> conn_registry" where
  "conn_start cp s = (let (i, s1) = get_new_id s in control_permissions_new i cp (connection_id_new i s1))"

definition conn_end :: "nat \<Rightarrow> int \<Rightarrow> 64 word option \<Rightarrow> conn_registry \<Rightarrow> conn_registry" where
  "conn_end now i cp s =
     (let s1 = (case find (\<lambda>c. ae_id c = i) (cr_authed s) of
                  Some c \<Rightarrow> authed_conn_drop now i (ae_type c) s
                | None \<Rightarrow> s)
      in connection_id_drop i (control_permissions_drop i cp s1))"

inductive reg_step :: "conn_registry \<Rightarrow> conn_registry \<Rightarrow> bool" where
  start: "id_count s < 2 ^ 31 - 1 \<Longrightarrow> reg_step s (conn_start cp s)"
| authorize: "i \<in> set (cr_alive s) \<Longrightarrow> i \<notin> ae_id ` set (cr_authed s) \<Longrightarrow>
    reg_step s (authed_conn_new now abr i ty pv wp s)"
| finish: "i \<in> set (cr_alive s) \<Longrightarrow> (cp = None \<Longrightarrow> i \<notin> fst ` set (cr_control s)) \<Longrightarrow>
    reg_step s (conn_end now i cp s)"
| wake: "reg_step s (wakelock_step keep s)"
| second: "reg_step s (check_wake_lock_on_setting_changed current s)"
| quality: "fst ` set (users q) = fst ` set (users (cr_qos s)) \<Longrightarrow> reg_step s (s\<lparr>cr_qos := q\<rparr>)"

definition reg_reachable :: "conn_registry \<Rightarrow> bool" where
  "reg_reachable s \<longleftrightarrow> (\<exists>r now. reg_step\<^sup>*\<^sup>* (registry_start r now) s)"

text \<open>The invariant in three parts: the ids, the controller's users, the wake lock.\<close>

definition ids_inv :: "conn_registry \<Rightarrow> bool" where
  "ids_inv s \<longleftrightarrow> 0 \<le> id_count s \<and> (\<forall>i \<in> set (cr_alive s). 0 < i \<and> i \<le> id_count s) \<and> distinct (cr_alive s)
     \<and> distinct (map ae_id (cr_authed s)) \<and> ae_id ` set (cr_authed s) \<subseteq> set (cr_alive s)
     \<and> fst ` set (cr_control s) \<subseteq> set (cr_alive s)"

definition video_ids :: "conn_registry \<Rightarrow> int set" where
  "video_ids s = ae_id ` {c \<in> set (cr_authed s). needs_video (ae_type c)}"

definition users_inv :: "conn_registry \<Rightarrow> bool" where
  "users_inv s \<longleftrightarrow> fst ` set (users (cr_qos s)) = video_ids s"

definition wake_inv :: "conn_registry \<Rightarrow> bool" where
  "wake_inv s \<longleftrightarrow>
     (if wake_queue s = [] then (wakelock s \<noteq> None) = (cr_authed s \<noteq> [] \<and> wl_option s = Some True)
      else last (wake_queue s) = (length (cr_authed s), remote_count s))"

definition reg_inv :: "conn_registry \<Rightarrow> bool" where
  "reg_inv s \<longleftrightarrow> ids_inv s \<and> users_inv s \<and> wake_inv s"

lemma get_new_id_small:
  assumes "0 \<le> id_count s" and "id_count s < 2 ^ 31 - 1"
  shows "get_new_id s = (id_count s + 1, s\<lparr>id_count := id_count s + 1\<rparr>)"
  using assms by (simp add: get_new_id_def Let_def)

lemma wake_inv_cong:
  assumes "wake_inv s" "cr_authed t = cr_authed s" "wake_queue t = wake_queue s" "wakelock t = wakelock s"
    "wl_option t = wl_option s"
  shows "wake_inv t"
  using assms unfolding wake_inv_def remote_count_def by presburger

lemma conn_start_inv:
  assumes "reg_inv s" and "id_count s < 2 ^ 31 - 1"
  shows "reg_inv (conn_start cp s)"
proof -
  let ?i = "id_count s + 1"
  have ids: "ids_inv s" and c: "0 \<le> id_count s" using assms(1) by (simp_all add: reg_inv_def ids_inv_def)
  have s': "conn_start cp s = s\<lparr>id_count := ?i, cr_alive := cr_alive s @ [?i],
      cr_control := cr_control s @ (case cp of None \<Rightarrow> [] | Some w \<Rightarrow> [(?i, w)])\<rparr>"
    using get_new_id_small [OF c assms(2)]
    by (simp add: conn_start_def connection_id_new_def control_permissions_new_def split: option.splits)
  have "?i \<notin> set (cr_alive s)"
    using ids by (auto simp: ids_inv_def)
  moreover have "\<forall>i \<in> set (cr_alive s). 0 < i \<and> i \<le> ?i"
    using ids by (auto simp: ids_inv_def)
  ultimately have "ids_inv (conn_start cp s)"
    using ids c unfolding s' ids_inv_def by (cases cp) (simp_all, blast+)
  moreover have "users_inv (conn_start cp s)"
    using assms(1) unfolding s' by (simp add: reg_inv_def users_inv_def video_ids_def)
  moreover have "wake_inv (conn_start cp s)"
    by (rule wake_inv_cong [of s]) (use assms(1) in \<open>simp_all add: reg_inv_def s'\<close>)
  ultimately show ?thesis by (simp add: reg_inv_def)
qed

lemma users_open: "fst ` set (users (on_connection_open now abr i q)) = insert i (fst ` set (users q))"
proof -
  have "set (map fst (AList.update i user_default (users q))) = insert i (set (map fst (users q)))"
    by (auto simp: update_keys)
  then show ?thesis
    by (simp add: on_connection_open_def put_user_def)
qed

lemma users_close: "fst ` set (users (on_connection_close now i q)) = fst ` set (users q) - {i}"
proof -
  have "set (map fst (AList.delete i (users q))) = set (map fst (users q)) - {i}"
    by (simp add: delete_keys)
  then show ?thesis
    by (auto simp: on_connection_close_def Let_def qos_default_def)
qed

lemma check_wake_lock_fields [simp]:
  "id_count (check_wake_lock s) = id_count s" "cr_alive (check_wake_lock s) = cr_alive s"
  "cr_authed (check_wake_lock s) = cr_authed s" "cr_control (check_wake_lock s) = cr_control s"
  "cr_qos (check_wake_lock s) = cr_qos s"
  by (simp_all add: check_wake_lock_def)

lemma check_wake_lock_inv: "wake_inv (check_wake_lock s)"
  by (simp add: wake_inv_def check_wake_lock_def remote_count_def)

lemma authed_conn_new_inv:
  assumes "reg_inv s" and "i \<in> set (cr_alive s)" and "i \<notin> ae_id ` set (cr_authed s)"
  shows "reg_inv (authed_conn_new now abr i ty pv wp s)"
proof -
  let ?t = "authed_conn_new now abr i ty pv wp s"
  have f: "id_count ?t = id_count s" "cr_alive ?t = cr_alive s" "cr_control ?t = cr_control s"
    "cr_authed ?t = cr_authed s @ [\<lparr>ae_id = i, ae_type = ty, ae_printer = (ty = Remote \<and> pv \<and> wp)\<rparr>]"
    "fst ` set (users (cr_qos ?t)) = (if needs_video ty then {i} else {}) \<union> fst ` set (users (cr_qos s))"
    by (auto simp: authed_conn_new_def Let_def users_open)
  have "ids_inv ?t"
    using assms by (simp add: reg_inv_def ids_inv_def f)
  moreover have "video_ids ?t = (if needs_video ty then {i} else {}) \<union> video_ids s"
    by (force simp: video_ids_def f)
  then have "users_inv ?t"
    using assms(1) by (simp add: reg_inv_def users_inv_def f(5))
  moreover have "wake_inv ?t"
    by (rule wake_inv_cong [OF check_wake_lock_inv [of "s\<lparr>cr_authed := cr_authed ?t\<rparr>"]])
      (simp_all add: authed_conn_new_def Let_def check_wake_lock_def)
  ultimately show ?thesis by (simp add: reg_inv_def)
qed

lemma authed_conn_drop_inv:
  assumes "reg_inv s" and "c \<in> set (cr_authed s)"
  shows "reg_inv (authed_conn_drop now (ae_id c) (ae_type c) s)"
proof -
  let ?i = "ae_id c" and ?t = "authed_conn_drop now (ae_id c) (ae_type c) s"
  have f: "id_count ?t = id_count s" "cr_alive ?t = cr_alive s" "cr_control ?t = cr_control s"
    "cr_authed ?t = filter (\<lambda>c. ae_id c \<noteq> ?i) (cr_authed s)"
    "fst ` set (users (cr_qos ?t)) = fst ` set (users (cr_qos s)) - (if needs_video (ae_type c) then {?i} else {})"
    by (auto simp: authed_conn_drop_def Let_def users_close)
  have inj: "inj_on ae_id (set (cr_authed s))"
    using assms(1) by (simp add: reg_inv_def ids_inv_def distinct_map)
  have "ids_inv ?t"
    using assms(1) unfolding reg_inv_def ids_inv_def f by (auto simp: distinct_map intro: inj_on_subset)
  moreover have "video_ids ?t = video_ids s - {?i}"
    by (auto simp: video_ids_def f)
  moreover have "\<not> needs_video (ae_type c) \<Longrightarrow> ?i \<notin> video_ids s"
    using inj assms(2) by (auto simp: video_ids_def inj_on_def)
  ultimately have "ids_inv ?t" "users_inv ?t"
    using assms(1) by (auto simp: reg_inv_def users_inv_def f(5))
  moreover have "wake_inv ?t"
    by (simp add: authed_conn_drop_def Let_def check_wake_lock_inv)
  ultimately show ?thesis by (simp add: reg_inv_def)
qed

lemma conn_drop_inv:
  assumes "reg_inv s" and "i \<notin> ae_id ` set (cr_authed s)" and "cp = None \<Longrightarrow> i \<notin> fst ` set (cr_control s)"
  shows "reg_inv (connection_id_drop i (control_permissions_drop i cp s))"
proof -
  let ?t = "connection_id_drop i (control_permissions_drop i cp s)"
  have f: "id_count ?t = id_count s" "cr_alive ?t = filter (\<lambda>c. c \<noteq> i) (cr_alive s)" "cr_authed ?t = cr_authed s"
    "cr_qos ?t = cr_qos s" "wake_queue ?t = wake_queue s" "wakelock ?t = wakelock s" "wl_option ?t = wl_option s"
    by (simp_all add: connection_id_drop_def control_permissions_drop_def)
  have "fst ` set (cr_control ?t) = fst ` set (cr_control s) - {i}"
    using assms(3) by (cases cp) (force simp: connection_id_drop_def control_permissions_drop_def)+
  then have "ids_inv ?t"
    using assms(1,2) unfolding reg_inv_def ids_inv_def f by auto
  moreover have "users_inv ?t"
    using assms(1) by (simp add: reg_inv_def users_inv_def video_ids_def f)
  moreover have "wake_inv ?t"
    by (rule wake_inv_cong [of s]) (use assms(1) in \<open>simp_all add: reg_inv_def f\<close>)
  ultimately show ?thesis by (simp add: reg_inv_def)
qed

lemma conn_end_inv:
  assumes "reg_inv s" and "cp = None \<Longrightarrow> i \<notin> fst ` set (cr_control s)"
  shows "reg_inv (conn_end now i cp s)"
proof (cases "find (\<lambda>c. ae_id c = i) (cr_authed s)")
  case None
  then have "i \<notin> ae_id ` set (cr_authed s)"
    by (auto simp: find_None_iff)
  with None conn_drop_inv [OF assms(1)] assms(2) show ?thesis
    by (simp add: conn_end_def)
next
  case (Some c)
  then have c: "c \<in> set (cr_authed s)" "ae_id c = i"
    by (auto simp: find_Some_iff)
  let ?u = "authed_conn_drop now i (ae_type c) s"
  have "cr_control ?u = cr_control s" "i \<notin> ae_id ` set (cr_authed ?u)"
    by (auto simp: authed_conn_drop_def Let_def)
  with conn_drop_inv [of ?u i cp] authed_conn_drop_inv [OF assms(1) c(1), of now] assms(2) c(2) show ?thesis
    by (simp add: conn_end_def Some)
qed

lemma wakelock_step_inv:
  assumes "reg_inv s"
  shows "reg_inv (wakelock_step keep s)"
proof (cases "wake_queue s")
  case Nil
  with assms show ?thesis by (simp add: wakelock_step_def)
next
  case (Cons m q)
  obtain n r where m: "m = (n, r)" by (cases m)
  let ?t = "wakelock_step keep s"
  have f: "id_count ?t = id_count s" "cr_alive ?t = cr_alive s" "cr_authed ?t = cr_authed s"
    "cr_control ?t = cr_control s" "cr_qos ?t = cr_qos s" "wake_queue ?t = q" "wl_option ?t = Some keep"
    "(wakelock ?t \<noteq> None) = (n \<noteq> 0 \<and> keep)"
    by (simp_all add: wakelock_step_def Cons m Let_def split: option.splits)
  have "wake_inv s" using assms by (simp add: reg_inv_def)
  then have "wake_inv ?t"
    unfolding wake_inv_def f remote_count_def by (cases q) (auto simp: Cons m)
  then show ?thesis
    using assms by (simp add: reg_inv_def ids_inv_def users_inv_def video_ids_def f)
qed

lemma reg_step_inv: "reg_step s t \<Longrightarrow> reg_inv s \<Longrightarrow> reg_inv t"
proof (induction rule: reg_step.induct)
  case (second s current)
  then show ?case
    using check_wake_lock_inv [of s]
    by (auto simp: check_wake_lock_on_setting_changed_def reg_inv_def ids_inv_def users_inv_def video_ids_def)
next
  case (quality q s)
  moreover have "wake_inv (s\<lparr>cr_qos := q\<rparr>)"
    by (rule wake_inv_cong [of s]) (use quality in \<open>simp_all add: reg_inv_def\<close>)
  ultimately show ?case
    by (simp add: reg_inv_def ids_inv_def users_inv_def video_ids_def)
qed (simp_all add: conn_start_inv authed_conn_new_inv conn_end_inv wakelock_step_inv)

lemma reachable_inv: "reg_reachable s \<Longrightarrow> reg_inv s"
proof -
  assume "reg_reachable s"
  then obtain r now where "reg_step\<^sup>*\<^sup>* (registry_start r now) s" by (auto simp: reg_reachable_def)
  then show ?thesis
  proof (induction rule: rtranclp_induct)
    case base
    have "0 \<le> sgn r * (\<bar>r\<bar> mod 1000) + 1000"
      by (cases "r < 0") (auto simp: sgn_if intro: order.trans [OF _ pos_mod_bound [THEN less_imp_le]])
    then show ?case
      by (simp add: registry_start_def reg_inv_def ids_inv_def users_inv_def video_ids_def wake_inv_def qos_default_def)
  qed (rule reg_step_inv)
qed

text \<open>
  C22. In every reachable state, as long as the counter of ids has not wrapped around (after two
  thousand million connections), ids are unique, only live connections are authorized or hold
  control permissions, and the users of the video quality controller are exactly the
  authorized remote control and camera connections. So when no connection is left, the
  controller has no user and no control permission applies.
\<close>

theorem registry_consistent:
  assumes "reg_reachable s"
  shows "distinct (cr_alive s) \<and> distinct (map ae_id (cr_authed s))
    \<and> ae_id ` set (cr_authed s) \<union> fst ` set (cr_control s) \<subseteq> set (cr_alive s)
    \<and> fst ` set (users (cr_qos s)) = {i. \<exists>c \<in> set (cr_authed s). ae_id c = i \<and> needs_video (ae_type c)}
    \<and> (cr_alive s = [] \<longrightarrow> users (cr_qos s) = [] \<and> get_control_permission_state s perm first = None)"
proof -
  have inv: "ids_inv s" "users_inv s" using reachable_inv [OF assms] by (simp_all add: reg_inv_def)
  have users: "fst ` set (users (cr_qos s)) = {i. \<exists>c \<in> set (cr_authed s). ae_id c = i \<and> needs_video (ae_type c)}"
    using inv(2) by (auto simp: users_inv_def video_ids_def)
  have "cr_authed s = [] \<and> cr_control s = []" if "cr_alive s = []"
    using inv(1) that by (simp add: ids_inv_def)
  then show ?thesis
    using inv(1) users by (auto simp: ids_inv_def get_control_permission_state_def)
qed

lemma sample_start: "reg_reachable (conn_start None (registry_start 0 0))"
proof -
  have "reg_step (registry_start 0 0) (conn_start None (registry_start 0 0))"
    by (rule reg_step.start) (simp add: registry_start_def)
  then show ?thesis
    unfolding reg_reachable_def by blast
qed

theorem registry_consistent_witness:
  "distinct (cr_alive (conn_start None (registry_start 0 0))) \<and> users (cr_qos (conn_end 5 1001 None (conn_start None (registry_start 0 0)))) = []"
proof -
  let ?s = "conn_start None (registry_start 0 0)"
  have s: "cr_alive ?s = [1001]" "cr_control ?s = []" "cr_authed ?s = []"
    by (simp_all add: conn_start_def get_new_id_def registry_start_def connection_id_new_def control_permissions_new_def Let_def)
  have "reg_step ?s (conn_end 5 1001 None ?s)"
    by (rule reg_step.finish) (simp_all add: s)
  then have r: "reg_reachable (conn_end 5 1001 None ?s)"
    using sample_start unfolding reg_reachable_def by (meson rtranclp.rtrancl_into_rtrancl)
  have "cr_alive (conn_end 5 1001 None ?s) = []"
    by (simp add: conn_end_def connection_id_drop_def control_permissions_drop_def s)
  then show ?thesis
    using registry_consistent [OF sample_start] registry_consistent [OF r] by blast
qed

text \<open>
  Whenever the wake lock thread has caught up, it holds the lock exactly when some
  connection is authorized and the option read with the last message was on.
\<close>

theorem wakelock_follows:
  assumes "reg_reachable s" and "wake_queue s = []"
  shows "wakelock s \<noteq> None \<longleftrightarrow> cr_authed s \<noteq> [] \<and> wl_option s = Some True"
  using reachable_inv [OF assms(1)] assms(2) by (simp add: reg_inv_def wake_inv_def)

theorem wakelock_follows_witness:
  "wakelock (wakelock_step True (authed_conn_new 0 [] 1001 Remote True True (conn_start None (registry_start 0 0)))) \<noteq> None"
proof -
  let ?s = "conn_start None (registry_start 0 0)"
  let ?a = "authed_conn_new 0 [] 1001 Remote True True ?s"
  have s: "cr_alive ?s = [1001]" "cr_authed ?s = []" "wake_queue ?s = []"
    by (simp_all add: conn_start_def get_new_id_def registry_start_def connection_id_new_def control_permissions_new_def Let_def)
  have "reg_step ?s ?a"
    by (rule reg_step.authorize) (simp_all add: s)
  moreover have "reg_step ?a (wakelock_step True ?a)"
    by (rule reg_step.wake)
  ultimately have r: "reg_reachable (wakelock_step True ?a)"
    using sample_start unfolding reg_reachable_def by (meson rtranclp.rtrancl_into_rtrancl)
  have "wake_queue ?a = [(1, 1)]" "cr_authed ?a \<noteq> []"
    by (simp_all add: authed_conn_new_def needs_video_def check_wake_lock_def remote_count_def s Let_def)
  then have "wake_queue (wakelock_step True ?a) = []" "cr_authed (wakelock_step True ?a) \<noteq> []"
    "wl_option (wakelock_step True ?a) = Some True"
    by (simp_all add: wakelock_step_def Let_def split: option.splits)
  then show ?thesis
    using wakelock_follows [OF r] by simp
qed

end
