(* ===== verification/Services.thy ===== *)
theory Services
  imports Prelude
begin

text \<open>
  The services that produce what a connection receives and the server that subscribes
  connections to them: \<open>src/src/server/service.rs\<close> and the \<open>Server\<close> of
  \<open>src/src/server.rs\<close>, with the service names of \<open>server/video_service.rs\<close>.

  A subscriber is the id of its connection; a hash map of subscribers is the list of its
  keys. An operation returns the messages it hands to connections. What several threads
  do to a service is a sequence of critical sections: a snapshot is a number of sends to
  the new subscribers followed by the swap, and other operations may come between.
\<close>


section \<open>A service\<close>

record svc =
  sv_name :: string
  subscribes :: "int list"
  new_subscribes :: "int list"
  sv_active :: bool
  need_snapshot :: bool
  sv_options :: "(string \<times> string) list"

definition service_new :: "string \<Rightarrow> bool \<Rightarrow> svc" where
  "service_new name snap = \<lparr>sv_name = name, subscribes = [], new_subscribes = [], sv_active = True,
     need_snapshot = snap, sv_options = []\<rparr>"

definition send_new_subscribes :: "'m \<Rightarrow> svc \<Rightarrow> (int \<times> 'm) list" where
  "send_new_subscribes m s = map (\<lambda>i. (i, m)) (new_subscribes s)"

definition swap_new_subscribes :: "svc \<Rightarrow> svc" where
  "swap_new_subscribes s = s\<lparr>subscribes := fold List.insert (new_subscribes s) (subscribes s), new_subscribes := []\<rparr>"

definition has_subscribes :: "svc \<Rightarrow> bool" where
  "has_subscribes s \<longleftrightarrow> length (subscribes s) > 0 \<or> length (new_subscribes s) > 0"

definition is_subed :: "int \<Rightarrow> svc \<Rightarrow> bool" where
  "is_subed i s \<longleftrightarrow> i \<in> set (subscribes s) \<or> i \<in> set (new_subscribes s)"

definition on_subscribe :: "int \<Rightarrow> svc \<Rightarrow> svc" where
  "on_subscribe i s =
     (if i \<in> set (subscribes s) then s
      else if need_snapshot s then s\<lparr>new_subscribes := List.insert i (new_subscribes s)\<rparr>
      else s\<lparr>subscribes := List.insert i (subscribes s)\<rparr>)"

definition on_unsubscribe :: "int \<Rightarrow> svc \<Rightarrow> svc" where
  "on_unsubscribe i s =
     (if i \<in> set (subscribes s) then s\<lparr>subscribes := removeAll i (subscribes s)\<rparr>
      else s\<lparr>new_subscribes := removeAll i (new_subscribes s)\<rparr>)"

definition join :: "svc \<Rightarrow> svc" where
  "join s = s\<lparr>sv_active := False\<rparr>"

definition sv_get_option :: "string \<Rightarrow> svc \<Rightarrow> string option" where
  "sv_get_option opt s = map_of (sv_options s) opt"

definition sv_set_option :: "string \<Rightarrow> string \<Rightarrow> svc \<Rightarrow> svc" where
  "sv_set_option opt val s = s\<lparr>sv_options := AList.update opt val (sv_options s)\<rparr>"

definition ok :: "svc \<Rightarrow> bool" where
  "ok s \<longleftrightarrow> sv_active s \<and> has_subscribes s"

definition is_option_true :: "string \<Rightarrow> svc \<Rightarrow> bool" where
  "is_option_true opt s \<longleftrightarrow> (case sv_get_option opt s of None \<Rightarrow> False | Some v \<Rightarrow> v = ''1'')"

definition set_option_bool :: "string \<Rightarrow> bool \<Rightarrow> svc \<Rightarrow> svc" where
  "set_option_bool opt val s = sv_set_option opt (if val then ''1'' else ''0'') s"

definition send_shared :: "'m \<Rightarrow> svc \<Rightarrow> (int \<times> 'm) list" where
  "send_shared m s = map (\<lambda>i. (i, m)) (subscribes s)"

definition send_to :: "'m \<Rightarrow> int \<Rightarrow> svc \<Rightarrow> (int \<times> 'm) list" where
  "send_to m i s = (if i \<in> set (subscribes s) then [(i, m)] else [])"

definition send_to_others :: "'m \<Rightarrow> int \<Rightarrow> svc \<Rightarrow> (int \<times> 'm) list" where
  "send_to_others m i s = map (\<lambda>j. (j, m)) (filter (\<lambda>j. j \<noteq> i) (subscribes s))"

text \<open>Video frames are sent like other messages; the ids of the receivers are returned.\<close>

definition send_video_frame :: "'m \<Rightarrow> svc \<Rightarrow> (int \<times> 'm) list \<times> int set" where
  "send_video_frame m s = (send_shared m s, set (subscribes s))"

text \<open>What the threads do to a service, one critical section at a time.\<close>

datatype 'm svc_op =
    Sub int
  | Unsub int
  | SnapSend 'm
  | SnapEnd
  | Send 'm
  | SendTo 'm int
  | SendOthers 'm int
  | SetOption string string
  | Join

fun svc_step :: "'m svc_op \<Rightarrow> svc \<Rightarrow> svc \<times> (int \<times> 'm) list" where
  "svc_step (Sub i) s = (on_subscribe i s, [])"
| "svc_step (Unsub i) s = (on_unsubscribe i s, [])"
| "svc_step (SnapSend m) s = (s, send_new_subscribes m s)"
| "svc_step SnapEnd s = (swap_new_subscribes s, [])"
| "svc_step (Send m) s = (s, send_shared m s)"
| "svc_step (SendTo m i) s = (s, send_to m i s)"
| "svc_step (SendOthers m i) s = (s, send_to_others m i s)"
| "svc_step (SetOption k v) s = (sv_set_option k v s, [])"
| "svc_step Join s = (join s, [])"

fun svc_run :: "'m svc_op list \<Rightarrow> svc \<Rightarrow> svc \<times> (int \<times> 'm) list" where
  "svc_run [] s = (s, [])"
| "svc_run (op # ops) s = (let (s1, ms) = svc_step op s; (s2, ms') = svc_run ops s1 in (s2, ms @ ms'))"

definition received :: "int \<Rightarrow> (int \<times> 'm) list \<Rightarrow> 'm list" where
  "received i ms = map snd (filter (\<lambda>(j, _). j = i) ms)"


section \<open>The threads of a service\<close>

abbreviation HIBERNATE_TIMEOUT :: nat where
  "HIBERNATE_TIMEOUT \<equiv> 30"

abbreviation MAX_ERROR_TIMEOUT :: nat where
  "MAX_ERROR_TIMEOUT \<equiv> 1000"

text \<open>
  \<open>repeat\<close>: one pass over the service as the pass finds it, with the flag that the state
  was initialized. The loop ends at the first pass that finds the service inactive.
\<close>

datatype repeat_act = StateInit | Callback | StateReset

definition repeat_turn :: "svc \<Rightarrow> bool \<Rightarrow> bool \<times> repeat_act list" where
  "repeat_turn s may_reset =
     (if has_subscribes s then (True, (if \<not> may_reset then [StateInit] else []) @ [Callback])
      else if may_reset then (False, [StateReset])
      else (False, []))"

fun repeat_loop :: "svc list \<Rightarrow> bool \<Rightarrow> repeat_act list" where
  "repeat_loop [] may_reset = []"
| "repeat_loop (s # ss) may_reset =
     (if sv_active s then (let (r, acts) = repeat_turn s may_reset in acts @ repeat_loop ss r) else [])"

text \<open>
  \<open>run\<close>: the pause after a callback that failed after \<open>elapsed\<close> milliseconds, from the
  pause before it. A pass that succeeds keeps it.
\<close>

definition next_error_timeout :: "nat \<Rightarrow> nat \<Rightarrow> nat" where
  "next_error_timeout elapsed t =
     (let t1 = (if elapsed > MAX_ERROR_TIMEOUT then HIBERNATE_TIMEOUT else t * 2)
      in if t1 > MAX_ERROR_TIMEOUT then MAX_ERROR_TIMEOUT else t1)"

text \<open>The pauses of a run of failures, each with the time its callback took.\<close>

fun error_timeouts :: "nat list \<Rightarrow> nat \<Rightarrow> nat list" where
  "error_timeouts [] t = []"
| "error_timeouts (e # es) t = (let t1 = next_error_timeout e t in t1 # error_timeouts es t1)"


section \<open>The server\<close>

record server =
  sr_connections :: "int list"
  sr_services :: "(string \<times> svc) list"

text \<open>A video source is a camera or a monitor.\<close>

definition service_name_prefix :: "bool \<Rightarrow> string" where
  "service_name_prefix camera = (if camera then ''camera'' else ''monitor'')"

definition get_service_name :: "bool \<Rightarrow> nat \<Rightarrow> string" where
  "get_service_name camera idx = service_name_prefix camera @ show_nat idx"

definition is_video_service_name :: "string \<Rightarrow> bool" where
  "is_video_service_name name \<longleftrightarrow> prefix (service_name_prefix False) name \<or> prefix (service_name_prefix True) name"

definition PRIMARY_CAMERA_IDX :: nat where
  "PRIMARY_CAMERA_IDX = 0"

definition add_service :: "svc \<Rightarrow> server \<Rightarrow> server" where
  "add_service s srv = srv\<lparr>sr_services := AList.update (sv_name s) s (sr_services srv)\<rparr>"

definition contains :: "string \<Rightarrow> server \<Rightarrow> bool" where
  "contains name srv \<longleftrightarrow> map_of (sr_services srv) name \<noteq> None"

text \<open>\<open>server::new\<close> on Windows: the cursor may be part of the picture, the printer may fail.\<close>

definition server_new :: "bool \<Rightarrow> bool \<Rightarrow> server" where
  "server_new cursor_embedded printer =
     fold add_service
       ([service_new ''audio'' True, service_new ''display'' True, service_new ''clipboard'' False]
        @ (if cursor_embedded then []
           else [service_new ''mouse_cursor'' True, service_new ''mouse_pos'' False, service_new ''window_focus'' False])
        @ (if printer then [service_new ''remote-printer'' False] else []))
       \<lparr>sr_connections = [], sr_services = []\<rparr>"

definition video_service_new :: "bool \<Rightarrow> nat \<Rightarrow> svc" where
  "video_service_new camera idx = service_new (get_service_name camera idx) True"

definition try_add_video_service :: "bool \<Rightarrow> nat \<Rightarrow> server \<Rightarrow> server" where
  "try_add_video_service camera idx srv =
     (if \<not> contains (get_service_name camera idx) srv then add_service (video_service_new camera idx) srv else srv)"

definition try_add_primary_camera_service :: "bool \<Rightarrow> server \<Rightarrow> server" where
  "try_add_primary_camera_service camera_exists srv =
     (if \<not> camera_exists then srv else try_add_video_service True PRIMARY_CAMERA_IDX srv)"

definition try_add_primay_video_service :: "nat \<Rightarrow> server \<Rightarrow> server" where
  "try_add_primay_video_service primary srv = try_add_video_service False primary srv"

definition put_conn :: "int \<Rightarrow> server \<Rightarrow> server" where
  "put_conn c srv = srv\<lparr>sr_connections := List.insert c (sr_connections srv)\<rparr>"

definition add_camera_connection :: "bool \<Rightarrow> int \<Rightarrow> server \<Rightarrow> server" where
  "add_camera_connection camera_exists c srv =
     put_conn c
       (if camera_exists then
          (let name = get_service_name True PRIMARY_CAMERA_IDX
           in case map_of (sr_services srv) name of
                Some s \<Rightarrow> srv\<lparr>sr_services := AList.update name (on_subscribe c s) (sr_services srv)\<rparr>
              | None \<Rightarrow> srv)
        else srv)"

definition add_connection :: "nat \<Rightarrow> int \<Rightarrow> string list \<Rightarrow> server \<Rightarrow> server" where
  "add_connection primary c noperms srv =
     put_conn c
       (srv\<lparr>sr_services :=
          AList.map_ran
            (\<lambda>_ s. if is_video_service_name (sv_name s) \<and> sv_name s \<noteq> get_service_name False primary then s
                   else if sv_name s \<notin> set noperms then on_subscribe c s else s)
            (sr_services srv)\<rparr>)"

definition remove_connection :: "int \<Rightarrow> server \<Rightarrow> server" where
  "remove_connection c srv =
     srv\<lparr>sr_services := AList.map_ran (\<lambda>_ s. on_unsubscribe c s) (sr_services srv),
         sr_connections := removeAll c (sr_connections srv)\<rparr>"

definition close_connections :: "'m \<Rightarrow> server \<Rightarrow> (int \<times> 'm) list" where
  "close_connections stop_msg srv = map (\<lambda>i. (i, stop_msg)) (sr_connections srv)"

definition subscribe :: "string \<Rightarrow> int \<Rightarrow> bool \<Rightarrow> server \<Rightarrow> server" where
  "subscribe name c sub srv =
     (case map_of (sr_services srv) name of
        None \<Rightarrow> srv
      | Some s \<Rightarrow>
          if is_subed c s = sub then srv
          else srv\<lparr>sr_services :=
                 AList.update name (if sub then on_subscribe c s else on_unsubscribe c s) (sr_services srv)\<rparr>)"

definition set_video_service_opt :: "(bool \<times> nat) option \<Rightarrow> string \<Rightarrow> string \<Rightarrow> server \<Rightarrow> server" where
  "set_video_service_opt display opt val srv =
     srv\<lparr>sr_services :=
        AList.map_ran
          (\<lambda>k s. if (case display of None \<Rightarrow> True | Some (camera, d) \<Rightarrow> k = get_service_name camera d)
                    \<and> is_video_service_name k
                 then sv_set_option opt val s else s)
          (sr_services srv)\<rparr>"

definition get_subbed_displays_count :: "int \<Rightarrow> server \<Rightarrow> nat" where
  "get_subbed_displays_count c srv =
     length (filter (\<lambda>k. is_video_service_name k
         \<and> (case map_of (sr_services srv) k of Some s \<Rightarrow> is_subed c s | None \<Rightarrow> False))
       (map fst (sr_services srv)))"

definition capture_displays :: "int \<Rightarrow> string list \<Rightarrow> bool \<Rightarrow> bool \<Rightarrow> server \<Rightarrow> server" where
  "capture_displays c displays incl excl srv =
     fold (\<lambda>name srv.
         if is_video_service_name name then
           (if name \<in> set displays then (if incl then subscribe name c True srv else srv)
            else (if excl then subscribe name c False srv else srv))
         else srv)
       (map fst (sr_services srv)) srv"


section \<open>Subscriptions of one service\<close>

text \<open>What the server relies on: a set of members that subscribing and unsubscribing change.\<close>

locale subscription =
  fixes members :: "'s \<Rightarrow> int set" and sub :: "int \<Rightarrow> 's \<Rightarrow> 's" and unsub :: "int \<Rightarrow> 's \<Rightarrow> 's"
    and wf :: "'s \<Rightarrow> bool"
  assumes members_sub: "wf s \<Longrightarrow> members (sub i s) = insert i (members s)"
    and members_unsub: "wf s \<Longrightarrow> members (unsub i s) = members s - {i}"
    and wf_sub: "wf s \<Longrightarrow> wf (sub i s)"
    and wf_unsub: "wf s \<Longrightarrow> wf (unsub i s)"
begin

lemma sub_idem: "wf s \<Longrightarrow> i \<in> members s \<Longrightarrow> members (sub i s) = members s"
  by (auto simp: members_sub)

lemma unsub_sub: "wf s \<Longrightarrow> i \<notin> members s \<Longrightarrow> members (unsub i (sub i s)) = members s"
  by (auto simp: members_sub members_unsub wf_sub)

lemma set_membership:
  assumes "wf s"
  shows "members (if i \<in> members s \<longleftrightarrow> b then s else if b then sub i s else unsub i s)
    = (if b then insert i (members s) else members s - {i})"
    and "wf (if i \<in> members s \<longleftrightarrow> b then s else if b then sub i s else unsub i s)"
  using assms by (auto simp: members_sub members_unsub wf_sub wf_unsub)

end

definition members :: "svc \<Rightarrow> int set" where
  "members s = set (subscribes s) \<union> set (new_subscribes s)"

definition svc_wf :: "svc \<Rightarrow> bool" where
  "svc_wf s \<longleftrightarrow> distinct (subscribes s) \<and> distinct (new_subscribes s)
     \<and> set (subscribes s) \<inter> set (new_subscribes s) = {} \<and> (need_snapshot s \<or> new_subscribes s = [])"

lemma is_subed_members: "is_subed i s \<longleftrightarrow> i \<in> members s"
  by (simp add: is_subed_def members_def)

interpretation service: subscription members on_subscribe on_unsubscribe svc_wf
  by unfold_locales (auto simp: members_def svc_wf_def on_subscribe_def on_unsubscribe_def distinct_removeAll)

lemma set_fold_insert [simp]: "set (fold List.insert xs ys) = set xs \<union> set ys"
  by (induction xs arbitrary: ys) auto

lemma distinct_fold_insert: "distinct ys \<Longrightarrow> distinct (fold List.insert xs ys)"
  by (induction xs arbitrary: ys) auto

lemma service_new_wf [simp]: "svc_wf (service_new n b)" "members (service_new n b) = {}" "sv_name (service_new n b) = n"
  by (simp_all add: svc_wf_def service_new_def members_def)

lemma sv_name_keeps [simp]:
  "sv_name (on_subscribe i s) = sv_name s" "sv_name (on_unsubscribe i s) = sv_name s"
  "sv_name (swap_new_subscribes s) = sv_name s" "sv_name (sv_set_option k v s) = sv_name s" "sv_name (join s) = sv_name s"
  by (simp_all add: on_subscribe_def on_unsubscribe_def swap_new_subscribes_def sv_set_option_def join_def)

lemma other_ops_members [simp]:
  "members (swap_new_subscribes s) = members s" "members (sv_set_option k v s) = members s" "members (join s) = members s"
  by (auto simp: members_def swap_new_subscribes_def sv_set_option_def join_def)

lemma other_ops_wf [simp]:
  "svc_wf s \<Longrightarrow> svc_wf (swap_new_subscribes s)"
  "svc_wf (sv_set_option k v s) = svc_wf s" "svc_wf (join s) = svc_wf s"
  by (auto simp: svc_wf_def swap_new_subscribes_def sv_set_option_def join_def distinct_fold_insert)

text \<open>What a step does to the members, and whom its messages reach.\<close>

fun member_step :: "'m svc_op \<Rightarrow> int set \<Rightarrow> int set" where
  "member_step (Sub i) A = insert i A"
| "member_step (Unsub i) A = A - {i}"
| "member_step _ A = A"

lemma sends_to_members:
  "fst ` set (send_new_subscribes m s) \<subseteq> members s" "fst ` set (send_shared m s) \<subseteq> members s"
  "fst ` set (send_to m i s) \<subseteq> members s" "fst ` set (send_to_others m i s) \<subseteq> members s"
  by (auto simp: send_new_subscribes_def send_shared_def send_to_def send_to_others_def members_def)

lemma svc_step_members:
  assumes "svc_wf s"
  shows "members (fst (svc_step op s)) = member_step op (members s)"
    and "svc_wf (fst (svc_step op s))"
    and "sv_name (fst (svc_step op s)) = sv_name s"
    and "fst ` set (snd (svc_step op s)) \<subseteq> members s"
  using assms
  by (cases op; simp add: sends_to_members service.members_sub service.members_unsub service.wf_sub service.wf_unsub)+


section \<open>The snapshot comes first\<close>

lemma received_simps [simp]:
  "received i [] = []" "received i (xs @ ys) = received i xs @ received i ys"
  "received i ((j, m) # ms) = (if j = i then [m] else []) @ received i ms"
  by (simp_all add: received_def)

lemma received_none: "i \<notin> fst ` set ms \<Longrightarrow> received i ms = []"
  by (force simp: received_def filter_empty_conv)

lemma received_map: "distinct js \<Longrightarrow> received i (map (\<lambda>j. (j, m)) js) = (if i \<in> set js then [m] else [])"
  by (induction js) auto

lemma svc_run_append:
  "svc_run (xs @ ys) s = (let (s1, ms) = svc_run xs s; (s2, ms') = svc_run ys s1 in (s2, ms @ ms'))"
  by (induction xs arbitrary: s) (auto simp: case_prod_beta Let_def)

text \<open>While nothing swaps and \<open>i\<close> stays, a new subscriber gets no regular message.\<close>

definition waiting :: "int \<Rightarrow> svc \<Rightarrow> bool" where
  "waiting i s \<longleftrightarrow> svc_wf s \<and> need_snapshot s \<and> i \<in> set (new_subscribes s)"

fun quiet :: "int \<Rightarrow> 'm svc_op \<Rightarrow> bool" where
  "quiet i (Unsub j) = (j \<noteq> i)"
| "quiet i SnapEnd = False"
| "quiet i (SnapSend m) = False"
| "quiet i _ = True"

lemma waiting_notin: "waiting i s \<Longrightarrow> i \<notin> set (subscribes s)"
  by (auto simp: waiting_def svc_wf_def)

lemma need_snapshot_step [simp]: "need_snapshot (fst (svc_step op s)) = need_snapshot s"
  by (cases op) (simp_all add: on_subscribe_def on_unsubscribe_def swap_new_subscribes_def sv_set_option_def join_def)

lemma waiting_step:
  assumes "waiting i s" and "op \<noteq> SnapEnd" and "op \<noteq> Unsub i"
  shows "waiting i (fst (svc_step op s))"
    and "received i (snd (svc_step op s)) = (case op of SnapSend m \<Rightarrow> [m] | _ \<Rightarrow> [])"
proof -
  have "svc_wf s" and new: "i \<in> set (new_subscribes s)" "i \<notin> set (subscribes s)" "distinct (new_subscribes s)"
    using assms(1) waiting_notin by (auto simp: waiting_def svc_wf_def)
  have "i \<in> set (new_subscribes (fst (svc_step op s)))"
    using assms(2,3) new
    by (cases op) (auto simp: on_subscribe_def on_unsubscribe_def sv_set_option_def join_def)
  then show "waiting i (fst (svc_step op s))"
    using assms(1) svc_step_members(2) [OF \<open>svc_wf s\<close>] by (simp add: waiting_def)
  show "received i (snd (svc_step op s)) = (case op of SnapSend m \<Rightarrow> [m] | _ \<Rightarrow> [])"
    using new
    by (cases op) (auto simp: send_new_subscribes_def received_map send_shared_def send_to_def send_to_others_def
        intro!: received_none)
qed

lemma quiet_run:
  assumes "waiting i s" and "list_all (quiet i) ops"
  shows "waiting i (fst (svc_run ops s)) \<and> received i (snd (svc_run ops s)) = []"
  using assms
proof (induction ops arbitrary: s)
  case (Cons op ops)
  have q: "op \<noteq> SnapEnd" "op \<noteq> Unsub i" and ns: "\<And>m. op \<noteq> SnapSend m"
    using Cons.prems(2) by auto
  have "received i (snd (svc_step op s)) = []"
    using waiting_step(2) [OF Cons.prems(1) q] ns by (cases op) auto
  then show ?case
    using Cons.IH [OF waiting_step(1) [OF Cons.prems(1) q]] Cons.prems(2)
    by (simp add: case_prod_beta Let_def)
qed simp

text \<open>
  The snapshot comes before anything else. A connection that subscribes to a service with
  a snapshot receives nothing until the next snapshot is sent, whatever the service sends
  meanwhile; it receives this snapshot, and the swap that follows makes it a subscriber of
  the regular messages.
\<close>

theorem snapshot_first:
  assumes "svc_wf s" and "need_snapshot s" and "i \<notin> members s" and "list_all (quiet i) ops" and "list_all (quiet i) ops'"
  shows "received i (snd (svc_run (Sub i # ops @ SnapSend m # ops' @ [SnapEnd, Send m']) s)) = [m, m']"
proof -
  have "waiting i (on_subscribe i s)"
    using assms(2,3) service.wf_sub [OF assms(1), of i] by (auto simp: waiting_def on_subscribe_def members_def)
  note w1 = quiet_run [OF this assms(4)]
  let ?s1 = "fst (svc_run ops (on_subscribe i s))"
  have w2: "waiting i ?s1" "received i (send_new_subscribes m ?s1) = [m]"
    using w1 waiting_step(2) [of i ?s1 "SnapSend m"] by auto
  note w3 = quiet_run [OF w2(1) assms(5)]
  let ?s3 = "swap_new_subscribes (fst (svc_run ops' ?s1))"
  have "i \<in> set (subscribes ?s3)" "distinct (subscribes ?s3)"
    using w3 by (auto simp: waiting_def swap_new_subscribes_def svc_wf_def distinct_fold_insert)
  then have "received i (send_shared m' ?s3) = [m']"
    by (simp add: send_shared_def received_map)
  then show ?thesis
    using w1 w2(2) w3 by (simp add: svc_run_append case_prod_beta Let_def)
qed

theorem snapshot_first_witness:
  "received 7 (snd (svc_run [Sub 7, Send ''frame'', Sub 8, SnapSend ''key'', SnapEnd, Send ''next'']
      (service_new ''monitor0'' True))) = [''key'', ''next'']"
  using snapshot_first [of "service_new ''monitor0'' True" 7 "[Send ''frame'', Sub 8]" "[]" "''key''" "''next''"]
  by (simp add: service_new_def members_def svc_wf_def)

text \<open>
  A subscriber that comes while a snapshot is under way misses it. Between the send of a
  snapshot and its end the lock is free; a connection that subscribes in between becomes a
  subscriber without having received anything, and no later snapshot reaches it as long as
  it stays.
\<close>

theorem late_subscriber_misses_snapshot:
  assumes "svc_wf s" and "need_snapshot s" and "i \<notin> members s"
    and "list_all (\<lambda>op. op \<noteq> Unsub i \<and> (\<exists>m. op = SnapSend m \<or> op = SnapEnd \<or> (\<exists>j. op = Sub j))) ops"
  shows "received i (snd (svc_run (SnapSend m # Sub i # SnapEnd # ops) s)) = []"
proof -
  have quiet_ops: "received i (snd (svc_run ops t)) = []" if "svc_wf t" "i \<in> set (subscribes t)" for t
    using assms(4) that
  proof (induction ops arbitrary: t)
    case (Cons op ops)
    have "i \<notin> set (new_subscribes t)"
      using Cons.prems(2,3) by (auto simp: svc_wf_def)
    then have "received i (snd (svc_step op t)) = []" and "i \<in> set (subscribes (fst (svc_step op t)))"
      using Cons.prems
      by (auto simp: send_new_subscribes_def swap_new_subscribes_def on_subscribe_def intro!: received_none)
    then show ?case
      using Cons.IH [OF _ svc_step_members(2) [OF Cons.prems(2)]] Cons.prems(1)
      by (simp add: case_prod_beta Let_def)
  qed simp
  have none: "received i (send_new_subscribes m s) = []"
    using assms(3) by (auto simp: send_new_subscribes_def members_def intro!: received_none)
  have "i \<in> set (subscribes (swap_new_subscribes (on_subscribe i s)))"
    using assms(2,3) by (simp add: swap_new_subscribes_def on_subscribe_def members_def)
  then have "received i (snd (svc_run ops (swap_new_subscribes (on_subscribe i s)))) = []"
    using quiet_ops service.wf_sub [OF assms(1)] by simp
  then show ?thesis
    using none by (simp add: case_prod_beta Let_def)
qed

theorem late_subscriber_misses_snapshot_witness:
  "received 8 (snd (svc_run [SnapSend ''format'', Sub 8, SnapEnd, SnapSend ''format'', SnapEnd]
      (on_subscribe 7 (service_new ''audio'' True)))) = []"
  using late_subscriber_misses_snapshot [of "on_subscribe 7 (service_new ''audio'' True)" 8
      "[SnapSend ''format'', SnapEnd]" "''format''"]
  by (simp add: service_new_def members_def svc_wf_def on_subscribe_def)


section \<open>The server implements a relation between services and connections\<close>

text \<open>The operations of the server, and what a thread of a service does.\<close>

datatype 'm server_op =
    AddVideo bool nat
  | AddConnection nat int "string list"
  | AddCameraConnection bool int
  | RemoveConnection int
  | Subscribed string int bool
  | Capture int "string list" bool bool
  | SetVideoOpt "(bool \<times> nat) option" string string
  | OnService string "'m svc_op"

fun is_service_op :: "'m svc_op \<Rightarrow> bool" where
  "is_service_op (Sub i) = False"
| "is_service_op (Unsub i) = False"
| "is_service_op _ = True"

fun server_step :: "'m server_op \<Rightarrow> server \<Rightarrow> server \<times> (int \<times> 'm) list" where
  "server_step (AddVideo camera idx) srv = (try_add_video_service camera idx srv, [])"
| "server_step (AddConnection primary c noperms) srv =
     (add_connection primary c noperms (try_add_primay_video_service primary srv), [])"
| "server_step (AddCameraConnection ex c) srv =
     (add_camera_connection ex c (try_add_primary_camera_service ex srv), [])"
| "server_step (RemoveConnection c) srv = (remove_connection c srv, [])"
| "server_step (Subscribed name c b) srv = (subscribe name c b srv, [])"
| "server_step (Capture c names incl excl) srv = (capture_displays c names incl excl srv, [])"
| "server_step (SetVideoOpt d opt val) srv = (set_video_service_opt d opt val srv, [])"
| "server_step (OnService name op) srv =
     (case map_of (sr_services srv) name of
        None \<Rightarrow> (srv, [])
      | Some s \<Rightarrow>
          if is_service_op op
          then (srv\<lparr>sr_services := AList.update name (fst (svc_step op s)) (sr_services srv)\<rparr>, snd (svc_step op s))
          else (srv, []))"

fun server_run :: "'m server_op list \<Rightarrow> server \<Rightarrow> server \<times> (int \<times> 'm) list" where
  "server_run [] srv = (srv, [])"
| "server_run (op # ops) srv = (let (s1, ms) = server_step op srv; (s2, ms') = server_run ops s1 in (s2, ms @ ms'))"

text \<open>The specification: the names of the services, and who is subscribed to what.\<close>

type_synonym subscriptions = "string set \<times> (string \<times> int) set"

definition names :: "server \<Rightarrow> string set" where
  "names srv = dom (map_of (sr_services srv))"

definition pairs :: "server \<Rightarrow> (string \<times> int) set" where
  "pairs srv = {(n, i). \<exists>s. map_of (sr_services srv) n = Some s \<and> i \<in> members s}"

definition subs_of :: "server \<Rightarrow> subscriptions" where
  "subs_of srv = (names srv, pairs srv)"

definition offered :: "nat \<Rightarrow> string list \<Rightarrow> string \<Rightarrow> bool" where
  "offered primary noperms n \<longleftrightarrow>
     \<not> (is_video_service_name n \<and> n \<noteq> get_service_name False primary) \<and> n \<notin> set noperms"

fun spec_step :: "'m server_op \<Rightarrow> subscriptions \<Rightarrow> subscriptions" where
  "spec_step (AddVideo camera idx) (N, R) = (insert (get_service_name camera idx) N, R)"
| "spec_step (AddConnection primary c noperms) (N, R) =
     (let N' = insert (get_service_name False primary) N in (N', R \<union> {n \<in> N'. offered primary noperms n} \<times> {c}))"
| "spec_step (AddCameraConnection ex c) (N, R) =
     (if ex then (let n = get_service_name True PRIMARY_CAMERA_IDX in (insert n N, insert (n, c) R)) else (N, R))"
| "spec_step (RemoveConnection c) (N, R) = (N, {(n, i) \<in> R. i \<noteq> c})"
| "spec_step (Subscribed n c b) (N, R) = (N, if n \<in> N then (if b then insert (n, c) R else R - {(n, c)}) else R)"
| "spec_step (Capture c ns incl excl) (N, R) =
     (N, {(n, i) \<in> R. \<not> (excl \<and> i = c \<and> is_video_service_name n \<and> n \<notin> set ns)}
         \<union> (if incl then {n \<in> N. is_video_service_name n \<and> n \<in> set ns} \<times> {c} else {}))"
| "spec_step (SetVideoOpt d opt val) X = X"
| "spec_step (OnService n op) X = X"

definition server_wf :: "server \<Rightarrow> bool" where
  "server_wf srv \<longleftrightarrow> distinct (map fst (sr_services srv))
     \<and> (\<forall>n s. map_of (sr_services srv) n = Some s \<longrightarrow> sv_name s = n \<and> svc_wf s)"

lemma server_wfD: "server_wf srv \<Longrightarrow> map_of (sr_services srv) n = Some s \<Longrightarrow> sv_name s = n \<and> svc_wf s"
  by (simp add: server_wf_def)

text \<open>Replacing one service, and changing them all.\<close>

lemma set_service:
  assumes "server_wf srv" and "sv_name s' = n" and "svc_wf s'"
    and "sr_services srv' = AList.update n s' (sr_services srv)"
  shows "server_wf srv'" and "names srv' = insert n (names srv)"
    and "pairs srv' = {(k, i) \<in> pairs srv. k \<noteq> n} \<union> {n} \<times> members s'"
proof -
  show "server_wf srv'"
    using assms by (auto simp: server_wf_def distinct_update update_conv' split: if_splits)
  show "names srv' = insert n (names srv)"
    using assms(4) by (simp add: names_def update_conv')
  show "pairs srv' = {(k, i) \<in> pairs srv. k \<noteq> n} \<union> {n} \<times> members s'"
    using assms(4) by (auto simp: pairs_def update_conv' split: if_splits)
qed

lemma map_services:
  assumes "server_wf srv" and "\<And>n s. svc_wf s \<Longrightarrow> sv_name s = n \<Longrightarrow> svc_wf (f n s) \<and> sv_name (f n s) = n"
    and "sr_services srv' = AList.map_ran f (sr_services srv)"
  shows "server_wf srv'" and "names srv' = names srv"
    and "pairs srv' = {(n, i). \<exists>s. map_of (sr_services srv) n = Some s \<and> i \<in> members (f n s)}"
proof -
  have "map fst (AList.map_ran f (sr_services srv)) = map fst (sr_services srv)"
    by (induction "sr_services srv") (auto simp: AList.map_ran_def)
  then show "server_wf srv'"
    using assms by (auto simp: server_wf_def map_ran_conv)
  show "names srv' = names srv"
    using assms(3) by (auto simp: names_def map_ran_conv dom_def)
  show "pairs srv' = {(n, i). \<exists>s. map_of (sr_services srv) n = Some s \<and> i \<in> members (f n s)}"
    using assms(3) by (auto simp: pairs_def map_ran_conv)
qed


lemma pairs_names: "(n, i) \<in> pairs srv \<Longrightarrow> n \<in> names srv"
  by (auto simp: pairs_def names_def)

lemma sr_services_put_conn [simp]: "sr_services (put_conn c srv) = sr_services srv"
  by (simp add: put_conn_def)

lemma add_video_refines:
  assumes "server_wf srv"
  shows "server_wf (try_add_video_service camera idx srv)"
    and "names (try_add_video_service camera idx srv) = insert (get_service_name camera idx) (names srv)"
    and "pairs (try_add_video_service camera idx srv) = pairs srv"
proof -
  let ?n = "get_service_name camera idx" and ?srv = "try_add_video_service camera idx srv"
  show "server_wf ?srv" and "names ?srv = insert ?n (names srv)" and "pairs ?srv = pairs srv"
  proof (atomize (full), cases "contains ?n srv")
    case True
    then show "server_wf ?srv \<and> names ?srv = insert ?n (names srv) \<and> pairs ?srv = pairs srv"
      using assms by (auto simp: try_add_video_service_def contains_def names_def)
  next
    case False
    then have "?n \<notin> names srv" and "sr_services ?srv = AList.update ?n (service_new ?n True) (sr_services srv)"
      by (simp_all add: contains_def names_def domIff try_add_video_service_def add_service_def video_service_new_def)
    from set_service [OF assms _ _ this(2)] this(1)
    show "server_wf ?srv \<and> names ?srv = insert ?n (names srv) \<and> pairs ?srv = pairs srv"
      by (auto dest: pairs_names)
  qed
qed

lemma add_connection_refines:
  assumes "server_wf srv"
  shows "server_wf (add_connection primary c noperms srv)"
    and "names (add_connection primary c noperms srv) = names srv"
    and "pairs (add_connection primary c noperms srv) = pairs srv \<union> {n \<in> names srv. offered primary noperms n} \<times> {c}"
proof -
  let ?f = "\<lambda>_ s. if is_video_service_name (sv_name s) \<and> sv_name s \<noteq> get_service_name False primary then s
                   else if sv_name s \<notin> set noperms then on_subscribe c s else s"
  have eq: "sr_services (add_connection primary c noperms srv) = AList.map_ran ?f (sr_services srv)"
    by (simp add: add_connection_def)
  note m = map_services [OF assms _ eq]
  show "server_wf (add_connection primary c noperms srv)" and "names (add_connection primary c noperms srv) = names srv"
    by (rule m; auto simp: service.wf_sub)+
  have "pairs (add_connection primary c noperms srv) =
      {(n, i). \<exists>s. map_of (sr_services srv) n = Some s \<and> i \<in> members (?f n s)}"
    by (rule m) (auto simp: service.wf_sub)
  moreover have mem: "i \<in> members (?f n s) \<longleftrightarrow> i \<in> members s \<or> i = c \<and> offered primary noperms n"
    if "map_of (sr_services srv) n = Some s" for n i s
    using server_wfD [OF assms that] by (auto simp: service.members_sub offered_def)
  moreover have "{(n, i). \<exists>s. map_of (sr_services srv) n = Some s \<and> (i \<in> members s \<or> i = c \<and> offered primary noperms n)}
      = pairs srv \<union> {n \<in> names srv. offered primary noperms n} \<times> {c}"
    by (auto simp: pairs_def names_def)
  ultimately show "pairs (add_connection primary c noperms srv) =
      pairs srv \<union> {n \<in> names srv. offered primary noperms n} \<times> {c}"
    by (simp cong: conj_cong)
qed

lemma remove_connection_refines:
  assumes "server_wf srv"
  shows "server_wf (remove_connection c srv)" and "names (remove_connection c srv) = names srv"
    and "pairs (remove_connection c srv) = {(n, i) \<in> pairs srv. i \<noteq> c}"
proof -
  have eq: "sr_services (remove_connection c srv) = AList.map_ran (\<lambda>_ s. on_unsubscribe c s) (sr_services srv)"
    by (simp add: remove_connection_def)
  note m = map_services [OF assms _ eq]
  show "server_wf (remove_connection c srv)" and "names (remove_connection c srv) = names srv"
    by (rule m; simp add: service.wf_unsub)+
  have "pairs (remove_connection c srv) =
      {(n, i). \<exists>s. map_of (sr_services srv) n = Some s \<and> i \<in> members (on_unsubscribe c s)}"
    by (rule m) (simp add: service.wf_unsub)
  then show "pairs (remove_connection c srv) = {(n, i) \<in> pairs srv. i \<noteq> c}"
    using server_wfD [OF assms] by (fastforce simp: pairs_def service.members_unsub)
qed

lemma subscribe_refines:
  assumes "server_wf srv"
  shows "server_wf (subscribe n c b srv)" and "names (subscribe n c b srv) = names srv"
    and "pairs (subscribe n c b srv) =
      (if n \<in> names srv then (if b then insert (n, c) (pairs srv) else pairs srv - {(n, c)}) else pairs srv)"
proof (atomize (full), cases "map_of (sr_services srv) n")
  case None
  then show "server_wf (subscribe n c b srv) \<and> names (subscribe n c b srv) = names srv \<and> pairs (subscribe n c b srv) =
      (if n \<in> names srv then (if b then insert (n, c) (pairs srv) else pairs srv - {(n, c)}) else pairs srv)"
    using assms by (auto simp: subscribe_def names_def)
next
  case (Some s)
  let ?s = "if c \<in> members s \<longleftrightarrow> b then s else if b then on_subscribe c s else on_unsubscribe c s"
  have s: "sv_name s = n" "svc_wf s" and n: "n \<in> names srv"
    using server_wfD [OF assms Some] Some by (auto simp: names_def)
  have "sr_services (subscribe n c b srv) = AList.update n ?s (sr_services srv)"
    using Some by (auto simp: subscribe_def is_subed_members update_triv)
  note u = set_service [OF assms _ _ this]
  have "pairs (subscribe n c b srv) = {(k, i) \<in> pairs srv. k \<noteq> n} \<union> {n} \<times> members ?s"
    using s service.set_membership(2) [OF s(2), of c b] by (intro u(3)) (auto split: if_splits)
  also have "\<dots> = (if b then insert (n, c) (pairs srv) else pairs srv - {(n, c)})"
    unfolding service.set_membership(1) [OF s(2)] using Some by (auto simp: pairs_def)
  finally show "server_wf (subscribe n c b srv) \<and> names (subscribe n c b srv) = names srv \<and> pairs (subscribe n c b srv) =
      (if n \<in> names srv then (if b then insert (n, c) (pairs srv) else pairs srv - {(n, c)}) else pairs srv)"
    using u(1,2) s n service.set_membership(2) [OF s(2), of c b] by (auto split: if_splits)
qed


definition capture_one :: "int \<Rightarrow> string list \<Rightarrow> bool \<Rightarrow> bool \<Rightarrow> string \<Rightarrow> server \<Rightarrow> server" where
  "capture_one c ns incl excl n srv =
     (if is_video_service_name n then
        (if n \<in> set ns then (if incl then subscribe n c True srv else srv)
         else (if excl then subscribe n c False srv else srv))
      else srv)"

lemma capture_one_refines:
  assumes "server_wf srv"
  shows "server_wf (capture_one c ns incl excl n srv) \<and> names (capture_one c ns incl excl n srv) = names srv
    \<and> pairs (capture_one c ns incl excl n srv) =
        {(k, i) \<in> pairs srv. \<not> (excl \<and> i = c \<and> is_video_service_name k \<and> k \<notin> set ns \<and> k = n)}
        \<union> (if incl \<and> is_video_service_name n \<and> n \<in> set ns \<and> n \<in> names srv then {(n, c)} else {})"
  using assms subscribe_refines [OF assms, of n c]
  by (auto simp: capture_one_def dest: pairs_names)

lemma capture_fold_refines:
  assumes "server_wf srv"
  shows "server_wf (fold (capture_one c ns incl excl) ks srv) \<and> names (fold (capture_one c ns incl excl) ks srv) = names srv
    \<and> pairs (fold (capture_one c ns incl excl) ks srv) =
        {(k, i) \<in> pairs srv. \<not> (excl \<and> i = c \<and> is_video_service_name k \<and> k \<notin> set ns \<and> k \<in> set ks)}
        \<union> (if incl then {n \<in> names srv. is_video_service_name n \<and> n \<in> set ns \<and> n \<in> set ks} \<times> {c} else {})"
  using assms
proof (induction ks arbitrary: srv)
  case (Cons k ks)
  note one = capture_one_refines [OF Cons.prems, of c ns incl excl k]
  show ?case
    using Cons.IH [of "capture_one c ns incl excl k srv"] one by auto
qed auto

lemma capture_refines:
  assumes "server_wf srv"
  shows "server_wf (capture_displays c ns incl excl srv)" and "names (capture_displays c ns incl excl srv) = names srv"
    and "pairs (capture_displays c ns incl excl srv) =
      {(n, i) \<in> pairs srv. \<not> (excl \<and> i = c \<and> is_video_service_name n \<and> n \<notin> set ns)}
      \<union> (if incl then {n \<in> names srv. is_video_service_name n \<and> n \<in> set ns} \<times> {c} else {})"
proof -
  have eq: "capture_displays c ns incl excl srv = fold (capture_one c ns incl excl) (map fst (sr_services srv)) srv"
    unfolding capture_displays_def by (intro fold_cong refl ext) (simp add: capture_one_def)
  have "set (map fst (sr_services srv)) = names srv"
    by (simp add: names_def dom_map_of_conv_image_fst)
  then show "server_wf (capture_displays c ns incl excl srv)" and "names (capture_displays c ns incl excl srv) = names srv"
    and "pairs (capture_displays c ns incl excl srv) =
      {(n, i) \<in> pairs srv. \<not> (excl \<and> i = c \<and> is_video_service_name n \<and> n \<notin> set ns)}
      \<union> (if incl then {n \<in> names srv. is_video_service_name n \<and> n \<in> set ns} \<times> {c} else {})"
    using capture_fold_refines [OF assms, of c ns incl excl "map fst (sr_services srv)"]
    by (auto simp: eq dest: pairs_names)
qed

lemma camera_connection_refines:
  assumes "server_wf srv" and "ex \<Longrightarrow> get_service_name True PRIMARY_CAMERA_IDX \<in> names srv"
  shows "server_wf (add_camera_connection ex c srv)" and "names (add_camera_connection ex c srv) = names srv"
    and "pairs (add_camera_connection ex c srv) =
      (if ex then insert (get_service_name True PRIMARY_CAMERA_IDX, c) (pairs srv) else pairs srv)"
proof -
  let ?n = "get_service_name True PRIMARY_CAMERA_IDX" and ?srv = "add_camera_connection ex c srv"
  have "server_wf ?srv \<and> names ?srv = names srv \<and> pairs ?srv = (if ex then insert (?n, c) (pairs srv) else pairs srv)"
  proof (cases ex)
    case True
    then obtain s where s: "map_of (sr_services srv) ?n = Some s"
      using assms(2) by (auto simp: names_def)
    note wf = server_wfD [OF assms(1) s]
    have "sr_services ?srv = AList.update ?n (on_subscribe c s) (sr_services srv)"
      using True s by (simp add: add_camera_connection_def)
    from set_service [OF assms(1) _ _ this] wf service.wf_sub service.members_sub True s assms(2)
    show ?thesis by (auto simp: pairs_def)
  next
    case False
    then have "sr_services ?srv = sr_services srv" by (simp add: add_camera_connection_def)
    then show ?thesis using assms(1) False by (simp add: server_wf_def names_def pairs_def)
  qed
  then show "server_wf ?srv" and "names ?srv = names srv"
    and "pairs ?srv = (if ex then insert (?n, c) (pairs srv) else pairs srv)" by auto
qed

lemma video_opt_refines:
  assumes "server_wf srv"
  shows "server_wf (set_video_service_opt d opt val srv)" and "names (set_video_service_opt d opt val srv) = names srv"
    and "pairs (set_video_service_opt d opt val srv) = pairs srv"
proof -
  let ?f = "\<lambda>k s. if (case d of None \<Rightarrow> True | Some (camera, d) \<Rightarrow> k = get_service_name camera d)
      \<and> is_video_service_name k then sv_set_option opt val s else s"
  have eq: "sr_services (set_video_service_opt d opt val srv) = AList.map_ran ?f (sr_services srv)"
    by (simp add: set_video_service_opt_def)
  note m = map_services [OF assms _ eq]
  show "server_wf (set_video_service_opt d opt val srv)" and "names (set_video_service_opt d opt val srv) = names srv"
    by (rule m; simp)+
  have "pairs (set_video_service_opt d opt val srv) =
      {(n, i). \<exists>s. map_of (sr_services srv) n = Some s \<and> i \<in> members (?f n s)}"
    by (rule m) simp
  moreover have "members (?f n s) = members s" for n s by simp
  ultimately show "pairs (set_video_service_opt d opt val srv) = pairs srv"
    by (simp add: pairs_def)
qed

lemma on_service_refines:
  assumes "server_wf srv"
  shows "server_wf (fst (server_step (OnService n op) srv))"
    and "names (fst (server_step (OnService n op) srv)) = names srv"
    and "pairs (fst (server_step (OnService n op) srv)) = pairs srv"
    and "fst ` set (snd (server_step (OnService n op) srv)) \<subseteq> snd ` pairs srv"
proof -
  let ?t = "server_step (OnService n op) srv"
  have "server_wf (fst ?t) \<and> names (fst ?t) = names srv \<and> pairs (fst ?t) = pairs srv
      \<and> fst ` set (snd ?t) \<subseteq> snd ` pairs srv"
  proof (cases "map_of (sr_services srv) n")
    case (Some s)
    note wf = server_wfD [OF assms Some]
    show ?thesis
    proof (cases "is_service_op op")
      case True
      then have mem: "members (fst (svc_step op s)) = members s"
        using svc_step_members(1) wf by (cases op) auto
      have eq: "sr_services (fst ?t) = AList.update n (fst (svc_step op s)) (sr_services srv)"
        using Some True by simp
      have "sv_name (fst (svc_step op s)) = n" and "svc_wf (fst (svc_step op s))"
        using svc_step_members(2,3) [of s op] wf by auto
      note u = set_service [OF assms this eq]
      have "{n} \<times> members s = {(k, i) \<in> pairs srv. k = n}" and "n \<in> names srv"
        and "members s \<subseteq> snd ` pairs srv"
        using Some by (force simp: pairs_def names_def)+
      then have "pairs (fst ?t) = pairs srv" and "names (fst ?t) = names srv" and "members s \<subseteq> snd ` pairs srv"
        using u(2,3) mem by auto
      moreover have "fst ` set (snd ?t) \<subseteq> members s"
        using Some True svc_step_members(4) [of s op] wf by simp
      ultimately show ?thesis
        using u(1) by blast
    next
      case False
      then show ?thesis using assms Some by (simp add: case_prod_beta)
    qed
  next
    case None
    then show ?thesis using assms by simp
  qed
  then show "server_wf (fst ?t)" and "names (fst ?t) = names srv" and "pairs (fst ?t) = pairs srv"
    and "fst ` set (snd ?t) \<subseteq> snd ` pairs srv" by auto
qed


lemma server_step_refines:
  assumes "server_wf srv"
  shows "server_wf (fst (server_step op srv))" and "subs_of (fst (server_step op srv)) = spec_step op (subs_of srv)"
    and "fst ` set (snd (server_step op srv)) \<subseteq> snd ` pairs srv"
proof -
  let ?t = "server_step op srv"
  have "server_wf (fst ?t) \<and> subs_of (fst ?t) = spec_step op (subs_of srv) \<and> fst ` set (snd ?t) \<subseteq> snd ` pairs srv"
  proof (cases op)
    case (AddConnection primary c noperms)
    note v = add_video_refines [OF assms, of False primary]
    then show ?thesis
      using AddConnection add_connection_refines [OF v(1), of primary c noperms]
      by (simp add: subs_of_def try_add_primay_video_service_def)
  next
    case (AddCameraConnection ex c)
    let ?srv = "try_add_primary_camera_service ex srv"
    have "server_wf ?srv" "ex \<Longrightarrow> get_service_name True PRIMARY_CAMERA_IDX \<in> names ?srv"
      "names ?srv = (if ex then insert (get_service_name True PRIMARY_CAMERA_IDX) (names srv) else names srv)"
      "pairs ?srv = pairs srv"
      using add_video_refines [OF assms, of True PRIMARY_CAMERA_IDX] assms
      by (auto simp: try_add_primary_camera_service_def)
    then show ?thesis
      using AddCameraConnection camera_connection_refines [of ?srv ex c] by (cases ex) (simp_all add: subs_of_def Let_def)
  next
    case (OnService n sop)
    then show ?thesis
      using on_service_refines [OF assms, of n sop] by (simp add: subs_of_def)
  qed (use assms in \<open>simp_all add: subs_of_def add_video_refines remove_connection_refines subscribe_refines
      capture_refines video_opt_refines\<close>)
  then show "server_wf (fst ?t)" and "subs_of (fst ?t) = spec_step op (subs_of srv)"
    and "fst ` set (snd ?t) \<subseteq> snd ` pairs srv" by auto
qed

lemma server_run_refines:
  assumes "server_wf srv"
  shows "server_wf (fst (server_run ops srv)) \<and> subs_of (fst (server_run ops srv)) = fold spec_step ops (subs_of srv)"
  using assms
  by (induction ops arbitrary: srv) (simp_all add: case_prod_beta Let_def server_step_refines)

lemma add_service_wf: "server_wf srv \<Longrightarrow> svc_wf s \<Longrightarrow> server_wf (add_service s srv)"
  by (rule set_service(1)) (auto simp: add_service_def)

lemma server_new_wf: "server_wf (server_new embedded printer)"
proof -
  have "server_wf \<lparr>sr_connections = [], sr_services = []\<rparr>"
    by (simp add: server_wf_def)
  then show ?thesis
    by (simp add: server_new_def add_service_wf)
qed

text \<open>
  C7. The server implements a relation between services and connections. Over any sequence of
  its operations, interleaved with whatever the services send and whatever snapshots they
  take, who is subscribed to what is the relation the operations describe: a new connection
  gets the services it is not denied and the primary display, a removed one is in none, and
  a choice of displays changes the displays of that connection only.
\<close>

theorem server_implements_subscriptions:
  assumes "server_wf srv"
  shows "subs_of (fst (server_run ops srv)) = fold spec_step ops (subs_of srv)"
  using server_run_refines [OF assms] by blast

theorem server_implements_subscriptions_witness:
  "subs_of (fst (server_run [AddConnection 0 7 [''clipboard''], OnService ''audio'' (SnapSend ''format''),
        OnService ''audio'' SnapEnd, Capture 7 [''monitor1''] True True] (server_new False True)))
    = fold spec_step [AddConnection 0 7 [''clipboard''], OnService ''audio'' (SnapSend ''format''),
        OnService ''audio'' SnapEnd, Capture 7 [''monitor1''] True True] (subs_of (server_new False True))"
  by (rule server_implements_subscriptions [OF server_new_wf])

fun subscribes_to :: "int \<Rightarrow> 'm server_op \<Rightarrow> bool" where
  "subscribes_to c (AddConnection _ d _) = (d = c)"
| "subscribes_to c (AddCameraConnection _ d) = (d = c)"
| "subscribes_to c (Subscribed _ d b) = (b \<and> d = c)"
| "subscribes_to c (Capture d _ incl _) = (incl \<and> d = c)"
| "subscribes_to c _ = False"

lemma no_pair_kept:
  assumes "c \<notin> snd ` snd X" and "\<not> subscribes_to c op"
  shows "c \<notin> snd ` snd (spec_step op X)"
  using assms by (cases X; cases op) (auto simp: Let_def split: if_splits)

lemma unsubscribed_silent:
  assumes "server_wf srv" and "c \<notin> snd ` pairs srv" and "list_all (\<lambda>op. \<not> subscribes_to c op) ops"
  shows "received c (snd (server_run ops srv)) = []"
  using assms
proof (induction ops arbitrary: srv)
  case (Cons op ops)
  have "received c (snd (server_step op srv)) = []"
    using server_step_refines(3) [OF Cons.prems(1), of op] Cons.prems(2) by (blast intro: received_none)
  moreover have "c \<notin> snd ` pairs (fst (server_step op srv))"
    using no_pair_kept [of c "subs_of srv" op] server_step_refines(2) [OF Cons.prems(1), of op] Cons.prems(2,3)
    by (simp add: subs_of_def prod_eq_iff)
  ultimately show ?case
    using Cons.IH [OF server_step_refines(1) [OF Cons.prems(1), of op]] Cons.prems(3)
    by (simp add: case_prod_beta Let_def)
qed simp

text \<open>
  A removed connection receives nothing more. From its removal on no service sends it a
  message, in whatever order the server and the services go on, until it is subscribed
  anew.
\<close>

theorem removed_connection_silent:
  assumes "server_wf srv" and "list_all (\<lambda>op. \<not> subscribes_to c op) ops"
  shows "received c (snd (server_run (RemoveConnection c # ops) srv)) = []"
proof -
  have "c \<notin> snd ` pairs (remove_connection c srv)"
    by (auto simp: remove_connection_refines [OF assms(1)])
  then show ?thesis
    using unsubscribed_silent [OF remove_connection_refines(1) [OF assms(1)] _ assms(2), of c]
    by (simp add: case_prod_beta Let_def)
qed

theorem removed_connection_silent_witness:
  "received 7 (snd (server_run (RemoveConnection 7 # [OnService ''clipboard'' (Send ''text''), Subscribed ''clipboard'' 8 True])
      (add_connection 0 7 [] (server_new False True)))) = []"
  by (rule removed_connection_silent)
    (simp_all add: add_connection_refines(1) [OF server_new_wf])


definition displays_of :: "int \<Rightarrow> server \<Rightarrow> string set" where
  "displays_of c srv = {n. (n, c) \<in> pairs srv \<and> is_video_service_name n}"

text \<open>
  The three ways of choosing displays. With \<open>set\<close> the connection is subscribed to exactly
  the listed displays that exist, with \<open>add\<close> to them and those it had. With \<open>sub\<close> it keeps
  the listed displays and loses all others, the opposite of what the name says.
\<close>

theorem capture_modes:
  assumes "server_wf srv"
  shows "displays_of c (capture_displays c ns True True srv) = {n \<in> names srv. is_video_service_name n \<and> n \<in> set ns}
    \<and> displays_of c (capture_displays c ns True False srv) =
        displays_of c srv \<union> {n \<in> names srv. is_video_service_name n \<and> n \<in> set ns}
    \<and> displays_of c (capture_displays c ns False True srv) = displays_of c srv \<inter> set ns"
  using capture_refines(3) [OF assms] pairs_names [of _ _ srv] by (auto simp: displays_of_def)

theorem capture_modes_witness:
  "displays_of 7 (capture_displays 7 [''monitor0''] False True (add_connection 0 7 [] (server_new False True)))
    = displays_of 7 (add_connection 0 7 [] (server_new False True)) \<inter> set [''monitor0'']"
  using capture_modes [OF add_connection_refines(1) [OF server_new_wf]] by blast

text \<open>The count of displays is the size of that set.\<close>

lemma subbed_displays_count:
  assumes "server_wf srv"
  shows "get_subbed_displays_count c srv = card (displays_of c srv)"
proof -
  let ?ks = "filter (\<lambda>k. is_video_service_name k
      \<and> (case map_of (sr_services srv) k of Some s \<Rightarrow> is_subed c s | None \<Rightarrow> False)) (map fst (sr_services srv))"
  have "distinct ?ks" using assms by (simp add: server_wf_def)
  moreover have "set ?ks = displays_of c srv"
    by (force simp: displays_of_def pairs_def is_subed_members split: option.splits dest: map_of_SomeD)
  ultimately show ?thesis
    unfolding get_subbed_displays_count_def by (metis distinct_card)
qed


section \<open>The loops\<close>

text \<open>
  The state of a repeated service is initialized before each stretch of callbacks and reset
  after it.
\<close>

fun alternates :: "bool \<Rightarrow> repeat_act list \<Rightarrow> bool" where
  "alternates r [] = True"
| "alternates r (StateInit # as) = (\<not> r \<and> alternates True as)"
| "alternates r (Callback # as) = (r \<and> alternates r as)"
| "alternates r (StateReset # as) = (r \<and> alternates False as)"

lemma repeat_alternates: "alternates r (repeat_loop ss r)"
  by (induction ss arbitrary: r) (auto simp: repeat_turn_def)

text \<open>The pause after failures stays between 30 ms and a second, however many there are.\<close>

lemma next_error_timeout_bounds:
  "30 \<le> t \<Longrightarrow> 30 \<le> next_error_timeout e t \<and> next_error_timeout e t \<le> 1000"
  by (simp add: next_error_timeout_def Let_def)

lemma error_timeouts_bounds:
  assumes "30 \<le> t"
  shows "list_all (\<lambda>x. 30 \<le> x \<and> x \<le> 1000) (error_timeouts es t)"
  using assms
proof (induction es arbitrary: t)
  case (Cons e es)
  then show ?case using next_error_timeout_bounds [OF Cons.prems, of e] by (simp add: Let_def)
qed simp

end
