(* ===== verification/Served.thy ===== *)
theory Served
  imports Session_Msgs Services
begin

text \<open>
  The messages of an authorized peer (\<open>Session_Msgs\<close>) carried out on the server and its
  services (\<open>Services\<close>): the calls of \<open>subscribe\<close>, \<open>add_service\<close>, \<open>capture_displays\<close>,
  \<open>add_connection\<close>, \<open>add_camera_connection\<close> and \<open>set_video_service_opt\<close> in
  \<open>src/src/server/connection.rs\<close>, which are effects of the first theory, become
  operations of the second.
\<close>

fun svc_id :: "service_name \<Rightarrow> string" where
  "svc_id SvcClipboard = ''clipboard''"
| "svc_id SvcCursor = ''mouse_cursor''"
| "svc_id SvcPos = ''mouse_pos''"
| "svc_id SvcWindowFocus = ''window_focus''"
| "svc_id SvcAudio = ''audio''"
| "svc_id (SvcVideo camera idx) = get_service_name camera idx"

record serve_ctx =
  sc_conn :: int
  sc_primary :: nat
  sc_camera_exists :: bool
  sc_view_camera :: bool

fun effect_op :: "serve_ctx \<Rightarrow> effect \<Rightarrow> unit server_op option" where
  "effect_op x (Subscribe n b) = Some (Subscribed (svc_id n) (sc_conn x) b)"
| "effect_op x (AddService (SvcVideo camera idx)) = Some (AddVideo camera idx)"
| "effect_op x (CaptureServices ns incl excl) = Some (Capture (sc_conn x) (map svc_id ns) incl excl)"
| "effect_op x (SubMonitors left_out) = Some (AddConnection (sc_primary x) (sc_conn x) (map svc_id left_out))"
| "effect_op x SubCameras = Some (AddCameraConnection (sc_camera_exists x) (sc_conn x))"
| "effect_op x (RefreshDisplay d) = Some (SetVideoOpt (map_option (Pair (sc_view_camera x)) d) ''refresh'' ''1'')"
| "effect_op x _ = None"

definition serve :: "serve_ctx \<Rightarrow> effect list \<Rightarrow> server \<Rightarrow> server" where
  "serve x es srv = fst (server_run (List.map_filter (effect_op x) es) srv)"

lemma serve_subs:
  "server_wf srv \<Longrightarrow> subs_of (serve x es srv) = fold spec_step (List.map_filter (effect_op x) es) (subs_of srv)"
  using server_run_refines by (auto simp: serve_def)

text \<open>Names of services: only the video services have the name of one.\<close>

lemma video_names [simp]:
  "is_video_service_name (get_service_name camera idx)"
  "\<not> is_video_service_name ''clipboard''" "\<not> is_video_service_name ''audio''"
  "\<not> is_video_service_name ''mouse_cursor''" "\<not> is_video_service_name ''mouse_pos''"
  "\<not> is_video_service_name ''window_focus''"
  by (auto simp: is_video_service_name_def get_service_name_def service_name_prefix_def)

lemma svc_id_named:
  "svc_id n = ''clipboard'' \<longleftrightarrow> n = SvcClipboard" "svc_id n = ''audio'' \<longleftrightarrow> n = SvcAudio"
  by (cases n; auto simp: get_service_name_def service_name_prefix_def split: if_splits)+

text \<open>An effect keeps a connection out of a service that it may not have.\<close>

definition keeps_out :: "string \<Rightarrow> effect \<Rightarrow> bool" where
  "keeps_out name e \<longleftrightarrow>
     (case e of Subscribe n b \<Rightarrow> svc_id n = name \<longrightarrow> \<not> b | SubMonitors left_out \<Rightarrow> name \<in> svc_id ` set left_out | _ \<Rightarrow> True)"

lemma keeps_out_step:
  assumes "keeps_out name e" and "\<not> is_video_service_name name" and "effect_op x e = Some op"
    and "(name, sc_conn x) \<notin> snd X"
  shows "(name, sc_conn x) \<notin> snd (spec_step op X)"
  using assms
  by (cases X; cases "(x, e)" rule: effect_op.cases)
    (auto simp: keeps_out_def offered_def Let_def split: if_splits)

lemma keeps_out_run:
  assumes "list_all (keeps_out name) es" and "\<not> is_video_service_name name" and "(name, sc_conn x) \<notin> snd X"
  shows "(name, sc_conn x) \<notin> snd (fold spec_step (List.map_filter (effect_op x) es) X)"
  using assms(1,3)
proof (induction es arbitrary: X)
  case (Cons e es)
  then show ?case
    using keeps_out_step [OF _ assms(2), of e x _ X]
    by (cases "effect_op x e") (auto simp: map_filter_simps)
qed (simp add: map_filter_simps)

lemma granted_keeps_out:
  assumes "granted env p e"
  shows "\<not> (p_clipboard p \<and> p_keyboard p) \<Longrightarrow> keeps_out ''clipboard'' e"
    and "\<not> p_audio p \<Longrightarrow> keeps_out ''audio'' e"
proof -
  show "keeps_out ''clipboard'' e" if "\<not> (p_clipboard p \<and> p_keyboard p)"
    using assms that by (cases e) (force simp: keeps_out_def svc_id_named)+
  show "keeps_out ''audio'' e" if "\<not> p_audio p"
    using assms that by (cases e) (force simp: keeps_out_def svc_id_named)+
qed

lemma peer_run_keeps_out:
  "\<not> (p_clipboard p \<and> p_keyboard p) \<Longrightarrow> list_all (keeps_out ''clipboard'') (map snd (snd (peer_run ms p)))"
  "\<not> p_audio p \<Longrightarrow> list_all (keeps_out ''audio'') (map snd (snd (peer_run ms p)))"
  using conjunct2 [OF peer_run_covered [of ms p]] granted_keeps_out
  by (auto simp: list_all_iff)

lemma serve_keeps_out:
  assumes "server_wf srv" and "list_all (keeps_out name) es'" and "\<not> is_video_service_name name"
    and "(name, sc_conn x) \<notin> snd (fold spec_step (List.map_filter (effect_op x) es) (subs_of srv))"
  shows "(name, sc_conn x) \<notin> pairs (serve x (es @ es') srv)"
proof -
  have "subs_of (serve x (es @ es') srv) =
      fold spec_step (List.map_filter (effect_op x) es') (fold spec_step (List.map_filter (effect_op x) es) (subs_of srv))"
    by (simp add: serve_subs [OF assms(1)] List.map_filter_def)
  then show ?thesis
    using keeps_out_run [OF assms(2,3,4)] by (simp add: subs_of_def prod_eq_iff)
qed

lemma unsubscribed_out:
  assumes "server_wf srv" and "es = SendPermission nm False # Subscribe n False # rest"
    and "list_all (keeps_out (svc_id n)) (rest @ es')" and "\<not> is_video_service_name (svc_id n)"
  shows "(svc_id n, sc_conn x) \<notin> pairs (serve x (es @ es') srv)"
proof -
  let ?first = "[SendPermission nm False, Subscribe n False]"
  have "(svc_id n, sc_conn x) \<notin> snd (fold spec_step (List.map_filter (effect_op x) ?first) (subs_of srv))"
    using pairs_names [of "svc_id n" "sc_conn x" srv] by (auto simp: map_filter_simps subs_of_def)
  from serve_keeps_out [OF assms(1,3,4) this] assms(2) show ?thesis by simp
qed

text \<open>
  C9. Taking a permission back reaches the services. When the host switches off the keyboard
  or the clipboard, the connection is taken off the clipboard service, and when it switches
  off the sound, off the audio service; and no sequence of messages of the peer brings it
  back.
\<close>

theorem revocation_reaches_services:
  assumes "server_wf srv" and "me_server env" and "authorized (base p)"
    and "name = ''keyboard'' \<or> name = ''clipboard'' \<or> name = ''audio''"
    and "switch_permission env name False p = (p1, es)"
  shows "(if name = ''audio'' then ''audio'' else ''clipboard'', sc_conn x)
    \<notin> pairs (serve x (es @ map snd (snd (peer_run ms p1))) srv)"
proof (cases "name = ''audio''")
  case True
  then have p1: "\<not> p_audio p1" and es: "es = SendPermission name False # Subscribe SvcAudio False # []"
    using assms(2,3,5)
    by (auto simp: switch_permission_def Let_def subscribe_audio_def audio_enabled_def via_server_def split: if_splits)
  then show ?thesis
    using unsubscribed_out [OF assms(1) es, of "map snd (snd (peer_run ms p1))" x] peer_run_keeps_out(2) [OF p1] True
    by simp
next
  case False
  then have "\<exists>rest. es = SendPermission name False # Subscribe SvcClipboard False # rest
      \<and> list_all (keeps_out ''clipboard'') rest" and p1: "\<not> (p_clipboard p1 \<and> p_keyboard p1)"
    using assms(2,4,5)
    by (auto simp: switch_permission_def Let_def can_sub_clipboard_service_def clipboard_enabled_def
        peer_keyboard_enabled_def via_server_def keeps_out_def)
  then obtain rest where es: "es = SendPermission name False # Subscribe SvcClipboard False # rest"
    and rest: "list_all (keeps_out ''clipboard'') rest" by blast
  then show ?thesis
    using unsubscribed_out [OF assms(1) es, of "map snd (snd (peer_run ms p1))" x] peer_run_keeps_out(1) [OF p1] False
    by simp
qed

theorem revocation_reaches_services_witness:
  "(''clipboard'', 7) \<notin> pairs (serve \<lparr>sc_conn = 7, sc_primary = 0, sc_camera_exists = False, sc_view_camera = False\<rparr>
      (snd (switch_permission sample_env ''keyboard'' False (sample_peer Remote))
       @ map snd (snd (peer_run [(sample_env, Misc (SelectedSid 1))]
           (fst (switch_permission sample_env ''keyboard'' False (sample_peer Remote))))))
      (add_connection 0 7 [] (server_new False False)))"
proof -
  let ?t = "switch_permission sample_env ''keyboard'' False (sample_peer Remote)"
  have "me_server sample_env" and "authorized (base (sample_peer Remote))"
    by (simp_all add: sample_env_def sample_peer_def host_conn_def)
  from revocation_reaches_services [OF add_connection_refines(1) [OF server_new_wf] this, of "''keyboard''" "fst ?t" "snd ?t"
      "\<lparr>sc_conn = 7, sc_primary = 0, sc_camera_exists = False, sc_view_camera = False\<rparr>"]
  show ?thesis by (simp del: peer_run.simps)
qed

text \<open>
  Connections do not disturb each other. Whatever a peer sends, the subscriptions of every
  other connection stay what they were.
\<close>

theorem served_isolated:
  assumes "server_wf srv"
  shows "{(n, i) \<in> pairs (serve x (map snd (snd (peer_run ms p))) srv). i \<noteq> sc_conn x}
    = {(n, i) \<in> pairs srv. i \<noteq> sc_conn x}"
proof -
  have step: "{(n, i) \<in> snd (spec_step op X). i \<noteq> sc_conn x} = {(n, i) \<in> snd X. i \<noteq> sc_conn x}"
    if "effect_op x e = Some op" for e op X
    using that by (cases X; cases "(x, e)" rule: effect_op.cases) (auto simp: Let_def split: if_splits)
  have "{(n, i) \<in> snd (fold spec_step (List.map_filter (effect_op x) es) X). i \<noteq> sc_conn x}
      = {(n, i) \<in> snd X. i \<noteq> sc_conn x}" for es X
  proof (induction es arbitrary: X)
    case (Cons e es)
    then show ?case using step by (cases "effect_op x e") (simp_all add: map_filter_simps)
  qed (simp add: map_filter_simps)
  then show ?thesis
    using serve_subs [OF assms, of x "map snd (snd (peer_run ms p))"] by (simp add: subs_of_def prod_eq_iff)
qed

theorem served_isolated_witness:
  "{(n, i) \<in> pairs (serve \<lparr>sc_conn = 7, sc_primary = 0, sc_camera_exists = False, sc_view_camera = False\<rparr>
        (map snd (snd (peer_run [(sample_env, Misc (CaptureDisplays [] [] [1]))] (sample_peer Remote))))
        (add_connection 0 8 [] (server_new False False))). i \<noteq> 7}
    = {(n, i) \<in> pairs (add_connection 0 8 [] (server_new False False)). i \<noteq> 7}"
  using served_isolated [OF add_connection_refines(1) [OF server_new_wf],
      of "\<lparr>sc_conn = 7, sc_primary = 0, sc_camera_exists = False, sc_view_camera = False\<rparr>"]
  by (simp del: peer_run.simps)

end
