(* ===== verification/Rendezvous.thy ===== *)
theory Rendezvous
  imports Prelude
begin

text \<open>
  The rendezvous mediator, \<open>src/src/rendezvous_mediator.rs\<close>: the registration of the
  machine at the rendezvous server over UDP and over TCP, the answers of the server, the
  requests to meet a peer (hole punching, intranet, relay) and the direct server.

  Times are microseconds. The configuration of \<open>hbb_common\<close> that the mediator reads and
  writes is part of the state; the constants of that crate (\<open>REG_INTERVAL\<close>,
  \<open>RENDEZVOUS_PORT\<close>) and its functions on host names are parameters.
\<close>


section \<open>State\<close>

record rz_global =
  key_confirmed :: bool
  host_confirmed :: "string \<Rightarrow> bool"
  my_id :: string
  serial :: int
  solving :: string                      \<comment> \<open>\<open>SOLVING_PK_MISMATCH\<close>\<close>
  should_exit :: bool
  manual_restarted :: bool
  sent_register_pk :: bool

record mediator =
  m_host :: string
  m_host_prefix :: string
  keep_alive :: int

record udp_state =
  reg_timeout :: int
  fails :: int
  last_register_resp :: "nat option"
  last_register_sent :: "nat option"
  last_dns_check :: nat
  old_latency :: int
  ema_latency :: int

abbreviation MIN_REG_TIMEOUT :: int where "MIN_REG_TIMEOUT \<equiv> 3000"
abbreviation MAX_REG_TIMEOUT :: int where "MAX_REG_TIMEOUT \<equiv> 30000"
abbreviation MAX_FAILS1 :: int where "MAX_FAILS1 \<equiv> 2"
abbreviation MAX_FAILS2 :: int where "MAX_FAILS2 \<equiv> 4"
abbreviation DNS_INTERVAL :: int where "DNS_INTERVAL \<equiv> 60000"
abbreviation DEFAULT_KEEP_ALIVE :: int where "DEFAULT_KEEP_ALIVE \<equiv> 60000"

datatype rz_act =
    SendRegisterPk string
  | SendRegisterPeer string int
  | Latency string int
  | Rebind
  | SendEmpty
  | SetServers "string list"
  | SpawnRequest

definition elapsed_ms :: "nat \<Rightarrow> nat \<Rightarrow> int" where
  "elapsed_ms now t = int ((now - t) div 1000)"

text \<open>\<open>str::parse::<i32>\<close>: an optional sign, digits, and the range of the type.\<close>

definition parse_i32 :: "string \<Rightarrow> int option" where
  "parse_i32 s =
     (case s of
        CHR ''-'' # r \<Rightarrow> if r \<noteq> [] \<and> hd r = CHR ''+'' then None else map_option (\<lambda>v. - int v) (parse_uint (2 ^ 31) r)
      | _ \<Rightarrow> map_option int (parse_uint (2 ^ 31 - 1) s))"

definition wrap32 :: "int \<Rightarrow> int" where
  "wrap32 x = (x + 2 ^ 31) mod 2 ^ 32 - 2 ^ 31"

definition get_host_prefix :: "string \<Rightarrow> string" where
  "get_host_prefix host = (let x = hd (split_on CHR ''.'' host) in if parse_i32 x \<noteq> None then host else x)"

definition mediator_new :: "string \<Rightarrow> mediator" where
  "mediator_new host = \<lparr>m_host = host, m_host_prefix = get_host_prefix host, keep_alive = DEFAULT_KEEP_ALIVE\<rparr>"

definition udp_start :: "nat \<Rightarrow> udp_state" where
  "udp_start now = \<lparr>reg_timeout = MIN_REG_TIMEOUT, fails = 0, last_register_resp = None, last_register_sent = None,
     last_dns_check = now, old_latency = 0, ema_latency = 0\<rparr>"


section \<open>Registering\<close>

text \<open>A send that fails is an error that ends the loop; \<open>ok\<close> is whether it succeeds.\<close>

definition register_pk :: "bool \<Rightarrow> rz_global \<Rightarrow> bool \<times> rz_global \<times> rz_act list" where
  "register_pk ok g =
     (if ok then (True, g\<lparr>sent_register_pk := True\<rparr>, [SendRegisterPk (my_id g)]) else (False, g, []))"

text \<open>
  \<open>Config::set_key_confirmed(false)\<close>: what the configuration keeps of the confirmations of
  the single hosts then is its own affair, the argument \<open>hosts\<close>.
\<close>

definition unconfirm_key :: "(string \<Rightarrow> bool) \<Rightarrow> rz_global \<Rightarrow> rz_global" where
  "unconfirm_key hosts g = g\<lparr>key_confirmed := False, host_confirmed := hosts\<rparr>"

definition handle_uuid_mismatch ::
  "bool \<Rightarrow> (string \<Rightarrow> bool) \<Rightarrow> string \<Rightarrow> string \<Rightarrow> rz_global \<Rightarrow> bool \<times> rz_global \<times> rz_act list" where
  "handle_uuid_mismatch ok hosts new_id host g =
     (if solving g = [] \<or> solving g = host
      then register_pk ok ((unconfirm_key hosts g)\<lparr>my_id := new_id, solving := host\<rparr>)
      else (True, g, []))"

definition register_peer :: "bool \<Rightarrow> mediator \<Rightarrow> rz_global \<Rightarrow> bool \<times> rz_global \<times> rz_act list" where
  "register_peer ok m g =
     (if \<not> (solving g = [] \<or> solving g = m_host m) then (True, g, [])
      else if \<not> key_confirmed g \<or> \<not> host_confirmed g (m_host_prefix m) then register_pk ok g
      else if ok then (True, g, [SendRegisterPeer (my_id g) (serial g)]) else (False, g, []))"

text \<open>
  \<open>CheckIfResendPk\<close>: made with the key pair of that moment, it withdraws the confirmation
  when it is dropped after the key changed.
\<close>

definition check_if_resend_pk :: "(string \<Rightarrow> bool) \<Rightarrow> string option \<Rightarrow> string option \<Rightarrow> rz_global \<Rightarrow> rz_global" where
  "check_if_resend_pk hosts old_pk pk g =
     (if sent_register_pk g \<and> pk \<noteq> old_pk then unconfirm_key hosts g else g)"

definition restart :: "rz_global \<Rightarrow> rz_global" where
  "restart g = g\<lparr>should_exit := True, manual_restarted := True\<rparr>"


section \<open>Answers of the server\<close>

datatype pk_result = PkOk | UuidMismatch | PkUnknown

datatype rz_msg =
    RegisterPeerResponse bool            \<comment> \<open>\<open>request_pk\<close>\<close>
  | RegisterPkResponse pk_result int     \<comment> \<open>\<open>keep_alive\<close>\<close>
  | PunchHole
  | RequestRelay
  | FetchLocalAddr
  | ConfigureUpdate "string list" int
  | RzOther

text \<open>
  \<open>update_latency\<close> of the UDP loop, with the latency it reports. Divisions truncate
  towards zero; the values are not negative.
\<close>

definition udp_update_latency :: "nat \<Rightarrow> string \<Rightarrow> udp_state \<Rightarrow> udp_state \<times> rz_act list" where
  "udp_update_latency now host u =
     (let latency = (case last_register_sent u of Some t \<Rightarrow> int (now - t) | None \<Rightarrow> 0);
          u1 = u\<lparr>last_register_resp := Some now, fails := 0, reg_timeout := MIN_REG_TIMEOUT, last_register_sent := None\<rparr>
      in if latency > 1000000 then (u1, [])
         else
           let ema = (if ema_latency u1 = 0 then latency else latency div 30 + ema_latency u1 * 29 div 30);
               latency1 = (if ema_latency u1 = 0 then latency else ema);
               u2 = u1\<lparr>ema_latency := ema\<rparr>;
               n = max 3000 (latency1 div 5)
           in if \<bar>latency1 - old_latency u2\<bar> > n \<or> old_latency u2 \<le> 0
              then (u2\<lparr>old_latency := latency1\<rparr>, [Latency host latency1])
              else (u2, []))"

text \<open>
  What an answer needs of the outside: whether a message gets out, a fresh id, the hosts
  that stay confirmed, whether the server list changed.
\<close>

record resp_obs =
  ro_send_ok :: bool
  ro_new_id :: string
  ro_hosts_kept :: "string \<Rightarrow> bool"
  ro_servers_changed :: bool

definition handle_resp :: "resp_obs \<Rightarrow> rz_msg \<Rightarrow> mediator \<Rightarrow> rz_global \<Rightarrow> bool \<times> mediator \<times> rz_global \<times> rz_act list" where
  "handle_resp ro msg m g =
     (case msg of
        RegisterPeerResponse request_pk \<Rightarrow>
          (if request_pk then (let (ok, g1, acts) = register_pk (ro_send_ok ro) g in (ok, m, g1, acts)) else (True, m, g, []))
      | RegisterPkResponse res ka \<Rightarrow>
          (let (ok, g1, acts) =
                 (case res of
                    PkOk \<Rightarrow> (True, g\<lparr>key_confirmed := True, host_confirmed := (host_confirmed g)(m_host_prefix m := True),
                                     solving := []\<rparr>, [])
                  | UuidMismatch \<Rightarrow> handle_uuid_mismatch (ro_send_ok ro) (ro_hosts_kept ro) (ro_new_id ro) (m_host m) g
                  | PkUnknown \<Rightarrow> (True, g, []))
           in if \<not> ok then (False, m, g1, acts)
              else (True, if ka > 0 then m\<lparr>keep_alive := wrap32 (ka * 1000)\<rparr> else m, g1, acts))
      | ConfigureUpdate servers ser \<Rightarrow>
          (let g1 = g\<lparr>serial := ser\<rparr>
           in (True, m, if ro_servers_changed ro then restart g1 else g1, [SetServers servers]))
      | RzOther \<Rightarrow> (True, m, g, [])
      | _ \<Rightarrow> (True, m, g, [SpawnRequest]))"

fun is_register_response :: "rz_msg \<Rightarrow> bool" where
  "is_register_response (RegisterPeerResponse _) = True"
| "is_register_response (RegisterPkResponse _ _) = True"
| "is_register_response _ = False"


section \<open>The UDP loop\<close>

record tick_obs =
  t_now :: nat
  t_expired :: nat
  t_timeout :: nat
  t_dns :: nat
  t_dns_set :: nat
  public_server :: bool
  rebind_udp :: "unit + bool"            \<comment> \<open>an error, or whether there is a new socket\<close>
  send_ok :: bool

datatype rz_event =
    Tick tick_obs
  | Recv nat resp_obs "rz_msg option"    \<comment> \<open>a datagram, unreadable or read\<close>
  | RecvError

datatype loop_end = LoopExit | LoopError

definition count_failure :: "tick_obs \<Rightarrow> string \<Rightarrow> udp_state \<Rightarrow> bool \<times> udp_state \<times> rz_act list" where
  "count_failure t host u =
     (let u1 = u\<lparr>fails := fails u + 1\<rparr>
      in if fails u1 \<ge> MAX_FAILS2 then
           (let u2 = u1\<lparr>old_latency := 0\<rparr>
            in if elapsed_ms (t_dns t) (last_dns_check u2) > DNS_INTERVAL then
                 (case rebind_udp t of
                    Inl _ \<Rightarrow> (False, u2, [Latency host (- 1)])
                  | Inr new_socket \<Rightarrow> (True, u2\<lparr>last_dns_check := t_dns_set t\<rparr>,
                                          Latency host (- 1) # (if new_socket then [Rebind] else [])))
               else (True, u2, [Latency host (- 1)]))
         else if fails u1 \<ge> MAX_FAILS1 then (True, u1\<lparr>old_latency := 0\<rparr>, [Latency host 0])
         else (True, u1, []))"

definition reg_expired :: "int \<Rightarrow> nat \<Rightarrow> udp_state \<Rightarrow> bool" where
  "reg_expired REG_INTERVAL now u = (case last_register_resp u of Some x \<Rightarrow> elapsed_ms now x \<ge> REG_INTERVAL | None \<Rightarrow> True)"

definition reg_timed_out :: "nat \<Rightarrow> udp_state \<Rightarrow> bool" where
  "reg_timed_out now u = (case last_register_sent u of Some x \<Rightarrow> elapsed_ms now x \<ge> reg_timeout u | None \<Rightarrow> False)"

definition back_off :: "bool \<Rightarrow> bool \<Rightarrow> udp_state \<Rightarrow> udp_state" where
  "back_off is_public timeout u =
     (if is_public \<and> timeout \<and> reg_timeout u < MAX_REG_TIMEOUT
      then u\<lparr>reg_timeout := reg_timeout u + MIN_REG_TIMEOUT\<rparr> else u)"

definition udp_tick :: "int \<Rightarrow> tick_obs \<Rightarrow> mediator \<Rightarrow> rz_global \<times> udp_state
    \<Rightarrow> (rz_global \<times> udp_state) \<times> rz_act list \<times> loop_end option" where
  "udp_tick REG_INTERVAL t m = (\<lambda>(g, u).
     if should_exit g then ((g, u), [], Some LoopExit)
     else
       let expired = reg_expired REG_INTERVAL (t_expired t) u;
           timeout = reg_timed_out (t_timeout t) u;
           u1 = back_off (public_server t) timeout u
       in if timeout \<or> (last_register_sent u1 = None \<and> expired) then
            (let (go, u2, acts) = (if timeout then count_failure t (m_host m) u1 else (True, u1, []))
             in if \<not> go then ((g, u2), acts, Some LoopError)
                else
                  let (ok, g1, acts1) = register_peer (send_ok t) m g
                  in if \<not> ok then ((g1, u2), acts @ acts1, Some LoopError)
                     else ((g1, u2\<lparr>last_register_sent := Some (t_now t)\<rparr>), acts @ acts1, None))
          else ((g, u1), [], None))"

definition udp_recv :: "nat \<Rightarrow> resp_obs \<Rightarrow> rz_msg option \<Rightarrow> mediator \<Rightarrow> rz_global \<times> udp_state
    \<Rightarrow> mediator \<times> (rz_global \<times> udp_state) \<times> rz_act list \<times> loop_end option" where
  "udp_recv now ro msg m = (\<lambda>(g, u).
     case msg of
       None \<Rightarrow> (m, (g, u), [], None)
     | Some x \<Rightarrow>
         let (u1, acts) = (if is_register_response x then udp_update_latency now (m_host m) u else (u, []));
             (ok, m1, g1, acts1) = handle_resp ro x m g
         in (m1, (g1, u1), acts @ acts1, if ok then None else Some LoopError))"

fun udp_event :: "int \<Rightarrow> rz_event \<Rightarrow> mediator \<Rightarrow> rz_global \<times> udp_state
    \<Rightarrow> mediator \<times> (rz_global \<times> udp_state) \<times> rz_act list \<times> loop_end option" where
  "udp_event REG_INTERVAL (Tick t) m s = (let (s1, acts, e) = udp_tick REG_INTERVAL t m s in (m, s1, acts, e))"
| "udp_event REG_INTERVAL (Recv now ro msg) m s = udp_recv now ro msg m s"
| "udp_event REG_INTERVAL RecvError m s = (m, s, [], Some LoopError)"

section \<open>The TCP loop\<close>

record tcp_state =
  tcp_sent :: "nat option"
  tcp_recv :: nat

text \<open>\<open>keep_alive as u64 * 3 / 2\<close>, at the width of the type.\<close>

definition tcp_patience_ms :: "mediator \<Rightarrow> int" where
  "tcp_patience_ms m = (keep_alive m mod 2 ^ 64 * 3) mod 2 ^ 64 div 2"

definition tcp_start :: "nat \<Rightarrow> mediator \<Rightarrow> rz_global \<Rightarrow> rz_global \<times> tcp_state" where
  "tcp_start now m g =
     (g\<lparr>host_confirmed := (host_confirmed g)(m_host_prefix m := False)\<rparr>, \<lparr>tcp_sent = None, tcp_recv = now\<rparr>)"

datatype tcp_read = TcpReset | TcpError | TcpEmpty | TcpUnreadable | TcpMsg rz_msg

datatype tcp_event =
    TcpTick nat bool                     \<comment> \<open>the clock, whether a message gets out\<close>
  | TcpRecv nat resp_obs tcp_read

definition tcp_update_latency :: "nat \<Rightarrow> string \<Rightarrow> tcp_state \<Rightarrow> rz_act list" where
  "tcp_update_latency now host t = [Latency host (case tcp_sent t of Some x \<Rightarrow> int (now - x) | None \<Rightarrow> 0)]"

definition tcp_tick :: "int \<Rightarrow> nat \<Rightarrow> bool \<Rightarrow> mediator \<Rightarrow> rz_global \<times> tcp_state
    \<Rightarrow> (rz_global \<times> tcp_state) \<times> rz_act list \<times> loop_end option" where
  "tcp_tick REG_INTERVAL now ok m = (\<lambda>(g, t).
     if should_exit g then ((g, t), [], Some LoopExit)
     else if elapsed_ms now (tcp_recv t) > tcp_patience_ms m then ((g, t), [], Some LoopError)
     else if (\<not> key_confirmed g \<or> \<not> host_confirmed g (m_host_prefix m))
             \<and> (case tcp_sent t of Some x \<Rightarrow> elapsed_ms now x | None \<Rightarrow> REG_INTERVAL) \<ge> REG_INTERVAL then
       (let (sent, g1, acts) = register_pk ok g
        in if sent then ((g1, t\<lparr>tcp_sent := Some now\<rparr>), acts, None) else ((g1, t), acts, Some LoopError))
     else ((g, t), [], None))"

definition tcp_receive :: "nat \<Rightarrow> resp_obs \<Rightarrow> tcp_read \<Rightarrow> mediator \<Rightarrow> rz_global \<times> tcp_state
    \<Rightarrow> mediator \<times> (rz_global \<times> tcp_state) \<times> rz_act list \<times> loop_end option" where
  "tcp_receive now ro r m = (\<lambda>(g, t0).
     let t = t0\<lparr>tcp_recv := now\<rparr>
     in case r of
          TcpEmpty \<Rightarrow> if ro_send_ok ro then (m, (g, t), [SendEmpty], None) else (m, (g, t), [], Some LoopError)
        | TcpMsg x \<Rightarrow>
            (let acts = (if is_register_response x then tcp_update_latency now (m_host m) t else []);
                 (ok, m1, g1, acts1) = handle_resp ro x m g
             in (m1, (g1, t), acts @ acts1, if ok then None else Some LoopError))
        | _ \<Rightarrow> (m, (g, t), [], Some LoopError))"

fun tcp_step :: "int \<Rightarrow> tcp_event \<Rightarrow> mediator \<Rightarrow> rz_global \<times> tcp_state
    \<Rightarrow> mediator \<times> (rz_global \<times> tcp_state) \<times> rz_act list \<times> loop_end option" where
  "tcp_step REG_INTERVAL (TcpTick now ok) m s = (let (s1, acts, e) = tcp_tick REG_INTERVAL now ok m s in (m, s1, acts, e))"
| "tcp_step REG_INTERVAL (TcpRecv now ro r) m s = tcp_receive now ro r m s"


section \<open>One round of all servers\<close>

text \<open>
  A round of \<open>start_all\<close>: what it resets, and how long it sleeps at its end. A mediator
  whose error text names one of two socket errors shortens the wait.
\<close>

definition round_begin :: "bool \<Rightarrow> rz_global \<Rightarrow> rz_global" where
  "round_begin active g =
     (let g1 = g\<lparr>solving := []\<rparr> in if active then g1\<lparr>should_exit := False, manual_restarted := False\<rparr> else g1)"

definition round_timeout :: "nat \<Rightarrow> string list \<Rightarrow> nat" where
  "round_timeout CONNECT_TIMEOUT errors =
     (if \<exists>e \<in> set errors. contains_str e ''10054'' \<or> contains_str e ''11001'' then 3000 else CONNECT_TIMEOUT)"

definition round_sleep_ms :: "nat \<Rightarrow> nat \<Rightarrow> rz_global \<Rightarrow> nat" where
  "round_sleep_ms tmo elapsed g =
     (if \<not> manual_restarted g then (if elapsed < tmo then (tmo - elapsed) div 1000 * 1000 else 0) else 33)"


text \<open>A loop runs until a step ends it; the actions of its steps follow one another.\<close>

fun rz_loop :: "('e \<Rightarrow> mediator \<Rightarrow> rz_global \<times> 's \<Rightarrow> mediator \<times> (rz_global \<times> 's) \<times> rz_act list \<times> loop_end option)
    \<Rightarrow> 'e list \<Rightarrow> mediator \<Rightarrow> rz_global \<times> 's \<Rightarrow> mediator \<times> (rz_global \<times> 's) \<times> rz_act list" where
  "rz_loop step [] m s = (m, s, [])"
| "rz_loop step (e # es) m s =
     (let (m1, s1, acts, stop) = step e m s
      in if stop \<noteq> None then (m1, s1, acts)
         else (let (m2, s2, acts') = rz_loop step es m1 s1 in (m2, s2, acts @ acts')))"


lemma rz_loop_invariant:
  assumes step: "\<And>e m g x m' g' x' acts stop.
      \<lbrakk>step e m (g, x) = (m', (g', x'), acts, stop); P g x; E e\<rbrakk> \<Longrightarrow> P g' x' \<and> list_all Q acts"
  shows "\<lbrakk>rz_loop step es m (g, x) = (m', (g', x'), acts); P g x; list_all E es\<rbrakk> \<Longrightarrow> P g' x' \<and> list_all Q acts"
proof (induction es arbitrary: m g x acts)
  case (Cons e es)
  obtain m1 g1 x1 acts1 stop where st: "step e m (g, x) = (m1, (g1, x1), acts1, stop)"
    by (metis surj_pair)
  have one: "P g1 x1 \<and> list_all Q acts1"
    using step [OF st] Cons.prems by simp
  obtain m2 g2 x2 acts2 where "rz_loop step es m1 (g1, x1) = (m2, (g2, x2), acts2)"
    by (metis surj_pair)
  then show ?case using Cons.IH [of m1 g1 x1 acts2] Cons.prems one st by (cases "stop = None") auto
qed simp


section \<open>The contract of a registration loop\<close>

fun announces :: "rz_act \<Rightarrow> bool" where
  "announces (SendRegisterPeer _ _) = True"
| "announces _ = False"

fun confirming :: "rz_msg \<Rightarrow> bool" where
  "confirming (RegisterPkResponse PkOk _) = True"
| "confirming _ = False"

fun udp_confirms :: "rz_event \<Rightarrow> bool" where
  "udp_confirms (Recv _ _ (Some x)) = confirming x"
| "udp_confirms _ = False"

fun tcp_confirms :: "tcp_event \<Rightarrow> bool" where
  "tcp_confirms (TcpRecv _ _ (TcpMsg x)) = confirming x"
| "tcp_confirms _ = False"

text \<open>
  What both loops promise of the key: while it is not confirmed, only a confirming answer
  changes that and the id is not announced; and an id is renewed only together with the
  withdrawal of the confirmation and a request to register the new one.
\<close>

locale registration_loop =
  fixes step :: "'e \<Rightarrow> mediator \<Rightarrow> rz_global \<times> 's \<Rightarrow> mediator \<times> (rz_global \<times> 's) \<times> rz_act list \<times> loop_end option"
    and confirms :: "'e \<Rightarrow> bool"
  assumes unconfirmed: "\<lbrakk>step e m (g, x) = (m', (g', x'), acts, stop); \<not> key_confirmed g; \<not> confirms e\<rbrakk>
      \<Longrightarrow> \<not> key_confirmed g' \<and> \<not> list_ex announces acts"
    and renewed: "\<lbrakk>step e m (g, x) = (m', (g', x'), acts, stop); my_id g' \<noteq> my_id g\<rbrakk>
      \<Longrightarrow> \<not> key_confirmed g' \<and> \<not> list_ex announces acts \<and> (stop = None \<longrightarrow> SendRegisterPk (my_id g') \<in> set acts)"
begin

lemma loop_unconfirmed:
  "\<lbrakk>rz_loop step es m (g, x) = (m', (g', x'), acts); \<not> key_confirmed g; \<not> list_ex confirms es\<rbrakk>
   \<Longrightarrow> \<not> key_confirmed g' \<and> \<not> list_ex announces acts"
proof -
  assume "rz_loop step es m (g, x) = (m', (g', x'), acts)" "\<not> key_confirmed g" "\<not> list_ex confirms es"
  moreover from this have "list_all (\<lambda>e. \<not> confirms e) es" by (simp add: list_ex_iff list_all_iff)
  moreover have "\<not> key_confirmed g' \<and> list_all (\<lambda>a. \<not> announces a) acts"
    if "step e m (g, x) = (m', (g', x'), acts, stop)" "\<not> key_confirmed g" "\<not> confirms e" for e m g x m' g' x' acts stop
    using unconfirmed [OF that] by (simp add: list_ex_iff list_all_iff)
  ultimately have "\<not> key_confirmed g' \<and> list_all (\<lambda>a. \<not> announces a) acts"
    using rz_loop_invariant [of step "\<lambda>g _. \<not> key_confirmed g" "\<lambda>e. \<not> confirms e" "\<lambda>a. \<not> announces a"] by blast
  then show ?thesis by (simp add: list_ex_iff list_all_iff)
qed

lemma renewed_unannounced:
  assumes "step e m (g, x) = (m1, (g1, x1), acts1, None)" "my_id g1 \<noteq> my_id g"
    and "rz_loop step es m1 (g1, x1) = (m2, (g2, x2), acts2)" "\<not> list_ex confirms es"
  shows "SendRegisterPk (my_id g1) \<in> set acts1 \<and> \<not> list_ex announces (acts1 @ acts2) \<and> \<not> key_confirmed g2"
  using renewed [OF assms(1,2)] loop_unconfirmed [OF assms(3) _ assms(4)] by simp

end

lemma register_pk_facts:
  "register_pk ok g = (ok', g', acts) \<Longrightarrow>
   key_confirmed g' = key_confirmed g \<and> my_id g' = my_id g \<and> \<not> list_ex announces acts \<and> (ok' \<longrightarrow> acts = [SendRegisterPk (my_id g)])"
  by (auto simp: register_pk_def split: if_splits)

lemma register_peer_facts:
  "register_peer ok m g = (ok', g', acts) \<Longrightarrow>
   key_confirmed g' = key_confirmed g \<and> my_id g' = my_id g \<and> (\<not> key_confirmed g \<longrightarrow> \<not> list_ex announces acts)"
  using register_pk_facts [of ok g] by (auto simp: register_peer_def split: if_splits)

lemma handle_uuid_mismatch_facts:
  "handle_uuid_mismatch ok hosts i h g = (ok', g', acts) \<Longrightarrow>
   \<not> list_ex announces acts \<and> (\<not> key_confirmed g \<longrightarrow> \<not> key_confirmed g')
   \<and> (my_id g' \<noteq> my_id g \<longrightarrow> \<not> key_confirmed g' \<and> (ok' \<longrightarrow> SendRegisterPk (my_id g') \<in> set acts))"
  by (auto simp: handle_uuid_mismatch_def register_pk_def unconfirm_key_def split: if_splits)

lemma handle_resp_facts:
  assumes "handle_resp ro msg m g = (ok', m', g', acts)"
  shows "\<not> list_ex announces acts \<and> (\<not> key_confirmed g \<longrightarrow> \<not> confirming msg \<longrightarrow> \<not> key_confirmed g')
    \<and> (my_id g' \<noteq> my_id g \<longrightarrow> \<not> key_confirmed g' \<and> (ok' \<longrightarrow> SendRegisterPk (my_id g') \<in> set acts))"
proof (cases msg)
  case (RegisterPkResponse res ka)
  then show ?thesis
    using assms handle_uuid_mismatch_facts [of "ro_send_ok ro" "ro_hosts_kept ro" "ro_new_id ro" "m_host m" g]
    by (cases res) (auto simp: handle_resp_def Let_def split: prod.splits if_splits)
qed (use assms in \<open>auto simp: handle_resp_def register_pk_def restart_def Let_def split: if_splits\<close>)

lemma latency_not_announced: "udp_update_latency now h u = (u', acts) \<Longrightarrow> \<not> list_ex announces acts"
  by (auto simp: udp_update_latency_def Let_def split: if_splits)

lemma failure_not_announced: "count_failure t h u = (go, u', acts) \<Longrightarrow> \<not> list_ex announces acts"
  by (auto simp: count_failure_def Let_def split: if_splits sum.splits)

lemma udp_tick_facts:
  assumes "udp_tick R t m (g, u) = ((g', u'), acts, stop)"
  shows "key_confirmed g' = key_confirmed g \<and> my_id g' = my_id g \<and> (\<not> key_confirmed g \<longrightarrow> \<not> list_ex announces acts)"
  using assms register_peer_facts [of "send_ok t" m g] failure_not_announced [of t "m_host m"]
  by (auto simp: udp_tick_def Let_def split: if_splits prod.splits)

lemma udp_recv_facts:
  assumes "udp_recv now ro msg m (g, u) = (m', (g', u'), acts, stop)"
  shows "\<not> list_ex announces acts \<and> (\<not> key_confirmed g \<longrightarrow> \<not> udp_confirms (Recv now ro msg) \<longrightarrow> \<not> key_confirmed g')
    \<and> (my_id g' \<noteq> my_id g \<longrightarrow> \<not> key_confirmed g' \<and> (stop = None \<longrightarrow> SendRegisterPk (my_id g') \<in> set acts))"
  using assms
  by (cases msg) (auto simp: udp_recv_def Let_def split: if_splits prod.splits
      dest!: handle_resp_facts latency_not_announced)

lemma tcp_tick_facts:
  assumes "tcp_tick R now ok m (g, t) = ((g', t'), acts, stop)"
  shows "key_confirmed g' = key_confirmed g \<and> my_id g' = my_id g \<and> \<not> list_ex announces acts"
  using assms register_pk_facts [of ok g] by (auto simp: tcp_tick_def split: if_splits prod.splits)

lemma tcp_receive_facts:
  assumes "tcp_receive now ro r m (g, t) = (m', (g', t'), acts, stop)"
  shows "\<not> list_ex announces acts \<and> (\<not> key_confirmed g \<longrightarrow> \<not> tcp_confirms (TcpRecv now ro r) \<longrightarrow> \<not> key_confirmed g')
    \<and> (my_id g' \<noteq> my_id g \<longrightarrow> \<not> key_confirmed g' \<and> (stop = None \<longrightarrow> SendRegisterPk (my_id g') \<in> set acts))"
  using assms
  by (cases r) (auto simp: tcp_receive_def tcp_update_latency_def Let_def split: if_splits prod.splits
      dest!: handle_resp_facts)

interpretation udp: registration_loop "udp_event R" udp_confirms for R
proof
  fix e m g u m' g' u' acts stop
  assume st: "udp_event R e m (g, u) = (m', (g', u'), acts, stop)"
  show "\<not> key_confirmed g' \<and> \<not> list_ex announces acts" if "\<not> key_confirmed g" "\<not> udp_confirms e"
    using st that by (cases e) (auto split: prod.splits dest!: udp_tick_facts udp_recv_facts)
  show "\<not> key_confirmed g' \<and> \<not> list_ex announces acts \<and> (stop = None \<longrightarrow> SendRegisterPk (my_id g') \<in> set acts)"
    if "my_id g' \<noteq> my_id g"
    using st that by (cases e) (auto split: prod.splits dest!: udp_tick_facts udp_recv_facts)
qed

interpretation tcp: registration_loop "tcp_step R" tcp_confirms for R
proof
  fix e m g u m' g' u' acts stop
  assume st: "tcp_step R e m (g, u) = (m', (g', u'), acts, stop)"
  show "\<not> key_confirmed g' \<and> \<not> list_ex announces acts" if "\<not> key_confirmed g" "\<not> tcp_confirms e"
    using st that by (cases e) (auto split: prod.splits dest!: tcp_tick_facts tcp_receive_facts)
  show "\<not> key_confirmed g' \<and> \<not> list_ex announces acts \<and> (stop = None \<longrightarrow> SendRegisterPk (my_id g') \<in> set acts)"
    if "my_id g' \<noteq> my_id g"
    using st that by (cases e) (auto split: prod.splits dest!: tcp_tick_facts tcp_receive_facts)
qed


section \<open>The invariant of the UDP loop\<close>

definition udp_inv :: "udp_state \<Rightarrow> bool" where
  "udp_inv u \<longleftrightarrow> MIN_REG_TIMEOUT \<le> reg_timeout u \<and> reg_timeout u \<le> MAX_REG_TIMEOUT \<and> 3000 dvd reg_timeout u
     \<and> 0 \<le> ema_latency u \<and> ema_latency u \<le> 1000000 \<and> 0 \<le> fails u"

fun latency_ok :: "rz_act \<Rightarrow> bool" where
  "latency_ok (Latency _ l) \<longleftrightarrow> - 1 \<le> l \<and> l \<le> 1000000"
| "latency_ok _ \<longleftrightarrow> True"

lemma udp_inv_start [simp]: "udp_inv (udp_start now)"
  by (simp add: udp_inv_def udp_start_def)

lemma average_bounds:
  fixes a b :: int
  assumes "0 \<le> a" "a \<le> 1000000" "0 \<le> b" "b \<le> 1000000"
  shows "0 \<le> a div 30 + b * 29 div 30" "a div 30 + b * 29 div 30 \<le> 1000000"
  using assms zdiv_mono1 [of a 1000000 30] zdiv_mono1 [of "b * 29" 29000000 30] by (simp_all add: pos_imp_zdiv_nonneg_iff)

lemma udp_update_latency_inv:
  assumes "udp_update_latency now h u = (u', acts)" "udp_inv u"
  shows "udp_inv u' \<and> list_all latency_ok acts"
proof -
  define l where "l = (case last_register_sent u of Some t \<Rightarrow> int (now - t) | None \<Rightarrow> 0)"
  define a where "a = l div 30 + ema_latency u * 29 div 30"
  have l: "0 \<le> l" by (simp add: l_def split: option.splits)
  show ?thesis
  proof (cases "1000000 < l")
    case True
    then show ?thesis using assms unfolding udp_update_latency_def l_def [symmetric] Let_def
      by (auto simp: udp_inv_def)
  next
    case False
    then have "0 \<le> a" "a \<le> 1000000"
      using l assms(2) unfolding a_def by (auto intro: average_bounds simp: udp_inv_def)
    with False l assms show ?thesis
      unfolding udp_update_latency_def l_def [symmetric] Let_def
      by (cases "ema_latency u = 0") (simp_all add: udp_inv_def a_def [symmetric] del: abs_less_iff split: if_splits, auto)
  qed
qed

lemma count_failure_inv:
  "\<lbrakk>count_failure t h u = (go, u', acts); udp_inv u\<rbrakk> \<Longrightarrow> udp_inv u' \<and> list_all latency_ok acts"
  by (auto simp: count_failure_def udp_inv_def Let_def split: if_splits sum.splits)

lemma register_latency_ok:
  "register_pk ok g = (ok', g', acts) \<Longrightarrow> list_all latency_ok acts"
  "register_peer ok m g = (ok', g', acts) \<Longrightarrow> list_all latency_ok acts"
  "handle_uuid_mismatch ok hosts i h g = (ok', g', acts) \<Longrightarrow> list_all latency_ok acts"
  by (auto simp: register_pk_def register_peer_def handle_uuid_mismatch_def split: if_splits)

lemma handle_resp_latency_ok: "handle_resp ro msg m g = (ok', m', g', acts) \<Longrightarrow> list_all latency_ok acts"
proof (cases msg)
  case (RegisterPkResponse res ka)
  assume "handle_resp ro msg m g = (ok', m', g', acts)"
  then show ?thesis using RegisterPkResponse
    by (cases res) (auto simp: handle_resp_def Let_def split: prod.splits if_splits dest: register_latency_ok)
qed (auto simp: handle_resp_def Let_def split: if_splits prod.splits dest: register_latency_ok)

lemma back_off_inv [simp]: "udp_inv u \<Longrightarrow> udp_inv (back_off b c u)"
  unfolding udp_inv_def back_off_def by auto

lemma sent_inv [simp]: "udp_inv (u\<lparr>last_register_sent := x\<rparr>) = udp_inv u"
  by (simp add: udp_inv_def)

lemma udp_tick_inv:
  assumes "udp_tick R t m (g, u) = ((g', u'), acts, stop)" "udp_inv u"
  shows "udp_inv u' \<and> list_all latency_ok acts"
  using assms by (auto simp: udp_tick_def Let_def split: if_splits prod.splits
      dest!: count_failure_inv dest: register_latency_ok)

lemma udp_event_inv:
  assumes "udp_event R e m (g, u) = (m', (g', u'), acts, stop)" "udp_inv u"
  shows "udp_inv u' \<and> list_all latency_ok acts"
proof (cases e)
  case (Recv now ro msg)
  show ?thesis
  proof (cases msg)
    case (Some x)
    with assms Recv show ?thesis
      by (auto simp: udp_recv_def Let_def split: if_splits prod.splits
          dest: udp_update_latency_inv handle_resp_latency_ok)
  qed (use assms Recv in \<open>auto simp: udp_recv_def\<close>)
qed (use assms udp_tick_inv in \<open>fastforce split: prod.splits\<close>)+

lemma udp_loop_inv:
  "rz_loop (udp_event R) es m (g, udp_start now) = (m', (g', u'), acts) \<Longrightarrow> udp_inv u' \<and> list_all latency_ok acts"
  by (rule rz_loop_invariant [where P = "\<lambda>_. udp_inv" and E = "\<lambda>_. True"])
    (auto dest: udp_event_inv simp: list_all_iff)



section \<open>Properties\<close>

text \<open>
  C23. A new id is not announced before it is confirmed. When a step of the UDP loop gives the
  machine another id (the server answered that the id belongs to another machine), that
  step asks the server to register the new id, and until the server confirms a
  registration neither that step nor any sequence of further ticks and messages announces
  an id to it, and the key stays unconfirmed.
\<close>

theorem new_id_needs_confirmation:
  assumes "udp_event R e m (g, u) = (m1, (g1, u1), acts1, None)" "my_id g1 \<noteq> my_id g"
    and "rz_loop (udp_event R) es m1 (g1, u1) = (m2, (g2, u2), acts2)" "\<not> list_ex udp_confirms es"
  shows "SendRegisterPk (my_id g1) \<in> set acts1 \<and> \<not> list_ex announces (acts1 @ acts2) \<and> \<not> key_confirmed g2"
  using assms by (rule udp.renewed_unannounced)

definition sample_global :: rz_global where
  "sample_global = \<lparr>key_confirmed = True, host_confirmed = (\<lambda>h. h = ''rs''), my_id = ''100'', serial = 3, solving = [],
     should_exit = False, manual_restarted = False, sent_register_pk = False\<rparr>"

definition sample_obs :: resp_obs where
  "sample_obs = \<lparr>ro_send_ok = True, ro_new_id = ''200'', ro_hosts_kept = (\<lambda>_. False), ro_servers_changed = False\<rparr>"

definition sample_tick :: "nat \<Rightarrow> tick_obs" where
  "sample_tick t = \<lparr>t_now = t, t_expired = t, t_timeout = t, t_dns = t, t_dns_set = t, public_server = False,
     rebind_udp = Inr False, send_ok = True\<rparr>"

abbreviation sample_mediator :: mediator where
  "sample_mediator \<equiv> \<lparr>m_host = ''rs.a:21116'', m_host_prefix = ''rs'', keep_alive = 60000\<rparr>"

lemmas rz_eval = udp_recv_def udp_tick_def handle_resp_def handle_uuid_mismatch_def register_pk_def register_peer_def
  unconfirm_key_def udp_update_latency_def reg_expired_def reg_timed_out_def back_off_def count_failure_def elapsed_ms_def
  udp_start_def sample_global_def sample_obs_def sample_tick_def

theorem new_id_needs_confirmation_witness:
  "\<not> list_ex announces (snd (snd (rz_loop (udp_event 12000)
      [Recv 5000 sample_obs (Some (RegisterPkResponse UuidMismatch 0)), Tick (sample_tick 4000000)]
      sample_mediator (sample_global, udp_start 0))))"
proof -
  let ?e = "Recv 5000 sample_obs (Some (RegisterPkResponse UuidMismatch 0))"
  obtain m1 g1 u1 acts1 where st: "udp_event 12000 ?e sample_mediator (sample_global, udp_start 0) = (m1, (g1, u1), acts1, None)"
    and ne: "my_id g1 \<noteq> my_id sample_global"
    by (simp add: rz_eval)
  obtain m2 g2 u2 acts2 where run: "rz_loop (udp_event 12000) [Tick (sample_tick 4000000)] m1 (g1, u1) = (m2, (g2, u2), acts2)"
    by (metis surj_pair)
  show ?thesis
    using new_id_needs_confirmation [OF st ne run] st run by simp
qed

text \<open>
  A registration that stays without an answer is repeated. Whatever happened since the loop
  started, at a tick that comes thirty seconds after the last unanswered registration, or
  \<open>REG_INTERVAL\<close> after the last answer when none is outstanding, the machine registers again
  with its current id and starts the clock of that attempt, provided that no server is
  being left, that no other server's conflict is being resolved and that the socket works.
\<close>

theorem registration_repeated:
  assumes "rz_loop (udp_event R) es m0 (g0, udp_start t0) = (m, (g, u), acts0)"
    and "\<not> should_exit g" "solving g = [] \<or> solving g = m_host m" "send_ok t" "rebind_udp t \<noteq> Inl ()"
    and "case last_register_sent u of
           Some x \<Rightarrow> x + 30000000 \<le> t_timeout t
         | None \<Rightarrow> (case last_register_resp u of Some y \<Rightarrow> y + 1000 * nat R \<le> t_expired t | None \<Rightarrow> True)"
  shows "\<exists>g' u' acts. udp_event R (Tick t) m (g, u) = (m, (g', u'), acts, None)
    \<and> (SendRegisterPk (my_id g) \<in> set acts \<or> SendRegisterPeer (my_id g) (serial g) \<in> set acts)
    \<and> last_register_sent u' = Some (t_now t)"
proof -
  have inv: "udp_inv u" using udp_loop_inv [OF assms(1)] by simp
  have due: "reg_timed_out (t_timeout t) u \<or> last_register_sent u = None \<and> reg_expired R (t_expired t) u"
    using assms(6) inv by (auto simp: reg_timed_out_def reg_expired_def elapsed_ms_def udp_inv_def split: option.splits)
  have "\<exists>g' acts1. register_peer True m g = (True, g', acts1)
      \<and> (SendRegisterPk (my_id g) \<in> set acts1 \<or> SendRegisterPeer (my_id g) (serial g) \<in> set acts1)"
    using assms(3) by (auto simp: register_peer_def register_pk_def)
  then obtain g' acts1 where reg: "register_peer True m g = (True, g', acts1)"
    and sent: "SendRegisterPk (my_id g) \<in> set acts1 \<or> SendRegisterPeer (my_id g) (serial g) \<in> set acts1"
    by blast
  have "\<exists>u' acts. count_failure t h v = (True, u', acts)" for h v
    using assms(5) by (auto simp: count_failure_def Let_def split: sum.splits)
  then obtain u2 acts2 where cf: "count_failure t (m_host m) (back_off (public_server t) True u) = (True, u2, acts2)"
    by blast
  show ?thesis
    using due assms(2,4) reg sent cf by (cases "reg_timed_out (t_timeout t) u") (auto simp: udp_tick_def Let_def back_off_def)
qed

theorem registration_repeated_witness:
  "\<exists>g' u' acts. udp_event 12000 (Tick (sample_tick 31000000)) sample_mediator
      (sample_global, (udp_start 0)\<lparr>last_register_sent := Some 1000000\<rparr>) = (sample_mediator, (g', u'), acts, None)
    \<and> (SendRegisterPk ''100'' \<in> set acts \<or> SendRegisterPeer ''100'' 3 \<in> set acts)
    \<and> last_register_sent u' = Some 31000000"
proof -
  have run: "rz_loop (udp_event 12000) [Tick (sample_tick 1000000)] sample_mediator (sample_global, udp_start 0) =
      (sample_mediator, (sample_global, (udp_start 0)\<lparr>last_register_sent := Some 1000000\<rparr>), [SendRegisterPeer ''100'' 3])"
    by (simp add: rz_eval)
  show ?thesis
    using registration_repeated [OF run, of "sample_tick 31000000"]
    by (simp add: sample_global_def sample_tick_def)
qed

text \<open>
  The latency that is reported. Over any sequence of ticks and messages, every latency the
  UDP loop reports for its server is between -1 (not reachable) and one second, in
  microseconds, and the interval between repeated registrations stays between three and
  thirty seconds.
\<close>

theorem reported_latency_bounds:
  assumes "rz_loop (udp_event R) es m (g, udp_start t0) = (m', (g', u'), acts)"
  shows "(\<forall>h l. Latency h l \<in> set acts \<longrightarrow> - 1 \<le> l \<and> l \<le> 1000000)
    \<and> MIN_REG_TIMEOUT \<le> reg_timeout u' \<and> reg_timeout u' \<le> MAX_REG_TIMEOUT"
  using udp_loop_inv [OF assms] by (fastforce simp: list_all_iff udp_inv_def)

theorem reported_latency_bounds_witness:
  "reg_timeout (snd (fst (snd (rz_loop (udp_event 12000)
      [Tick (sample_tick 1000000), Recv 1040000 sample_obs (Some (RegisterPeerResponse False))]
      sample_mediator (sample_global, udp_start 0))))) \<le> MAX_REG_TIMEOUT"
proof -
  obtain m' g' u' acts where run: "rz_loop (udp_event 12000)
      [Tick (sample_tick 1000000), Recv 1040000 sample_obs (Some (RegisterPeerResponse False))]
      sample_mediator (sample_global, udp_start 0) = (m', (g', u'), acts)"
    by (metis surj_pair)
  show ?thesis using reported_latency_bounds [OF run] by (simp only: run fst_conv snd_conv)
qed

text \<open>
  A late conflict answer leads to an id that is announced before the server knows it. When
  the answer to a registration is late, the registration is repeated, and both are
  answered that the id is taken: the id is renewed twice. The first confirmation that
  arrives afterwards, the one of the first new id, confirms the key as it is, and the next
  tick announces the second new id.
\<close>

theorem late_conflict_announces_unconfirmed_id:
  assumes "solving g = [] \<or> solving g = m_host m" "ro_send_ok o1" "ro_send_ok o2"
  shows "\<exists>g1 g2 g3.
      handle_resp o1 (RegisterPkResponse UuidMismatch 0) m g = (True, m, g1, [SendRegisterPk (ro_new_id o1)])
    \<and> handle_resp o2 (RegisterPkResponse UuidMismatch 0) m g1 = (True, m, g2, [SendRegisterPk (ro_new_id o2)])
    \<and> handle_resp o3 (RegisterPkResponse PkOk 0) m g2 = (True, m, g3, [])
    \<and> register_peer True m g3 = (True, g3, [SendRegisterPeer (ro_new_id o2) (serial g)])"
  using assms by (simp add: handle_resp_def handle_uuid_mismatch_def register_pk_def register_peer_def unconfirm_key_def)

theorem late_conflict_announces_unconfirmed_id_witness:
  "\<exists>g1 g2 g3.
      handle_resp sample_obs (RegisterPkResponse UuidMismatch 0) sample_mediator sample_global
        = (True, sample_mediator, g1, [SendRegisterPk ''200''])
    \<and> handle_resp (sample_obs\<lparr>ro_new_id := ''300''\<rparr>) (RegisterPkResponse UuidMismatch 0) sample_mediator g1
        = (True, sample_mediator, g2, [SendRegisterPk ''300''])
    \<and> handle_resp sample_obs (RegisterPkResponse PkOk 0) sample_mediator g2 = (True, sample_mediator, g3, [])
    \<and> register_peer True sample_mediator g3 = (True, g3, [SendRegisterPeer ''300'' 3])"
  using late_conflict_announces_unconfirmed_id [of sample_global sample_mediator sample_obs "sample_obs\<lparr>ro_new_id := ''300''\<rparr>" sample_obs]
  by (simp add: sample_global_def sample_obs_def)

definition mute :: "rz_act \<Rightarrow> bool" where
  "mute a = (case a of SendRegisterPk _ \<Rightarrow> False | SendRegisterPeer _ _ \<Rightarrow> False | _ \<Rightarrow> True)"

lemma blocked_tick:
  assumes "udp_tick R t m (g, u) = ((g', u'), acts, stop)" "solving g \<noteq> []" "solving g \<noteq> m_host m"
  shows "g' = g \<and> list_all mute acts"
  using assms by (auto simp: udp_tick_def register_peer_def count_failure_def mute_def Let_def split: if_splits prod.splits sum.splits)

text \<open>
  A server in conflict holds up the others. While the conflict of one server is being
  resolved, the loop of another server sends nothing at any tick; it takes its own silence
  for failures of that server, reports it unreachable and goes on doing so as long as the
  first server does not answer.
\<close>

theorem conflict_blocks_other_servers:
  assumes "solving g \<noteq> []" "solving g \<noteq> m_host m"
    and "rz_loop (udp_event R) (map Tick ts) m (g, u) = (m', (g', u'), acts)"
  shows "g' = g \<and> list_all mute acts"
  using assms
proof (induction ts arbitrary: u acts)
  case (Cons t ts)
  obtain g1 u1 acts1 stop where st: "udp_tick R t m (g, u) = ((g1, u1), acts1, stop)"
    by (metis surj_pair)
  have one: "g1 = g \<and> list_all mute acts1" using blocked_tick [OF st Cons.prems(1,2)] .
  obtain m2 g2 u2 acts2 where rest: "rz_loop (udp_event R) (map Tick ts) m (g, u1) = (m2, (g2, u2), acts2)"
    by (metis surj_pair)
  show ?case
    using Cons.IH [OF Cons.prems(1,2), of u1 acts2] Cons.prems(3) rest one st by (cases "stop = None") auto
qed simp

theorem conflict_blocks_other_servers_witness:
  "list_all mute (snd (snd (rz_loop (udp_event 12000) (map (Tick \<circ> sample_tick) [1000000, 5000000, 9000000])
      sample_mediator (sample_global\<lparr>solving := ''other''\<rparr>, udp_start 0))))"
proof -
  obtain m' g' u' acts where run: "rz_loop (udp_event 12000) (map Tick (map sample_tick [1000000, 5000000, 9000000]))
      sample_mediator (sample_global\<lparr>solving := ''other''\<rparr>, udp_start 0) = (m', (g', u'), acts)"
    by (metis surj_pair)
  show ?thesis using conflict_blocks_other_servers [OF _ _ run] run by simp
qed

text \<open>
  A silent TCP connection is given up. When nothing was received for more than one and a
  half times the keep-alive, a tick ends the loop with an error, for every keep-alive that
  the server can set without leaving the range of the type.
\<close>

theorem tcp_silence_ends:
  assumes "\<not> should_exit g" "0 \<le> keep_alive m" "keep_alive m < 2 ^ 31" "elapsed_ms now (tcp_recv t) > keep_alive m * 3 div 2"
  shows "tcp_tick R now ok m (g, t) = ((g, t), [], Some LoopError)"
  using assms by (simp add: tcp_tick_def tcp_patience_ms_def)

end
