(* ===== verification/Incoming.thy ===== *)
theory Incoming
  imports Client_Connect Rendezvous
begin

text \<open>
  How a connection comes in. The agent's half of the key exchange and the ways to it
  (\<open>create_tcp_connection\<close>, \<open>accept_connection\<close>, \<open>create_relay_connection\<close> of
  \<open>src/src/server.rs\<close>), the requests of the rendezvous server to meet a peer, and the
  direct server (\<open>src/src/rendezvous_mediator.rs\<close>). The viewer's half of the exchange is
  \<open>secure_connection\<close> of the theory \<open>Client_Connect\<close>.

  Cryptography, the protobuf encoder, \<open>AddrMangle\<close> and the sockets are parameters.
\<close>

type_synonym addr = "string \<times> nat"
type_synonym perms = "64 word option"


section \<open>The agent's half of the key exchange\<close>

record server_crypto =
  sign_msg :: "bytes \<Rightarrow> bytes \<Rightarrow> bytes"                     \<comment> \<open>message, secret key\<close>
  id_pk_bytes :: "string \<Rightarrow> bytes \<Rightarrow> bytes"                \<comment> \<open>\<open>IdPk::write_to_bytes\<close>\<close>
  encrypt_decode :: "bytes \<Rightarrow> bytes \<Rightarrow> bytes \<Rightarrow> bytes option"  \<comment> \<open>symmetric value, asymmetric value, our secret key\<close>

record agent_keys =
  key_pk :: bytes
  key_sk :: bytes
  box_pk :: bytes
  box_sk :: bytes

datatype hs_reply =
    HsTimeout | HsNone | HsError | HsUnparsable
  | HsPublicKey bytes bytes              \<comment> \<open>asymmetric value, symmetric value\<close>
  | HsOther

datatype hs_error = HsSendFailed | HsReadFailed | HsNoKey | HsFormat | HsDecode | HsLength

text \<open>What one exchange meets: the keys, whether its message gets out, the answer, and the
  hosts the configuration keeps when the key loses its confirmation.\<close>

record hs_env =
  hs_keys :: agent_keys
  hs_sent :: bool
  hs_answer :: hs_reply
  hs_hosts :: "string \<Rightarrow> bool"

text \<open>The connection that is started, with the key of its stream.\<close>

record started =
  st_addr :: addr
  st_key :: "bytes option"
  st_perms :: perms

definition signed_id :: "server_crypto \<Rightarrow> agent_keys \<Rightarrow> rz_global \<Rightarrow> bytes" where
  "signed_id sc ks g = sign_msg sc (id_pk_bytes sc (my_id g) (box_pk ks)) (key_sk ks)"

definition handshake :: "server_crypto \<Rightarrow> hs_env \<Rightarrow> rz_global \<Rightarrow> rz_global \<times> (hs_error + bytes option)" where
  "handshake sc e g =
     (if \<not> hs_sent e then (g, Inl HsSendFailed)
      else case hs_answer e of
        HsTimeout \<Rightarrow> (g, Inl HsReadFailed)
      | HsNone \<Rightarrow> (g, Inl HsNoKey)
      | HsError \<Rightarrow> (g, Inl HsReadFailed)
      | HsUnparsable \<Rightarrow> (g, Inl HsFormat)
      | HsOther \<Rightarrow> (g, Inr None)
      | HsPublicKey asymmetric_value symmetric_value \<Rightarrow>
          if length asymmetric_value = 32 then
            (case encrypt_decode sc symmetric_value asymmetric_value (box_sk (hs_keys e)) of
               Some k \<Rightarrow> (g, Inr (Some k)) | None \<Rightarrow> (g, Inl HsDecode))
          else if asymmetric_value = [] then (unconfirm_key (hs_hosts e) g, Inr None)
          else (g, Inl HsLength))"

definition create_tcp_connection ::
  "server_crypto \<Rightarrow> hs_env \<Rightarrow> addr \<Rightarrow> bool \<Rightarrow> perms \<Rightarrow> rz_global \<Rightarrow> rz_global \<times> bytes list \<times> (hs_error + started)" where
  "create_tcp_connection sc e adr secure cp g =
     (if secure \<and> length (key_pk (hs_keys e)) = 32 \<and> length (key_sk (hs_keys e)) = 64 then
        (let (g1, r) = handshake sc e g
         in (g1, if hs_sent e then [signed_id sc (hs_keys e) g] else [],
             case r of Inl err \<Rightarrow> Inl err | Inr k \<Rightarrow> Inr \<lparr>st_addr = adr, st_key = k, st_perms = cp\<rparr>))
      else (g, [], Inr \<lparr>st_addr = adr, st_key = None, st_perms = cp\<rparr>))"

text \<open>The callers log an error and go on.\<close>

definition logged :: "rz_global \<times> bytes list \<times> (hs_error + started) \<Rightarrow> rz_global \<times> started option" where
  "logged r = (case r of (g, _, Inr c) \<Rightarrow> (g, Some c) | (g, _, Inl _) \<Rightarrow> (g, None))"

datatype listen_obs = ListenFails | AcceptTimeout | AcceptFails | Accepted addr

definition accept_connection ::
  "server_crypto \<Rightarrow> hs_env \<Rightarrow> listen_obs \<Rightarrow> bool \<Rightarrow> perms \<Rightarrow> rz_global \<Rightarrow> rz_global \<times> started option" where
  "accept_connection sc e lo secure cp g =
     (case lo of
        Accepted adr \<Rightarrow> logged (create_tcp_connection sc e adr secure cp g)
      | _ \<Rightarrow> (g, None))"

definition create_relay_connection ::
  "server_crypto \<Rightarrow> hs_env \<Rightarrow> bool \<Rightarrow> addr \<Rightarrow> bool \<Rightarrow> perms \<Rightarrow> rz_global \<Rightarrow> rz_global \<times> started option" where
  "create_relay_connection sc e reached peer_addr secure cp g =
     (if \<not> reached then (g, None)
      else logged (create_tcp_connection sc e peer_addr secure cp g))"

text \<open>Over UDP: the socket is connected and punched, a stream is accepted on it.\<close>

definition udp_nat_listen ::
  "server_crypto \<Rightarrow> hs_env \<Rightarrow> bool \<Rightarrow> addr \<Rightarrow> perms \<Rightarrow> rz_global \<Rightarrow> rz_global \<times> started option" where
  "udp_nat_listen sc e streamed peer_addr_v4 cp g =
     (if \<not> streamed then (g, None)
      else logged (create_tcp_connection sc e peer_addr_v4 True cp g))"


section \<open>Requests to meet a peer\<close>

record punch_hole =
  ph_socket_addr :: bytes
  ph_socket_addr_v6 :: bytes
  ph_relay_server :: string
  ph_nat_type :: "nat_type option"
  ph_force_relay :: bool
  ph_udp_port :: int
  ph_perms :: perms

record fetch_local_addr =
  fla_socket_addr :: bytes
  fla_socket_addr_v6 :: bytes
  fla_relay_server :: string
  fla_perms :: perms

record request_relay =
  rr_socket_addr :: bytes
  rr_relay_server :: string
  rr_uuid :: string
  rr_secure :: bool
  rr_perms :: perms

record punch_hole_sent =
  phs_socket_addr :: bytes
  phs_id :: string
  phs_relay_server :: string
  phs_nat_type :: nat_type
  phs_socket_addr_v6 :: bytes

text \<open>The surroundings of a request: configuration, addresses and what the network lets through.\<close>

record meet_env =
  decode_addr :: "bytes \<Rightarrow> addr"
  encode_addr :: "addr \<Rightarrow> bytes"
  increased_port :: "string \<Rightarrow> string"    \<comment> \<open>\<open>increase_port(host, 1)\<close>\<close>
  use_ws :: bool
  is_proxy :: bool
  tcp_listen_disabled :: bool
  own_nat :: "nat_type option"
  relay_option :: string
  addr_ipv4 :: bool
  ipv6_socket :: "bytes option"
  new_uuid :: string
  machine_id :: string
  connected_from :: "addr option"         \<comment> \<open>\<open>connect_tcp\<close> to the server, with the local address\<close>
  local_addr_ok :: bool
  msg_sent :: bool
  udp_socket :: bool
  nat_listen_ok :: bool                   \<comment> \<open>\<open>udp_nat_listen\<close> ends without an error\<close>

datatype meet_act =
    SendRelayResponse bytes bytes "(string \<times> string \<times> string) option"  \<comment> \<open>uuid, relay server, id\<close>
  | SendLocalAddr string bytes bytes string bytes
  | SendPunchHoleSent punch_hole_sent
  | ConnectTo addr
  | RelayConn string string addr bool bool perms
  | AcceptConn addr bool perms
  | UdpConn addr addr perms

definition get_relay_server :: "meet_env \<Rightarrow> mediator \<Rightarrow> string \<Rightarrow> string" where
  "get_relay_server e m provided =
     (let r1 = relay_option e; r2 = (if r1 = [] then provided else r1)
      in if r2 = [] then increased_port e (m_host m) else r2)"

definition start_ipv6 :: "meet_env \<Rightarrow> addr \<Rightarrow> addr \<Rightarrow> perms \<Rightarrow> bytes \<times> meet_act list" where
  "start_ipv6 e peer_v6 peer_v4 cp =
     (case ipv6_socket e of Some local_v6 \<Rightarrow> (local_v6, [UdpConn peer_v6 peer_v4 cp]) | None \<Rightarrow> ([], []))"

definition create_relay :: "meet_env \<Rightarrow> bytes \<Rightarrow> string \<Rightarrow> string \<Rightarrow> bool \<Rightarrow> bool \<Rightarrow> bytes \<Rightarrow> perms \<Rightarrow> bool \<times> meet_act list" where
  "create_relay e socket_addr relay_server uuid secure initiate v6 cp =
     (if connected_from e = None \<or> \<not> msg_sent e then (False, [])
      else (True,
        [SendRelayResponse socket_addr v6 (if initiate then Some (uuid, relay_server, machine_id e) else None),
         RelayConn relay_server uuid (decode_addr e socket_addr) secure (addr_ipv4 e) cp]))"

text \<open>
  The guard against repeated messages: the address and the time of the last one are read
  under the lock, then written under the lock; the decision is taken on what was read.
  Times are milliseconds.
\<close>

type_synonym last_msg = "addr \<times> nat"

definition is_duplicate :: "last_msg \<Rightarrow> addr \<Rightarrow> nat \<Rightarrow> bool" where
  "is_duplicate prev adr now \<longleftrightarrow> fst prev = adr \<and> now - snd prev < 100"

definition handle_request_relay :: "meet_env \<Rightarrow> nat \<Rightarrow> last_msg \<Rightarrow> request_relay \<Rightarrow> bool \<times> meet_act list" where
  "handle_request_relay e now prev rr =
     (if is_duplicate prev (decode_addr e (rr_socket_addr rr)) now then (True, [])
      else create_relay e (rr_socket_addr rr) (rr_relay_server rr) (rr_uuid rr) (rr_secure rr) False [] (rr_perms rr))"

definition handle_intranet' :: "meet_env \<Rightarrow> fetch_local_addr \<Rightarrow> string \<Rightarrow> bytes \<Rightarrow> bool \<times> meet_act list" where
  "handle_intranet' e fla relay_server v6 =
     (let peer_addr = decode_addr e (fla_socket_addr fla)
      in case connected_from e of
           None \<Rightarrow> (False, [])
         | Some local_addr \<Rightarrow>
             if \<not> local_addr_ok e \<or> \<not> msg_sent e then (False, [])
             else (True,
               [SendLocalAddr (machine_id e) (encode_addr e peer_addr) (encode_addr e local_addr) relay_server v6,
                AcceptConn peer_addr True (fla_perms fla)]))"

definition handle_intranet :: "meet_env \<Rightarrow> meet_env \<Rightarrow> mediator \<Rightarrow> nat \<Rightarrow> last_msg \<Rightarrow> fetch_local_addr \<Rightarrow> bool \<times> meet_act list" where
  "handle_intranet e e' m now prev fla =
     (let adr = decode_addr e (fla_socket_addr fla)
      in if is_duplicate prev adr now then (True, [])
         else
           let peer_v6 = decode_addr e (fla_socket_addr_v6 fla);
               relay_server = get_relay_server e m (fla_relay_server fla);
               relay = use_ws e \<or> is_proxy e;
               (v6, acts6) = (if snd peer_v6 > 0 \<and> \<not> relay then start_ipv6 e peer_v6 adr (fla_perms fla) else ([], []));
               (ok, acts) = (if addr_ipv4 e \<and> \<not> relay \<and> \<not> tcp_listen_disabled e
                             then handle_intranet' e fla relay_server v6 else (False, []))
           in if ok then (True, acts6 @ acts)
              else (let (ok', acts') = create_relay e' (fla_socket_addr fla) relay_server (new_uuid e) True True v6 (fla_perms fla)
                    in (ok', acts6 @ acts')))"

definition punch_udp_hole :: "meet_env \<Rightarrow> addr \<Rightarrow> punch_hole_sent \<Rightarrow> perms \<Rightarrow> bool \<times> meet_act list" where
  "punch_udp_hole e peer_addr msg cp =
     (if \<not> udp_socket e \<or> \<not> msg_sent e then (False, [])
      else (nat_listen_ok e, [SendPunchHoleSent msg, UdpConn peer_addr peer_addr cp]))"

definition handle_punch_hole :: "meet_env \<Rightarrow> mediator \<Rightarrow> nat \<Rightarrow> last_msg \<Rightarrow> punch_hole \<Rightarrow> bool \<times> meet_act list" where
  "handle_punch_hole e m now prev ph =
     (let peer_addr = decode_addr e (ph_socket_addr ph)
      in if is_duplicate prev peer_addr now then (True, [])
         else
           let peer_v6 = decode_addr e (ph_socket_addr_v6 ph);
               relay = use_ws e \<or> is_proxy e \<or> ph_force_relay ph;
               (v6, acts6) = (if snd peer_v6 > 0 \<and> \<not> relay then start_ipv6 e peer_v6 peer_addr (ph_perms ph) else ([], []));
               relay_server = get_relay_server e m (ph_relay_server ph)
           in if ph_nat_type ph = Some SYMMETRIC \<or> own_nat e = Some SYMMETRIC \<or> relay
                 \<or> tcp_listen_disabled e \<and> ph_udp_port ph \<le> 0 then
                (let (ok, acts) = create_relay e (ph_socket_addr ph) relay_server (new_uuid e) True True v6 (ph_perms ph)
                 in (ok, acts6 @ acts))
              else
                let msg = \<lparr>phs_socket_addr = ph_socket_addr ph, phs_id = machine_id e, phs_relay_server = relay_server,
                           phs_nat_type = (case own_nat e of Some n \<Rightarrow> n | None \<Rightarrow> UNKNOWN_NAT),
                           phs_socket_addr_v6 = v6\<rparr>
                in if ph_udp_port ph > 0 then
                     (let (ok, acts) = punch_udp_hole e (fst peer_addr, nat (ph_udp_port ph mod 2 ^ 16)) msg (ph_perms ph)
                      in (ok, acts6 @ acts))
                   else case connected_from e of
                          None \<Rightarrow> (False, acts6)
                        | Some local_addr \<Rightarrow>
                            if \<not> msg_sent e then (False, acts6 @ [ConnectTo peer_addr])
                            else (True, acts6 @ [ConnectTo peer_addr, SendPunchHoleSent msg, AcceptConn peer_addr True (ph_perms ph)]))"

text \<open>What becomes of a connection that a request asks for.\<close>

record path_obs =
  po_listen :: listen_obs
  po_relay :: bool
  po_stream :: bool

definition perform :: "server_crypto \<Rightarrow> hs_env \<Rightarrow> path_obs \<Rightarrow> meet_act \<Rightarrow> rz_global \<Rightarrow> rz_global \<times> started option" where
  "perform sc h po act g =
     (case act of
        RelayConn _ _ peer secure _ cp \<Rightarrow> create_relay_connection sc h (po_relay po) peer secure cp g
      | AcceptConn _ secure cp \<Rightarrow> accept_connection sc h (po_listen po) secure cp g
      | UdpConn _ peer_v4 cp \<Rightarrow> udp_nat_listen sc h (po_stream po) peer_v4 cp g
      | _ \<Rightarrow> (g, None))"


section \<open>The direct server\<close>

definition get_direct_port :: "int \<Rightarrow> string \<Rightarrow> int" where
  "get_direct_port RENDEZVOUS_PORT opt =
     (let port = (case parse_i32 opt of Some p \<Rightarrow> p | None \<Rightarrow> 0) in if port \<le> 0 then RENDEZVOUS_PORT + 2 else port)"

record direct_state =
  listening :: bool
  ds_port :: int
  waiting :: bool                        \<comment> \<open>in the inner loop, after a failed bind\<close>

record direct_obs =
  direct_on :: bool                      \<comment> \<open>the option, when it is read\<close>
  service_stopped :: bool
  port_at_bind :: int
  port_at_check :: int
  bind_ok :: bool
  accepted :: "addr option"

datatype direct_act = BindPort nat | DirectConn addr bool perms

definition direct_start :: direct_state where
  "direct_start = \<lparr>listening = False, ds_port = 0, waiting = False\<rparr>"

definition serve_listener :: "direct_obs \<Rightarrow> direct_state \<Rightarrow> direct_state \<times> direct_act list" where
  "serve_listener ob s =
     (if \<not> listening s then (s, [])
      else if (\<not> direct_on ob \<or> service_stopped ob) \<or> ds_port s \<noteq> port_at_check ob then (s\<lparr>listening := False\<rparr>, [])
      else (s, case accepted ob of Some adr \<Rightarrow> [DirectConn adr True None] | None \<Rightarrow> []))"

text \<open>
  One turn of the loop. A turn that fails to bind goes on in the inner loop, whose turns
  only compare the configured port with the one that failed.
\<close>

definition direct_turn :: "direct_obs \<Rightarrow> direct_state \<Rightarrow> direct_state \<times> direct_act list" where
  "direct_turn ob s =
     (if waiting s then
        (if ds_port s \<noteq> port_at_check ob then (s\<lparr>waiting := False\<rparr>, []) else (s, []))
      else if \<not> (\<not> direct_on ob \<or> service_stopped ob) \<and> \<not> listening s then
        (let s1 = s\<lparr>ds_port := port_at_bind ob\<rparr>
         in if bind_ok ob then
              (let (s2, acts) = serve_listener ob (s1\<lparr>listening := True\<rparr>)
               in (s2, BindPort (nat (port_at_bind ob mod 2 ^ 16)) # acts))
            else (s1\<lparr>waiting := True\<rparr>, []))
      else serve_listener ob s)"

fun direct_run :: "direct_obs list \<Rightarrow> direct_state \<Rightarrow> direct_state \<times> direct_act list list" where
  "direct_run [] s = (s, [])"
| "direct_run (ob # obs) s =
     (let (s1, acts) = direct_turn ob s; (s2, rest) = direct_run obs s1 in (s2, acts # rest))"


section \<open>Lemmas\<close>

definition key_pair_ok :: "agent_keys \<Rightarrow> bool" where
  "key_pair_ok ks \<longleftrightarrow> length (key_pk ks) = 32 \<and> length (key_sk ks) = 64"

lemma create_secured:
  assumes "key_pair_ok (hs_keys h)" "logged (create_tcp_connection sc h adr True cp g) = (g', Some c)"
  shows "st_perms c = cp \<and> st_addr c = adr \<and> handshake sc h g = (g', Inr (st_key c))"
  using assms by (auto simp: create_tcp_connection_def key_pair_ok_def logged_def split: prod.splits sum.splits)

fun wants :: "perms \<Rightarrow> meet_act \<Rightarrow> bool" where
  "wants cp (RelayConn _ _ _ secure _ cp') \<longleftrightarrow> secure \<and> cp' = cp"
| "wants cp (AcceptConn _ secure cp') \<longleftrightarrow> secure \<and> cp' = cp"
| "wants cp (UdpConn _ _ cp') \<longleftrightarrow> cp' = cp"
| "wants cp _ \<longleftrightarrow> True"

fun relayed :: "meet_act \<Rightarrow> bool" where
  "relayed (AcceptConn _ _ _) = False"
| "relayed (UdpConn _ _ _) = False"
| "relayed (ConnectTo _) = False"
| "relayed _ = True"

lemma perform_secured:
  assumes "wants cp act" "key_pair_ok (hs_keys h)" "perform sc h po act g = (g', Some c)"
  shows "st_perms c = cp \<and> handshake sc h g = (g', Inr (st_key c))"
  using assms create_secured [of h sc _ cp g g' c]
  by (cases act) (auto simp: perform_def create_relay_connection_def accept_connection_def udp_nat_listen_def
      split: if_splits listen_obs.splits)

lemma create_relay_wants:
  "list_all (wants cp) (snd (create_relay e sa rs uuid True ini v6 cp)) \<and> list_all relayed (snd (create_relay e sa rs uuid sec ini v6 cp))"
  by (auto simp: create_relay_def)

lemma start_ipv6_wants: "list_all (wants cp) (snd (start_ipv6 e p6 p4 cp))"
  by (auto simp: start_ipv6_def split: option.splits)

lemma intranet'_wants: "list_all (wants (fla_perms fla)) (snd (handle_intranet' e fla rs v6))"
  by (auto simp: handle_intranet'_def Let_def split: option.splits)

lemma punch_udp_wants: "list_all (wants cp) (snd (punch_udp_hole e peer msg cp))"
  by (auto simp: punch_udp_hole_def)

lemma punch_hole_wants: "list_all (wants (ph_perms ph)) (snd (handle_punch_hole e m now prev ph))"
  using create_relay_wants start_ipv6_wants punch_udp_wants
  by (simp add: handle_punch_hole_def Let_def split_def split: option.splits)

lemma intranet_wants: "list_all (wants (fla_perms fla)) (snd (handle_intranet e e' m now prev fla))"
  using create_relay_wants start_ipv6_wants intranet'_wants
  by (simp add: handle_intranet_def Let_def split_def)

lemma forced_relayed:
  "use_ws e \<or> is_proxy e \<or> ph_force_relay ph \<Longrightarrow> list_all relayed (snd (handle_punch_hole e m now prev ph))"
  using create_relay_wants by (auto simp: handle_punch_hole_def Let_def split_def)


section \<open>Both halves of the exchange\<close>

text \<open>What the other end makes of a message of the viewer. An empty message has no kind.\<close>

fun deliver :: "out_msg \<Rightarrow> hs_reply" where
  "deliver EmptyMessage = HsOther"
| "deliver (PublicKey a s) = HsPublicKey a s"
| "deliver EmptyPublicKey = HsPublicKey [] []"

text \<open>
  The documented behaviour of the primitives for the keys at hand: a signature verifies
  under the matching public key only and gives the message back, the encoding of an id
  and its key is read back, and a sealed box opens with the matching keys.
\<close>

definition exchange_laws :: "crypto \<Rightarrow> server_crypto \<Rightarrow> agent_keys \<Rightarrow> fresh_keys \<Rightarrow> bool" where
  "exchange_laws cr sc ks fk \<longleftrightarrow>
     (\<forall>m pk. sign_verify cr (sign_msg sc m (key_sk ks)) pk = (if pk = key_pk ks then Some m else None))
     \<and> (\<forall>i. parse_id_pk cr (id_pk_bytes sc i (box_pk ks)) = Some (i, box_pk ks))
     \<and> encrypt_decode sc (box_seal cr (gen_key fk) (replicate 24 (CHR 0x00)) (box_pk ks) (out_sk_b fk)) (our_pk_b fk) (box_sk ks)
         = Some (gen_key fk)
     \<and> key_pair_ok ks \<and> length (box_pk ks) = 32 \<and> length (our_pk_b fk) = 32"

lemma decode_signed_id:
  "exchange_laws cr sc ks fk \<Longrightarrow>
   decode_id_pk cr (signed_id sc ks g) pk = (if pk = key_pk ks then Some (my_id g, box_pk ks) else None)"
  by (simp add: exchange_laws_def decode_id_pk_def signed_id_def get_pk_def)

text \<open>
  C4. Both ends of a connection agree on its protection. When the messages of the exchange are
  delivered, the viewer sends one message, the agent starts the connection, and both
  streams have the same key or both have none; they have the viewer's fresh key exactly
  when the rendezvous server vouched for the agent's public key under the id that the
  viewer asked for and the agent has.
\<close>

theorem handshake_agreement:
  assumes "exchange_laws cr sc ks fk"
    and "v = secure_connection cr rs fk True (SignedId (signed_id sc ks g)) peer vouch key"
  shows "\<exists>msg g' c. sec_sent v = [msg]
    \<and> create_tcp_connection sc \<lparr>hs_keys = ks, hs_sent = True, hs_answer = deliver msg, hs_hosts = hosts\<rparr> adr True cp g
        = (g', [signed_id sc ks g], Inr c)
    \<and> st_key c = sec_key v
    \<and> sec_key v = (if vouched_pk cr rs peer key vouch = Some (key_pk ks) \<and> peer = my_id g then Some (gen_key fk) else None)"
  using assms decode_signed_id [OF assms(1), of g]
  by (auto simp: secure_connection_def create_tcp_connection_def handshake_def send_and_return_def create_symmetric_key_msg_def
      exchange_laws_def key_pair_ok_def split: option.splits)

definition sample_agent :: agent_keys where
  "sample_agent = \<lparr>key_pk = replicate 32 (CHR ''a''), key_sk = replicate 64 (CHR ''s''),
     box_pk = replicate 32 (CHR ''b''), box_sk = replicate 32 (CHR ''c'')\<rparr>"

definition sample_server_crypto :: server_crypto where
  "sample_server_crypto = \<lparr>sign_msg = (\<lambda>m sk. CHR ''A'' # m), id_pk_bytes = (\<lambda>i b. b @ i),
     encrypt_decode = (\<lambda>s a sk. Some s)\<rparr>"

text \<open>Signatures by tag: one of the agent, one of the rendezvous server.\<close>

definition sample_viewer_crypto :: crypto where
  "sample_viewer_crypto = \<lparr>decode64 = (\<lambda>s. Some (replicate 32 (CHR ''r''))),
     sign_verify = (\<lambda>m k. case m of
         [] \<Rightarrow> None
       | t # r \<Rightarrow> if t = CHR ''A'' then (if k = replicate 32 (CHR ''a'') then Some r else None)
                 else if k = replicate 32 (CHR ''r'') then Some r else None),
     parse_id_pk = (\<lambda>m. Some (drop 32 m, take 32 m)),
     box_seal = (\<lambda>k n p s. k)\<rparr>"

definition sample_fresh :: fresh_keys where
  "sample_fresh = \<lparr>our_pk_b = replicate 32 (CHR ''o''), out_sk_b = ''out'', gen_key = ''key''\<rparr>"

lemma sample_exchange_laws: "exchange_laws sample_viewer_crypto sample_server_crypto sample_agent sample_fresh"
  by (simp add: exchange_laws_def sample_viewer_crypto_def sample_server_crypto_def sample_agent_def sample_fresh_def key_pair_ok_def)

theorem handshake_agreement_witness:
  "\<exists>msg g' c. create_tcp_connection sample_server_crypto
       \<lparr>hs_keys = sample_agent, hs_sent = True, hs_answer = deliver msg, hs_hosts = (\<lambda>_. True)\<rparr> (''10.0.0.1'', 5000) True None sample_global
       = (g', [signed_id sample_server_crypto sample_agent sample_global], Inr c)
     \<and> st_key c = Some ''key''"
proof -
  let ?vouch = "CHR ''R'' # replicate 32 (CHR ''a'') @ ''100''"
  have vouched: "vouched_pk sample_viewer_crypto ''rs'' ''100'' [] ?vouch = Some (key_pk sample_agent)"
    by (simp add: vouched_pk_def get_rs_pk_def get_pk_def decode_id_pk_def sample_viewer_crypto_def sample_agent_def)
  have ids: "my_id sample_global = ''100''" "gen_key sample_fresh = ''key''"
    by (simp_all add: sample_global_def sample_fresh_def)
  show ?thesis
    using handshake_agreement [OF sample_exchange_laws refl, of "''rs''" sample_global "''100''" ?vouch "[]"
        "\<lambda>_. True" "(''10.0.0.1'', 5000)" None] vouched ids
    by (metis (no_types, lifting))
qed

text \<open>
  C34. A peer decides whether the agent's side is encrypted. Without holding any key, a peer that
  answers the agent's signed id with a message of another kind gets a connection whose
  stream has no key although a secured one was asked for; one that answers with an empty
  public key gets the same and withdraws the confirmation of the agent's key, so that
  the agent does not announce its id until the rendezvous server confirms a registration.
\<close>

theorem peer_downgrades_agent:
  assumes "key_pair_ok ks"
  shows "create_tcp_connection sc \<lparr>hs_keys = ks, hs_sent = True, hs_answer = HsOther, hs_hosts = hosts\<rparr> adr True cp g
        = (g, [signed_id sc ks g], Inr \<lparr>st_addr = adr, st_key = None, st_perms = cp\<rparr>)
    \<and> create_tcp_connection sc \<lparr>hs_keys = ks, hs_sent = True, hs_answer = HsPublicKey [] sv, hs_hosts = hosts\<rparr> adr True cp g
        = (unconfirm_key hosts g, [signed_id sc ks g], Inr \<lparr>st_addr = adr, st_key = None, st_perms = cp\<rparr>)
    \<and> (rz_loop (udp_event R) es m (unconfirm_key hosts g, u) = (m', (g', u'), acts) \<longrightarrow> \<not> list_ex udp_confirms es
        \<longrightarrow> \<not> list_ex announces acts)"
proof -
  have "\<not> key_confirmed (unconfirm_key hosts g)" by (simp add: unconfirm_key_def)
  then show ?thesis
    using assms udp.loop_unconfirmed [of R es m "unconfirm_key hosts g" u m' g' u' acts]
    by (auto simp: create_tcp_connection_def handshake_def key_pair_ok_def)
qed

theorem peer_downgrades_agent_witness:
  "create_tcp_connection sample_server_crypto \<lparr>hs_keys = sample_agent, hs_sent = True, hs_answer = HsOther, hs_hosts = (\<lambda>_. True)\<rparr>
      (''10.0.0.1'', 5000) True None sample_global
   = (sample_global, [signed_id sample_server_crypto sample_agent sample_global],
      Inr \<lparr>st_addr = (''10.0.0.1'', 5000), st_key = None, st_perms = None\<rparr>)"
  using peer_downgrades_agent [of sample_agent sample_server_crypto] by (simp add: key_pair_ok_def sample_agent_def)

text \<open>
  What a connection that the rendezvous server arranges carries. Every connection started for
  a hole-punching or an intranet request, over whichever path, has the permissions of that
  request and has been through the agent's half of the key exchange; and when a relay is
  demanded, or the machine is behind a proxy or uses web sockets, no direct path is tried.
\<close>

theorem arranged_connections:
  assumes "key_pair_ok (hs_keys h)" "perform sc h po act g = (g', Some c)"
  shows "(act \<in> set (snd (handle_punch_hole e m now prev ph)) \<longrightarrow>
            st_perms c = ph_perms ph \<and> handshake sc h g = (g', Inr (st_key c))
            \<and> (use_ws e \<or> is_proxy e \<or> ph_force_relay ph \<longrightarrow> relayed act))
    \<and> (act \<in> set (snd (handle_intranet e e' m now prev fla)) \<longrightarrow>
            st_perms c = fla_perms fla \<and> handshake sc h g = (g', Inr (st_key c)))"
  using perform_secured [OF _ assms] punch_hole_wants [of ph e m now prev] intranet_wants [of fla e e' m now prev]
    forced_relayed [of e ph m now prev]
  by (auto simp: list_all_iff)

definition sample_meet :: meet_env where
  "sample_meet = \<lparr>decode_addr = (\<lambda>b. (b, length b)), encode_addr = fst, increased_port = (\<lambda>h. h), use_ws = False, is_proxy = False,
     tcp_listen_disabled = False, own_nat = Some ASYMMETRIC, relay_option = [], addr_ipv4 = True, ipv6_socket = None,
     new_uuid = ''u'', machine_id = ''100'', connected_from = Some (''10.0.0.2'', 4000), local_addr_ok = True, msg_sent = True,
     udp_socket = True, nat_listen_ok = True\<rparr>"

definition sample_punch :: punch_hole where
  "sample_punch = \<lparr>ph_socket_addr = ''peer'', ph_socket_addr_v6 = [], ph_relay_server = ''relay'', ph_nat_type = Some ASYMMETRIC,
     ph_force_relay = True, ph_udp_port = 0, ph_perms = Some 5\<rparr>"

theorem arranged_connections_witness:
  "st_perms \<lparr>st_addr = (''peer'', 4), st_key = Some ''k'', st_perms = Some 5\<rparr> = ph_perms sample_punch"
proof -
  let ?h = "\<lparr>hs_keys = sample_agent, hs_sent = True, hs_answer = HsPublicKey (replicate 32 (CHR ''o'')) ''k'', hs_hosts = (\<lambda>_. True)\<rparr>"
  let ?act = "RelayConn ''relay'' ''u'' (''peer'', 4) True True (Some 5)"
  have "perform sample_server_crypto ?h \<lparr>po_listen = ListenFails, po_relay = True, po_stream = False\<rparr> ?act sample_global
      = (sample_global, Some \<lparr>st_addr = (''peer'', 4), st_key = Some ''k'', st_perms = Some 5\<rparr>)"
    by (simp add: perform_def create_relay_connection_def create_tcp_connection_def handshake_def logged_def
        sample_agent_def sample_server_crypto_def)
  moreover have "?act \<in> set (snd (handle_punch_hole sample_meet sample_mediator 1000 ((''x'', 0), 0) sample_punch))"
    by (simp add: handle_punch_hole_def is_duplicate_def get_relay_server_def create_relay_def Let_def sample_meet_def
        sample_punch_def)
  moreover have "key_pair_ok (hs_keys ?h)" by (simp add: key_pair_ok_def sample_agent_def)
  ultimately show ?thesis
    using arranged_connections [of ?h sample_server_crypto "\<lparr>po_listen = ListenFails, po_relay = True, po_stream = False\<rparr>" ?act
        sample_global sample_global "\<lparr>st_addr = (''peer'', 4), st_key = Some ''k'', st_perms = Some 5\<rparr>" sample_meet
        sample_mediator 1000 "((''x'', 0), 0)" sample_punch] by simp
qed

text \<open>
  A relay request decides by itself: with its \<open>secure\<close> flag off the connection starts
  without an exchange of keys.
\<close>

theorem relay_request_plain:
  assumes "\<not> rr_secure rr" "act \<in> set (snd (handle_request_relay e now prev rr))" "perform sc h po act g = (g', Some c)"
  shows "g' = g \<and> st_key c = None \<and> st_perms c = rr_perms rr"
  using assms by (auto simp: handle_request_relay_def create_relay_def perform_def create_relay_connection_def
      create_tcp_connection_def logged_def split: if_splits)


section \<open>Repeated requests\<close>

text \<open>
  The guard as its two critical sections. A request reads what the last one left, then
  leaves its own address and time; what it decides depends on what it read.
\<close>

datatype guard_op = GuardRead nat | GuardWrite nat addr nat

text \<open>The shared cell, and what each request read.\<close>

fun guard_run :: "guard_op list \<Rightarrow> last_msg \<times> (nat \<rightharpoonup> last_msg) \<Rightarrow> last_msg \<times> (nat \<rightharpoonup> last_msg)" where
  "guard_run [] s = s"
| "guard_run (GuardRead i # ops) (cell, seen) = guard_run ops (cell, seen(i \<mapsto> cell))"
| "guard_run (GuardWrite i adr now # ops) (cell, seen) = guard_run ops ((adr, now), seen)"

text \<open>
  The guard against repeated requests works in sequence only. A request from the address of
  the last one within a tenth of a second is dropped when the first has passed the guard;
  when both read before either writes, both are carried out, however close they are.
\<close>

theorem duplicate_guard_race:
  assumes "now' - now < 100" "\<not> is_duplicate old adr now'" "adr = decode_addr e (rr_socket_addr rr)"
    and "seen = (\<lambda>ops. the (snd (guard_run ops (old, Map.empty)) 1))"
  shows "handle_request_relay e now' (seen [GuardRead 0, GuardWrite 0 adr now, GuardRead 1, GuardWrite 1 adr now']) rr = (True, [])
    \<and> handle_request_relay e now' (seen [GuardRead 0, GuardRead 1, GuardWrite 0 adr now, GuardWrite 1 adr now']) rr
      = create_relay e (rr_socket_addr rr) (rr_relay_server rr) (rr_uuid rr) (rr_secure rr) False [] (rr_perms rr)"
  using assms by (auto simp: is_duplicate_def handle_request_relay_def)

definition sample_relay :: request_relay where
  "sample_relay = \<lparr>rr_socket_addr = ''peer'', rr_relay_server = ''relay'', rr_uuid = ''u'', rr_secure = True, rr_perms = None\<rparr>"

theorem duplicate_guard_race_witness:
  "snd (handle_request_relay sample_meet 1001
      (the (snd (guard_run [GuardRead 0, GuardRead 1, GuardWrite 0 (''peer'', 4) 1000, GuardWrite 1 (''peer'', 4) 1001]
        (((''x'', 0), 0), Map.empty)) 1)) sample_relay) \<noteq> []"
  using duplicate_guard_race [OF _ _ _ refl, of 1001 1000 "((''x'', 0), 0)" "(''peer'', 4)" sample_meet sample_relay]
  by (simp add: sample_meet_def sample_relay_def is_duplicate_def create_relay_def)


section \<open>The direct server's life\<close>

lemma serve_listener_acts:
  "DirectConn adr sec cp \<in> set (snd (serve_listener ob s)) \<Longrightarrow>
   direct_on ob \<and> \<not> service_stopped ob \<and> listening s \<and> ds_port s = port_at_check ob \<and> accepted ob = Some adr \<and> sec \<and> cp = None"
  by (auto simp: serve_listener_def split: if_splits option.splits)

lemma direct_turn_acts:
  assumes "DirectConn adr sec cp \<in> set (snd (direct_turn ob s))"
  shows "direct_on ob \<and> \<not> service_stopped ob \<and> accepted ob = Some adr \<and> sec \<and> cp = None
    \<and> listening (fst (direct_turn ob s)) \<and> ds_port (fst (direct_turn ob s)) = port_at_check ob"
  using assms by (auto simp: direct_turn_def serve_listener_def Let_def split: if_splits option.splits)

lemma direct_run_Cons: "direct_run (ob # obs) s = (let r = direct_run obs (fst (direct_turn ob s)) in (fst r, snd (direct_turn ob s) # snd r))"
  by (simp add: split_def Let_def)

lemma direct_run_nth:
  "i < length obs \<Longrightarrow>
   snd (direct_run obs s) ! i = snd (direct_turn (obs ! i) (fst (direct_run (take i obs) s)))
   \<and> fst (direct_run (take (Suc i) obs) s) = fst (direct_turn (obs ! i) (fst (direct_run (take i obs) s)))"
proof (induction obs arbitrary: s i)
  case (Cons ob obs)
  then show ?case by (cases i) (simp_all add: direct_run_Cons Let_def del: direct_run.simps(2))
qed simp

text \<open>
  The direct door. Over any sequence of turns, a connection accepted in a turn is secured and
  without extra permissions, and is accepted only while the option is on, the service
  is not stopped and the listener stands at the port the configuration names in that turn.
\<close>

theorem direct_door:
  assumes "i < length obs" "DirectConn adr sec cp \<in> set (snd (direct_run obs s) ! i)"
  shows "direct_on (obs ! i) \<and> \<not> service_stopped (obs ! i) \<and> accepted (obs ! i) = Some adr \<and> sec \<and> cp = None
    \<and> listening (fst (direct_run (take (Suc i) obs) s)) \<and> ds_port (fst (direct_run (take (Suc i) obs) s)) = port_at_check (obs ! i)"
  using direct_run_nth [OF assms(1), of s] direct_turn_acts assms(2) by metis

definition sample_turn :: "bool \<Rightarrow> direct_obs" where
  "sample_turn ok = \<lparr>direct_on = True, service_stopped = False, port_at_bind = 21118, port_at_check = 21118, bind_ok = ok,
     accepted = Some (''10.0.0.9'', 40000)\<rparr>"

lemmas direct_eval = direct_turn_def serve_listener_def direct_start_def sample_turn_def

theorem direct_door_witness:
  "ds_port (fst (direct_run [sample_turn True] direct_start)) = 21118"
  using direct_door [of 0 "[sample_turn True]" "(''10.0.0.9'', 40000)" True None direct_start] by (simp add: direct_eval)

text \<open>
  A failed bind is final until the port changes. Once the listener could not be bound, no later
  turn binds or accepts anything as long as the configured port stays the same, even if
  the port has become free and the option was turned off and on again.
\<close>

theorem direct_bind_failure_sticks:
  assumes "\<not> waiting s" "\<not> listening s" "direct_on ob" "\<not> service_stopped ob" "\<not> bind_ok ob"
    and "list_all (\<lambda>o'. port_at_check o' = port_at_bind ob) obs"
  shows "list_all (\<lambda>acts. acts = []) (snd (direct_run (ob # obs) s)) \<and> waiting (fst (direct_run (ob # obs) s))"
proof -
  have stuck: "list_all (\<lambda>acts. acts = []) (snd (direct_run obs s')) \<and> waiting (fst (direct_run obs s'))"
    if "waiting s'" "list_all (\<lambda>o'. port_at_check o' = ds_port s') obs" for s'
    using that by (induction obs) (simp_all add: direct_run_Cons direct_turn_def Let_def del: direct_run.simps(2))
  have "direct_turn ob s = (s\<lparr>ds_port := port_at_bind ob, waiting := True\<rparr>, [])"
    using assms(1-5) by (simp add: direct_turn_def)
  then show ?thesis using assms(6) stuck [of "s\<lparr>ds_port := port_at_bind ob, waiting := True\<rparr>"]
    by (simp add: direct_run_Cons Let_def del: direct_run.simps(2))
qed

theorem direct_bind_failure_sticks_witness:
  "waiting (fst (direct_run [sample_turn False, sample_turn True, sample_turn True] direct_start))"
  using direct_bind_failure_sticks [of direct_start "sample_turn False" "[sample_turn True, sample_turn True]"]
  by (simp add: direct_start_def sample_turn_def del: direct_run.simps)

end
