(* ===== verification/Conn_Manager.thy ===== *)
theory Conn_Manager
  imports Sched
begin

text \<open>
  The connection manager, \<open>src/src/ui_cm_interface.rs\<close>: the window at the customer that
  shows who is connected and carries the owner's answers. Its table of clients, the
  buttons of the window, the task that talks to one connection, and the file jobs that
  run on its side.

  What a task sends to its connection is a list of messages. Functions of \<open>hbb_common\<close> on
  transfer jobs and on the file system are parameters or observed results.
\<close>


section \<open>The table of clients\<close>

record client_info =
  ci_is_file_transfer :: bool
  ci_is_view_camera :: bool
  ci_is_terminal :: bool
  ci_port_forward :: string
  ci_peer_id :: string
  ci_name :: string
  ci_keyboard :: bool
  ci_clipboard :: bool
  ci_audio :: bool
  ci_file :: bool
  ci_restart :: bool
  ci_recording :: bool
  ci_block_input :: bool
  ci_from_switch :: bool

record client =
  cl_info :: client_info
  cl_authorized :: bool
  cl_disconnected :: bool
  in_voice_call :: bool
  incoming_voice_call :: bool

text \<open>The messages to a connection.\<close>

datatype cm_data =
    DClickTime
  | DAuthorize
  | DClose
  | DSchedResp bool int
  | DChat string
  | DSwitchPermission string bool
  | DSwitchSidesBack
  | DVoiceCallResponse bool
  | DCloseVoiceCall
  | DRequestStart
  | DPrivacyMode string
  | DError int int                       \<comment> \<open>id and file number\<close>
  | DDone int int
  | DListing string
  | DReadJobInit int bool
  | DFileDigest int
  | DFileBlock int
  | DFileReadDone int
  | DFileReadError int
  | DAllFiles int bool
  | DConfirm int bool
  | DDigest int
  | DClip string

record cm_state =
  clients :: "int \<rightharpoonup> client"
  click_time :: int
  cm_sent :: "(int \<times> cm_data) list"       \<comment> \<open>what was put into the channels, by connection\<close>

definition cm_start :: cm_state where
  "cm_start = \<lparr>clients = Map.empty, click_time = 0, cm_sent = []\<rparr>"

definition put :: "int \<Rightarrow> cm_data \<Rightarrow> cm_state \<Rightarrow> cm_state" where
  "put i d s = s\<lparr>cm_sent := cm_sent s @ [(i, d)]\<rparr>"

text \<open>A button sends something if the client is in the table.\<close>

definition tell :: "int \<Rightarrow> cm_data \<Rightarrow> cm_state \<Rightarrow> cm_state" where
  "tell i d s = (if clients s i = None then s else put i d s)"

definition add_connection :: "int \<Rightarrow> client_info \<Rightarrow> bool \<Rightarrow> cm_state \<Rightarrow> cm_state" where
  "add_connection i info authorized s =
     (let c = \<lparr>cl_info = info, cl_authorized = authorized, cl_disconnected = False, in_voice_call = False,
               incoming_voice_call = False\<rparr>;
          kept = (\<lambda>j. case clients s j of
                        Some d \<Rightarrow> if cl_disconnected d \<and> ci_peer_id (cl_info d) = ci_peer_id info then None else Some d
                      | None \<Rightarrow> None)
      in s\<lparr>clients := kept(i \<mapsto> c)\<rparr>)"

definition is_authorized :: "int \<Rightarrow> cm_state \<Rightarrow> bool" where
  "is_authorized i s = (case clients s i of Some c \<Rightarrow> cl_authorized c | None \<Rightarrow> False)"

definition update_client :: "int \<Rightarrow> (client \<Rightarrow> client) \<Rightarrow> cm_state \<Rightarrow> cm_state" where
  "update_client i f s = s\<lparr>clients := (clients s)(i := map_option f (clients s i))\<rparr>"

definition remove_connection :: "int \<Rightarrow> bool \<Rightarrow> cm_state \<Rightarrow> cm_state" where
  "remove_connection i closing s =
     (if closing then s\<lparr>clients := (clients s)(i := None)\<rparr>
      else update_client i (\<lambda>c. c\<lparr>cl_disconnected := True\<rparr>) s)"

definition voice_call_started :: "int \<Rightarrow> cm_state \<Rightarrow> cm_state" where
  "voice_call_started i = update_client i (\<lambda>c. c\<lparr>incoming_voice_call := False, in_voice_call := True\<rparr>)"

definition voice_call_incoming :: "int \<Rightarrow> cm_state \<Rightarrow> cm_state" where
  "voice_call_incoming i = update_client i (\<lambda>c. c\<lparr>incoming_voice_call := True, in_voice_call := False\<rparr>)"

definition voice_call_closed :: "int \<Rightarrow> cm_state \<Rightarrow> cm_state" where
  "voice_call_closed i = update_client i (\<lambda>c. c\<lparr>incoming_voice_call := False, in_voice_call := False\<rparr>)"


section \<open>The buttons\<close>

definition check_click_time :: "int \<Rightarrow> cm_state \<Rightarrow> cm_state" where
  "check_click_time i = tell i DClickTime"

definition authorize :: "int \<Rightarrow> cm_state \<Rightarrow> cm_state" where
  "authorize i s =
     (if clients s i = None then s else put i DAuthorize (update_client i (\<lambda>c. c\<lparr>cl_authorized := True\<rparr>) s))"

definition close_client :: "int \<Rightarrow> cm_state \<Rightarrow> cm_state" where
  "close_client i = tell i DClose"

definition remove_client :: "int \<Rightarrow> cm_state \<Rightarrow> cm_state" where
  "remove_client i s = s\<lparr>clients := (clients s)(i := None)\<rparr>"

definition send_chat :: "int \<Rightarrow> string \<Rightarrow> cm_state \<Rightarrow> cm_state" where
  "send_chat i txt = tell i (DChat txt)"

definition switch_permission :: "int \<Rightarrow> string \<Rightarrow> bool \<Rightarrow> cm_state \<Rightarrow> cm_state" where
  "switch_permission i name enabled = tell i (DSwitchPermission name enabled)"

definition switch_back :: "int \<Rightarrow> cm_state \<Rightarrow> cm_state" where
  "switch_back i = tell i DSwitchSidesBack"

definition elevate_portable :: "int \<Rightarrow> cm_state \<Rightarrow> cm_state" where
  "elevate_portable i = tell i DRequestStart"

definition handle_incoming_voice_call :: "int \<Rightarrow> bool \<Rightarrow> cm_state \<Rightarrow> cm_state" where
  "handle_incoming_voice_call i accept = tell i (DVoiceCallResponse accept)"

definition close_voice_call :: "int \<Rightarrow> cm_state \<Rightarrow> cm_state" where
  "close_voice_call i = tell i DCloseVoiceCall"

definition quit_cm :: "cm_state \<Rightarrow> cm_state" where
  "quit_cm s = s\<lparr>clients := Map.empty\<rparr>"

text \<open>The answer on the time card: the window of the theory \<open>Sched\<close>, then the waiting connection.\<close>

record 'f card_env =
  ce_enc :: "sched_window \<Rightarrow> 'f"
  ce_dec :: "'f \<Rightarrow> sched_window option"

definition answer_card ::
  "'f card_env \<Rightarrow> int \<Rightarrow> int \<Rightarrow> int \<Rightarrow> bool \<Rightarrow> int \<Rightarrow> int \<Rightarrow> int \<Rightarrow> string \<Rightarrow> cm_state \<times> 'f marker \<Rightarrow> cm_state \<times> 'f marker" where
  "answer_card ce now now' i accepted start fin hq_now lbl = (\<lambda>(s, f).
     let (f1, reply, act) = cr_sched_answer (ce_enc ce) (ce_dec ce) now now' accepted start fin hq_now lbl
                              (map_option cl_authorized (clients s i)) f;
         s1 = (case reply of Some (a, u) \<Rightarrow> put i (DSchedResp a u) s | None \<Rightarrow> s)
     in (case act of Authorize \<Rightarrow> authorize i s1 | CloseConn \<Rightarrow> close_client i s1 | LeaveConn \<Rightarrow> s1, f1))"

definition cm_inner_send :: "int \<Rightarrow> int list \<Rightarrow> cm_data \<Rightarrow> cm_state \<Rightarrow> cm_state" where
  "cm_inner_send i order d s = (if i \<noteq> 0 then tell i d s else fold (\<lambda>j. tell j d) order s)"



section \<open>File jobs of the manager\<close>

record cm_job =
  job_id :: int
  is_last_job :: bool
  job_conn :: int

text \<open>\<open>fs::remove_job\<close> and \<open>fs::get_job\<close>.\<close>

record job_ops =
  remove_job :: "int \<Rightarrow> cm_job list \<Rightarrow> cm_job option \<times> cm_job list"
  get_job :: "int \<Rightarrow> cm_job list \<Rightarrow> cm_job option"

definition DEFAULT_MAX_VALIDATED_FILES :: nat where "DEFAULT_MAX_VALIDATED_FILES = 10000"

definition get_max_validated_files :: "string \<Rightarrow> nat" where
  "get_max_validated_files opt =
     (let c = (case parse_uint u64_max (trim opt) of Some n \<Rightarrow> n | None \<Rightarrow> u64_max)
      in if c = 0 then DEFAULT_MAX_VALIDATED_FILES else c)"

definition check_file_count_limit :: "string \<Rightarrow> nat \<Rightarrow> bool" where
  "check_file_count_limit opt file_count \<longleftrightarrow> \<not> file_count > get_max_validated_files opt"

text \<open>
  The requests, each with what the file system or the job answers: whether an operation
  works, whether a file list is safe, how a file compares with the one that is there, how
  many files a job has.
\<close>

datatype digest_check = NoSuchEntry | IsSame | NeedConfirm | NoSuchFile | DigestError

datatype fs_op =
    ReadEmptyDirs string bool
  | ReadDir string bool
  | RemoveDir int bool
  | RemoveFile int int bool
  | CreateDir int bool
  | Rename int bool
  | CopyPath int bool
  | NewWrite int int int bool            \<comment> \<open>id, file number, connection, safe list\<close>
  | CancelWrite int
  | WriteDone int int
  | WriteError int int
  | WriteBlock int int bool
  | CheckDigest int int digest_check
  | SendConfirm "int option"
  | ReadFile int int "nat option" bool   \<comment> \<open>id, connection, files of the job, encoded\<close>
  | CancelRead int
  | SendConfirmForRead int
  | ReadAllFiles int "nat option" bool

definition handle_result :: "int \<Rightarrow> int \<Rightarrow> bool \<Rightarrow> cm_data list" where
  "handle_result i n ok = [if ok then DDone i n else DError i n]"

definition start_read_job :: "string \<Rightarrow> int \<Rightarrow> int \<Rightarrow> nat option \<Rightarrow> bool \<Rightarrow> cm_job list \<Rightarrow> cm_job list \<times> cm_data list" where
  "start_read_job opt i conn files encoded rj =
     (case files of
        None \<Rightarrow> (rj, [DReadJobInit i False])
      | Some n \<Rightarrow>
          if \<not> check_file_count_limit opt n then (rj, [DReadJobInit i False])
          else if \<not> encoded then (rj, [DReadJobInit i False])
          else (rj @ [\<lparr>job_id = i, is_last_job = False, job_conn = conn\<rparr>], [DReadJobInit i True]))"

definition read_all_files :: "string \<Rightarrow> int \<Rightarrow> nat option \<Rightarrow> bool \<Rightarrow> cm_data list" where
  "read_all_files opt i files encoded =
     [DAllFiles i (case files of None \<Rightarrow> False | Some n \<Rightarrow> check_file_count_limit opt n \<and> encoded)]"

definition handle_fs :: "job_ops \<Rightarrow> string \<Rightarrow> fs_op \<Rightarrow> cm_job list \<times> cm_job list \<Rightarrow> (cm_job list \<times> cm_job list) \<times> cm_data list" where
  "handle_fs jo opt fs = (\<lambda>(wj, rj).
     case fs of
       ReadEmptyDirs dir ok \<Rightarrow> ((wj, rj), if ok then [DListing dir] else [])
     | ReadDir dir ok \<Rightarrow> ((wj, rj), if ok then [DListing dir] else [])
     | RemoveDir i ok \<Rightarrow> ((wj, rj), handle_result i 0 ok)
     | RemoveFile i n ok \<Rightarrow> ((wj, rj), handle_result i n ok)
     | CreateDir i ok \<Rightarrow> ((wj, rj), handle_result i 0 ok)
     | Rename i ok \<Rightarrow> ((wj, rj), handle_result i 0 ok)
     | CopyPath i ok \<Rightarrow> ((wj, rj), handle_result i 0 ok)
     | NewWrite i n conn safe \<Rightarrow>
         if safe then ((wj @ [\<lparr>job_id = i, is_last_job = False, job_conn = conn\<rparr>], rj), []) else ((wj, rj), [DError i n])
     | CancelWrite i \<Rightarrow> ((snd (remove_job jo i wj), rj), [])
     | WriteDone i n \<Rightarrow>
         (case remove_job jo i wj of (Some _, wj1) \<Rightarrow> ((wj1, rj), [DDone i n]) | (None, wj1) \<Rightarrow> ((wj1, rj), []))
     | WriteError i n \<Rightarrow>
         (case remove_job jo i wj of (Some j, wj1) \<Rightarrow> ((wj1, rj), [DError (job_id j) n]) | (None, wj1) \<Rightarrow> ((wj1, rj), []))
     | WriteBlock i n ok \<Rightarrow>
         ((wj, rj), if get_job jo i wj \<noteq> None \<and> \<not> ok then [DError i n] else [])
     | CheckDigest i n d \<Rightarrow>
         ((wj, rj), if get_job jo i wj = None then []
            else case d of
              NoSuchEntry \<Rightarrow> [] | IsSame \<Rightarrow> [DConfirm i True] | NeedConfirm \<Rightarrow> [DDigest i]
            | NoSuchFile \<Rightarrow> [DConfirm i False] | DigestError \<Rightarrow> [DError i n])
     | SendConfirm _ \<Rightarrow> ((wj, rj), [])
     | ReadFile i conn files encoded \<Rightarrow> (let (rj1, ms) = start_read_job opt i conn files encoded rj in ((wj, rj1), ms))
     | CancelRead i \<Rightarrow> ((wj, snd (remove_job jo i rj)), [])
     | SendConfirmForRead i \<Rightarrow> ((wj, rj), [])
     | ReadAllFiles i files encoded \<Rightarrow> ((wj, rj), read_all_files opt i files encoded))"

text \<open>A tick of the read jobs: the first job that is not marked as the last one is served.\<close>

datatype job_init = InitError | InitDigest | InitNone
datatype job_read = ReadError | ReadBlock | ReadWaiting | ReadCompleted | ReadFailed

fun tick_jobs :: "(int \<Rightarrow> job_init) \<Rightarrow> (int \<Rightarrow> job_read) \<Rightarrow> cm_job list \<Rightarrow> cm_data list \<times> int list" where
  "tick_jobs ini rd [] = ([], [])"
| "tick_jobs ini rd (j # js) =
     (if is_last_job j then tick_jobs ini rd js
      else case ini (job_id j) of
        InitError \<Rightarrow> (let (ms, fin) = tick_jobs ini rd js in (DFileReadError (job_id j) # ms, job_id j # fin))
      | i \<Rightarrow>
          (let pre = (if i = InitDigest then [DFileDigest (job_id j)] else [])
           in case rd (job_id j) of
                ReadError \<Rightarrow> (pre @ [DFileReadError (job_id j)], [job_id j])
              | ReadBlock \<Rightarrow> (pre @ [DFileBlock (job_id j)], [])
              | ReadWaiting \<Rightarrow> (pre, [])
              | ReadCompleted \<Rightarrow> (pre @ [DFileReadDone (job_id j)], [job_id j])
              | ReadFailed \<Rightarrow> (pre @ [DFileReadError (job_id j)], [job_id j])))"

definition handle_read_jobs_tick ::
  "job_ops \<Rightarrow> (int \<Rightarrow> job_init) \<Rightarrow> (int \<Rightarrow> job_read) \<Rightarrow> cm_job list \<Rightarrow> cm_job list \<times> cm_data list" where
  "handle_read_jobs_tick jo ini rd jobs =
     (let (ms, finished) = tick_jobs ini rd jobs in (fold (\<lambda>i js. snd (remove_job jo i js)) finished jobs, ms))"


section \<open>The task of one connection\<close>

datatype to_cm =
    MLogin int client_info bool bool     \<comment> \<open>id, description, authorized, file transfer enabled\<close>
  | MClose
  | MDisconnected
  | MPrivacyModeState int "int list" string
  | MClickTime int
  | MFs fs_op bool                       \<comment> \<open>whether the raw bytes of a block follow\<close>
  | MClipboardFile bool string           \<comment> \<open>a beginning message\<close>
  | MClipboardFileEnabled bool
  | MStartVoiceCall
  | MVoiceCallIncoming
  | MCloseVoiceCall
  | MShown                               \<comment> \<open>chat, cards, themes: shown in the window\<close>

record task =
  conn_id :: int
  closing :: bool
  running :: bool
  file_transfer_enabled :: bool
  file_transfer_enabled_peer :: bool
  seen_authorized :: bool                \<comment> \<open>\<open>is_authorized\<close>, read when \<open>run\<close> starts\<close>
  write_jobs :: "cm_job list"
  read_jobs :: "cm_job list"
  clip_passed :: "string list"           \<comment> \<open>given to \<open>server_clip_file\<close>\<close>
  clip_stops :: nat

definition task_new :: task where
  "task_new = \<lparr>conn_id = 0, closing = True, running = True, file_transfer_enabled = False, file_transfer_enabled_peer = False,
     seen_authorized = False, write_jobs = [], read_jobs = [], clip_passed = [], clip_stops = 0\<rparr>"

text \<open>The beginning of \<open>run\<close>.\<close>

definition run_begin :: "cm_state \<Rightarrow> task \<Rightarrow> task" where
  "run_begin s t = t\<lparr>seen_authorized := is_authorized (conn_id t) s, write_jobs := [], running := False\<rparr>"

definition clip_from_peer :: "bool \<Rightarrow> bool \<Rightarrow> string \<Rightarrow> task \<Rightarrow> task" where
  "clip_from_peer clip_enabled beginning c t =
     (if \<not> beginning \<and> \<not> (clip_enabled \<and> file_transfer_enabled t) then t\<lparr>clip_stops := clip_stops t + 1\<rparr>
      else if \<not> seen_authorized t then t
      else t\<lparr>clip_passed := clip_passed t @ [c]\<rparr>)"

text \<open>A file copied at the customer: stopped, kept back or sent to the connection.\<close>

definition clip_to_peer :: "bool \<Rightarrow> bool \<Rightarrow> bool \<Rightarrow> bool \<Rightarrow> string \<Rightarrow> task \<Rightarrow> task \<times> cm_data list" where
  "clip_to_peer clip_enabled one_way stopping_allowed beginning c t =
     (if stopping_allowed \<and> \<not> (clip_enabled \<and> file_transfer_enabled t \<and> file_transfer_enabled_peer t)
      then (t\<lparr>clip_stops := clip_stops t + 1\<rparr>, [])
      else if beginning \<and> one_way then (t, [])
      else (t, [DClip c]))"

text \<open>The surroundings of the task: its settings and the operations on jobs.\<close>

record task_env =
  te_jobs :: job_ops
  te_max_files :: string
  te_clip_enabled :: bool
  te_one_way :: bool

text \<open>A message of the connection; the flag says whether the loop of \<open>run\<close> ends.\<close>

definition on_message :: "task_env \<Rightarrow> to_cm \<Rightarrow> cm_state \<times> task \<Rightarrow> (cm_state \<times> task) \<times> bool" where
  "on_message te m = (\<lambda>(s, t).
     case m of
       MLogin i info authorized fte \<Rightarrow>
         ((add_connection i info authorized s, t\<lparr>conn_id := i, file_transfer_enabled := fte, running := True\<rparr>), True)
     | MClose \<Rightarrow> ((s, t), True)
     | MDisconnected \<Rightarrow> ((s, t\<lparr>closing := False\<rparr>), True)
     | MPrivacyModeState i order d \<Rightarrow> ((cm_inner_send i order (DPrivacyMode d) s, t), False)
     | MClickTime ms \<Rightarrow> ((s\<lparr>click_time := ms\<rparr>, t), False)
     | MFs fs raw \<Rightarrow>
         (case fs of
            WriteBlock _ _ _ \<Rightarrow> if raw then
                let ((wj, rj), ms) = handle_fs (te_jobs te) (te_max_files te) fs (write_jobs t, read_jobs t)
                in ((fold (put (conn_id t)) ms s, t\<lparr>write_jobs := wj, read_jobs := rj\<rparr>), False)
              else ((s, t), False)
          | _ \<Rightarrow>
              let ((wj, rj), ms) = handle_fs (te_jobs te) (te_max_files te) fs (write_jobs t, read_jobs t)
              in ((fold (put (conn_id t)) ms s, t\<lparr>write_jobs := wj, read_jobs := rj\<rparr>), False))
     | MClipboardFile beginning c \<Rightarrow> ((s, clip_from_peer (te_clip_enabled te) beginning c t), False)
     | MClipboardFileEnabled b \<Rightarrow> ((s, t\<lparr>file_transfer_enabled_peer := b\<rparr>), False)
     | MStartVoiceCall \<Rightarrow> ((voice_call_started (conn_id t) s, t), False)
     | MVoiceCallIncoming \<Rightarrow> ((voice_call_incoming (conn_id t) s, t), False)
     | MCloseVoiceCall \<Rightarrow> ((voice_call_closed (conn_id t) s, t), False)
     | MShown \<Rightarrow> ((s, t), False))"

text \<open>A message of the channel is passed to the connection.\<close>

definition on_channel :: "bool \<Rightarrow> cm_data \<Rightarrow> task \<Rightarrow> task \<times> bool" where
  "on_channel sent d t =
     (if \<not> sent then (t, True)
      else case d of
        DSwitchPermission name enabled \<Rightarrow> (if name = ''file'' then t\<lparr>file_transfer_enabled := enabled\<rparr> else t, False)
      | DAuthorize \<Rightarrow> (t\<lparr>running := True\<rparr>, True)
      | _ \<Rightarrow> (t, False))"

datatype task_event =
    FromConn to_cm
  | ConnError
  | Channel bool cm_data
  | ClipOut bool bool string
  | FileTick "int \<Rightarrow> job_init" "int \<Rightarrow> job_read"

definition task_step :: "task_env \<Rightarrow> task_event \<Rightarrow> cm_state \<times> task \<Rightarrow> (cm_state \<times> task) \<times> bool" where
  "task_step te e = (\<lambda>(s, t).
     case e of
       FromConn m \<Rightarrow> on_message te m (s, t)
     | ConnError \<Rightarrow> ((s, t), True)
     | Channel sent d \<Rightarrow> (let (t1, brk) = on_channel sent d t in ((s, t1), brk))
     | ClipOut stopping beginning c \<Rightarrow>
         (let (t1, ms) = clip_to_peer (te_clip_enabled te) (te_one_way te) stopping beginning c t
          in ((fold (put (conn_id t)) ms s, t1), False))
     | FileTick ini rd \<Rightarrow>
         (let (rj, ms) = handle_read_jobs_tick (te_jobs te) ini rd (read_jobs t)
          in ((fold (put (conn_id t)) ms s, t\<lparr>read_jobs := rj\<rparr>), False)))"

text \<open>\<open>ipc_task\<close>: \<open>run\<close> is repeated while it is left running, then the client is taken out.\<close>

definition task_event_step :: "task_env \<Rightarrow> task_event \<Rightarrow> cm_state \<times> task option \<Rightarrow> cm_state \<times> task option" where
  "task_event_step te e = (\<lambda>(s, t).
     case t of
       None \<Rightarrow> (s, None)
     | Some t0 \<Rightarrow>
         (let ((s1, t1), brk) = task_step te e (s, t0)
          in if \<not> brk then (s1, Some t1)
             else if running t1 then (s1, Some (run_begin s1 t1))
             else (if conn_id t1 > 0 then remove_connection (conn_id t1) (closing t1) s1 else s1, None)))"



section \<open>The manager as a whole\<close>

text \<open>The table, the marker of the time window, and a task for every connection.\<close>

type_synonym 'f cm_world = "cm_state \<times> 'f marker \<times> (nat \<Rightarrow> task option)"

datatype cm_event =
    Press int                            \<comment> \<open>the accept button\<close>
  | Card int int int bool int int int string
  | CloseButton int
  | RemoveButton int
  | Say int string
  | SetPermission int string bool
  | SwitchBack int
  | Elevate int
  | VoiceAnswer int bool
  | VoiceClose int
  | AskClickTime int
  | Quit
  | NewTask nat
  | TaskEvent nat task_event

definition cm_step :: "task_env \<Rightarrow> 'f card_env \<Rightarrow> 'f cm_world \<Rightarrow> cm_event \<Rightarrow> 'f cm_world" where
  "cm_step te ce w ev =
     (case w of (s, f, ts) \<Rightarrow>
        (case ev of
           Press i \<Rightarrow> (authorize i s, f, ts)
         | Card now now' i accepted start fin hq_now lbl \<Rightarrow>
             (let (s1, f1) = answer_card ce now now' i accepted start fin hq_now lbl (s, f) in (s1, f1, ts))
         | CloseButton i \<Rightarrow> (close_client i s, f, ts)
         | RemoveButton i \<Rightarrow> (remove_client i s, f, ts)
         | Say i txt \<Rightarrow> (send_chat i txt s, f, ts)
         | SetPermission i name b \<Rightarrow> (switch_permission i name b s, f, ts)
         | SwitchBack i \<Rightarrow> (switch_back i s, f, ts)
         | Elevate i \<Rightarrow> (elevate_portable i s, f, ts)
         | VoiceAnswer i b \<Rightarrow> (handle_incoming_voice_call i b s, f, ts)
         | VoiceClose i \<Rightarrow> (close_voice_call i s, f, ts)
         | AskClickTime i \<Rightarrow> (check_click_time i s, f, ts)
         | Quit \<Rightarrow> (quit_cm s, f, ts)
         | NewTask k \<Rightarrow> (s, f, ts(k := Some (run_begin s task_new)))
         | TaskEvent k e \<Rightarrow> (let (s1, t1) = task_event_step te e (s, ts k) in (s1, f, ts(k := t1)))))"

fun pressed :: "int \<Rightarrow> cm_event \<Rightarrow> bool" where
  "pressed i (Press j) \<longleftrightarrow> j = i"
| "pressed i (Card _ _ j accepted _ _ _ _) \<longleftrightarrow> j = i \<and> accepted"
| "pressed i _ \<longleftrightarrow> False"

fun logged_in :: "int \<Rightarrow> cm_event \<Rightarrow> bool" where
  "logged_in i (TaskEvent _ (FromConn (MLogin j _ authorized _))) \<longleftrightarrow> j = i \<and> authorized"
| "logged_in i _ \<longleftrightarrow> False"

text \<open>
  The invariant, with the connections for which the owner pressed a button and those that
  came in authorized.
\<close>

definition cm_inv :: "int set \<Rightarrow> int set \<Rightarrow> cm_state \<Rightarrow> bool" where
  "cm_inv P L s \<longleftrightarrow>
     (\<forall>i. (i, DAuthorize) \<in> set (cm_sent s) \<longrightarrow> i \<in> P)
     \<and> (\<forall>i c. clients s i = Some c \<longrightarrow> cl_authorized c \<longrightarrow> i \<in> P \<union> L)"

lemma cm_inv_start: "cm_inv P L cm_start"
  by (simp add: cm_inv_def cm_start_def)

lemma put_inv [simp]: "d \<noteq> DAuthorize \<Longrightarrow> cm_inv P L (put i d s) = cm_inv P L s"
  by (auto simp: cm_inv_def put_def)

lemma tell_inv [simp]: "d \<noteq> DAuthorize \<Longrightarrow> cm_inv P L s \<Longrightarrow> cm_inv P L (tell i d s)"
  by (simp add: tell_def)

lemma fold_put_inv: "\<lbrakk>DAuthorize \<notin> set ms; cm_inv P L s\<rbrakk> \<Longrightarrow> cm_inv P L (fold (put i) ms s)"
  by (induction ms arbitrary: s) auto

lemma fold_tell_inv: "\<lbrakk>d \<noteq> DAuthorize; cm_inv P L s\<rbrakk> \<Longrightarrow> cm_inv P L (fold (\<lambda>j. tell j d) js s)"
  by (induction js arbitrary: s) auto

lemma update_client_inv [simp]:
  "\<lbrakk>\<And>c. cl_authorized (g c) \<Longrightarrow> cl_authorized c; cm_inv P L s\<rbrakk> \<Longrightarrow> cm_inv P L (update_client i g s)"
  by (auto simp: cm_inv_def update_client_def split: if_splits)

lemma authorize_inv: "\<lbrakk>i \<in> P; cm_inv P L s\<rbrakk> \<Longrightarrow> cm_inv P L (authorize i s)"
  by (auto simp: cm_inv_def authorize_def put_def update_client_def split: if_splits)

lemma add_connection_inv: "\<lbrakk>authorized \<longrightarrow> i \<in> P \<union> L; cm_inv P L s\<rbrakk> \<Longrightarrow> cm_inv P L (add_connection i info authorized s)"
  by (auto simp: cm_inv_def add_connection_def Let_def split: if_splits option.splits)

lemma forget_inv [simp]: "cm_inv P L s \<Longrightarrow> cm_inv P L (s\<lparr>clients := (clients s)(i := None)\<rparr>)"
  by (auto simp: cm_inv_def split: if_splits)

lemma remove_connection_inv: "cm_inv P L s \<Longrightarrow> cm_inv P L (remove_connection i b s)"
  by (auto simp: remove_connection_def intro!: update_client_inv)

lemma handle_fs_quiet: "DAuthorize \<notin> set (snd (handle_fs jo opt fs jobs))"
  by (cases jobs; cases fs)
    (auto simp: handle_fs_def handle_result_def start_read_job_def read_all_files_def Let_def
      split: option.splits digest_check.splits prod.splits)

lemma tick_jobs_quiet: "DAuthorize \<notin> set (fst (tick_jobs ini rd jobs))"
  by (induction jobs) (auto simp: Let_def split_def split: job_init.splits job_read.splits)

lemma answer_card_inv:
  assumes "accepted \<longrightarrow> i \<in> P" "cm_inv P L s"
  shows "cm_inv P L (fst (answer_card ce now now' i accepted start fin hq lbl (s, f)))"
  using assms authorize_inv [of i P L]
  by (auto simp: answer_card_def cr_sched_answer_def Let_def close_client_def split: option.splits prod.splits)


lemma on_message_inv:
  assumes "cm_inv P L s" "case m of MLogin i _ authorized _ \<Rightarrow> authorized \<longrightarrow> i \<in> P \<union> L | _ \<Rightarrow> True"
  shows "cm_inv P L (fst (fst (on_message te m (s, t))))"
proof (cases m)
  case (MLogin i info authorized fte)
  then show ?thesis using assms add_connection_inv by (simp add: on_message_def)
next
  case (MFs fs raw)
  show ?thesis
    using assms(1) MFs fold_put_inv [OF handle_fs_quiet]
    by (cases fs) (auto simp: on_message_def Let_def split_def)
next
  case (MPrivacyModeState i order d)
  then show ?thesis using assms(1) fold_tell_inv by (auto simp: on_message_def cm_inner_send_def)
next
  case (MClickTime ms)
  then show ?thesis using assms(1) by (simp add: on_message_def cm_inv_def)
qed (use assms(1) in \<open>auto simp: on_message_def voice_call_started_def voice_call_incoming_def voice_call_closed_def
      intro!: update_client_inv\<close>)

lemma task_step_inv:
  assumes "cm_inv P L s" "\<And>i. logged_in i (TaskEvent k e) \<Longrightarrow> i \<in> P \<union> L"
  shows "cm_inv P L (fst (fst (task_step te e (s, t))))"
proof (cases e)
  case (FromConn m)
  then show ?thesis using assms(2) on_message_inv [OF assms(1), of m te t]
    by (auto simp: task_step_def split: to_cm.splits)
next
  case (ClipOut a b c)
  have "DAuthorize \<notin> set (snd (clip_to_peer x y a b c t))" for x y by (simp add: clip_to_peer_def)
  then show ?thesis using ClipOut fold_put_inv assms(1) by (simp add: task_step_def split_def Let_def)
next
  case (FileTick ini rd)
  have "DAuthorize \<notin> set (snd (handle_read_jobs_tick jo ini rd js))" for jo js
    using tick_jobs_quiet by (simp add: handle_read_jobs_tick_def split_def Let_def)
  then show ?thesis using FileTick fold_put_inv assms(1) by (simp add: task_step_def split_def Let_def)
qed (use assms(1) in \<open>auto simp: task_step_def split_def Let_def\<close>)

lemma task_event_step_inv:
  assumes "cm_inv P L s" "\<And>i. logged_in i (TaskEvent k e) \<Longrightarrow> i \<in> P \<union> L"
  shows "cm_inv P L (fst (task_event_step te e (s, t)))"
proof (cases t)
  case (Some t0)
  obtain s1 t1 brk where st: "task_step te e (s, t0) = ((s1, t1), brk)" by (metis surj_pair)
  have "cm_inv P L s1" using task_step_inv [OF assms(1), of k e te t0] assms(2) st by auto
  then show ?thesis using Some st remove_connection_inv by (simp add: task_event_step_def Let_def)
qed (use assms(1) in \<open>simp add: task_event_step_def\<close>)

definition cm_enabled :: "int set \<Rightarrow> int set \<Rightarrow> cm_event \<Rightarrow> bool" where
  "cm_enabled P L e \<longleftrightarrow> (\<forall>i. (pressed i e \<longrightarrow> i \<in> P) \<and> (logged_in i e \<longrightarrow> i \<in> L))"

lemma cm_step_inv:
  assumes "cm_inv P L (fst w)" "cm_enabled P L e"
  shows "cm_inv P L (fst (cm_step te ce w e))"
proof -
  obtain s f ts where w: "w = (s, f, ts)" by (metis surj_pair)
  have s: "cm_inv P L s" using assms(1) w by simp
  show ?thesis
  proof (cases e)
    case (Press i)
    then show ?thesis using s w assms(2) authorize_inv by (simp add: cm_step_def cm_enabled_def)
  next
    case (Card now now' i accepted start fin hq lbl)
    then show ?thesis using answer_card_inv [OF _ s, of accepted i] w assms(2)
      by (simp add: cm_step_def cm_enabled_def split_def Let_def)
  next
    case (TaskEvent k ev)
    then show ?thesis using task_event_step_inv [OF s, of k ev te "ts k"] w assms(2)
      by (simp add: cm_step_def cm_enabled_def split_def Let_def)
  qed (use s w in \<open>auto simp: cm_step_def close_client_def remove_client_def send_chat_def switch_permission_def switch_back_def
      elevate_portable_def handle_incoming_voice_call_def close_voice_call_def check_click_time_def quit_cm_def cm_inv_def tell_def
      put_def split: if_splits\<close>)
qed

interpretation manager: machine "\<lambda>w. fst w = cm_start" "cm_step te ce" "cm_enabled P L" "\<lambda>w. cm_inv P L (fst w)"
  for te ce P L
  by unfold_locales (simp_all add: cm_inv_start cm_step_inv)



section \<open>Properties\<close>

text \<open>
  C2. The owner decides. Over any sequence of button presses, answered cards and messages of any
  connections, a connection is told that it is authorized only if the owner pressed the
  accept button for it or accepted its time card; and the manager counts a client as
  authorized only then or if its connection came in authorized.
\<close>

theorem owner_decides:
  assumes "fst w = cm_start"
  shows "((i, DAuthorize) \<in> set (cm_sent (fst (run (cm_step te ce) w es))) \<longrightarrow> list_ex (pressed i) es)
    \<and> (is_authorized i (fst (run (cm_step te ce) w es)) \<longrightarrow> list_ex (pressed i) es \<or> list_ex (logged_in i) es)"
proof -
  let ?P = "{i. list_ex (pressed i) es}" and ?L = "{i. list_ex (logged_in i) es}"
  have "list_all (cm_enabled ?P ?L) es"
    by (auto simp: list_all_iff list_ex_iff cm_enabled_def)
  then have "cm_inv ?P ?L (fst (run (cm_step te ce) w es))"
    using manager.run_inv assms by blast
  then show ?thesis
    by (auto simp: cm_inv_def is_authorized_def split: option.splits)
qed

definition sample_info :: client_info where
  "sample_info = \<lparr>ci_is_file_transfer = False, ci_is_view_camera = False, ci_is_terminal = False, ci_port_forward = [],
     ci_peer_id = ''900'', ci_name = ''hq'', ci_keyboard = True, ci_clipboard = True, ci_audio = True, ci_file = True,
     ci_restart = False, ci_recording = False, ci_block_input = False, ci_from_switch = False\<rparr>"

definition sample_ops :: job_ops where
  "sample_ops = \<lparr>remove_job = (\<lambda>i js. (find (\<lambda>j. job_id j = i) js, filter (\<lambda>j. job_id j \<noteq> i) js)),
     get_job = (\<lambda>i js. find (\<lambda>j. job_id j = i) js)\<rparr>"

definition sample_task_env :: task_env where
  "sample_task_env = \<lparr>te_jobs = sample_ops, te_max_files = [], te_clip_enabled = True, te_one_way = False\<rparr>"

definition plain_cards :: "sched_window card_env" where
  "plain_cards = \<lparr>ce_enc = (\<lambda>w. w), ce_dec = Some\<rparr>"

theorem owner_decides_witness:
  "list_ex (pressed 1001) [NewTask 0, TaskEvent 0 (FromConn (MLogin 1001 sample_info False True)), Press 1001]"
  using owner_decides [of "(cm_start, None, \<lambda>_. None)" 1001 sample_task_env plain_cards
      "[NewTask 0, TaskEvent 0 (FromConn (MLogin 1001 sample_info False True)), Press 1001]"]
  by (simp add: cm_step_def task_event_step_def task_step_def on_message_def authorize_def add_connection_def put_def
      update_client_def Let_def)

text \<open>
  What an answered time card does to the caller. A waiting connection is first told the answer
  and then let in or closed; a session that already runs is told and goes on; and when
  the caller is gone nobody is told, yet accepting still opens the window.
\<close>

theorem card_answer_effect:
  assumes "answer_card ce now now' i accepted start fin hq lbl (s, f) = (s', f')"
  shows "f' = fst (cr_sched_answer (ce_enc ce) (ce_dec ce) now now' accepted start fin hq lbl None f)
    \<and> (\<exists>u. cm_sent s' = cm_sent s @
          (case clients s i of
             None \<Rightarrow> []
           | Some c \<Rightarrow> (i, DSchedResp accepted u) # (if cl_authorized c then [] else if accepted then [(i, DAuthorize)] else [(i, DClose)])))
    \<and> (is_authorized i s' \<longleftrightarrow> is_authorized i s \<or> accepted \<and> clients s i \<noteq> None)"
  using assms
  by (cases "clients s i") (auto simp: answer_card_def cr_sched_answer_def authorize_def close_client_def tell_def put_def
      update_client_def is_authorized_def Let_def split: prod.splits if_splits)

theorem card_answer_effect_witness:
  "snd (answer_card plain_cards 1000 1000 7 True 1000 4600 1000 ''x'' (cm_start, None)) \<noteq> None
   \<and> cm_sent (fst (answer_card plain_cards 1000 1000 7 True 1000 4600 1000 ''x'' (cm_start, None))) = []"
proof -
  obtain s' f' where a: "answer_card plain_cards 1000 1000 7 True 1000 4600 1000 ''x'' (cm_start, None) = (s', f')"
    by (metis surj_pair)
  show ?thesis
    using card_answer_effect [OF a] a
    by (simp add: cm_start_def cr_sched_answer_def grant_def sched_write_def status_def sched_read_def plain_cards_def Let_def
        wrap64_def MAX_WINDOW_SECS_def)
qed

fun file_reenabled :: "task_event \<Rightarrow> bool" where
  "file_reenabled (Channel True (DSwitchPermission name b)) \<longleftrightarrow> name = ''file'' \<and> b"
| "file_reenabled (FromConn (MLogin _ _ _ _)) \<longleftrightarrow> True"
| "file_reenabled _ \<longleftrightarrow> False"

fun opens :: "task_event \<Rightarrow> string list" where
  "opens (FromConn (MClipboardFile True c)) = [c]"
| "opens _ = []"

fun task_run :: "task_env \<Rightarrow> task_event list \<Rightarrow> cm_state \<times> task \<Rightarrow> cm_state \<times> task" where
  "task_run te [] st = st"
| "task_run te (e # es) st = task_run te es (fst (task_step te e st))"

lemma on_message_clip:
  assumes "on_message te m (s, t) = ((s', t'), brk)" "\<not> file_transfer_enabled t" "\<not> file_reenabled (FromConn m)"
  shows "\<not> file_transfer_enabled t' \<and> seen_authorized t' = seen_authorized t
    \<and> clip_passed t' = clip_passed t @ (if seen_authorized t then opens (FromConn m) else [])"
proof (cases m)
  case (MClipboardFile b c)
  then show ?thesis using assms by (cases b) (auto simp: on_message_def clip_from_peer_def split: if_splits)
next
  case (MFs fs raw)
  then show ?thesis using assms by (cases fs) (auto simp: on_message_def Let_def split_def split: if_splits)
qed (use assms in \<open>auto simp: on_message_def\<close>)

lemma task_step_clip:
  assumes "task_step te e (s, t) = ((s', t'), brk)" "\<not> file_transfer_enabled t" "\<not> file_reenabled e"
  shows "\<not> file_transfer_enabled t' \<and> seen_authorized t' = seen_authorized t
    \<and> clip_passed t' = clip_passed t @ (if seen_authorized t then opens e else [])"
proof (cases e)
  case (FromConn m)
  then show ?thesis using assms on_message_clip [of te m s t s' t' brk] by (simp add: task_step_def)
next
  case (Channel sent d)
  then show ?thesis using assms by (cases sent; cases d) (auto simp: task_step_def on_channel_def split: if_splits)
qed (use assms in \<open>auto simp: task_step_def clip_to_peer_def Let_def split_def split: if_splits\<close>)

text \<open>
  Files on the clipboard stop with the permission. After the owner took the permission for
  files away, no further file message of the peer but the opening ones is passed to the
  clipboard, until the permission is given again or the connection logs in anew; and
  nothing at all is passed for a connection that was not authorized when its task started.
\<close>

theorem revoked_file_clips_stop:
  assumes "\<not> file_transfer_enabled t" "\<not> list_ex file_reenabled es"
  shows "clip_passed (snd (task_run te es (s, t)))
    = clip_passed t @ (if seen_authorized t then concat (map opens es) else [])"
  using assms
proof (induction es arbitrary: s t)
  case (Cons e es)
  obtain s' t' brk where st: "task_step te e (s, t) = ((s', t'), brk)" by (metis surj_pair)
  have "\<not> file_transfer_enabled t' \<and> seen_authorized t' = seen_authorized t
      \<and> clip_passed t' = clip_passed t @ (if seen_authorized t then opens e else [])"
    using task_step_clip [OF st] Cons.prems by simp
  then show ?case using Cons.IH [of t' s'] Cons.prems st by simp
qed simp

theorem revoked_file_clips_stop_witness:
  "clip_passed (snd (task_run sample_task_env [FromConn (MClipboardFile True ''list''), FromConn (MClipboardFile False ''data'')]
      (cm_start, task_new\<lparr>seen_authorized := True\<rparr>))) = [''list'']"
  using revoked_file_clips_stop [of "task_new\<lparr>seen_authorized := True\<rparr>"
      "[FromConn (MClipboardFile True ''list''), FromConn (MClipboardFile False ''data'')]" sample_task_env cm_start]
  by (simp add: task_new_def)

text \<open>
  A job that waits for the peer holds up the others. As long as the first read job waits for
  the confirmation of a file, ticks send nothing for any job, however many jobs follow it
  and whatever they could deliver.
\<close>

theorem waiting_job_blocks:
  assumes "\<not> is_last_job j" "list_all (\<lambda>(ini, rd). ini (job_id j) = InitNone \<and> rd (job_id j) = ReadWaiting) obs"
    and "read_jobs t = j # rest"
  shows "task_run te (map (\<lambda>(ini, rd). FileTick ini rd) obs) (s, t) = (s, t)"
  using assms
proof (induction obs)
  case (Cons o' obs)
  then show ?case by (cases o'; cases t) (simp add: task_step_def handle_read_jobs_tick_def)
qed simp

theorem waiting_job_blocks_witness:
  "task_run sample_task_env (map (\<lambda>(ini, rd). FileTick ini rd)
      [(\<lambda>_. InitNone, \<lambda>i. if i = 1 then ReadWaiting else ReadBlock), (\<lambda>_. InitNone, \<lambda>i. if i = 1 then ReadWaiting else ReadBlock)])
     (cm_start, task_new\<lparr>read_jobs := [\<lparr>job_id = 1, is_last_job = False, job_conn = 5\<rparr>, \<lparr>job_id = 2, is_last_job = False, job_conn = 5\<rparr>]\<rparr>)
   = (cm_start, task_new\<lparr>read_jobs := [\<lparr>job_id = 1, is_last_job = False, job_conn = 5\<rparr>, \<lparr>job_id = 2, is_last_job = False, job_conn = 5\<rparr>]\<rparr>)"
  using waiting_job_blocks [of "\<lparr>job_id = 1, is_last_job = False, job_conn = 5\<rparr>"
      "[(\<lambda>_. InitNone, \<lambda>i. if i = 1 then ReadWaiting else ReadBlock), (\<lambda>_. InitNone, \<lambda>i. if i = 1 then ReadWaiting else ReadBlock)]"
      "task_new\<lparr>read_jobs := [\<lparr>job_id = 1, is_last_job = False, job_conn = 5\<rparr>, \<lparr>job_id = 2, is_last_job = False, job_conn = 5\<rparr>]\<rparr>"
      "[\<lparr>job_id = 2, is_last_job = False, job_conn = 5\<rparr>]" sample_task_env cm_start]
  by simp

text \<open>
  Accepting twice loses uploads. When a running task passes on an authorization once more, its
  loop starts anew without the write jobs; the blocks, the end and the errors of every
  upload that was under way are then swallowed without an answer.
\<close>

theorem authorize_again_drops_uploads:
  assumes "get_job (te_jobs te) i [] = None" "remove_job (te_jobs te) i [] = (None, [])"
    and "op \<in> {WriteBlock i n ok, WriteDone i n, WriteError i n}"
  shows "\<exists>t1. task_event_step te (Channel True DAuthorize) (s, Some t) = (s, Some t1)
      \<and> task_event_step te (FromConn (MFs op raw)) (s, Some t1) = (s, Some t1)"
proof -
  let ?t = "run_begin s (t\<lparr>running := True\<rparr>)"
  have "task_event_step te (Channel True DAuthorize) (s, Some t) = (s, Some ?t)"
    by (simp add: task_event_step_def task_step_def on_channel_def)
  moreover have "task_event_step te (FromConn (MFs op raw)) (s, Some ?t) = (s, Some ?t)"
    using assms by (auto simp: task_event_step_def task_step_def on_message_def handle_fs_def run_begin_def Let_def)
  ultimately show ?thesis by blast
qed

theorem authorize_again_drops_uploads_witness:
  "\<exists>t1. task_event_step sample_task_env (Channel True DAuthorize) (cm_start, Some task_new) = (cm_start, Some t1)
      \<and> task_event_step sample_task_env (FromConn (MFs (WriteDone 3 0) True)) (cm_start, Some t1) = (cm_start, Some t1)"
  using authorize_again_drops_uploads [of sample_task_env 3 "WriteDone 3 0" 0 True cm_start task_new True]
  by (simp add: sample_task_env_def sample_ops_def)

end
