(* ===== verification/Migrate.thy ===== *)
theory Migrate
  imports Prelude
begin

text \<open>
  The one-time migration of the settings of the older product,
  \<open>src/src/chainremote_migrate.rs\<close>: the copy of its data folders and of its registry key,
  the removal of its service, and the marker that ends the migration.

  A folder is read as a tree, with what the file system reports for each entry; the
  destination is a map from relative paths to nodes. What the operating system answers is
  an argument.
\<close>

type_synonym path = "string list"

datatype node = FileNode string | DirNode

type_synonym fs = "path \<rightharpoonup> node"

text \<open>
  What \<open>read_dir\<close> yields: a file with its content, whether copying it works, a folder with
  its entries or one that cannot be read, something else, or an entry that is an error.
\<close>

datatype dir_entry =
    EFile string string bool
  | EDir string "dir_entry list"
  | EUnreadable string
  | EOther string
  | EError

definition MIGRATION_MARKER :: string where "MIGRATION_MARKER = ''.chainremote_migrated_from_rustdesk_v1''"

definition rename_legacy :: "string \<Rightarrow> string" where
  "rename_legacy name =
     (case strip_prefix ''RustDesk'' name of
        Some rest \<Rightarrow> ''ChainRemote'' @ rest
      | None \<Rightarrow> (case strip_prefix ''rustdesk'' name of
                   Some rest \<Rightarrow> ''ChainRemote'' @ rest
                 | None \<Rightarrow> name))"

text \<open>\<open>create_dir_all\<close>: every missing folder on the way, unless a file is in the way.\<close>

definition way_to :: "path \<Rightarrow> path list" where
  "way_to p = map (\<lambda>n. take n p) [0..<Suc (length p)]"

definition create_dir_all :: "path \<Rightarrow> fs \<Rightarrow> fs option" where
  "create_dir_all p m =
     (if \<exists>q \<in> set (way_to p). \<exists>c. m q = Some (FileNode c) then None
      else Some (\<lambda>q. if q \<in> set (way_to p) then Some DirNode else m q))"

text \<open>
  \<open>copy_dir_recursive\<close>. The flag is whether it returned without an error; an error leaves
  what was copied before.
\<close>

fun copy_entry :: "path \<Rightarrow> dir_entry \<Rightarrow> fs \<Rightarrow> bool \<times> fs"
  and copy_entries :: "path \<Rightarrow> dir_entry list \<Rightarrow> fs \<Rightarrow> bool \<times> fs" where
  "copy_entry dst (EFile name content copy_ok) m =
     (let p = dst @ [rename_legacy name]
      in (True, if m p = None \<and> copy_ok then m(p \<mapsto> FileNode content) else m))"
| "copy_entry dst (EDir name entries) m =
     (let p = dst @ [rename_legacy name]
      in case create_dir_all p m of None \<Rightarrow> (False, m) | Some m1 \<Rightarrow> copy_entries p entries m1)"
| "copy_entry dst (EUnreadable name) m =
     (case create_dir_all (dst @ [rename_legacy name]) m of None \<Rightarrow> (False, m) | Some m1 \<Rightarrow> (False, m1))"
| "copy_entry dst (EOther name) m = (True, m)"
| "copy_entry dst EError m = (False, m)"
| "copy_entries dst [] m = (True, m)"
| "copy_entries dst (e # es) m =
     (let (ok, m1) = copy_entry dst e m in if ok then copy_entries dst es m1 else (False, m1))"

text \<open>A root folder: absent, not readable, or its entries.\<close>

datatype root = Absent | Unreadable | Root "dir_entry list"

definition copy_dir_recursive :: "root \<Rightarrow> path \<Rightarrow> fs \<Rightarrow> bool \<times> fs" where
  "copy_dir_recursive src dst m =
     (case src of
        Absent \<Rightarrow> (True, m)
      | Unreadable \<Rightarrow> (case create_dir_all dst m of None \<Rightarrow> (False, m) | Some m1 \<Rightarrow> (False, m1))
      | Root entries \<Rightarrow> (case create_dir_all dst m of None \<Rightarrow> (False, m) | Some m1 \<Rightarrow> copy_entries dst entries m1))"


section \<open>The registry\<close>

text \<open>
  A key with its values (read errors included), whether each write works, and its subkeys
  with whether they can be opened and created.
\<close>

datatype reg_value = RVal string string bool | RValError
datatype reg_key = RKey "reg_value list" "reg_sub list"
  and reg_sub = RSub string reg_key bool | RSubError

text \<open>The destination: values by the path of their key and their name.\<close>

type_synonym registry = "path \<times> string \<rightharpoonup> string"

fun copy_values :: "path \<Rightarrow> reg_value list \<Rightarrow> registry \<Rightarrow> bool \<times> registry" where
  "copy_values dst [] r = (True, r)"
| "copy_values dst (RValError # vs) r = (False, r)"
| "copy_values dst (RVal name data ok # vs) r =
     (if r (dst, name) \<noteq> None then copy_values dst vs r
      else if ok then copy_values dst vs (r((dst, name) \<mapsto> data))
      else (False, r))"

fun copy_reg_key_recursive :: "path \<Rightarrow> reg_key \<Rightarrow> registry \<Rightarrow> bool \<times> registry"
  and copy_reg_subs :: "path \<Rightarrow> reg_sub list \<Rightarrow> registry \<Rightarrow> bool \<times> registry" where
  "copy_reg_key_recursive dst (RKey vs subs) r =
     (let (ok, r1) = copy_values dst vs r in if ok then copy_reg_subs dst subs r1 else (False, r1))"
| "copy_reg_subs dst [] r = (True, r)"
| "copy_reg_subs dst (RSubError # subs) r = (False, r)"
| "copy_reg_subs dst (RSub name k ok # subs) r =
     (if \<not> ok then (False, r)
      else let (ok', r1) = copy_reg_key_recursive (dst @ [name]) k r
           in if ok' then copy_reg_subs dst subs r1 else (False, r1))"

datatype old_key = KeyNotFound | KeyDenied | KeyOpen reg_key

definition copy_hklm_software_key :: "bool \<Rightarrow> old_key \<Rightarrow> registry \<Rightarrow> bool \<times> registry" where
  "copy_hklm_software_key create_ok old r =
     (case old of
        KeyNotFound \<Rightarrow> (True, r)
      | KeyDenied \<Rightarrow> (False, r)
      | KeyOpen k \<Rightarrow> if create_ok then copy_reg_key_recursive [] k r else (False, r))"


section \<open>The old service\<close>

text \<open>What a query of the service answers: cannot be run, or its output and its success.\<close>

datatype sc_query = ScError | ScOut string bool

definition STOPPED_KO :: string where
  "STOPPED_KO = map char_of ([0xEC, 0xA4, 0x91, 0xEC, 0xA7, 0x80, 0xEB, 0x90, 0xA8] :: nat list)"

text \<open>The answers of the polls, one a second, at most thirty; how many are taken.\<close>

fun wait_stopped :: "nat \<Rightarrow> sc_query list \<Rightarrow> nat" where
  "wait_stopped 0 qs = 0"
| "wait_stopped (Suc n) [] = 0"
| "wait_stopped (Suc n) (q # qs) =
     (case q of
        ScError \<Rightarrow> 1
      | ScOut out success \<Rightarrow>
          if contains_str out ''STOPPED'' \<or> contains_str out STOPPED_KO then 1
          else if \<not> success then 1
          else Suc (wait_stopped n qs))"


section \<open>The migration\<close>

record machine_state =
  new_data :: fs                         \<comment> \<open>under the new data root\<close>
  new_local :: fs                        \<comment> \<open>under the new root of the service profile\<close>
  new_reg :: registry
  old_service :: bool
  old_autostart :: bool
  old_links :: "path set"

text \<open>What the migration finds and what the system lets it do.\<close>

record mig_obs =
  appdata :: bool
  old_data :: root
  old_local :: "root option"             \<comment> \<open>\<open>None\<close>: no \<open>SystemRoot\<close>\<close>
  old_reg :: old_key
  reg_create_ok :: bool
  sc_delete_ok :: bool
  run_key_ok :: bool                     \<comment> \<open>the autostart key can be opened and its value deleted\<close>
  removable :: "path set"                \<comment> \<open>the shortcuts that can be removed\<close>
  marker_ok :: bool

definition write_marker :: "bool \<Rightarrow> string \<Rightarrow> fs \<Rightarrow> fs" where
  "write_marker ok text m =
     (let m1 = (case create_dir_all [] m of Some m' \<Rightarrow> m' | None \<Rightarrow> m)
      in if ok then m1([MIGRATION_MARKER] \<mapsto> FileNode text) else m1)"

definition migrate_from_rustdesk_once :: "mig_obs \<Rightarrow> machine_state \<Rightarrow> machine_state" where
  "migrate_from_rustdesk_once ob s =
     (if \<not> appdata ob then s
      else if new_data s [MIGRATION_MARKER] \<noteq> None then s
      else if old_data ob = Absent \<and> \<not> old_service s then s\<lparr>new_data := write_marker (marker_ok ob) ''clean_install'' (new_data s)\<rparr>
      else
        let s2 = (if old_service s \<and> sc_delete_ok ob then s\<lparr>old_service := False\<rparr> else s);
            s3 = s2\<lparr>new_data := snd (copy_dir_recursive (old_data ob) [] (new_data s2))\<rparr>;
            s4 = (case old_local ob of
                    Some src \<Rightarrow> s3\<lparr>new_local := snd (copy_dir_recursive src [] (new_local s3))\<rparr> | None \<Rightarrow> s3);
            s5 = s4\<lparr>new_reg := snd (copy_hklm_software_key (reg_create_ok ob) (old_reg ob) (new_reg s4))\<rparr>;
            s6 = (if run_key_ok ob then s5\<lparr>old_autostart := False\<rparr> else s5);
            s7 = s6\<lparr>old_links := old_links s6 - removable ob\<rparr>
        in s7\<lparr>new_data := write_marker (marker_ok ob) ''migrated'' (new_data s7)\<rparr>)"


section \<open>Nothing is overwritten\<close>

lemma map_le_new: "m k = None \<Longrightarrow> map_le m (m(k \<mapsto> v))"
  by (auto simp: map_le_def)

lemma create_dir_all_le: "create_dir_all p m = Some m1 \<Longrightarrow> map_le m m1"
  by (auto simp: create_dir_all_def map_le_def split: if_splits) (metis node.exhaust)

lemma copy_le:
  "map_le m (snd (copy_entry dst e m))"
  "map_le m (snd (copy_entries dst es m))"
proof (induction dst e m and dst es m rule: copy_entry_copy_entries.induct)
  case (2 dst name entries m)
  then show ?case
    by (auto simp: Let_def split: option.splits dest: create_dir_all_le intro: map_le_trans)
next
  case (7 dst e es m)
  obtain ok m1 where "copy_entry dst e m = (ok, m1)" by force
  then show ?case using 7 by (cases ok) (auto elim: map_le_trans)
qed (auto simp: map_le_def Let_def split: option.splits dest: create_dir_all_le [unfolded map_le_def])

lemma copy_dir_le: "map_le m (snd (copy_dir_recursive src dst m))"
  by (auto simp: copy_dir_recursive_def split: root.splits option.splits
      dest: create_dir_all_le intro: map_le_trans copy_le)

lemma copy_values_le: "map_le r (snd (copy_values dst vs r))"
proof (induction dst vs r rule: copy_values.induct)
  case (3 dst name data ok vs r)
  show ?case
    using map_le_trans [OF map_le_new, of r "(dst, name)" data "snd (copy_values dst vs (r((dst, name) \<mapsto> data)))"] 3
    by (cases ok) (auto simp del: fun_upd_apply)
qed simp_all

lemma copy_reg_le:
  "map_le r (snd (copy_reg_key_recursive dst k r))"
  "map_le r (snd (copy_reg_subs dst subs r))"
proof (induction dst k r and dst subs r rule: copy_reg_key_recursive_copy_reg_subs.induct)
  case (1 dst vs subs r)
  obtain ok r1 where "copy_values dst vs r = (ok, r1)" by force
  then show ?case using 1 copy_values_le [of r dst vs] by (cases ok) (auto elim: map_le_trans)
next
  case (4 dst name k ok subs r)
  obtain ok' r1 where "copy_reg_key_recursive (dst @ [name]) k r = (ok', r1)" by force
  then show ?case using 4 by (cases ok'; cases ok) (auto elim: map_le_trans)
qed simp_all

lemma copy_hklm_le: "map_le r (snd (copy_hklm_software_key ok old r))"
  by (auto simp: copy_hklm_software_key_def copy_reg_le split: old_key.splits)

lemma write_marker_le:
  assumes "map_le m x" "m [MIGRATION_MARKER] = None"
  shows "map_le m (write_marker ok t x)"
proof -
  have "map_le m (case create_dir_all [] x of Some m' \<Rightarrow> m' | None \<Rightarrow> x)"
    using assms(1) by (auto split: option.splits dest: create_dir_all_le elim: map_le_trans)
  then show ?thesis using assms(2) by (auto simp: write_marker_def Let_def map_le_def)
qed

lemma new_data_migrate:
  "new_data (migrate_from_rustdesk_once ob s) =
     (if \<not> appdata ob \<or> new_data s [MIGRATION_MARKER] \<noteq> None then new_data s
      else if old_data ob = Absent \<and> \<not> old_service s then write_marker (marker_ok ob) ''clean_install'' (new_data s)
      else write_marker (marker_ok ob) ''migrated'' (snd (copy_dir_recursive (old_data ob) [] (new_data s))))"
  by (simp add: migrate_from_rustdesk_once_def Let_def split: option.splits)

lemma migrate_data_le: "map_le (new_data s) (new_data (migrate_from_rustdesk_once ob s))"
  by (simp add: new_data_migrate write_marker_le copy_dir_le)

lemma migrate_again: "new_data s [MIGRATION_MARKER] \<noteq> None \<Longrightarrow> migrate_from_rustdesk_once ob s = s"
  by (simp add: migrate_from_rustdesk_once_def)

lemma migrate_local_reg:
  "map_le (new_local s) (new_local (migrate_from_rustdesk_once ob s))"
  "map_le (new_reg s) (new_reg (migrate_from_rustdesk_once ob s))"
  by (auto simp: migrate_from_rustdesk_once_def Let_def copy_dir_le copy_hklm_le split: option.splits)

section \<open>What is copied\<close>

text \<open>The paths a folder is copied to, and its files that can be copied, with their content.\<close>

fun targets :: "path \<Rightarrow> dir_entry \<Rightarrow> path list" where
  "targets dst (EFile name _ _) = [dst @ [rename_legacy name]]"
| "targets dst (EDir name es) = (dst @ [rename_legacy name]) # concat (map (targets (dst @ [rename_legacy name])) es)"
| "targets dst (EUnreadable name) = [dst @ [rename_legacy name]]"
| "targets dst _ = []"

fun files :: "path \<Rightarrow> dir_entry \<Rightarrow> (path \<times> string \<times> bool) list" where
  "files dst (EFile name c ok) = [(dst @ [rename_legacy name], c, ok)]"
| "files dst (EDir name es) = concat (map (files (dst @ [rename_legacy name])) es)"
| "files dst _ = []"

definition is_way :: "path \<Rightarrow> fs \<Rightarrow> bool" where
  "is_way p m \<longleftrightarrow> (\<forall>q \<in> set (way_to p). m q = Some DirNode)"

lemma way_to_append: "way_to (p @ [x]) = way_to p @ [p @ [x]]"
  by (auto simp: way_to_def)

lemma is_way_append: "is_way (p @ [x]) m \<longleftrightarrow> is_way p m \<and> m (p @ [x]) = Some DirNode"
  by (auto simp: is_way_def way_to_append)

lemma is_way_le: "is_way p m \<Longrightarrow> map_le m m' \<Longrightarrow> is_way p m'"
  by (force simp: is_way_def map_le_def)

lemma create_dir_below:
  "\<lbrakk>create_dir_all (p @ [x]) m = Some m1; is_way p m\<rbrakk> \<Longrightarrow> is_way (p @ [x]) m1 \<and> (\<forall>q. q \<noteq> p @ [x] \<longrightarrow> m1 q = m q)"
  by (auto simp: create_dir_all_def is_way_def way_to_append split: if_splits)

lemma copy_changes:
  "is_way dst m \<Longrightarrow> snd (copy_entry dst e m) q \<noteq> m q \<Longrightarrow> q \<in> set (targets dst e)"
  "is_way dst m \<Longrightarrow> snd (copy_entries dst es m) q \<noteq> m q \<Longrightarrow> q \<in> set (concat (map (targets dst) es))"
proof (induction dst e m and dst es m rule: copy_entry_copy_entries.induct)
  case (2 dst name entries m)
  show ?case
  proof (cases "create_dir_all (dst @ [rename_legacy name]) m")
    case (Some m1)
    have "is_way (dst @ [rename_legacy name]) m1" "q \<noteq> dst @ [rename_legacy name] \<Longrightarrow> m1 q = m q"
      using create_dir_below [OF Some 2(2)] by simp_all
    then show ?thesis using 2(1) [OF refl Some] 2(3) Some
      by (cases "q = dst @ [rename_legacy name]") (auto simp: Let_def)
  qed (use 2 in simp)
next
  case (7 dst e es m)
  obtain ok m1 where r: "copy_entry dst e m = (ok, m1)" by force
  have "is_way dst m1" using is_way_le [OF 7(3)] copy_le(1) [of m dst e] r by simp
  then show ?case using 7 r by (cases ok; cases "m1 q = m q") auto
qed (auto simp: Let_def split: option.splits if_splits dest: create_dir_below)

lemma files_targets: "(p, c, ok) \<in> set (files dst e) \<Longrightarrow> p \<in> set (targets dst e)"
  by (induction dst e rule: files.induct) auto

lemma copied:
  "\<lbrakk>is_way dst m; fst (copy_entry dst e m); (p, c, True) \<in> set (files dst e); distinct (targets dst e); m p = None\<rbrakk>
   \<Longrightarrow> snd (copy_entry dst e m) p = Some (FileNode c)"
  "\<lbrakk>is_way dst m; fst (copy_entries dst es m); (p, c, True) \<in> set (concat (map (files dst) es));
    distinct (concat (map (targets dst) es)); m p = None\<rbrakk> \<Longrightarrow> snd (copy_entries dst es m) p = Some (FileNode c)"
proof (induction dst e m and dst es m rule: copy_entry_copy_entries.induct)
  case (2 dst name entries m)
  let ?d = "dst @ [rename_legacy name]"
  obtain m1 where m1: "create_dir_all ?d m = Some m1" using 2 by (auto simp: Let_def split: option.splits)
  have "p \<noteq> ?d" using 2 files_targets by fastforce
  then have "is_way ?d m1" "m1 p = None"
    using create_dir_below [OF m1 2(2)] 2 by simp_all
  then show ?case using 2(1) [OF refl m1] 2 m1 by (simp add: Let_def)
next
  case (7 dst e es m)
  obtain ok m1 where r: "copy_entry dst e m = (ok, m1)" by force
  have ok: "ok" "fst (copy_entries dst es m1)" using 7(4) r by (auto split: if_splits)
  have way: "is_way dst m1" using is_way_le [OF 7(3)] copy_le(1) [of m dst e] r by simp
  show ?case
  proof (cases "(p, c, True) \<in> set (files dst e)")
    case True
    then have "m1 p = Some (FileNode c)" using 7 r ok by simp
    then have "snd (copy_entries dst es m1) p = Some (FileNode c)"
      using copy_le(2) [of m1 dst es] by (force simp: map_le_def)
    then show ?thesis using r ok by simp
  next
    case False
    then have es: "(p, c, True) \<in> set (concat (map (files dst) es))" using 7 by simp
    then have "p \<in> set (concat (map (targets dst) es))" using files_targets by fastforce
    then have "m1 p = None" using copy_changes(1) [OF 7(3), of e p] 7 r by auto
    then show ?thesis using 7(2) [OF r [symmetric] refl] ok way es 7 r by auto
  qed
qed (auto simp: Let_def)


text \<open>A file that cannot be copied is not there afterwards.\<close>

lemma uncopied:
  "\<lbrakk>is_way dst m; (p, c, False) \<in> set (files dst e); distinct (targets dst e); m p = None\<rbrakk> \<Longrightarrow> snd (copy_entry dst e m) p = None"
  "\<lbrakk>is_way dst m; (p, c, False) \<in> set (concat (map (files dst) es)); distinct (concat (map (targets dst) es)); m p = None\<rbrakk>
   \<Longrightarrow> snd (copy_entries dst es m) p = None"
proof (induction dst e m and dst es m rule: copy_entry_copy_entries.induct)
  case (2 dst name entries m)
  let ?d = "dst @ [rename_legacy name]"
  show ?case
  proof (cases "create_dir_all ?d m")
    case (Some m1)
    have "p \<noteq> ?d" using 2 files_targets by fastforce
    then have "is_way ?d m1" "m1 p = None"
      using create_dir_below [OF Some 2(2)] 2 by simp_all
    then show ?thesis using 2(1) [OF refl Some] 2 Some by (simp add: Let_def)
  qed (use 2 in \<open>simp add: Let_def\<close>)
next
  case (7 dst e es m)
  obtain ok m1 where r: "copy_entry dst e m = (ok, m1)" by force
  have way: "is_way dst m1" using is_way_le [OF 7(3)] copy_le(1) [of m dst e] r by simp
  have one: "m1 p = None" if "p \<notin> set (targets dst e)" using copy_changes(1) [OF 7(3), of e p] that 7 r by auto
  have rest: "snd (copy_entries dst es m1) p = m1 p" if "p \<notin> set (concat (map (targets dst) es))"
    using copy_changes(2) [OF way, of es p] that by auto
  show ?case
  proof (cases "(p, c, False) \<in> set (files dst e)")
    case True
    then have "m1 p = None" "p \<in> set (targets dst e)" using 7 r files_targets by auto
    moreover from this have "p \<notin> set (concat (map (targets dst) es))" using 7(5) by auto
    ultimately show ?thesis using rest r by simp
  next
    case False
    then have es: "(p, c, False) \<in> set (concat (map (files dst) es))" using 7 by simp
    then have "p \<in> set (concat (map (targets dst) es))" using files_targets by fastforce
    then have "m1 p = None" using one 7(5) by auto
    then show ?thesis using 7(2) [OF r [symmetric] refl] way es 7 r by auto
  qed
qed (auto simp: Let_def)

lemma write_marker_other: "\<lbrakk>p \<noteq> []; p \<noteq> [MIGRATION_MARKER]\<rbrakk> \<Longrightarrow> write_marker ok t m p = m p"
  by (auto simp: write_marker_def create_dir_all_def way_to_def Let_def)

lemma write_marker_marks: "write_marker True t m [MIGRATION_MARKER] = Some (FileNode t)"
  by (simp add: write_marker_def)


section \<open>Properties\<close>

text \<open>
  C28. The migration overwrites nothing. Whatever the older product left and wherever a step
  fails, every file and folder of the new product, of the user and of the service, and
  every value of its registry key is afterwards what it was before.
\<close>

theorem migration_keeps_new_settings:
  "map_le (new_data s) (new_data (migrate_from_rustdesk_once ob s))
   \<and> map_le (new_local s) (new_local (migrate_from_rustdesk_once ob s))
   \<and> map_le (new_reg s) (new_reg (migrate_from_rustdesk_once ob s))"
  by (simp add: migrate_data_le migrate_local_reg)

text \<open>
  The migration carries the settings over. When the folder of the older product can be read
  and its entries go to different places, then after a first run every file that could be
  copied and whose new name was free, at any depth, is found under its new name with its
  content.
\<close>

theorem migration_complete:
  assumes "appdata ob" "new_data s [MIGRATION_MARKER] = None" "old_data ob = Root entries"
    and "copy_dir_recursive (old_data ob) [] (new_data s) = (True, m)"
    and "(p, c, True) \<in> set (concat (map (files []) entries))" "distinct (concat (map (targets []) entries))"
    and "new_data s p = None" "p \<noteq> []" "p \<noteq> [MIGRATION_MARKER]"
  shows "new_data (migrate_from_rustdesk_once ob s) p = Some (FileNode c)"
proof -
  obtain m1 where m1: "create_dir_all [] (new_data s) = Some m1" "copy_entries [] entries m1 = (True, m)"
    using assms(3,4) by (auto simp: copy_dir_recursive_def split: option.splits)
  have "is_way [] m1" "m1 p = None"
    using m1(1) assms(7,8) by (auto simp: create_dir_all_def is_way_def way_to_def split: if_splits)
  then have "m p = Some (FileNode c)"
    using copied(2) [of "[]" m1 entries, OF _ _ assms(5,6)] m1(2) by simp
  then show ?thesis
    using assms write_marker_other by (simp add: new_data_migrate)
qed

definition sample_old :: "dir_entry list" where
  "sample_old = [EFile ''RustDesk.toml'' ''password'' True, EDir ''peers'' [EFile ''445497548.toml'' ''alias'' True]]"

definition fresh_machine :: machine_state where
  "fresh_machine = \<lparr>new_data = Map.empty, new_local = Map.empty, new_reg = Map.empty, old_service = True, old_autostart = True,
     old_links = {}\<rparr>"

definition sample_mig :: "dir_entry list \<Rightarrow> mig_obs" where
  "sample_mig es = \<lparr>appdata = True, old_data = Root es, old_local = None, old_reg = KeyNotFound, reg_create_ok = True,
     sc_delete_ok = True, run_key_ok = True, removable = {}, marker_ok = True\<rparr>"

lemmas mig_eval = sample_old_def fresh_machine_def sample_mig_def copy_dir_recursive_def create_dir_all_def way_to_def
  rename_legacy_def strip_prefix_def MIGRATION_MARKER_def

theorem migration_complete_witness:
  "new_data (migrate_from_rustdesk_once (sample_mig sample_old) fresh_machine) [''peers'', ''445497548.toml''] = Some (FileNode ''alias'')"
proof (rule migration_complete [OF _ _ _ surjective_pairing [THEN trans], of _ _ sample_old])
qed (simp_all add: mig_eval)

text \<open>
  A file that could not be copied is lost to the new product. A file of the older product
  that was locked or did not fit during the first run is absent afterwards, the run ends
  with the marker all the same, and no later run, whatever it meets, brings the file over.
\<close>

theorem failed_copy_is_final:
  assumes "appdata ob" "new_data s [MIGRATION_MARKER] = None" "marker_ok ob" "old_data ob = Root entries"
    and "(p, c, False) \<in> set (concat (map (files []) entries))" "distinct (concat (map (targets []) entries))"
    and "new_data s p = None" "p \<noteq> []" "p \<noteq> [MIGRATION_MARKER]"
  shows "new_data (run (\<lambda>x o'. migrate_from_rustdesk_once o' x) (migrate_from_rustdesk_once ob s) later) p = None"
proof -
  let ?s = "migrate_from_rustdesk_once ob s" and ?m = "snd (copy_dir_recursive (old_data ob) [] (new_data s))"
  have "?m p = None"
  proof (cases "create_dir_all [] (new_data s)")
    case (Some m1)
    then have "is_way [] m1" "m1 p = None"
      using assms(7,8) by (auto simp: create_dir_all_def is_way_def way_to_def split: if_splits)
    then show ?thesis using uncopied(2) [OF _ assms(5,6), of m1] Some assms(4) by (simp add: copy_dir_recursive_def)
  qed (use assms in \<open>simp add: copy_dir_recursive_def\<close>)
  then have lost: "new_data ?s p = None"
    using assms write_marker_other by (simp add: new_data_migrate)
  have "new_data ?s [MIGRATION_MARKER] \<noteq> None"
    using assms write_marker_marks by (simp add: new_data_migrate)
  then have "migrate_from_rustdesk_once o' ?s = ?s" for o'
    by (rule migrate_again)
  then have "run (\<lambda>x o'. migrate_from_rustdesk_once o' x) ?s later = ?s"
    by (induction later) simp_all
  with lost show ?thesis by simp
qed

theorem failed_copy_is_final_witness:
  "new_data (run (\<lambda>x o'. migrate_from_rustdesk_once o' x)
      (migrate_from_rustdesk_once (sample_mig [EFile ''RustDesk.toml'' ''password'' False]) fresh_machine) [sample_mig sample_old])
     [''ChainRemote.toml''] = None"
  using failed_copy_is_final [of "sample_mig [EFile ''RustDesk.toml'' ''password'' False]" fresh_machine
      "[EFile ''RustDesk.toml'' ''password'' False]" "[''ChainRemote.toml'']" "''password''" "[sample_mig sample_old]"]
  by (simp add: mig_eval)

text \<open>The wait for the old service to stop ends within thirty polls.\<close>

lemma wait_stopped_bound: "wait_stopped n qs \<le> n"
  by (induction n qs rule: wait_stopped.induct) (auto split: sc_query.splits)

text \<open>The new prefix is applied to the names in subfolders as well.\<close>

lemma nested_name_renamed:
  "\<lbrakk>is_way dst m; m (dst @ [rename_legacy d]) = None; m (dst @ [rename_legacy d, rename_legacy f]) = None\<rbrakk> \<Longrightarrow>
   snd (copy_entry dst (EDir d [EFile f c True]) m) (dst @ [rename_legacy d, rename_legacy f]) = Some (FileNode c)"
  by (auto simp: Let_def create_dir_all_def is_way_def way_to_append split: option.splits if_splits)

end
