(* ===== verification/Probe.thy ===== *)
theory Probe
  imports Client_Connect
begin

text \<open>
  The check of the connection path to every customer, \<open>src/src/chainremote_probe.rs\<close>:
  it connects as a session would (\<open>start_connect\<close> of the theory \<open>Client_Connect\<close>), notes
  whether the path was direct, and hangs up.

  The records of the peers are a map from ids. Another session of the same program may
  write the record of the peer while the check runs; what it writes is an argument.
\<close>

type_synonym peer_store = "string \<rightharpoonup> peer_config"

record probe_result =
  pr_id :: string
  pr_direct :: "bool option"
  pr_error :: string

definition PROBE_TIMEOUT_SECS :: nat where "PROBE_TIMEOUT_SECS = 12"

definition TIMEOUT_KO :: string where
  "TIMEOUT_KO = map char_of ([0xEC, 0x8B, 0x9C, 0xEA, 0xB0, 0x84, 0x20, 0xEC, 0xB4, 0x88, 0xEA, 0xB3, 0xBC] :: nat list)"

text \<open>
  One check as it goes: the attempt runs to its end, or the time is over, before or after
  the attempt has noted the retry of an aged record. \<open>meanwhile\<close> is the record that
  another session leaves, if one does.
\<close>

record probe_obs =
  po_attempt :: attempt
  po_in_time :: bool
  po_retry_noted :: bool
  po_error :: string                     \<comment> \<open>the text of an error\<close>
  meanwhile :: "peer_config option"

definition peer_config_exists :: "peer_store \<Rightarrow> string \<Rightarrow> bool" where
  "peer_config_exists st pid \<longleftrightarrow> st pid \<noteq> None"

definition default_config :: peer_config where
  "default_config = \<lparr>direct_failures = 0, ui_flutter = Map.empty\<rparr>"

definition load_handler :: "peer_store \<Rightarrow> string \<Rightarrow> login_config_handler" where
  "load_handler st pid =
     (let c = (case st pid of Some c \<Rightarrow> c | None \<Rightarrow> default_config) in \<lparr>lch_config = c, lch_stored = c\<rparr>)"

text \<open>What the attempt stored: nothing, if it left the record as it was loaded.\<close>

definition stored_by :: "login_config_handler \<Rightarrow> login_config_handler \<Rightarrow> peer_config option \<Rightarrow> peer_config option" where
  "stored_by h h' old = (if lch_stored h' = lch_stored h then old else Some (lch_stored h'))"

definition attempt_handler :: "crypto \<Rightarrow> string \<Rightarrow> nat \<Rightarrow> probe_obs \<Rightarrow> login_config_handler \<Rightarrow> login_config_handler" where
  "attempt_handler cr rs ct ob h =
     (if po_in_time ob then attempt_step cr rs ct h (po_attempt ob)
      else case po_attempt ob of (now, _, a, env) \<Rightarrow>
        if po_retry_noted ob then co_handler (connect cr rs ct now a env h) else h)"

definition probe_answer :: "crypto \<Rightarrow> string \<Rightarrow> nat \<Rightarrow> probe_obs \<Rightarrow> string \<Rightarrow> login_config_handler \<Rightarrow> probe_result" where
  "probe_answer cr rs ct ob pid h =
     (if po_in_time ob then
        (case co_result (attempt_out cr rs ct h (po_attempt ob)) of
           Inr (direct, _, _) \<Rightarrow> \<lparr>pr_id = pid, pr_direct = Some direct, pr_error = []\<rparr>
         | Inl _ \<Rightarrow> \<lparr>pr_id = pid, pr_direct = None, pr_error = po_error ob\<rparr>)
      else \<lparr>pr_id = pid, pr_direct = None, pr_error = TIMEOUT_KO\<rparr>)"

definition probe_one ::
  "crypto \<Rightarrow> string \<Rightarrow> nat \<Rightarrow> probe_obs \<Rightarrow> string \<Rightarrow> peer_store \<Rightarrow> peer_store \<times> probe_result" where
  "probe_one cr rs ct ob pid st =
     (let had_config = peer_config_exists st pid;
          h = load_handler st pid;
          st1 = st(pid := stored_by h (attempt_handler cr rs ct ob h) (st pid));
          st2 = (case meanwhile ob of Some c \<Rightarrow> st1(pid \<mapsto> c) | None \<Rightarrow> st1);
          out = probe_answer cr rs ct ob pid h
      in (if \<not> had_config then st2(pid := None) else st2, out))"

text \<open>The round: one peer after the other.\<close>

fun probe_all ::
  "crypto \<Rightarrow> string \<Rightarrow> nat \<Rightarrow> (string \<times> probe_obs) list \<Rightarrow> peer_store \<Rightarrow> peer_store \<times> probe_result list" where
  "probe_all cr rs ct [] st = (st, [])"
| "probe_all cr rs ct ((pid, ob) # rest) st =
     (let (st1, r) = probe_one cr rs ct ob pid st; (st2, rs') = probe_all cr rs ct rest st1 in (st2, r # rs'))"

definition summary :: "probe_result list \<Rightarrow> nat \<times> nat \<times> nat" where
  "summary out =
     (let direct = length (filter (\<lambda>r. pr_direct r = Some True) out);
          relay = length (filter (\<lambda>r. pr_direct r = Some False) out)
      in (direct, relay, length out - direct - relay))"

text \<open>The ids of the customers in the panel's list.\<close>

definition fetch_ids :: "string option list \<Rightarrow> string list" where
  "fetch_ids customers = filter (\<lambda>s. s \<noteq> []) (map trim (List.map_filter id customers))"

section \<open>Lemmas\<close>

lemma probe_one_other: "q \<noteq> pid \<Longrightarrow> fst (probe_one cr rs ct ob pid st) q = st q"
  by (simp add: probe_one_def Let_def split: option.splits)

lemma probe_one_dom: "dom (fst (probe_one cr rs ct ob pid st)) = dom st"
  by (auto simp: probe_one_def peer_config_exists_def stored_by_def Let_def split: option.splits if_splits)

lemma stamp_failures: "ui_flutter (stamp now b c) k = ui_flutter c k \<or> k = DIRECT_KEY"
  by (simp add: stamp_def)

lemma attempt_keeps_ui:
  assumes "k \<noteq> DIRECT_KEY"
  shows "ui_flutter (lch_stored (attempt_step cr rs ct h e)) k = ui_flutter (lch_stored h) k"
    and "ui_flutter (lch_stored (co_handler (connect cr rs ct now a env h))) k = ui_flutter (lch_stored h) k"
proof -
  have c: "ui_flutter (lch_stored (co_handler (connect cr rs ct now a env h))) k = ui_flutter (lch_stored h) k" for now a env
    using assms by (simp add: connect_fields note_direct_retry_def save_config_def stamp_def)
  then show "ui_flutter (lch_stored (co_handler (connect cr rs ct now a env h))) k = ui_flutter (lch_stored h) k" .
  obtain now now' a env where e: "e = (now, now', a, env)" by (cases e) auto
  show "ui_flutter (lch_stored (attempt_step cr rs ct h e)) k = ui_flutter (lch_stored h) k"
    using start_handler [of cr rs ct now now' a env h] c [of now a env] assms
    by (auto simp: attempt_step_def attempt_out_def e start_update_def set_direct_failure_def save_config_def stamp_def)
qed

lemma probe_one_ui:
  assumes "st pid = Some c" "meanwhile ob = None" "k \<noteq> DIRECT_KEY"
  shows "\<exists>c'. fst (probe_one cr rs ct ob pid st) pid = Some c' \<and> ui_flutter c' k = ui_flutter c k"
  using assms attempt_keeps_ui [OF assms(3), of cr rs ct]
  by (auto simp: probe_one_def peer_config_exists_def load_handler_def stored_by_def attempt_handler_def Let_def
      split: prod.splits)

lemma probe_all_dom: "dom (fst (probe_all cr rs ct ids st)) = dom st"
proof (induction ids arbitrary: st)
  case (Cons x rest)
  then show ?case using probe_one_dom by (cases x) (simp add: split_def Let_def)
qed simp

lemma probe_all_ids: "map pr_id (snd (probe_all cr rs ct ids st)) = map fst ids"
proof (induction ids arbitrary: st)
  case (Cons x rest)
  have "pr_id (snd (probe_one cr rs ct ob pid st)) = pid" for ob pid
    by (simp add: probe_one_def probe_answer_def Let_def split: sum.splits)
  then show ?case using Cons by (cases x) (simp add: split_def Let_def)
qed simp

lemma probe_all_other: "q \<notin> fst ` set ids \<Longrightarrow> fst (probe_all cr rs ct ids st) q = st q"
proof (induction ids arbitrary: st)
  case (Cons x rest)
  then show ?case using probe_one_other by (cases x) (simp add: split_def Let_def)
qed simp

lemma filter_partition3:
  "length (filter (\<lambda>r. pr_direct r = Some True) out) + length (filter (\<lambda>r. pr_direct r = Some False) out)
   + length (filter (\<lambda>r. pr_direct r = None) out) = length out"
proof (induction out)
  case (Cons r out)
  then show ?case by (cases "pr_direct r") auto
qed simp

section \<open>Properties\<close>

text \<open>
  A round of checks leaves the list of peers as it was. Whatever the network does in it, the
  peers that have a record after the round are those that had one before, peers that are
  not checked keep theirs, and the result names every id once in the order of the list,
  with as many failures as there are results that are neither direct nor relayed.
\<close>

theorem probe_leaves_peers:
  "dom (fst (probe_all cr rs ct ids st)) = dom st
   \<and> (\<forall>q. q \<in> fst ` set ids \<or> fst (probe_all cr rs ct ids st) q = st q)
   \<and> map pr_id (snd (probe_all cr rs ct ids st)) = map fst ids
   \<and> snd (snd (summary (snd (probe_all cr rs ct ids st))))
       = length (filter (\<lambda>r. pr_direct r = None) (snd (probe_all cr rs ct ids st)))"
proof (intro conjI)
  show "\<forall>q. q \<in> fst ` set ids \<or> fst (probe_all cr rs ct ids st) q = st q"
    using probe_all_other by blast
  show "snd (snd (summary (snd (probe_all cr rs ct ids st))))
      = length (filter (\<lambda>r. pr_direct r = None) (snd (probe_all cr rs ct ids st)))"
    using filter_partition3 [of "snd (probe_all cr rs ct ids st)"] by (simp add: summary_def Let_def)
qed (simp_all add: probe_all_dom probe_all_ids)

text \<open>
  A check can delete the record of a session. If the peer had no record when the check
  started and a session stores one while it runs, with the password and the name the
  user gave it, the end of the check removes it.
\<close>

theorem probe_deletes_session_record:
  assumes "st pid = None" "meanwhile ob = Some c"
  shows "fst (probe_one cr rs ct ob pid st) pid = None"
  using assms by (simp add: probe_one_def peer_config_exists_def Let_def)

definition sample_probe :: "string list \<Rightarrow> peer_config option \<Rightarrow> probe_obs" where
  "sample_probe fin c = \<lparr>po_attempt = (1000, 1004, sample_args, sample_env fin), po_in_time = True, po_retry_noted = True,
     po_error = [], meanwhile = c\<rparr>"

theorem probe_deletes_session_record_witness:
  "fst (probe_one sample_crypto ''rs'' 18000 (sample_probe [''TCP''] (Some default_config)) ''123456789'' Map.empty) ''123456789'' = None"
  using probe_deletes_session_record [of Map.empty "''123456789''" "sample_probe [''TCP''] (Some default_config)" default_config]
  by (simp add: sample_probe_def)

text \<open>
  A check writes to the record of a peer that has one. The record of a peer whose last
  connection was direct notes a failure when the check went over the relay; every entry
  but the stamp is kept.
\<close>

theorem probe_touches_record:
  "fst (probe_one sample_crypto ''rs'' 18000 (sample_probe [] None) ''123456789'' [''123456789'' \<mapsto> default_config]) ''123456789''
     = Some (stamp 1004 True (default_config\<lparr>direct_failures := 1\<rparr>))"
  by (simp add: probe_one_def peer_config_exists_def load_handler_def stored_by_def attempt_handler_def sample_probe_def
      default_config_def connect_eval)

end
