(* ===== verification/Custom_Server.thy ===== *)
theory Custom_Server
  imports Prelude
begin

text \<open>
  The server settings carried by the name of the installer, \<open>src/src/custom_server.rs\<close>:
  the form \<open>host=...,key=...,api=...,relay=...\<close> and the encoded form.

  Strings are UTF-8 bytes. Base64, JSON, signature verification and the case mapping of
  Unicode are fields of a record of parameters.
\<close>

record custom_server =
  cs_key :: string
  cs_host :: string
  cs_api :: string
  cs_relay :: string

record name_env =
  lower :: "string \<Rightarrow> string"                   \<comment> \<open>\<open>str::to_lowercase\<close>\<close>
  url_decode :: "string \<Rightarrow> string option"       \<comment> \<open>\<open>URL_SAFE_NO_PAD.decode\<close>\<close>
  json_server :: "string \<Rightarrow> custom_server option"
  verify_signed :: "string \<Rightarrow> string option"     \<comment> \<open>\<open>sign::verify\<close> under the built-in key\<close>

datatype parsed = Parsed custom_server | ParseError | ParsePanic

section \<open>Characters of a UTF-8 string\<close>

definition is_continuation :: "char \<Rightarrow> bool" where
  "is_continuation c \<longleftrightarrow> 128 \<le> byte c \<and> byte c < 192"

fun chars :: "string \<Rightarrow> string list" where
  "chars [] = []"
| "chars (c # s) =
     (case chars s of
        [] \<Rightarrow> [[c]]
      | (x # xs) \<Rightarrow> if x \<noteq> [] \<and> is_continuation (hd x) then (c # x) # xs else [c] # x # xs)"

definition skip_chars :: "nat \<Rightarrow> string \<Rightarrow> string" where
  "skip_chars n s = concat (drop n (chars s))"

definition is_char_boundary :: "nat \<Rightarrow> string \<Rightarrow> bool" where
  "is_char_boundary i s \<longleftrightarrow> i = length s \<or> i < length s \<and> \<not> is_continuation (s ! i)"

fun find_str :: "string \<Rightarrow> string \<Rightarrow> nat option" where
  "find_str [] pat = (if pat = [] then Some 0 else None)"
| "find_str (c # s) pat = (if prefix pat (c # s) then Some 0 else map_option Suc (find_str s pat))"

fun join_with :: "string \<Rightarrow> string list \<Rightarrow> string" where
  "join_with sep [] = []"
| "join_with sep [x] = x"
| "join_with sep (x # xs) = x @ sep @ join_with sep xs"

definition replace_str :: "string \<Rightarrow> string \<Rightarrow> string \<Rightarrow> string" where
  "replace_str pat rep s = join_with rep (split_str pat s)"

section \<open>The name\<close>

definition get_custom_server_from_config_string :: "name_env \<Rightarrow> string \<Rightarrow> custom_server option" where
  "get_custom_server_from_config_string e s =
     (case url_decode e (concat (rev (chars s))) of
        None \<Rightarrow> None
      | Some data \<Rightarrow>
          (case json_server e data of
             Some lic \<Rightarrow> Some lic
           | None \<Rightarrow> (case verify_signed e data of None \<Rightarrow> None | Some d \<Rightarrow> json_server e d)))"

definition strip_exe :: "name_env \<Rightarrow> string \<Rightarrow> string" where
  "strip_exe e s =
     (if ends_with (lower e s) ''.exe.exe'' then take (length s - 8) s
      else if ends_with (lower e s) ''.exe'' then take (length s - 4) s
      else s)"

definition read_field :: "name_env \<Rightarrow> string \<Rightarrow> custom_server \<Rightarrow> custom_server" where
  "read_field e el cs0 =
     (let el_lower = lower e el;
          cs1 = (if prefix ''host='' el_lower then cs0\<lparr>cs_host := skip_chars 5 el\<rparr> else cs0);
          cs2 = (if prefix ''key='' el_lower then cs1\<lparr>cs_key := skip_chars 4 el\<rparr> else cs1);
          cs3 = (if prefix ''api='' el_lower then cs2\<lparr>cs_api := skip_chars 4 el\<rparr> else cs2)
      in if prefix ''relay='' el_lower then cs3\<lparr>cs_relay := skip_chars 6 el\<rparr> else cs3)"

definition no_server :: custom_server where
  "no_server = \<lparr>cs_key = [], cs_host = [], cs_api = [], cs_relay = []\<rparr>"

fun first_server :: "name_env \<Rightarrow> string list \<Rightarrow> custom_server option" where
  "first_server e [] = None"
| "first_server e (s # ss) =
     (case get_custom_server_from_config_string e (trim s) of
        Some lic \<Rightarrow> Some lic
      | None \<Rightarrow> first_server e ss)"

fun find_server :: "name_env \<Rightarrow> string list \<Rightarrow> custom_server option" where
  "find_server e [] = None"
| "find_server e (s # ss) =
     (case get_custom_server_from_config_string e (trim s) of
        Some lic \<Rightarrow> Some lic
      | None \<Rightarrow>
          (case (if contains_str s ''('' then first_server e (split_str ''('' s) else None) of
             Some lic \<Rightarrow> Some lic
           | None \<Rightarrow> find_server e ss))"

definition get_custom_server_from_string :: "name_env \<Rightarrow> string \<Rightarrow> parsed" where
  "get_custom_server_from_string e s0 =
     (let s = strip_exe e s0
      in if contains_str (lower e s) ''host='' then
           (let i = (case find_str (lower e s) ''host='' of Some n \<Rightarrow> n | None \<Rightarrow> 0)
            in if \<not> is_char_boundary i s then ParsePanic
               else Parsed (fold (read_field e) (split_on CHR '','' (drop i s)) no_server))
         else
           (let s1 = replace_str ''-licensed-'' ''--'' (replace_str ''-licensed--'' ''--'' (replace_str ''-licensed---'' ''--'' s))
            in case find_server e (split_str ''--'' s1) of Some lic \<Rightarrow> Parsed lic | None \<Rightarrow> ParseError))"

section \<open>Lemmas\<close>

definition is_ascii :: "char \<Rightarrow> bool" where
  "is_ascii c \<longleftrightarrow> byte c < 128"

definition lower_ascii :: "name_env \<Rightarrow> bool" where
  "lower_ascii e \<longleftrightarrow> (\<forall>s. list_all is_ascii s \<longrightarrow> lower e s = to_ascii_lowercase s)"

lemma lower_asciiD: "\<lbrakk>lower_ascii e; list_all is_ascii s\<rbrakk> \<Longrightarrow> lower e s = map ascii_lower s"
  by (simp add: lower_ascii_def to_ascii_lowercase_def)

lemma chars_ascii: "list_all is_ascii s \<Longrightarrow> chars s = map (\<lambda>c. [c]) s"
  by (induction s) (auto simp: is_ascii_def is_continuation_def split: list.splits)

lemma skip_chars_ascii: "list_all is_ascii s \<Longrightarrow> skip_chars n s = drop n s"
  by (simp add: skip_chars_def chars_ascii drop_map)

lemma concat_singletons: "concat (map (\<lambda>c. [c]) s) = s"
  by (induction s) simp_all

lemma ascii_lower_eq: "ascii_lower c = CHR ''='' \<longleftrightarrow> c = CHR ''=''"
proof
  assume "ascii_lower c = CHR ''=''"
  then have "byte (ascii_lower c) = 61" by simp
  then show "c = CHR ''=''"
    using of_char_eq_iff [where ?'a = nat, of c "CHR ''=''"] by (auto simp: ascii_lower_def split: if_splits)
qed (simp add: ascii_lower_def)

lemma contains_find: "contains_str s pat \<longleftrightarrow> find_str s pat \<noteq> None"
  by (induction s) auto

lemma find_host:
  "CHR ''='' \<notin> set p \<Longrightarrow> find_str (p @ ''host='' @ r) ''host='' = Some (length p)"
proof (induction p)
  case (Cons c p)
  have "\<not> prefix ''host='' (c # p @ ''host='' @ r)"
    using Cons.prems by (cases p; cases "tl p"; cases "tl (tl p)"; cases "tl (tl (tl p))") auto
  then show ?case using Cons by simp
qed simp


lemma map_lower_host: "map ascii_lower ''host='' = ''host=''"
  by (simp add: ascii_lower_def)

text \<open>The fields one after another.\<close>

lemma split_fields:
  "\<lbrakk>CHR '','' \<notin> set h; CHR '','' \<notin> set k; CHR '','' \<notin> set a; CHR '','' \<notin> set r; CHR '','' \<notin> set junk\<rbrakk> \<Longrightarrow>
   split_on CHR '','' (''host='' @ h @ '',key='' @ k @ '',api='' @ a @ '',relay='' @ r @ '','' @ junk)
   = [''host='' @ h, ''key='' @ k, ''api='' @ a, ''relay='' @ r, junk]"
  using split_on_append_sep [of "CHR '',''" "''host='' @ h"] split_on_append_sep [of "CHR '',''" "''key='' @ k"]
    split_on_append_sep [of "CHR '',''" "''api='' @ a"] split_on_append_sep [of "CHR '',''" "''relay='' @ r"]
    split_on_no_sep [of "CHR '',''" junk]
  by simp

lemma read_field_ascii:
  assumes "lower_ascii e" "list_all is_ascii x"
  shows "read_field e (''host='' @ x) cs = cs\<lparr>cs_host := x\<rparr>" "read_field e (''key='' @ x) cs = cs\<lparr>cs_key := x\<rparr>"
    "read_field e (''api='' @ x) cs = cs\<lparr>cs_api := x\<rparr>" "read_field e (''relay='' @ x) cs = cs\<lparr>cs_relay := x\<rparr>"
  using assms
  by (simp_all add: read_field_def Let_def lower_asciiD skip_chars_ascii is_ascii_def ascii_lower_def)

lemma read_field_junk:
  "\<lbrakk>\<not> prefix ''host='' (lower e x); \<not> prefix ''key='' (lower e x); \<not> prefix ''api='' (lower e x);
    \<not> prefix ''relay='' (lower e x)\<rbrakk> \<Longrightarrow> read_field e x cs = cs"
  by (simp add: read_field_def)

text \<open>A name in the plain form is read field by field.\<close>

lemma plain_name:
  assumes "lower_ascii e" "list_all is_ascii (p @ ''host='' @ r)" "CHR ''='' \<notin> set p" "strip_exe e s = p @ ''host='' @ r"
  shows "get_custom_server_from_string e s = Parsed (fold (read_field e) (split_on CHR '','' (''host='' @ r)) no_server)"
proof -
  have l: "lower e (strip_exe e s) = map ascii_lower p @ ''host='' @ map ascii_lower r"
    using assms map_lower_host by (simp only: lower_asciiD map_append)
  have "CHR ''='' \<notin> set (map ascii_lower p)"
    using assms(3) by (simp add: image_iff ascii_lower_eq [THEN eq_commute [THEN trans]])
  then have f: "find_str (lower e (strip_exe e s)) ''host='' = Some (length p)"
    unfolding l using find_host [of "map ascii_lower p" "map ascii_lower r"] by (metis length_map)
  have "is_char_boundary (length p) (p @ ''host='' @ r)"
    by (simp add: is_char_boundary_def is_continuation_def nth_append)
  then show ?thesis
    using assms(4) f by (simp add: get_custom_server_from_string_def Let_def contains_find)
qed

lemma strip_exe_once:
  assumes "lower_ascii e" "list_all is_ascii s" "\<not> ends_with (map ascii_lower s) ''.exe''"
  shows "strip_exe e (s @ ''.exe'') = s"
proof -
  have "lower e (s @ ''.exe'') = map ascii_lower s @ ''.exe''"
    using assms by (simp add: lower_asciiD is_ascii_def ascii_lower_def)
  moreover have "\<not> suffix ''.exe.exe'' (map ascii_lower s @ ''.exe'')"
    using assms(3) suffix_append by (auto simp: ends_with_def suffix_def)
  ultimately show ?thesis
    by (simp add: strip_exe_def ends_with_def suffix_def)
qed

lemma suffix_after: "\<lbrakk>suffix t (x @ d # y); d \<notin> set t\<rbrakk> \<Longrightarrow> suffix t y"
  by (auto simp: suffix_append suffix_Cons)

lemma no_eq_lower: "CHR ''='' \<notin> set s \<Longrightarrow> CHR ''='' \<notin> set (map ascii_lower s)"
  by (simp add: image_iff ascii_lower_eq [THEN eq_commute [THEN trans]])

lemma prefix_no_member: "\<lbrakk>prefix t s; c \<in> set t\<rbrakk> \<Longrightarrow> c \<in> set s"
  by (auto simp: prefix_def)


section \<open>Properties\<close>

text \<open>
  A name that carries the settings gives them back. For a name of ASCII characters with any
  text before the settings that has no equals sign, settings without commas and a final
  comma, the settings are read back whatever the system put between that comma and the
  extension, such as the number of a repeated download, unless it is itself a setting.
\<close>

theorem file_name_roundtrip:
  assumes "lower_ascii e" "list_all is_ascii (p @ h @ k @ a @ r @ junk)" "CHR ''='' \<notin> set p"
    and "CHR '','' \<notin> set (h @ k @ a @ r @ junk)" "CHR ''='' \<notin> set junk" "\<not> ends_with (map ascii_lower junk) ''.exe''"
  shows "get_custom_server_from_string e
      (p @ ''host='' @ h @ '',key='' @ k @ '',api='' @ a @ '',relay='' @ r @ '','' @ junk @ ''.exe'')
    = Parsed \<lparr>cs_key = k, cs_host = h, cs_api = a, cs_relay = r\<rparr>"
proof -
  let ?r = "h @ '',key='' @ k @ '',api='' @ a @ '',relay='' @ r @ '','' @ junk"
  have asc: "list_all is_ascii (p @ ''host='' @ ?r)"
    using assms(2) by (simp add: is_ascii_def)
  have "\<not> suffix ''.exe'' (map ascii_lower (p @ ''host='' @ ?r))"
    using suffix_after [of "''.exe''" "map ascii_lower (p @ ''host='' @ h @ '',key='' @ k @ '',api='' @ a @ '',relay='' @ r)"
        "CHR '',''" "map ascii_lower junk"] assms(6)
    by (auto simp: ends_with_def ascii_lower_def)
  then have "strip_exe e ((p @ ''host='' @ ?r) @ ''.exe'') = p @ ''host='' @ ?r"
    by (intro strip_exe_once assms(1) asc) (simp add: ends_with_def)
  then have name: "get_custom_server_from_string e ((p @ ''host='' @ ?r) @ ''.exe'')
      = Parsed (fold (read_field e) (split_on CHR '','' (''host='' @ ?r)) no_server)"
    by (rule plain_name [OF assms(1) asc assms(3)])
  have "CHR ''='' \<notin> set (lower e junk)"
    using no_eq_lower [OF assms(5)] assms(1,2) by (simp add: lower_asciiD)
  then have "read_field e junk cs = cs" for cs
    by (intro read_field_junk) (auto dest: prefix_no_member [where c = "CHR ''=''"])
  moreover have "split_on CHR '','' (''host='' @ ?r) = [''host='' @ h, ''key='' @ k, ''api='' @ a, ''relay='' @ r, junk]"
    using assms(4) by (intro split_fields) auto
  ultimately show ?thesis
    using name read_field_ascii [OF assms(1)] assms(2) by (simp add: no_server_def)
qed

definition sample_names :: name_env where
  "sample_names = \<lparr>lower = map ascii_lower, url_decode = (\<lambda>s. Some s),
     json_server = (\<lambda>s. if prefix ''JSON'' s then Some (no_server\<lparr>cs_host := drop 4 s\<rparr>) else None), verify_signed = (\<lambda>_. None)\<rparr>"

theorem file_name_roundtrip_witness:
  "get_custom_server_from_string sample_names ''cr-host=a.b,key=K=,api=,relay=r, (1).exe''
    = Parsed \<lparr>cs_key = ''K='', cs_host = ''a.b'', cs_api = [], cs_relay = ''r''\<rparr>"
  using file_name_roundtrip [of sample_names "''cr-''" "''a.b''" "''K=''" "[]" "''r''" "'' (1)''"]
  by (simp add: lower_ascii_def sample_names_def to_ascii_lowercase_def is_ascii_def ascii_lower_def ends_with_def suffix_to_prefix)

text \<open>
  The signature of an encoded setting is not required. Whatever the verification under the
  built-in key says, an encoded text that is plain JSON is accepted as it is, so that
  anybody can make a name that sets the servers; the key is consulted only for what is
  not JSON.
\<close>

theorem unsigned_settings_accepted:
  assumes "url_decode e (concat (rev (chars s))) = Some data" "json_server e data = Some lic"
  shows "get_custom_server_from_config_string (e\<lparr>verify_signed := v\<rparr>) s = Some lic"
  using assms by (simp add: get_custom_server_from_config_string_def)

theorem unsigned_settings_accepted_witness:
  "get_custom_server_from_config_string (sample_names\<lparr>verify_signed := (\<lambda>_. None)\<rparr>) ''evilNOSJ'' = Some (no_server\<lparr>cs_host := ''live''\<rparr>)"
  using unsigned_settings_accepted [of sample_names "''evilNOSJ''" "''JSONlive''" "no_server\<lparr>cs_host := ''live''\<rparr>" "\<lambda>_. None"]
  by (simp add: sample_names_def is_continuation_def)

text \<open>
  A letter whose small form is longer shifts the settings. The place of \<open>host=\<close> is looked up in
  the name in small letters and used in the name as it is. With the letter U+0130, two
  bytes whose small form has three, in front, the first setting is cut and the host stays
  empty; the name is accepted without an error.
\<close>

theorem capital_dotted_i_loses_host:
  assumes "lower e (capital @ ''host='' @ h) = small @ ''host='' @ map ascii_lower h"
    and "capital = [CHR 0xC4, CHR 0xB0]" "small = [CHR 0x69, CHR 0xCC, CHR 0x87]"
    and "lower_ascii e" "list_all is_ascii h" "CHR ''='' \<notin> set h" "CHR '','' \<notin> set h"
    and "strip_exe e name = capital @ ''host='' @ h"
  shows "get_custom_server_from_string e name = Parsed no_server"
proof -
  have f: "find_str (lower e (strip_exe e name)) ''host='' = Some 3"
    using find_host [of small "map ascii_lower h"] assms(1,3,8) by simp
  have "lower e (''ost='' @ h) = ''ost='' @ map ascii_lower h"
    using lower_asciiD [OF assms(4), of "''ost='' @ h"] assms(5) by (simp add: is_ascii_def ascii_lower_def)
  then have "read_field e (''ost='' @ h) no_server = no_server"
    by (intro read_field_junk) simp_all
  moreover have "split_on CHR '','' (''ost='' @ h) = [''ost='' @ h]"
    using assms(7) by (intro split_on_no_sep) auto
  ultimately show ?thesis
    using assms(2,8) f by (simp add: get_custom_server_from_string_def Let_def contains_find is_char_boundary_def is_continuation_def)
qed

definition dotted_names :: name_env where
  "dotted_names = sample_names\<lparr>lower := (\<lambda>s. if prefix [CHR 0xC4, CHR 0xB0] s
     then [CHR 0x69, CHR 0xCC, CHR 0x87] @ map ascii_lower (drop 2 s) else map ascii_lower s)\<rparr>"

theorem capital_dotted_i_loses_host_witness:
  "get_custom_server_from_string dotted_names ([CHR 0xC4, CHR 0xB0] @ ''host=server.exe'') = Parsed no_server"
proof (rule capital_dotted_i_loses_host [where h = "''server''", OF _ refl refl])
  show "lower_ascii dotted_names"
    by (auto simp: lower_ascii_def dotted_names_def to_ascii_lowercase_def prefix_def is_ascii_def)
qed (simp_all add: dotted_names_def ascii_lower_def is_ascii_def strip_exe_def ends_with_def suffix_to_prefix)

end
