(* ===== verification/Client_Files.thy ===== *)
theory Client_Files
  imports Prelude
begin

text \<open>
  The file jobs of a session at the technician's end, in \<open>src/src/client/io_loop.rs\<close>: uploads
  (read jobs), downloads (write jobs) and deletions of whole folders (remove jobs), with the
  commands of the user interface and the file responses of the peer. The host is Windows.

  A transfer job belongs to the missing \<open>hbb_common\<close>: the fields this code reads and sets
  are a record, the rest of a job is a type parameter, and the functions of \<open>hbb_common::fs\<close>
  with the answers of the file system are a record of parameters. A reference to a job of a
  list is its position. Of a file entry only the name is kept.

  The lemmas show that a confirmed deletion of a folder visits every file once and ends, that
  the peer writes only where the user asked for it and is never told to overwrite without the
  user's consent, and what a peer can do to a deletion at the technician's end.
\<close>

section \<open>Jobs\<close>

datatype job_type = Generic | Printer

datatype data_source = FilePath string | MemoryCursor

record 'x transfer_job =
  tj_id :: int
  tj_type :: job_type
  tj_remote :: string
  tj_source :: data_source
  tj_file_num :: int
  tj_show_hidden :: bool
  tj_files :: "string list"
  tj_is_last_job :: bool
  tj_is_resume :: bool
  tj_rest :: 'x

record remove_job =
  rj_files :: "string list"
  rj_path :: string
  rj_sep :: string
  rj_is_remote :: bool
  rj_no_confirm :: bool
  rj_last_update :: nat

definition new_remove_job :: "nat \<Rightarrow> string list \<Rightarrow> string \<Rightarrow> string \<Rightarrow> bool \<Rightarrow> remove_job" where
  "new_remove_job now files path sep is_remote =
     \<lparr>rj_files = files, rj_path = path, rj_sep = sep, rj_is_remote = is_remote, rj_no_confirm = False, rj_last_update = now\<rparr>"

datatype confirm_union = OffsetBlk nat | Skip

record confirm_req =
  cq_id :: int
  cq_file_num :: int
  cq_union :: confirm_union

record digest =
  dg_id :: int
  dg_file_num :: int
  dg_is_upload :: bool
  dg_is_identical :: bool
  dg_transferred :: nat
  dg_file_size :: nat
  dg_last_modified :: nat

datatype digest_check = IsSame | NeedConfirm digest | NoSuchFile

text \<open>The functions of \<open>hbb_common::fs\<close>; the first component of a sum is the error.\<close>

record 'x fs_ops =
  fo_get_job :: "int \<Rightarrow> 'x transfer_job list \<Rightarrow> nat option"
  fo_remove_job :: "int \<Rightarrow> 'x transfer_job list \<Rightarrow> 'x transfer_job option \<times> 'x transfer_job list"
  fo_new_write :: "int \<Rightarrow> job_type \<Rightarrow> string \<Rightarrow> data_source \<Rightarrow> int \<Rightarrow> bool \<Rightarrow> bool \<Rightarrow> bool \<Rightarrow> 'x transfer_job"
  fo_new_read :: "int \<Rightarrow> job_type \<Rightarrow> string \<Rightarrow> data_source \<Rightarrow> int \<Rightarrow> bool \<Rightarrow> bool \<Rightarrow> bool \<Rightarrow> string + 'x transfer_job"
  fo_confirm :: "confirm_req \<Rightarrow> 'x transfer_job \<Rightarrow> 'x transfer_job"
  fo_set_overwrite :: "bool option \<Rightarrow> 'x transfer_job \<Rightarrow> 'x transfer_job"
  fo_overwrite :: "'x transfer_job \<Rightarrow> bool option"
  fo_set_digest :: "nat \<Rightarrow> nat \<Rightarrow> 'x transfer_job \<Rightarrow> 'x transfer_job"
  fo_set_files :: "string list \<Rightarrow> 'x transfer_job \<Rightarrow> string + 'x transfer_job"
  fo_resume_size :: "'x transfer_job \<Rightarrow> 'x transfer_job"
  fo_write :: "string \<Rightarrow> 'x transfer_job \<Rightarrow> 'x transfer_job"
  fo_transferred :: "'x transfer_job \<Rightarrow> nat"
  fo_finished_size :: "'x transfer_job \<Rightarrow> nat"
  fo_total_size :: "'x transfer_job \<Rightarrow> nat"
  fo_job_error :: "'x transfer_job \<Rightarrow> string option"
  fo_buf_data :: "'x transfer_job \<Rightarrow> string option"
  fo_need_confirm :: "bool \<Rightarrow> string \<Rightarrow> digest \<Rightarrow> string + digest_check"
  fo_read_jobs :: "'x transfer_job list \<Rightarrow> string + 'x transfer_job list"
  fo_join :: "string \<Rightarrow> string \<Rightarrow> string"
  fo_to_slashes :: "string list \<Rightarrow> string list"
  fo_overwrite_detection :: "int \<Rightarrow> bool"
  fo_supports_resume :: "int \<Rightarrow> bool"
  fo_recursive_files :: "string \<Rightarrow> bool \<Rightarrow> string + string list"
  fo_remove_file :: "string \<Rightarrow> string option"
  fo_create_dir :: "string \<Rightarrow> string option"
  fo_rename_file :: "string \<Rightarrow> string \<Rightarrow> string option"
  fo_copy_path :: "string \<Rightarrow> string \<Rightarrow> bool \<Rightarrow> string option"

text \<open>
  What the code relies on: a job is found by its id, removing one leaves the others, a new job
  has the id, the kind and the place it was made with and no answer yet, and the operations
  keep a job's identity. \<open>ov\<close> reads the remembered answer of a job, \<open>default_overwrite_strategy\<close>.
\<close>

definition same_job :: "('x transfer_job \<Rightarrow> bool option) \<Rightarrow> 'x transfer_job \<Rightarrow> 'x transfer_job \<Rightarrow> bool" where
  "same_job ov j k \<longleftrightarrow> tj_id j = tj_id k \<and> tj_source j = tj_source k \<and> tj_is_resume j = tj_is_resume k \<and> ov j = ov k"

definition lawful_lookup :: "'x fs_ops \<Rightarrow> bool" where
  "lawful_lookup fo \<longleftrightarrow>
     (\<forall>i js. case fo_get_job fo i js of
                None \<Rightarrow> (\<forall>j \<in> set js. tj_id j \<noteq> i)
              | Some k \<Rightarrow> k < length js \<and> tj_id (js ! k) = i)
   \<and> (\<forall>i js. case fo_remove_job fo i js of
                (None, js') \<Rightarrow> js' = js \<and> (\<forall>j \<in> set js. tj_id j \<noteq> i)
              | (Some j, js') \<Rightarrow> \<exists>k < length js. js ! k = j \<and> tj_id j = i \<and> js' = take k js @ drop (Suc k) js)"

definition lawful_fs :: "('x transfer_job \<Rightarrow> bool option) \<Rightarrow> 'x fs_ops \<Rightarrow> bool" where
  "lawful_fs ov fo \<longleftrightarrow> lawful_lookup fo
   \<and> fo_overwrite fo = ov
   \<and> (\<forall>j r l. ov (j\<lparr>tj_is_resume := r, tj_is_last_job := l\<rparr>) = ov j)
   \<and> (\<forall>i ty r src n h m od. let j = fo_new_write fo i ty r src n h m od in
        tj_id j = i \<and> tj_source j = src \<and> \<not> tj_is_resume j \<and> ov j = None)
   \<and> (\<forall>q j. same_job ov (fo_confirm fo q j) j)
   \<and> (\<forall>b j. tj_id (fo_set_overwrite fo b j) = tj_id j \<and> tj_source (fo_set_overwrite fo b j) = tj_source j
        \<and> tj_is_resume (fo_set_overwrite fo b j) = tj_is_resume j \<and> ov (fo_set_overwrite fo b j) = b)
   \<and> (\<forall>m n j. same_job ov (fo_set_digest fo m n j) j)
   \<and> (\<forall>fs j k. fo_set_files fo fs j = Inr k \<longrightarrow> same_job ov k j)
   \<and> (\<forall>j. same_job ov (fo_resume_size fo j) j)
   \<and> (\<forall>b j. same_job ov (fo_write fo b j) j)"


section \<open>State and effects\<close>

record 'x client_files =
  read_jobs :: "'x transfer_job list"
  write_jobs :: "'x transfer_job list"
  remove_jobs :: "int \<rightharpoonup> remove_job"
  status_time :: nat
  status_sizes :: "int \<rightharpoonup> nat"
  fast_timer :: bool                     \<comment> \<open>the timer ticks every millisecond, not every 30 seconds\<close>
  printer_names :: "int \<rightharpoonup> string"

record 'x files_env =
  fe_fs :: "'x fs_ops"
  fe_now :: nat                          \<comment> \<open>milliseconds\<close>
  fe_version :: int                      \<comment> \<open>\<open>lc.version\<close>, of the peer\<close>
  fe_peer_platform :: string

datatype file_cmd =
    SendFiles int job_type string string int bool bool
  | AddJob int job_type string string int bool bool
  | ResumeJob int bool
  | SetNoConfirm int
  | ConfirmDeleteFiles int int
  | SetConfirmOverrideFile int int bool bool bool
  | RemoveDirAll int string bool bool
  | CancelJob int
  | RemoveDir int string
  | RemoveFile int string int bool
  | CreateDir int string bool
  | RenameFile int string string bool
  | CopyFile int string string bool bool

datatype file_out =
    MsgSend int job_type string int bool
  | MsgReceive int string int "string list" nat
  | MsgSendConfirm confirm_req
  | MsgCancel int
  | MsgAllFiles int string bool
  | MsgRemoveDir int string
  | MsgRemoveFile int string int
  | MsgCreate int string
  | MsgRename int string string
  | MsgCopy int string string bool

datatype file_act =
    ToPeer file_out
  | ToSelf file_cmd                      \<comment> \<open>into the queue of the session\<close>
  | JobError int string int
  | JobDone int int
  | JobProgress int int nat int nat      \<comment> \<open>id, file, bytes since the last report, elapsed time, finished size\<close>
  | UpdateFolderFiles int "string list" string bool bool
  | ConfirmDelete int int string
  | OverrideFileConfirm int int string bool bool
  | DiskRemove string                    \<comment> \<open>what is done to the technician's own disk\<close>
  | DiskCreate string
  | DiskRename string string
  | DiskCopy string string bool
  | DiskWrite data_source string         \<comment> \<open>into the place of the job\<close>
  | DropDownload int
  | PrintData "string option" string
  | EmptyDirs

type_synonym 'x files_step = "'x client_files \<Rightarrow> 'x client_files \<times> file_act list"

definition new_client_files :: "nat \<Rightarrow> 'x client_files" where
  "new_client_files now = \<lparr>read_jobs = [], write_jobs = [], remove_jobs = Map.empty, status_time = now,
     status_sizes = Map.empty, fast_timer = False, printer_names = Map.empty\<rparr>"

definition wrap_i32 :: "int \<Rightarrow> int" where
  "wrap_i32 x = (x + 2 ^ 31) mod 2 ^ 32 - 2 ^ 31"

text \<open>\<open>as usize\<close> of a signed integer: a negative one becomes huge.\<close>

definition as_usize :: "int \<Rightarrow> nat" where
  "as_usize x = nat (x mod 2 ^ 64)"

text \<open>\<open>elapsed().as_millis() as i32\<close>\<close>

definition elapsed_i32 :: "nat \<Rightarrow> nat \<Rightarrow> int" where
  "elapsed_i32 now before = wrap_i32 (int (now - before))"


section \<open>Status of jobs\<close>

definition job_file_path :: "remove_job \<Rightarrow> nat \<Rightarrow> string" where
  "job_file_path j n = rj_path j @ rj_sep j @ rj_files j ! n"

definition report_job :: "int \<Rightarrow> int \<Rightarrow> string option \<Rightarrow> file_act list" where
  "report_job i n err = [case err of Some e \<Rightarrow> JobError i e n | None \<Rightarrow> JobDone i n]"

definition handle_job_status :: "'x files_env \<Rightarrow> int \<Rightarrow> int \<Rightarrow> string option \<Rightarrow> 'x files_step" where
  "handle_job_status fe i n err s =
     (case remove_jobs s i of
        None \<Rightarrow> (s, report_job i n err)
      | Some j \<Rightarrow>
          if \<not> rj_no_confirm j then (s, report_job i n err)
          else
            let k = as_usize (wrap_i32 (n + 1)) in
            if k < length (rj_files j) then
              let next = ToSelf (RemoveFile i (job_file_path j k) (wrap_i32 (int k)) (rj_is_remote j)) in
              if elapsed_i32 (fe_now fe) (rj_last_update j) \<ge> 1000
              then (s\<lparr>remove_jobs := (remove_jobs s)(i \<mapsto> j\<lparr>rj_last_update := fe_now fe\<rparr>)\<rparr>, next # report_job i n err)
              else (s, [next])
            else (s\<lparr>remove_jobs := (remove_jobs s)(i := None)\<rparr>, report_job i n err))"

definition update_job_status :: "'x files_env \<Rightarrow> int \<Rightarrow> 'x transfer_job \<Rightarrow> 'x files_step" where
  "update_job_status fe elapsed j s =
     (if elapsed \<le> 0 then (s, [])
      else
        let transferred = fo_transferred (fe_fs fe) j;
            last = (case status_sizes s (tj_id j) of Some v \<Rightarrow> v | None \<Rightarrow> 0)
        in (s\<lparr>status_sizes := (status_sizes s)(tj_id j \<mapsto> transferred)\<rparr>,
            [JobProgress (tj_id j) (wrap_i32 (tj_file_num j - 1)) (as_usize (int transferred - int last)) elapsed
               (fo_finished_size (fe_fs fe) j)]))"

fun update_each :: "'x files_env \<Rightarrow> int \<Rightarrow> 'x transfer_job list \<Rightarrow> 'x files_step" where
  "update_each fe elapsed [] s = (s, [])"
| "update_each fe elapsed (j # js) s =
     (let (s1, as) = update_job_status fe elapsed j s; (s2, bs) = update_each fe elapsed js s1 in (s2, as @ bs))"

definition update_jobs_status :: "'x files_env \<Rightarrow> 'x files_step" where
  "update_jobs_status fe s =
     (let elapsed = elapsed_i32 (fe_now fe) (status_time s) in
      if elapsed \<ge> 1000 then
        let (s1, as) = update_each fe elapsed (read_jobs s) s;
            (s2, bs) = update_each fe elapsed (write_jobs s) s1
        in (s2\<lparr>status_time := fe_now fe\<rparr>, as @ bs)
      else (s, []))"

definition cancel_transfer_job :: "'x files_env \<Rightarrow> int \<Rightarrow> 'x files_step" where
  "cancel_transfer_job fe i s =
     (let (wj, ws) = fo_remove_job (fe_fs fe) i (write_jobs s);
          (_, rs) = fo_remove_job (fe_fs fe) i (read_jobs s)
      in (s\<lparr>write_jobs := ws, read_jobs := rs, remove_jobs := (remove_jobs s)(i := None)\<rparr>,
          ToPeer (MsgCancel i) # (if wj = None then [] else [DropDownload i])))"


section \<open>Commands of the user interface\<close>

text \<open>\<open>get_path_sep\<close>; the own host is Windows.\<close>

definition get_path_sep :: "'x files_env \<Rightarrow> bool \<Rightarrow> string" where
  "get_path_sep fe is_remote = (if is_remote \<and> fe_peer_platform fe \<noteq> ''Windows'' then ''/'' else [CHR 0x5C])"

definition files_for_peer :: "'x files_env \<Rightarrow> string list \<Rightarrow> string list" where
  "files_for_peer fe fs = (if fe_peer_platform fe \<noteq> ''Windows'' then fo_to_slashes (fe_fs fe) fs else fs)"

definition send_files :: "'x files_env \<Rightarrow> int \<Rightarrow> job_type \<Rightarrow> string \<Rightarrow> string \<Rightarrow> int \<Rightarrow> bool \<Rightarrow> bool \<Rightarrow> 'x files_step" where
  "send_files fe i ty path dest n hidden is_remote s =
     (let od = fo_overwrite_detection (fe_fs fe) (fe_version fe) in
      if is_remote then
        let source = (case ty of Generic \<Rightarrow> FilePath dest | Printer \<Rightarrow> MemoryCursor)
        in (s\<lparr>write_jobs := write_jobs s @ [fo_new_write (fe_fs fe) i ty path source n hidden is_remote od]\<rparr>,
            [ToPeer (MsgSend i ty path n hidden)])
      else
        case fo_new_read (fe_fs fe) i ty dest (FilePath path) n hidden is_remote od of
          Inl err \<Rightarrow> handle_job_status fe i (- 1) (Some err) s
        | Inr j \<Rightarrow>
            (s\<lparr>read_jobs := read_jobs s @ [j], fast_timer := True\<rparr>,
             [UpdateFolderFiles (tj_id j) (tj_files j) path (\<not> is_remote) True,
              ToPeer (MsgReceive i dest n (files_for_peer fe (tj_files j)) (fo_total_size (fe_fs fe) j))]))"

definition add_job :: "'x files_env \<Rightarrow> int \<Rightarrow> job_type \<Rightarrow> string \<Rightarrow> string \<Rightarrow> int \<Rightarrow> bool \<Rightarrow> bool \<Rightarrow> 'x files_step" where
  "add_job fe i ty path dest n hidden is_remote s =
     (let od = fo_overwrite_detection (fe_fs fe) (fe_version fe) in
      if is_remote then
        let j = fo_new_write (fe_fs fe) i ty path (FilePath dest) n hidden is_remote od
        in (s\<lparr>write_jobs := write_jobs s @ [j\<lparr>tj_is_last_job := True\<rparr>]\<rparr>, [])
      else
        case fo_new_read (fe_fs fe) i ty dest (FilePath path) n hidden is_remote od of
          Inl err \<Rightarrow> handle_job_status fe i (- 1) (Some err) s
        | Inr j \<Rightarrow>
            (s\<lparr>read_jobs := read_jobs s @ [j\<lparr>tj_is_last_job := True\<rparr>], fast_timer := True\<rparr>,
             [UpdateFolderFiles (tj_id j) (tj_files j) path (\<not> is_remote) True]))"

definition resume_job :: "'x files_env \<Rightarrow> int \<Rightarrow> bool \<Rightarrow> 'x files_step" where
  "resume_job fe i is_remote s =
     (if is_remote then
        case fo_get_job (fe_fs fe) i (write_jobs s) of
          None \<Rightarrow> (s, [])
        | Some k \<Rightarrow>
            let j = (write_jobs s ! k)\<lparr>tj_is_last_job := False, tj_is_resume := True\<rparr>
            in (s\<lparr>write_jobs := (write_jobs s)[k := j]\<rparr>,
                [ToPeer (MsgSend i Generic (tj_remote j) (tj_file_num j) (tj_show_hidden j))])
      else
        case fo_get_job (fe_fs fe) i (read_jobs s) of
          None \<Rightarrow> (s, [])
        | Some k \<Rightarrow>
            (case tj_source (read_jobs s ! k) of
               FilePath _ \<Rightarrow>
                 let j = fo_resume_size (fe_fs fe) ((read_jobs s ! k)\<lparr>tj_is_last_job := False, tj_is_resume := True\<rparr>)
                 in (s\<lparr>read_jobs := (read_jobs s)[k := j]\<rparr>,
                     [ToPeer (MsgReceive i (tj_remote j) (tj_file_num j) (files_for_peer fe (tj_files j))
                        (fo_total_size (fe_fs fe) j))])
             | MemoryCursor \<Rightarrow> (s, [])))"

definition confirm_answer :: "int \<Rightarrow> int \<Rightarrow> bool \<Rightarrow> nat \<Rightarrow> confirm_req" where
  "confirm_answer i n overwrite offset =
     \<lparr>cq_id = i, cq_file_num = n, cq_union = (if overwrite then OffsetBlk offset else Skip)\<rparr>"

definition set_confirm_override :: "'x files_env \<Rightarrow> int \<Rightarrow> int \<Rightarrow> bool \<Rightarrow> bool \<Rightarrow> bool \<Rightarrow> 'x files_step" where
  "set_confirm_override fe i n need_override remember is_upload s =
     (let q = confirm_answer i n need_override 0;
          fo = fe_fs fe;
          settle = (\<lambda>j. fo_confirm fo q (if remember then fo_set_overwrite fo (Some need_override) j else j))
      in if is_upload then
           case fo_get_job fo i (read_jobs s) of
             None \<Rightarrow> (s, [])
           | Some k \<Rightarrow> (s\<lparr>read_jobs := (read_jobs s)[k := settle (read_jobs s ! k)]\<rparr>, [])
         else
           case fo_get_job fo i (write_jobs s) of
             None \<Rightarrow> (s, [])
           | Some k \<Rightarrow> (s\<lparr>write_jobs := (write_jobs s)[k := settle (write_jobs s ! k)]\<rparr>, [ToPeer (MsgSendConfirm q)]))"

definition remove_dir_all :: "'x files_env \<Rightarrow> int \<Rightarrow> string \<Rightarrow> bool \<Rightarrow> bool \<Rightarrow> 'x files_step" where
  "remove_dir_all fe i path is_remote hidden s =
     (let new = (\<lambda>fs. s\<lparr>remove_jobs := (remove_jobs s)(i \<mapsto> new_remove_job (fe_now fe) fs path (get_path_sep fe is_remote) is_remote)\<rparr>)
      in if is_remote then (new [], [ToPeer (MsgAllFiles i path hidden)])
         else case fo_recursive_files (fe_fs fe) path hidden of
                Inr entries \<Rightarrow> (new entries, [UpdateFolderFiles i entries path (\<not> is_remote) False])
              | Inl err \<Rightarrow> handle_job_status fe i (- 1) (Some err) s)"

definition after_disk :: "file_act \<Rightarrow> 'x client_files \<times> file_act list \<Rightarrow> 'x client_files \<times> file_act list" where
  "after_disk a = (\<lambda>(s, as). (s, a # as))"

definition handle_file_cmd :: "'x files_env \<Rightarrow> file_cmd \<Rightarrow> 'x files_step" where
  "handle_file_cmd fe c s =
     (case c of
        SendFiles i ty path dest n hidden is_remote \<Rightarrow> send_files fe i ty path dest n hidden is_remote s
      | AddJob i ty path dest n hidden is_remote \<Rightarrow> add_job fe i ty path dest n hidden is_remote s
      | ResumeJob i is_remote \<Rightarrow> resume_job fe i is_remote s
      | SetNoConfirm i \<Rightarrow>
          (s\<lparr>remove_jobs := (remove_jobs s)(i := map_option (\<lambda>j. j\<lparr>rj_no_confirm := True\<rparr>) (remove_jobs s i))\<rparr>, [])
      | ConfirmDeleteFiles i n \<Rightarrow>
          (s, case remove_jobs s i of
                None \<Rightarrow> []
              | Some j \<Rightarrow> if as_usize n < length (rj_files j) then [ConfirmDelete i n (rj_files j ! as_usize n)] else [])
      | SetConfirmOverrideFile i n need_override remember is_upload \<Rightarrow>
          set_confirm_override fe i n need_override remember is_upload s
      | RemoveDirAll i path is_remote hidden \<Rightarrow> remove_dir_all fe i path is_remote hidden s
      | CancelJob i \<Rightarrow> cancel_transfer_job fe i s
      | RemoveDir i path \<Rightarrow> (s, [ToPeer (MsgRemoveDir i path)])
      | RemoveFile i path n is_remote \<Rightarrow>
          if is_remote then (s, [ToPeer (MsgRemoveFile i path n)])
          else after_disk (DiskRemove path) (handle_job_status fe i n (fo_remove_file (fe_fs fe) path) s)
      | CreateDir i path is_remote \<Rightarrow>
          if is_remote then (s, [ToPeer (MsgCreate i path)])
          else after_disk (DiskCreate path) (handle_job_status fe i (- 1) (fo_create_dir (fe_fs fe) path) s)
      | RenameFile i path name is_remote \<Rightarrow>
          if is_remote then (s, [ToPeer (MsgRename i path name)])
          else after_disk (DiskRename path name) (handle_job_status fe i (- 1) (fo_rename_file (fe_fs fe) path name) s)
      | CopyFile i src dst is_move is_remote \<Rightarrow>
          if is_remote then (s, [ToPeer (MsgCopy i src dst is_move)])
          else after_disk (DiskCopy src dst is_move) (handle_job_status fe i (- 1) (fo_copy_path (fe_fs fe) src dst is_move) s))"


section \<open>File responses of the peer\<close>

datatype file_resp =
    RespEmptyDirs
  | RespDir int string "string list"
  | RespDigest digest
  | RespBlock int string
  | RespDone int int
  | RespError int string int
  | RespOther

definition on_dir :: "'x files_env \<Rightarrow> int \<Rightarrow> string \<Rightarrow> string list \<Rightarrow> 'x files_step" where
  "on_dir fe i path entries s =
     (case fo_get_job (fe_fs fe) i (write_jobs s) of
        Some k \<Rightarrow>
          (case fo_set_files (fe_fs fe) entries (write_jobs s ! k) of
             Inl err \<Rightarrow>
               let (s1, as) = cancel_transfer_job fe i s;
                   (s2, bs) = handle_job_status fe i (- 1) (Some err) s1
               in (s2, as @ bs)
           | Inr j \<Rightarrow>
               let j1 = fo_resume_size (fe_fs fe) j
               in (s\<lparr>write_jobs := (write_jobs s)[k := j1]\<rparr>, [UpdateFolderFiles i (tj_files j1) path False False]))
      | None \<Rightarrow>
          (case remove_jobs s i of
             Some j \<Rightarrow> (s\<lparr>remove_jobs := (remove_jobs s)(i \<mapsto> j\<lparr>rj_files := entries\<rparr>)\<rparr>, [UpdateFolderFiles i entries path False False])
           | None \<Rightarrow> (s, [UpdateFolderFiles i entries path False False])))"

text \<open>Which answer is given without asking: the remembered one, or to go on with a part that is there.\<close>

definition overwrite_choice :: "'x fs_ops \<Rightarrow> 'x transfer_job \<Rightarrow> digest \<Rightarrow> bool option \<times> nat" where
  "overwrite_choice fo j d =
     (if dg_is_identical d \<and> tj_is_resume j \<and> dg_transferred d > 0 then (Some True, dg_transferred d)
      else (fo_overwrite fo j, 0))"

definition on_upload_digest :: "'x files_env \<Rightarrow> digest \<Rightarrow> 'x files_step" where
  "on_upload_digest fe d s =
     (let fo = fe_fs fe in
      case fo_get_job fo (dg_id d) (read_jobs s) of
        None \<Rightarrow> (s, [])
      | Some k \<Rightarrow>
          let j = read_jobs s ! k; n = as_usize (dg_file_num d) in
          if n < length (tj_files j) then
            (case tj_source j of
               MemoryCursor \<Rightarrow> (s, [])
             | FilePath p \<Rightarrow>
                 (case overwrite_choice fo j d of
                    (Some overwrite, offset) \<Rightarrow>
                      let q = confirm_answer (dg_id d) (dg_file_num d) overwrite offset
                      in (s\<lparr>read_jobs := (read_jobs s)[k := fo_confirm fo q j]\<rparr>, [ToPeer (MsgSendConfirm q)])
                  | (None, _) \<Rightarrow>
                      (s, [OverrideFileConfirm (dg_id d) (dg_file_num d) (fo_join fo p (tj_files j ! n)) True (dg_is_identical d)])))
          else (s, []))"

definition on_download_digest :: "'x files_env \<Rightarrow> digest \<Rightarrow> 'x files_step" where
  "on_download_digest fe d s =
     (let fo = fe_fs fe in
      case fo_get_job fo (dg_id d) (write_jobs s) of
        None \<Rightarrow> (s, [])
      | Some k \<Rightarrow>
          let j = write_jobs s ! k; n = as_usize (dg_file_num d) in
          if n < length (tj_files j) then
            (case tj_source j of
               MemoryCursor \<Rightarrow> (s, [])
             | FilePath p \<Rightarrow>
                 let path = fo_join fo p (tj_files j ! n);
                     j1 = fo_set_digest fo (dg_file_size d) (dg_last_modified d) j;
                     resume = (fo_supports_resume fo (fe_version fe) \<and> tj_is_resume j1);
                     keep = (\<lambda>x. s\<lparr>write_jobs := (write_jobs s)[k := x]\<rparr>);
                     answer = (\<lambda>overwrite offset.
                       let q = confirm_answer (dg_id d) (dg_file_num d) overwrite offset
                       in (keep (fo_confirm fo q j1), [ToPeer (MsgSendConfirm q)]))
                 in (case fo_need_confirm fo resume path d of
                       Inl err \<Rightarrow> (keep j1, [])
                     | Inr IsSame \<Rightarrow> answer False 0
                     | Inr NoSuchFile \<Rightarrow> answer True 0
                     | Inr (NeedConfirm e) \<Rightarrow>
                         (case overwrite_choice fo j1 e of
                            (Some overwrite, offset) \<Rightarrow>
                              let q = confirm_answer (dg_id e) (dg_file_num e) overwrite offset
                              in (keep (fo_confirm fo q j1), [ToPeer (MsgSendConfirm q)])
                          | (None, _) \<Rightarrow>
                              (keep j1, [OverrideFileConfirm (dg_id e) (dg_file_num e) path False (dg_is_identical e)]))))
          else (s, []))"

definition on_block :: "'x files_env \<Rightarrow> int \<Rightarrow> string \<Rightarrow> 'x files_step" where
  "on_block fe i data s =
     (case fo_get_job (fe_fs fe) i (write_jobs s) of
        None \<Rightarrow> (s, [])
      | Some k \<Rightarrow>
          let j = write_jobs s ! k;
              s1 = s\<lparr>write_jobs := (write_jobs s)[k := fo_write (fe_fs fe) data j]\<rparr>;
              (s2, as) = (if tj_type j = Generic then update_jobs_status fe s1 else (s1, []))
          in (s2, DiskWrite (tj_source j) data # as))"

definition on_done :: "'x files_env \<Rightarrow> int \<Rightarrow> int \<Rightarrow> 'x files_step" where
  "on_done fe i n s =
     (case fo_remove_job (fe_fs fe) i (write_jobs s) of
        (None, ws) \<Rightarrow> handle_job_status fe i n None (s\<lparr>write_jobs := ws\<rparr>)
      | (Some j, ws) \<Rightarrow>
          let s1 = s\<lparr>write_jobs := ws\<rparr>; err = fo_job_error (fe_fs fe) j in
          (case tj_type j of
             Generic \<Rightarrow> handle_job_status fe i n err s1
           | Printer \<Rightarrow>
               (case (err, fo_buf_data (fe_fs fe) j) of
                  (None, Some data) \<Rightarrow>
                    (s1\<lparr>printer_names := (printer_names s1)(i := None)\<rparr>, [PrintData (printer_names s1 i) data])
                | _ \<Rightarrow> (s1, []))))"

definition on_error :: "'x files_env \<Rightarrow> int \<Rightarrow> string \<Rightarrow> int \<Rightarrow> 'x files_step" where
  "on_error fe i err n s =
     (let (wj, ws) = fo_remove_job (fe_fs fe) i (write_jobs s) in
      case wj of
        Some j \<Rightarrow>
          let s1 = s\<lparr>write_jobs := ws\<rparr>
          in (case tj_type j of Generic \<Rightarrow> handle_job_status fe i n (Some err) s1 | Printer \<Rightarrow> (s1, []))
      | None \<Rightarrow>
          let (rj, rs) = fo_remove_job (fe_fs fe) i (read_jobs s);
              s1 = s\<lparr>write_jobs := ws, read_jobs := rs\<rparr>
          in (case map_option tj_type rj of
                Some Printer \<Rightarrow> (s1, [])
              | _ \<Rightarrow> handle_job_status fe i n (Some err) s1))"

definition handle_file_response :: "'x files_env \<Rightarrow> file_resp \<Rightarrow> 'x files_step" where
  "handle_file_response fe r s =
     (case r of
        RespEmptyDirs \<Rightarrow> (s, [EmptyDirs])
      | RespDir i path entries \<Rightarrow> on_dir fe i path entries s
      | RespDigest d \<Rightarrow> if dg_is_upload d then on_upload_digest fe d s else on_download_digest fe d s
      | RespBlock i data \<Rightarrow> on_block fe i data s
      | RespDone i n \<Rightarrow> on_done fe i n s
      | RespError i err n \<Rightarrow> on_error fe i err n s
      | RespOther \<Rightarrow> (s, []))"

text \<open>The confirmation of a file the peer is about to receive (\<open>FileAction::SendConfirm\<close>).\<close>

definition on_send_confirm :: "'x files_env \<Rightarrow> confirm_req \<Rightarrow> 'x files_step" where
  "on_send_confirm fe q s =
     (case fo_get_job (fe_fs fe) (cq_id q) (read_jobs s) of
        None \<Rightarrow> (s, [])
      | Some k \<Rightarrow> (s\<lparr>read_jobs := (read_jobs s)[k := fo_confirm (fe_fs fe) q (read_jobs s ! k)]\<rparr>, []))"

text \<open>The tick of the timer, after the check for silence; the error ends the session.\<close>

definition tick_read_jobs :: "'x files_env \<Rightarrow> 'x client_files \<Rightarrow> string + 'x client_files \<times> file_act list" where
  "tick_read_jobs fe s =
     (if read_jobs s = [] then Inr (s\<lparr>fast_timer := False\<rparr>, [])
      else case fo_read_jobs (fe_fs fe) (read_jobs s) of
             Inl err \<Rightarrow> Inl err
           | Inr js \<Rightarrow> Inr (update_jobs_status fe (s\<lparr>read_jobs := js\<rparr>)))"

text \<open>
  The session's queue: \<open>receiver.recv()\<close> of the loop takes the commands one by one, and what a
  handler sends to the session itself is put at the end. Other branches of the loop may come
  in between; here nothing else happens until the queue is empty.
\<close>

definition to_self :: "file_act list \<Rightarrow> file_cmd list" where
  "to_self as = concat (map (\<lambda>a. case a of ToSelf c \<Rightarrow> [c] | _ \<Rightarrow> []) as)"

partial_function (option) drain_queue ::
  "(nat \<Rightarrow> 'x files_env) \<Rightarrow> nat \<Rightarrow> file_cmd list \<Rightarrow> 'x client_files \<Rightarrow> ('x client_files \<times> file_act list) option" where
  "drain_queue env t q s =
     (case q of
        [] \<Rightarrow> Some (s, [])
      | c # q' \<Rightarrow>
          let (s1, as) = handle_file_cmd (env t) c s in
          Option.bind (drain_queue env (Suc t) (q' @ to_self as) s1) (\<lambda>(s2, bs). Some (s2, as @ bs)))"


section \<open>Deleting a folder\<close>

lemma wrap_i32_id: "- (2 ^ 31) \<le> x \<Longrightarrow> x < 2 ^ 31 \<Longrightarrow> wrap_i32 x = x"
  by (simp add: wrap_i32_def)

lemma as_usize_nat [simp]: "n < 2 ^ 64 \<Longrightarrow> as_usize (int n) = n"
  by (simp add: as_usize_def flip: zmod_int)

lemma as_usize_neg: "- (2 ^ 31) \<le> x \<Longrightarrow> x < 0 \<Longrightarrow> as_usize x = nat (x + 2 ^ 64)"
proof -
  assume a: "- (2 ^ 31) \<le> x" "x < 0"
  then have "x mod 2 ^ 64 = (x + 2 ^ 64) mod 2 ^ 64"
    by simp
  also from a have "\<dots> = x + 2 ^ 64"
    by (intro mod_pos_pos_trivial) simp_all
  finally show ?thesis
    by (simp add: as_usize_def)
qed

lemma next_file_num: "k + 1 < 2 ^ 31 \<Longrightarrow> as_usize (wrap_i32 (int k + 1)) = k + 1"
  using as_usize_nat [of "k + 1"] by (simp add: wrap_i32_id add.commute)

definition disk_removed :: "file_act list \<Rightarrow> string list" where
  "disk_removed as = concat (map (\<lambda>a. case a of DiskRemove p \<Rightarrow> [p] | _ \<Rightarrow> []) as)"

lemma disk_removed_simps [simp]:
  "disk_removed [] = []"
  "disk_removed (DiskRemove p # as) = p # disk_removed as"
  "disk_removed (ToSelf c # as) = disk_removed as"
  "disk_removed (UpdateFolderFiles i fs x a b # as) = disk_removed as"
  "disk_removed (as @ bs) = disk_removed as @ disk_removed bs"
  "disk_removed (report_job i n err @ as) = disk_removed as"
  "disk_removed (report_job i n err) = []"
  by (simp_all add: disk_removed_def report_job_def split: option.splits)

lemma to_self_simps [simp]:
  "to_self [] = []"
  "to_self (DiskRemove p # as) = to_self as"
  "to_self (ToSelf c # as) = c # to_self as"
  "to_self (report_job i n err) = []"
  by (simp_all add: to_self_def report_job_def split: option.splits)

lemma drain_queue_Nil [simp]: "drain_queue env t [] s = Some (s, [])"
  by (simp add: drain_queue.simps)

definition deleting :: "int \<Rightarrow> remove_job \<Rightarrow> 'x client_files \<Rightarrow> bool" where
  "deleting i j s \<longleftrightarrow> (\<exists>u. remove_jobs s i = Some (j\<lparr>rj_last_update := u\<rparr>))"

text \<open>One file of a confirmed deletion: it is removed, and the next one is put into the queue.\<close>

lemma remove_file_step:
  assumes "deleting i j s" "rj_no_confirm j" "\<not> rj_is_remote j" "k < length (rj_files j)" "length (rj_files j) < 2 ^ 31"
  shows "\<exists>s' as. handle_file_cmd fe (RemoveFile i (job_file_path j k) (int k) False) s = (s', as)
    \<and> disk_removed as = [job_file_path j k] \<and> read_jobs s' = read_jobs s \<and> write_jobs s' = write_jobs s
    \<and> (if k + 1 < length (rj_files j)
       then to_self as = [RemoveFile i (job_file_path j (k + 1)) (int (k + 1)) False] \<and> deleting i j s'
         \<and> (\<forall>i'. i' \<noteq> i \<longrightarrow> remove_jobs s' i' = remove_jobs s i')
       else to_self as = [] \<and> remove_jobs s' = (remove_jobs s)(i := None))"
proof -
  from assms(1) obtain u where u: "remove_jobs s i = Some (j\<lparr>rj_last_update := u\<rparr>)"
    by (auto simp: deleting_def)
  from assms(4,5) have k: "as_usize (wrap_i32 (int k + 1)) = k + 1" and w: "wrap_i32 (int (k + 1)) = int (k + 1)"
    using next_file_num [of k] by (simp_all add: wrap_i32_id)
  have p: "job_file_path (j\<lparr>rj_last_update := v\<rparr>) n = job_file_path j n" for v n
    by (simp add: job_file_path_def)
  show ?thesis
    using assms(2-4) u k w
    by (auto simp: handle_file_cmd_def handle_job_status_def after_disk_def Let_def p deleting_def
        split: prod.splits)
qed

lemma deletion_runs:
  assumes "rj_no_confirm j" "\<not> rj_is_remote j" "length (rj_files j) < 2 ^ 31"
    and "deleting i j s" "k < length (rj_files j)"
  shows "\<exists>s' as. drain_queue env t [RemoveFile i (job_file_path j k) (int k) False] s = Some (s', as)
    \<and> disk_removed as = map (job_file_path j) [k..<length (rj_files j)]
    \<and> remove_jobs s' = (remove_jobs s)(i := None) \<and> read_jobs s' = read_jobs s \<and> write_jobs s' = write_jobs s"
  using assms(4,5)
proof (induction "length (rj_files j) - k" arbitrary: k s t)
  case 0
  then show ?case by simp
next
  case (Suc m)
  obtain s1 as where h: "handle_file_cmd (env t) (RemoveFile i (job_file_path j k) (int k) False) s = (s1, as)"
    and d: "disk_removed as = [job_file_path j k]" "read_jobs s1 = read_jobs s" "write_jobs s1 = write_jobs s"
    and n: "if k + 1 < length (rj_files j)
       then to_self as = [RemoveFile i (job_file_path j (k + 1)) (int (k + 1)) False] \<and> deleting i j s1
         \<and> (\<forall>i'. i' \<noteq> i \<longrightarrow> remove_jobs s1 i' = remove_jobs s i')
       else to_self as = [] \<and> remove_jobs s1 = (remove_jobs s)(i := None)"
    using remove_file_step [OF Suc.prems(1) assms(1,2) Suc.prems(2) assms(3), of "env t"] by blast
  have run: "drain_queue env t [RemoveFile i (job_file_path j k) (int k) False] s
      = Option.bind (drain_queue env (Suc t) (to_self as) s1) (\<lambda>(s2, bs). Some (s2, as @ bs))"
    by (subst drain_queue.simps) (simp add: h)
  show ?case
  proof (cases "k + 1 < length (rj_files j)")
    case True
    with n have q: "to_self as = [RemoveFile i (job_file_path j (k + 1)) (int (k + 1)) False]" and s1: "deleting i j s1"
      and o: "\<forall>i'. i' \<noteq> i \<longrightarrow> remove_jobs s1 i' = remove_jobs s i'"
      by simp_all
    from Suc.hyps(2) have "m = length (rj_files j) - (k + 1)"
      by simp
    from Suc.hyps(1) [OF this s1 True, of "Suc t"] obtain s2 bs
      where r: "drain_queue env (Suc t) (to_self as) s1 = Some (s2, bs)"
        "disk_removed bs = map (job_file_path j) [k + 1..<length (rj_files j)]"
        "remove_jobs s2 = (remove_jobs s1)(i := None)" "read_jobs s2 = read_jobs s1" "write_jobs s2 = write_jobs s1"
      unfolding q by auto
    moreover from o have "(remove_jobs s1)(i := None) = (remove_jobs s)(i := None)"
      by (auto simp: fun_eq_iff)
    ultimately show ?thesis
      using Suc.prems(2) d by (auto simp: run upt_conv_Cons)
  next
    case False
    with n d Suc.prems(2) show ?thesis
      by (auto simp: run upt_conv_Cons)
  qed
qed

text \<open>
  C15. A confirmed deletion of a folder at the technician's end ends, whatever the disk answers
  and however the clock runs: every file of the list is removed exactly once and in order,
  then the job is gone and no other job was touched.
\<close>

theorem folder_deletion_ends:
  assumes "remove_jobs s i = Some j" "rj_no_confirm j" "\<not> rj_is_remote j"
    and "rj_files j \<noteq> []" "length (rj_files j) < 2 ^ 31"
  shows "\<exists>s' as. drain_queue env t [RemoveFile i (job_file_path j 0) 0 False] s = Some (s', as)
    \<and> disk_removed as = map (\<lambda>f. rj_path j @ rj_sep j @ f) (rj_files j)
    \<and> remove_jobs s' = (remove_jobs s)(i := None) \<and> read_jobs s' = read_jobs s \<and> write_jobs s' = write_jobs s"
proof -
  have "deleting i j s"
    unfolding deleting_def by (rule exI [of _ "rj_last_update j"]) (simp add: assms(1))
  moreover have "map (job_file_path j) [0..<length (rj_files j)] = map (\<lambda>f. rj_path j @ rj_sep j @ f) (rj_files j)"
    by (rule nth_equalityI) (simp_all add: job_file_path_def)
  ultimately show ?thesis
    using deletion_runs [OF assms(2,3,5), of i s 0 env t] assms(4) by simp
qed



section \<open>What the peer can write\<close>

text \<open>A history of the jobs: commands, responses, confirmations of the peer, ticks.\<close>

datatype 'x file_event =
    UiCmd "'x files_env" file_cmd
  | PeerResp "'x files_env" file_resp
  | PeerConfirm "'x files_env" confirm_req
  | Tick "'x files_env"

fun event_env :: "'x file_event \<Rightarrow> 'x files_env" where
  "event_env (UiCmd fe c) = fe"
| "event_env (PeerResp fe r) = fe"
| "event_env (PeerConfirm fe q) = fe"
| "event_env (Tick fe) = fe"

fun file_step :: "'x file_event \<Rightarrow> 'x files_step" where
  "file_step (UiCmd fe c) s = handle_file_cmd fe c s"
| "file_step (PeerResp fe r) s = handle_file_response fe r s"
| "file_step (PeerConfirm fe q) s = on_send_confirm fe q s"
| "file_step (Tick fe) s = (case tick_read_jobs fe s of Inl err \<Rightarrow> (s, []) | Inr r \<Rightarrow> r)"

definition file_run :: "'x file_event list \<Rightarrow> 'x files_step" where
  "file_run es s = run (\<lambda>(t, as) e. let (u, bs) = file_step e t in (u, as @ bs)) (s, []) es"

lemma file_run_Nil [simp]: "file_run [] s = (s, [])"
  by (simp add: file_run_def)

lemma file_run_snoc:
  "file_run (es @ [e]) s = (let (t, as) = file_run es s; (u, bs) = file_step e t in (u, as @ bs))"
  by (simp add: file_run_def split: prod.splits)

text \<open>The commands that open a download under an id and into a place.\<close>

fun starts_download :: "file_cmd \<Rightarrow> int \<Rightarrow> data_source \<Rightarrow> bool" where
  "starts_download (SendFiles i ty path dest n h is_remote) k src \<longleftrightarrow>
     is_remote \<and> k = i \<and> src = (case ty of Generic \<Rightarrow> FilePath dest | Printer \<Rightarrow> MemoryCursor)"
| "starts_download (AddJob i ty path dest n h is_remote) k src \<longleftrightarrow> is_remote \<and> k = i \<and> src = FilePath dest"
| "starts_download _ k src \<longleftrightarrow> False"

definition asked_for :: "'x file_event list \<Rightarrow> int \<Rightarrow> data_source \<Rightarrow> bool" where
  "asked_for es i src \<longleftrightarrow> (\<exists>fe c. UiCmd fe c \<in> set es \<and> starts_download c i src)"

definition consented :: "'x file_event list \<Rightarrow> int \<Rightarrow> bool" where
  "consented es i \<longleftrightarrow> (\<exists>fe n. UiCmd fe (SetConfirmOverrideFile i n True True False) \<in> set es)"

definition resumed :: "'x file_event list \<Rightarrow> int \<Rightarrow> bool" where
  "resumed es i \<longleftrightarrow> (\<exists>fe. UiCmd fe (ResumeJob i True) \<in> set es)"

definition job_backed :: "('x transfer_job \<Rightarrow> bool option) \<Rightarrow> 'x file_event list \<Rightarrow> 'x transfer_job \<Rightarrow> bool" where
  "job_backed ov es j \<longleftrightarrow> asked_for es (tj_id j) (tj_source j)
     \<and> (ov j = Some True \<longrightarrow> consented es (tj_id j)) \<and> (tj_is_resume j \<longrightarrow> resumed es (tj_id j))"

lemma job_backed_mono: "job_backed ov es j \<Longrightarrow> job_backed ov (es @ fs) j"
  by (auto simp: job_backed_def asked_for_def consented_def resumed_def)

lemma job_backed_same: "same_job ov k j \<Longrightarrow> job_backed ov es j \<Longrightarrow> job_backed ov es k"
  by (auto simp: job_backed_def same_job_def)

lemma same_job_trans: "same_job ov a b \<Longrightarrow> same_job ov b c \<Longrightarrow> same_job ov a c"
  by (auto simp: same_job_def)

lemma lawful_get_job:
  assumes "lawful_fs ov fo" "fo_get_job fo i js = Some k"
  shows "k < length js" "tj_id (js ! k) = i"
proof -
  from assms(1) have "case fo_get_job fo i js of
      None \<Rightarrow> (\<forall>j \<in> set js. tj_id j \<noteq> i) | Some k \<Rightarrow> k < length js \<and> tj_id (js ! k) = i"
    by (simp add: lawful_fs_def lawful_lookup_def)
  with assms(2) show "k < length js" "tj_id (js ! k) = i"
    by simp_all
qed

lemma lawful_remove_cases:
  assumes "lawful_fs ov fo" "fo_remove_job fo i js = (r, js')"
  obtains (missing) "r = None" "js' = js" "\<forall>j \<in> set js. tj_id j \<noteq> i"
  | (found) k where "k < length js" "r = Some (js ! k)" "tj_id (js ! k) = i" "js' = take k js @ drop (Suc k) js"
proof -
  from assms(1) have c: "case fo_remove_job fo i js of
      (None, js') \<Rightarrow> js' = js \<and> (\<forall>j \<in> set js. tj_id j \<noteq> i)
    | (Some j, js') \<Rightarrow> \<exists>k < length js. js ! k = j \<and> tj_id j = i \<and> js' = take k js @ drop (Suc k) js"
    by (simp add: lawful_fs_def lawful_lookup_def)
  show thesis
  proof (cases r)
    case None
    with c assms(2) show thesis by (auto intro: missing)
  next
    case (Some j)
    with c assms(2) show thesis by (auto intro: found)
  qed
qed

lemma lawful_remove_job_subset:
  assumes "lawful_fs ov fo" "fo_remove_job fo i js = (r, js')"
  shows "set js' \<subseteq> set js"
  using assms by (cases rule: lawful_remove_cases) (auto dest: in_set_takeD in_set_dropD)

lemma lawful_get_missing:
  "lawful_fs ov fo \<Longrightarrow> \<forall>j \<in> set js. tj_id j \<noteq> i \<Longrightarrow> fo_get_job fo i js = None"
  by (metis lawful_get_job not_None_eq nth_mem)

lemma lawful_remove_missing:
  assumes "lawful_fs ov fo" "\<forall>j \<in> set js. tj_id j \<noteq> i"
  shows "fo_remove_job fo i js = (None, js)"
proof -
  obtain r js' where r: "fo_remove_job fo i js = (r, js')"
    by fastforce
  from assms(1) r show ?thesis
    by (cases rule: lawful_remove_cases) (use assms(2) r in auto)
qed

lemma distinct_remove_nth:
  assumes "distinct (map f xs)" "k < length xs" "x \<in> set (take k xs @ drop (Suc k) xs)"
  shows "f x \<noteq> f (xs ! k)"
proof -
  have "xs = take k xs @ xs ! k # drop (Suc k) xs"
    using assms(2) by (rule id_take_nth_drop)
  then have "distinct (map f (take k xs @ xs ! k # drop (Suc k) xs))"
    using assms(1) by simp
  with assms(3) show ?thesis
    by (auto simp: image_iff)
qed

lemma lawful_keeps:
  assumes "lawful_fs ov fo"
  shows "same_job ov (fo_confirm fo q j) j" "same_job ov (fo_set_digest fo m n j) j"
    "fo_set_files fo fs j = Inr k \<Longrightarrow> same_job ov k j" "same_job ov (fo_resume_size fo j) j"
    "same_job ov (fo_write fo b j) j" "fo_overwrite fo = ov"
  using assms by (simp_all add: lawful_fs_def)

lemma lawful_new_write:
  assumes "lawful_fs ov fo"
  shows "tj_id (fo_new_write fo i ty r src n h m od) = i" "tj_source (fo_new_write fo i ty r src n h m od) = src"
    "\<not> tj_is_resume (fo_new_write fo i ty r src n h m od)" "ov (fo_new_write fo i ty r src n h m od) = None"
  using assms by (simp_all add: lawful_fs_def Let_def)

lemma lawful_set_overwrite:
  assumes "lawful_fs ov fo"
  shows "tj_id (fo_set_overwrite fo b j) = tj_id j" "tj_source (fo_set_overwrite fo b j) = tj_source j"
    "tj_is_resume (fo_set_overwrite fo b j) = tj_is_resume j" "ov (fo_set_overwrite fo b j) = b"
  using assms by (simp_all add: lawful_fs_def)

lemma job_flags_commute:
  "(j :: 'x transfer_job)\<lparr>tj_is_resume := r, tj_is_last_job := l\<rparr> = j\<lparr>tj_is_last_job := l, tj_is_resume := r\<rparr>"
  by simp

lemma lawful_flags:
  assumes "lawful_fs ov fo"
  shows "ov (j\<lparr>tj_is_resume := r, tj_is_last_job := l\<rparr>) = ov j" "ov (j\<lparr>tj_is_last_job := l\<rparr>) = ov j"
proof -
  from assms have *: "ov (j\<lparr>tj_is_resume := r, tj_is_last_job := l\<rparr>) = ov j" for r l
    by (simp add: lawful_fs_def)
  then show "ov (j\<lparr>tj_is_resume := r, tj_is_last_job := l\<rparr>) = ov j" .
  from * [where r = "tj_is_resume j" and l = l] show "ov (j\<lparr>tj_is_last_job := l\<rparr>) = ov j"
    by simp
qed

text \<open>Only the table of deletions is touched by a status, and only the sizes by a progress report.\<close>

lemma handle_job_status_jobs:
  "handle_job_status fe i n err s = (s', as) \<Longrightarrow> write_jobs s' = write_jobs s \<and> read_jobs s' = read_jobs s \<and> (\<forall>src d. DiskWrite src d \<notin> set as)
     \<and> (\<forall>q. ToPeer q \<notin> set as)"
  by (auto simp: handle_job_status_def report_job_def Let_def split: option.splits if_splits)

lemma update_job_status_jobs:
  "update_job_status fe el j s = (s', as) \<Longrightarrow> write_jobs s' = write_jobs s \<and> read_jobs s' = read_jobs s \<and> (\<forall>src d. DiskWrite src d \<notin> set as)
     \<and> (\<forall>q. ToPeer q \<notin> set as)"
  by (auto simp: update_job_status_def Let_def split: option.splits if_splits)

lemma update_each_jobs:
  "update_each fe el js s = (s', as) \<Longrightarrow> write_jobs s' = write_jobs s \<and> read_jobs s' = read_jobs s \<and> (\<forall>src d. DiskWrite src d \<notin> set as)
     \<and> (\<forall>q. ToPeer q \<notin> set as)"
  by (induction js arbitrary: s s' as) (fastforce split: prod.splits dest: update_job_status_jobs)+

lemma update_jobs_status_jobs:
  "update_jobs_status fe s = (s', as) \<Longrightarrow> write_jobs s' = write_jobs s \<and> read_jobs s' = read_jobs s \<and> (\<forall>src d. DiskWrite src d \<notin> set as)
     \<and> (\<forall>q. ToPeer q \<notin> set as)"
  by (fastforce simp: update_jobs_status_def Let_def split: if_splits prod.splits dest: update_each_jobs)

lemmas status_jobs = handle_job_status_jobs update_jobs_status_jobs


definition backed :: "('x transfer_job \<Rightarrow> bool option) \<Rightarrow> 'x file_event list \<Rightarrow> 'x transfer_job list \<Rightarrow> bool" where
  "backed ov es js \<longleftrightarrow> (\<forall>j \<in> set js. job_backed ov es j)"

lemma backed_mono: "backed ov es js \<Longrightarrow> backed ov (es @ fs) js"
  by (auto simp: backed_def intro: job_backed_mono)

lemma backed_subset: "backed ov es js \<Longrightarrow> set js' \<subseteq> set js \<Longrightarrow> backed ov es js'"
  by (auto simp: backed_def)

lemma backed_append: "backed ov es js \<Longrightarrow> job_backed ov es j \<Longrightarrow> backed ov es (js @ [j])"
  by (auto simp: backed_def)

lemma backed_update: "backed ov es js \<Longrightarrow> job_backed ov es j \<Longrightarrow> backed ov es (js[k := j])"
  unfolding backed_def using set_update_subset_insert [of js k j] by blast

lemma backed_update_same:
  "backed ov es js \<Longrightarrow> k < length js \<Longrightarrow> same_job ov j (js ! k) \<Longrightarrow> backed ov es (js[k := j])"
  by (rule backed_update, assumption, erule job_backed_same) (simp add: backed_def)

lemma cancel_backed:
  assumes "lawful_fs ov (fe_fs fe)" "backed ov es (write_jobs s)" "cancel_transfer_job fe i s = (s', as)"
  shows "backed ov es (write_jobs s')" "\<forall>src d. DiskWrite src d \<notin> set as"
proof -
  obtain wj ws rj rs where r: "fo_remove_job (fe_fs fe) i (write_jobs s) = (wj, ws)"
    "fo_remove_job (fe_fs fe) i (read_jobs s) = (rj, rs)"
    by (meson surj_pair)
  then show "backed ov es (write_jobs s')" "\<forall>src d. DiskWrite src d \<notin> set as"
    using assms(3) backed_subset [OF assms(2) lawful_remove_job_subset [OF assms(1) r(1)]]
    by (auto simp: cancel_transfer_job_def split: if_splits)
qed

text \<open>The commands: what opens, resumes or answers for a job is the user.\<close>

lemma send_files_backed:
  assumes "lawful_fs ov (fe_fs fe)" "backed ov es (write_jobs s)"
    and "send_files fe i ty path dest n h r s = (s', as)" "UiCmd fe (SendFiles i ty path dest n h r) \<in> set es"
  shows "backed ov es (write_jobs s')" "\<forall>src d. DiskWrite src d \<notin> set as"
proof -
  have new: "job_backed ov es (fo_new_write (fe_fs fe) i ty path (case ty of Generic \<Rightarrow> FilePath dest | Printer \<Rightarrow> MemoryCursor) n h True od)"
    if r for od
    using assms(4) that starts_download.simps(1) [of i ty path dest n h True]
    unfolding job_backed_def asked_for_def by (fastforce simp: lawful_new_write [OF assms(1)])
  show "backed ov es (write_jobs s')" "\<forall>src d. DiskWrite src d \<notin> set as"
    using assms(2,3) new
    by (auto simp: send_files_def Let_def split: if_splits sum.splits dest: handle_job_status_jobs intro!: backed_append)
qed

lemma add_job_backed:
  assumes "lawful_fs ov (fe_fs fe)" "backed ov es (write_jobs s)"
    and "add_job fe i ty path dest n h r s = (s', as)" "UiCmd fe (AddJob i ty path dest n h r) \<in> set es"
  shows "backed ov es (write_jobs s')" "\<forall>src d. DiskWrite src d \<notin> set as"
proof -
  have new: "job_backed ov es ((fo_new_write (fe_fs fe) i ty path (FilePath dest) n h True od)\<lparr>tj_is_last_job := True\<rparr>)"
    if r for od
    using assms(4) that starts_download.simps(2) [of i ty path dest n h True]
    unfolding job_backed_def asked_for_def by (fastforce simp: lawful_new_write [OF assms(1)] lawful_flags [OF assms(1)])
  show "backed ov es (write_jobs s')" "\<forall>src d. DiskWrite src d \<notin> set as"
    using assms(2,3) new
    by (auto simp: add_job_def Let_def split: if_splits sum.splits dest: handle_job_status_jobs intro!: backed_append)
qed

lemma resume_job_backed:
  assumes "lawful_fs ov (fe_fs fe)" "backed ov es (write_jobs s)"
    and "resume_job fe i r s = (s', as)" "UiCmd fe (ResumeJob i r) \<in> set es"
  shows "backed ov es (write_jobs s')" "\<forall>src d. DiskWrite src d \<notin> set as"
proof -
  have "backed ov es ((write_jobs s)[k := (write_jobs s ! k)\<lparr>tj_is_last_job := False, tj_is_resume := True\<rparr>])"
    if r "fo_get_job (fe_fs fe) i (write_jobs s) = Some k" for k
  proof (rule backed_update [OF assms(2)])
    note g = lawful_get_job [OF assms(1) that(2)]
    have "job_backed ov es (write_jobs s ! k)"
      using assms(2) g(1) by (simp add: backed_def)
    then show "job_backed ov es ((write_jobs s ! k)\<lparr>tj_is_last_job := False, tj_is_resume := True\<rparr>)"
      using assms(4) that(1) g(2) lawful_flags(1) [OF assms(1), where j = "write_jobs s ! k" and r = True and l = False]
      unfolding job_flags_commute by (auto simp: job_backed_def resumed_def)
  qed
  then show "backed ov es (write_jobs s')" "\<forall>src d. DiskWrite src d \<notin> set as"
    using assms(2,3) by (auto simp: resume_job_def Let_def split: if_splits option.splits data_source.splits)
qed

lemma set_confirm_override_backed:
  assumes "lawful_fs ov (fe_fs fe)" "backed ov es (write_jobs s)"
    and "set_confirm_override fe i n need remember up s = (s', as)"
    and "UiCmd fe (SetConfirmOverrideFile i n need remember up) \<in> set es"
  shows "backed ov es (write_jobs s')" "\<forall>src d. DiskWrite src d \<notin> set as"
proof -
  let ?settle = "\<lambda>q j. fo_confirm (fe_fs fe) q (if remember then fo_set_overwrite (fe_fs fe) (Some need) j else j)"
  have "backed ov es ((write_jobs s)[k := ?settle q (write_jobs s ! k)])"
    if "\<not> up" "fo_get_job (fe_fs fe) i (write_jobs s) = Some k" for k q
  proof (rule backed_update [OF assms(2)], rule job_backed_same [OF lawful_keeps(1) [OF assms(1)]])
    note g = lawful_get_job [OF assms(1) that(2)]
    have "job_backed ov es (write_jobs s ! k)"
      using assms(2) g(1) by (simp add: backed_def)
    then show "job_backed ov es (if remember then fo_set_overwrite (fe_fs fe) (Some need) (write_jobs s ! k) else write_jobs s ! k)"
      using assms(4) that(1) g(2) consented_def [of es i] by (auto simp: job_backed_def lawful_set_overwrite [OF assms(1)])
  qed
  then show "backed ov es (write_jobs s')" "\<forall>src d. DiskWrite src d \<notin> set as"
    using assms(2,3) by (auto simp: set_confirm_override_def Let_def split: if_splits option.splits)
qed

lemma cmd_backed:
  assumes "lawful_fs ov (fe_fs fe)" "backed ov es (write_jobs s)" "UiCmd fe c \<in> set es"
    and "handle_file_cmd fe c s = (s', as)"
  shows "backed ov es (write_jobs s') \<and> (\<forall>src d. DiskWrite src d \<notin> set as)"
proof (cases c)
  case (SendFiles i ty path dest n h r)
  with assms send_files_backed [OF assms(1,2)] show ?thesis by (auto simp: handle_file_cmd_def)
next
  case (AddJob i ty path dest n h r)
  with assms add_job_backed [OF assms(1,2)] show ?thesis by (auto simp: handle_file_cmd_def)
next
  case (ResumeJob i r)
  with assms resume_job_backed [OF assms(1,2)] show ?thesis by (auto simp: handle_file_cmd_def)
next
  case (SetConfirmOverrideFile i n need remember up)
  with assms set_confirm_override_backed [OF assms(1,2)] show ?thesis by (auto simp: handle_file_cmd_def)
next
  case (CancelJob i)
  with assms cancel_backed [OF assms(1,2)] show ?thesis by (auto simp: handle_file_cmd_def)
next
  case (RemoveDirAll i path r h)
  with assms(2,4) show ?thesis
    by (auto simp: handle_file_cmd_def remove_dir_all_def Let_def split: if_splits sum.splits dest: handle_job_status_jobs)
qed (use assms(2,4) in \<open>auto simp: handle_file_cmd_def after_disk_def split: if_splits prod.splits option.splits
      dest!: handle_job_status_jobs\<close>)


text \<open>The responses: the peer can fill a job that is there, and only what is there.\<close>

definition writes_into :: "'x transfer_job list \<Rightarrow> file_act list \<Rightarrow> bool" where
  "writes_into js as \<longleftrightarrow> (\<forall>src d. DiskWrite src d \<in> set as \<longrightarrow> (\<exists>j \<in> set js. src = tj_source j))"

lemma writes_into_none: "\<forall>src d. DiskWrite src d \<notin> set as \<Longrightarrow> writes_into js as"
  by (simp add: writes_into_def)

lemma on_dir_backed:
  assumes "lawful_fs ov (fe_fs fe)" "backed ov es (write_jobs s)" "on_dir fe i path entries s = (s', as)"
  shows "backed ov es (write_jobs s') \<and> writes_into (write_jobs s) as"
proof (cases "fo_get_job (fe_fs fe) i (write_jobs s)")
  case None
  with assms(2,3) show ?thesis
    by (auto simp: on_dir_def writes_into_def split: option.splits)
next
  case (Some k)
  note g = lawful_get_job [OF assms(1) Some]
  show ?thesis
  proof (cases "fo_set_files (fe_fs fe) entries (write_jobs s ! k)")
    case (Inl err)
    obtain s1 bs where c: "cancel_transfer_job fe i s = (s1, bs)"
      by fastforce
    obtain s2 cs where h: "handle_job_status fe i (- 1) (Some err) s1 = (s2, cs)"
      by fastforce
    from assms(3) Some Inl c h have "s' = s2" "as = bs @ cs"
      by (simp_all add: on_dir_def)
    with cancel_backed [OF assms(1,2) c] handle_job_status_jobs [OF h] show ?thesis
      by (auto simp: writes_into_def)
  next
    case (Inr j)
    have "same_job ov (fo_resume_size (fe_fs fe) j) (write_jobs s ! k)"
      by (rule same_job_trans [OF lawful_keeps(4) [OF assms(1)] lawful_keeps(3) [OF assms(1) Inr]])
    from backed_update_same [OF assms(2) g(1) this] assms(3) Some Inr show ?thesis
      by (auto simp: on_dir_def Let_def writes_into_def)
  qed
qed

lemma download_digest_backed:
  assumes "lawful_fs ov (fe_fs fe)" "backed ov es (write_jobs s)" "on_download_digest fe d s = (s', as)"
  shows "backed ov es (write_jobs s') \<and> (\<forall>src x. DiskWrite src x \<notin> set as)"
proof (cases "fo_get_job (fe_fs fe) (dg_id d) (write_jobs s)")
  case None
  with assms(2,3) show ?thesis by (simp add: on_download_digest_def)
next
  case (Some k)
  note g = lawful_get_job [OF assms(1) Some]
  note sd = lawful_keeps(2) [OF assms(1), of "dg_file_size d" "dg_last_modified d" "write_jobs s ! k"]
  have "backed ov es ((write_jobs s)[k := fo_set_digest (fe_fs fe) (dg_file_size d) (dg_last_modified d) (write_jobs s ! k)])"
    "backed ov es ((write_jobs s)[k := fo_confirm (fe_fs fe) q (fo_set_digest (fe_fs fe) (dg_file_size d) (dg_last_modified d) (write_jobs s ! k))])" for q
    by (rule backed_update_same [OF assms(2) g(1) sd],
        rule backed_update_same [OF assms(2) g(1) same_job_trans [OF lawful_keeps(1) [OF assms(1)] sd]])
  then show ?thesis
    using assms(2,3) Some
    by (auto simp: on_download_digest_def Let_def split: if_splits data_source.splits sum.splits digest_check.splits
        prod.splits option.splits)
qed

lemma on_block_backed:
  assumes "lawful_fs ov (fe_fs fe)" "backed ov es (write_jobs s)" "on_block fe i data s = (s', as)"
  shows "backed ov es (write_jobs s') \<and> writes_into (write_jobs s) as"
proof (cases "fo_get_job (fe_fs fe) i (write_jobs s)")
  case None
  with assms(2,3) show ?thesis by (simp add: on_block_def writes_into_def)
next
  case (Some k)
  note g = lawful_get_job [OF assms(1) Some]
  have "backed ov es ((write_jobs s)[k := fo_write (fe_fs fe) data (write_jobs s ! k)])"
    by (rule backed_update_same [OF assms(2) g(1) lawful_keeps(5) [OF assms(1)]])
  moreover have "write_jobs s ! k \<in> set (write_jobs s)"
    using g(1) by simp
  ultimately show ?thesis
    using assms(3) Some
    by (auto simp: on_block_def Let_def writes_into_def split: if_splits prod.splits dest!: update_jobs_status_jobs)
qed

lemma on_done_backed:
  assumes "lawful_fs ov (fe_fs fe)" "backed ov es (write_jobs s)" "on_done fe i n s = (s', as)"
  shows "backed ov es (write_jobs s') \<and> (\<forall>src d. DiskWrite src d \<notin> set as)"
proof -
  obtain r ws where w: "fo_remove_job (fe_fs fe) i (write_jobs s) = (r, ws)"
    by fastforce
  from backed_subset [OF assms(2) lawful_remove_job_subset [OF assms(1) w]] have "backed ov es ws" .
  with assms(3) w show ?thesis
    by (auto simp: on_done_def Let_def split: option.splits job_type.splits dest: handle_job_status_jobs)
qed

lemma on_error_backed:
  assumes "lawful_fs ov (fe_fs fe)" "backed ov es (write_jobs s)" "on_error fe i err n s = (s', as)"
  shows "backed ov es (write_jobs s') \<and> (\<forall>src d. DiskWrite src d \<notin> set as)"
proof -
  obtain r ws where w: "fo_remove_job (fe_fs fe) i (write_jobs s) = (r, ws)"
    by fastforce
  from backed_subset [OF assms(2) lawful_remove_job_subset [OF assms(1) w]] have "backed ov es ws" .
  with assms(3) w show ?thesis
    by (auto simp: on_error_def Let_def split: option.splits job_type.splits prod.splits dest: handle_job_status_jobs)
qed

lemma resp_backed:
  assumes "lawful_fs ov (fe_fs fe)" "backed ov es (write_jobs s)" "handle_file_response fe r s = (s', as)"
  shows "backed ov es (write_jobs s') \<and> writes_into (write_jobs s) as"
proof (cases r)
  case (RespDir i path entries)
  with assms(3) on_dir_backed [OF assms(1,2)] show ?thesis by (auto simp: handle_file_response_def)
next
  case (RespDigest d)
  show ?thesis
  proof (cases "dg_is_upload d")
    case True
    with assms(2,3) RespDigest show ?thesis
      by (auto simp: handle_file_response_def on_upload_digest_def Let_def writes_into_def
          split: option.splits if_splits data_source.splits prod.splits)
  next
    case False
    with assms(3) RespDigest have "on_download_digest fe d s = (s', as)"
      by (simp add: handle_file_response_def)
    from download_digest_backed [OF assms(1,2) this] show ?thesis
      by (simp add: writes_into_def)
  qed
next
  case (RespBlock i data)
  with assms(3) on_block_backed [OF assms(1,2)] show ?thesis by (auto simp: handle_file_response_def)
next
  case (RespDone i n)
  with assms(3) on_done_backed [OF assms(1,2)] show ?thesis by (auto simp: handle_file_response_def intro: writes_into_none)
next
  case (RespError i err n)
  with assms(3) on_error_backed [OF assms(1,2)] show ?thesis by (auto simp: handle_file_response_def intro: writes_into_none)
qed (use assms(2,3) in \<open>auto simp: handle_file_response_def writes_into_def\<close>)

lemma step_backed:
  assumes "lawful_fs ov (fe_fs (event_env e))" "backed ov es (write_jobs s)" "file_step e s = (s', as)"
  shows "backed ov (es @ [e]) (write_jobs s') \<and> writes_into (write_jobs s) as"
proof (cases e)
  case (UiCmd fe c)
  with assms cmd_backed [of ov fe "es @ [e]" s c s' as] backed_mono [OF assms(2)] show ?thesis
    by (auto intro: writes_into_none)
next
  case (PeerResp fe r)
  with assms resp_backed [of ov fe es s r s' as] show ?thesis
    by (auto intro: backed_mono)
next
  case (PeerConfirm fe q)
  with assms(2,3) show ?thesis
    by (auto simp: on_send_confirm_def writes_into_def split: option.splits intro: backed_mono)
next
  case (Tick fe)
  with assms(2,3) show ?thesis
    by (auto simp: tick_read_jobs_def writes_into_def split: if_splits sum.splits dest!: update_jobs_status_jobs intro: backed_mono)
qed

lemma run_backed:
  assumes "\<forall>e \<in> set es. lawful_fs ov (fe_fs (event_env e))" "file_run es (new_client_files t) = (s, as)"
  shows "backed ov es (write_jobs s) \<and> (\<forall>src d. DiskWrite src d \<in> set as \<longrightarrow> (\<exists>i. asked_for es i src))"
  using assms
proof (induction es arbitrary: s as rule: rev_induct)
  case Nil
  then show ?case by (auto simp: new_client_files_def backed_def)
next
  case (snoc e es)
  obtain s1 as1 where r: "file_run es (new_client_files t) = (s1, as1)"
    by fastforce
  obtain bs where st: "file_step e s1 = (s, bs)" "as = as1 @ bs"
    using snoc.prems(2) r by (auto simp: file_run_snoc split: prod.splits)
  from snoc.IH [OF _ r] snoc.prems(1) have b: "backed ov es (write_jobs s1)"
    "\<forall>src d. DiskWrite src d \<in> set as1 \<longrightarrow> (\<exists>i. asked_for es i src)"
    by simp_all
  from step_backed [OF _ b(1) st(1)] snoc.prems(1)
  have n: "backed ov (es @ [e]) (write_jobs s)" "writes_into (write_jobs s1) bs"
    by simp_all
  have m: "asked_for es i src \<Longrightarrow> asked_for (es @ [e]) i src" for i src
    by (auto simp: asked_for_def)
  have "\<exists>i. asked_for es i src" if "DiskWrite src d \<in> set bs" for src d
    using n(2) b(1) that by (fastforce simp: writes_into_def backed_def job_backed_def)
  with b(2) have "\<exists>i. asked_for es i src" if "DiskWrite src d \<in> set as" for src d
    using that st(2) by auto
  with n(1) m show ?case
    by blast
qed


text \<open>
  C6. In every history of a session, data of the peer are written only into a place the user
  asked a download for: each write goes to the destination of a command that opened a
  download. The peer cannot open one itself.
\<close>

theorem writes_only_where_asked:
  assumes "\<forall>e \<in> set es. lawful_fs ov (fe_fs (event_env e))"
    and "file_run es (new_client_files t) = (s, as)" "DiskWrite src d \<in> set as"
  shows "\<exists>fe c i. UiCmd fe c \<in> set es \<and> starts_download c i src"
  using run_backed [OF assms(1,2)] assms(3) unfolding asked_for_def by blast


text \<open>
  Blocks need no answer: data for a download are handed to its job at once, whether the host
  has sent a digest or not, and also when the technician's answer was not to overwrite.
\<close>

lemma block_needs_no_answer:
  assumes "set_confirm_override fe i n False True False s = (s1, as)"
    and "fo_get_job (fe_fs fe) i (write_jobs s1) = Some k"
  shows "DiskWrite (tj_source (write_jobs s1 ! k)) data \<in> set (snd (handle_file_response fe (RespBlock i data) s1))"
  using assms by (auto simp: handle_file_response_def on_block_def Let_def split: prod.splits)

text \<open>A cancelled job is forgotten, and what still arrives for it is not written.\<close>

lemma cancelled_download_silent:
  assumes "lawful_fs ov (fe_fs fe)" "distinct (map tj_id (write_jobs s))" "cancel_transfer_job fe i s = (s1, as)"
    and "lawful_fs ov (fe_fs fe')" "handle_file_response fe' (RespBlock i data) s1 = (s2, bs)"
  shows "s2 = s1 \<and> bs = []"
proof -
  obtain r ws where w: "fo_remove_job (fe_fs fe) i (write_jobs s) = (r, ws)"
    by fastforce
  from assms(1) w have "\<forall>j \<in> set ws. tj_id j \<noteq> i"
    by (cases rule: lawful_remove_cases) (use distinct_remove_nth [OF assms(2)] in auto)
  moreover have "write_jobs s1 = ws"
    using assms(3) w by (auto simp: cancel_transfer_job_def split: prod.splits)
  ultimately have "fo_get_job (fe_fs fe') i (write_jobs s1) = None"
    using lawful_get_missing [OF assms(4)] by simp
  with assms(5) show ?thesis
    by (simp add: handle_file_response_def on_block_def)
qed

text \<open>
  C32. The peer can turn a deletion on the technician's own disk to files of its choice: a
  listing that carries the id of a deletion under way replaces the list of files, also when
  the folder is the technician's, and a message that a file is done sets the deletion going
  at the first of them. Nothing checks the names.
\<close>

theorem peer_redirects_local_deletion:
  assumes "lawful_fs ov (fe_fs fe)" "\<forall>j \<in> set (write_jobs s). tj_id j \<noteq> i"
    and "remove_jobs s i = Some j" "rj_no_confirm j" "\<not> rj_is_remote j"
  shows "\<exists>s' as. file_run [PeerResp fe (RespDir i x [name]), PeerResp fe (RespDone i (- 1)),
           UiCmd fe (RemoveFile i (rj_path j @ rj_sep j @ name) 0 False)] s = (s', as)
    \<and> ToSelf (RemoveFile i (rj_path j @ rj_sep j @ name) 0 False) \<in> set as
    \<and> disk_removed as = [rj_path j @ rj_sep j @ name]"
proof -
  have "fo_get_job (fe_fs fe) i (write_jobs s) = None" "fo_remove_job (fe_fs fe) i (write_jobs s) = (None, write_jobs s)"
    by (rule lawful_get_missing [OF assms(1,2)], rule lawful_remove_missing [OF assms(1,2)])
  moreover have "as_usize (wrap_i32 0) = 0" "as_usize (wrap_i32 1) = 1" "wrap_i32 0 = 0"
    by (simp_all add: wrap_i32_def as_usize_def)
  ultimately show ?thesis
    using assms(3-5)
    by (auto simp: file_run_def handle_file_response_def on_dir_def on_done_def handle_job_status_def job_file_path_def
        handle_file_cmd_def after_disk_def Let_def split: prod.splits)
qed



section \<open>Runs\<close>

text \<open>A file system in which the removal of one file fails and every comparison asks; jobs keep the answer in their rest.\<close>

definition first_with_id :: "int \<Rightarrow> 'x transfer_job list \<Rightarrow> nat option" where
  "first_with_id i js = find (\<lambda>k. tj_id (js ! k) = i) [0..<length js]"

definition sample_job :: "int \<Rightarrow> job_type \<Rightarrow> string \<Rightarrow> data_source \<Rightarrow> bool option transfer_job" where
  "sample_job i ty r src = \<lparr>tj_id = i, tj_type = ty, tj_remote = r, tj_source = src, tj_file_num = 0, tj_show_hidden = False,
     tj_files = [], tj_is_last_job = False, tj_is_resume = False, tj_rest = None\<rparr>"

definition sample_fs :: "bool option fs_ops" where
  "sample_fs = \<lparr>fo_get_job = first_with_id,
     fo_remove_job = (\<lambda>i js. case first_with_id i js of None \<Rightarrow> (None, js) | Some k \<Rightarrow> (Some (js ! k), take k js @ drop (Suc k) js)),
     fo_new_write = (\<lambda>i ty r src n h m od. sample_job i ty r src),
     fo_new_read = (\<lambda>i ty r src n h m od. Inr (sample_job i ty r src)),
     fo_confirm = (\<lambda>q j. j), fo_set_overwrite = (\<lambda>b j. j\<lparr>tj_rest := b\<rparr>), fo_overwrite = tj_rest,
     fo_set_digest = (\<lambda>m n j. j), fo_set_files = (\<lambda>fs j. Inr (j\<lparr>tj_files := fs\<rparr>)), fo_resume_size = (\<lambda>j. j),
     fo_write = (\<lambda>d j. j), fo_transferred = (\<lambda>j. 0), fo_finished_size = (\<lambda>j. 0), fo_total_size = (\<lambda>j. 0),
     fo_job_error = (\<lambda>j. None), fo_buf_data = (\<lambda>j. None), fo_need_confirm = (\<lambda>b p d. Inr (NeedConfirm d)),
     fo_read_jobs = Inr, fo_join = (\<lambda>p n. p @ n), fo_to_slashes = (\<lambda>fs. fs), fo_overwrite_detection = (\<lambda>v. True),
     fo_supports_resume = (\<lambda>v. True), fo_recursive_files = (\<lambda>p h. Inr [''a'', ''b'']),
     fo_remove_file = (\<lambda>p. if last p = CHR ''a'' then Some ''in use'' else None), fo_create_dir = (\<lambda>p. None),
     fo_rename_file = (\<lambda>p n. None), fo_copy_path = (\<lambda>s d m. None)\<rparr>"

definition sample_env :: "bool option files_env" where
  "sample_env = \<lparr>fe_fs = sample_fs, fe_now = 5, fe_version = 0, fe_peer_platform = ''Windows''\<rparr>"

lemma first_with_id_cases:
  "case first_with_id i js of None \<Rightarrow> (\<forall>j \<in> set js. tj_id j \<noteq> i) | Some k \<Rightarrow> k < length js \<and> tj_id (js ! k) = i"
  by (auto simp: first_with_id_def find_None_iff find_Some_iff in_set_conv_nth split: option.splits)

lemma sample_lawful: "lawful_fs tj_rest sample_fs"
proof -
  have "lawful_lookup sample_fs"
    unfolding lawful_lookup_def
  proof (intro conjI allI)
    fix i and js :: "bool option transfer_job list"
    show "case fo_get_job sample_fs i js of None \<Rightarrow> (\<forall>j \<in> set js. tj_id j \<noteq> i) | Some k \<Rightarrow> k < length js \<and> tj_id (js ! k) = i"
      using first_with_id_cases [where i = i and js = js] by (simp add: sample_fs_def)
    show "case fo_remove_job sample_fs i js of
        (None, js') \<Rightarrow> js' = js \<and> (\<forall>j \<in> set js. tj_id j \<noteq> i)
      | (Some j, js') \<Rightarrow> \<exists>k < length js. js ! k = j \<and> tj_id j = i \<and> js' = take k js @ drop (Suc k) js"
      using first_with_id_cases [where i = i and js = js] by (auto simp: sample_fs_def split: option.splits)
  qed
  then show ?thesis
    by (simp add: lawful_fs_def sample_fs_def sample_job_def same_job_def)
qed

definition sample_files :: "bool option client_files" where
  "sample_files = (new_client_files 0)\<lparr>remove_jobs := [7 \<mapsto> (new_remove_job 0 [''a'', ''b''] ''C:'' [CHR 0x5C] False)\<lparr>rj_no_confirm := True\<rparr>]\<rparr>"

theorem folder_deletion_ends_witness:
  "\<exists>s' as. drain_queue (\<lambda>t. sample_env) 0 [RemoveFile 7 (''C:'' @ [CHR 0x5C] @ ''a'') 0 False] sample_files = Some (s', as)
    \<and> disk_removed as = [''C:'' @ [CHR 0x5C] @ ''a'', ''C:'' @ [CHR 0x5C] @ ''b''] \<and> remove_jobs s' = Map.empty"
  using folder_deletion_ends [of sample_files 7 _ "\<lambda>t. sample_env" 0]
  by (force simp: sample_files_def new_client_files_def new_remove_job_def job_file_path_def)

theorem writes_only_where_asked_witness:
  "\<exists>fe c i. UiCmd fe c \<in> set [UiCmd sample_env (SendFiles 1 Generic ''/x'' ''C:'' 0 False True), PeerResp sample_env (RespBlock 1 ''d'')]
     \<and> starts_download c i (FilePath ''C:'')"
proof (rule writes_only_where_asked)
  let ?es = "[UiCmd sample_env (SendFiles 1 Generic ''/x'' ''C:'' 0 False True), PeerResp sample_env (RespBlock 1 ''d'')]"
  show "\<forall>e \<in> set ?es. lawful_fs tj_rest (fe_fs (event_env e))"
    using sample_lawful by (simp add: sample_env_def)
  show "file_run ?es (new_client_files 0)
    = ((new_client_files 0)\<lparr>write_jobs := [sample_job 1 Generic ''/x'' (FilePath ''C:'')]\<rparr>,
       [ToPeer (MsgSend 1 Generic ''/x'' 0 False), DiskWrite (FilePath ''C:'') ''d''])"
    by (simp add: file_run_def handle_file_cmd_def send_files_def handle_file_response_def on_block_def sample_env_def sample_fs_def
        sample_job_def first_with_id_def update_jobs_status_def elapsed_i32_def wrap_i32_def new_client_files_def)
qed simp



theorem peer_redirects_local_deletion_witness:
  "\<exists>s' as. file_run [PeerResp sample_env (RespDir 7 [] [''..'']), PeerResp sample_env (RespDone 7 (- 1)),
      UiCmd sample_env (RemoveFile 7 (''C:'' @ [CHR 0x5C] @ ''..'') 0 False)] sample_files = (s', as)
    \<and> disk_removed as = [''C:'' @ [CHR 0x5C] @ ''..'']"
  using peer_redirects_local_deletion [of tj_rest sample_env sample_files 7 _ "[]" "''..''"] sample_lawful
  by (force simp: sample_env_def sample_files_def new_client_files_def new_remove_job_def)

end
