(* ===== verification/Client_Media.thy ===== *)
theory Client_Media
  imports Prelude Client_Files "HOL-Library.Signed_Division"
begin

text \<open>
  Video and audio at the technician's end: the queue of frames between the session and the
  decoder threads, the measurement of the decoding speed, the control of the frame rate and
  the recording (\<open>src/src/client/io_loop.rs\<close>), the decoder threads, the video handler and the
  audio buffer (\<open>src/src/client.rs\<close>).

  Frames are a type parameter. What decoders answer, the lengths of times and the samples of
  a buffer are observations or plain numbers.

  The lemmas show that the two ways a frame can take implement one queue while nothing is
  evicted, what an eviction breaks, bounds of the measured and of the requested frame rate,
  and how much sound is dropped.
\<close>

section \<open>Decoding speed\<close>

record fps_meter =
  skip_beginning :: nat
  fm_count :: nat
  fm_nanos :: nat
  fm_fps :: "nat option"                 \<comment> \<open>\<open>decode_fps\<close> of the display\<close>

definition fps_meter_new :: fps_meter where
  "fps_meter_new = \<lparr>skip_beginning = 0, fm_count = 0, fm_nanos = 0, fm_fps = None\<rparr>"

definition fps_calculate :: "bool \<Rightarrow> nat \<Rightarrow> fps_meter \<Rightarrow> fps_meter" where
  "fps_calculate format_changed elapsed m0 =
     (let m = (if format_changed then m0\<lparr>fm_count := 0, fm_nanos := 0, skip_beginning := 0\<rparr> else m0) in
      if skip_beginning m < 3 then m\<lparr>skip_beginning := skip_beginning m + 1\<rparr>
      else
        let nanos = fm_nanos m + elapsed; count = fm_count m + 1; ms = nanos div 1000000;
            m1 = m\<lparr>fm_nanos := nanos, fm_count := count,
                   fm_fps := (if count mod 10 = 0 \<and> ms > 0 then Some (count * 1000 div ms) else fm_fps m)\<rparr>
        in if count \<ge> 30 then m1\<lparr>fm_count := 0, fm_nanos := 0\<rparr> else m1)"


section \<open>The queue of frames\<close>

datatype 'f media = VideoQueue | VideoFrame 'f | MediaReset | RecordScreen bool

definition VIDEO_QUEUE_SIZE :: nat where "VIDEO_QUEUE_SIZE = 120"

record 'f video_thread =
  vt_queue :: "'f list"
  vt_chan :: "'f media list"
  vt_decode_fps :: "nat option"
  vt_frame_count :: nat
  vt_discard :: bool
  vt_refresh_times :: nat
  vt_last_refresh :: "nat option"
  vt_idle :: nat
  vt_inactive :: nat

definition video_thread_new :: "'f video_thread" where
  "video_thread_new = \<lparr>vt_queue = [], vt_chan = [], vt_decode_fps = None, vt_frame_count = 0, vt_discard = False,
     vt_refresh_times = 0, vt_last_refresh = None, vt_idle = 0, vt_inactive = 0\<rparr>"

definition send_media :: "'f media \<Rightarrow> 'f video_thread \<Rightarrow> 'f video_thread" where
  "send_media m v = v\<lparr>vt_chan := vt_chan v @ [m]\<rparr>"

text \<open>
  A key frame goes through the channel. Another frame goes into the queue with a token in the
  channel; when the queue is full its oldest frame is lost, there is no new token, and the
  result asks for a refresh.
\<close>

definition push_frame :: "bool \<Rightarrow> 'f \<Rightarrow> 'f video_thread \<Rightarrow> 'f video_thread \<times> bool" where
  "push_frame has_key f v =
     (if has_key then (send_media (VideoFrame f) v, False)
      else if length (vt_queue v) = VIDEO_QUEUE_SIZE then (v\<lparr>vt_queue := tl (vt_queue v) @ [f]\<rparr>, True)
      else (send_media VideoQueue (v\<lparr>vt_queue := vt_queue v @ [f]\<rparr>), False))"

text \<open>What the decoder thread takes from the channel: a frame to decode, another order, or nothing to do.\<close>

datatype 'f taken = Frame 'f | Dropped 'f | Order "'f media" | Nothing

definition take_media :: "'f video_thread \<Rightarrow> 'f taken \<times> 'f video_thread" where
  "take_media v =
     (case vt_chan v of
        [] \<Rightarrow> (Nothing, v)
      | VideoFrame f # c \<Rightarrow> (Frame f, v\<lparr>vt_chan := c, vt_discard := False\<rparr>)
      | VideoQueue # c \<Rightarrow>
          (case vt_queue v of
             [] \<Rightarrow> (Nothing, v\<lparr>vt_chan := c\<rparr>)
           | f # q \<Rightarrow> (if vt_discard v then Dropped f else Frame f, v\<lparr>vt_chan := c, vt_queue := q\<rparr>))
      | m # c \<Rightarrow> (Order m, v\<lparr>vt_chan := c\<rparr>))"

definition refresh_discards :: "'f video_thread \<Rightarrow> 'f video_thread" where
  "refresh_discards v = v\<lparr>vt_discard := True\<rparr>"


section \<open>Control of the frame rate\<close>

type_synonym 'f threads = "(nat \<times> 'f video_thread) list"

record fps_lc =
  lc_custom_fps :: "nat option"
  lc_last_auto_fps :: "nat option"

datatype fps_act = SetFps nat | RefreshVideo nat

definition INACTIVE_THRESHOLD :: nat where "INACTIVE_THRESHOLD = 15"

text \<open>The frames shown per second, from the count since the last report; \<open>None\<close> is a division by zero.\<close>

definition real_fps :: "nat \<Rightarrow> nat \<Rightarrow> int option" where
  "real_fps elapsed count =
     (let e = wrap_i32 (int elapsed)
      in if e = 0 then None else Some (wrap_i32 (wrap_i32 (int count) * 1000) sdiv e))"

definition count_inactive :: "(nat \<Rightarrow> int) \<Rightarrow> 'f threads \<Rightarrow> 'f threads" where
  "count_inactive fps ts = map (\<lambda>(k, v). (k, v\<lparr>vt_inactive := (if fps k = 0 then vt_inactive v + 1 else 0)\<rparr>)) ts"

definition effective_custom_fps :: "nat option \<Rightarrow> nat" where
  "effective_custom_fps o' = (case o' of None \<Rightarrow> 30 | Some f \<Rightarrow> if f < 5 \<or> f > 120 then 30 else f)"

text \<open>\<open>min\<close> of a list of \<open>Option\<close>, where \<open>None\<close> is the least, flattened.\<close>

fun min_option :: "nat option list \<Rightarrow> nat option option" where
  "min_option [] = None"
| "min_option (x # xs) =
     (case min_option xs of
        None \<Rightarrow> Some x
      | Some y \<Rightarrow> Some (case (x, y) of (Some a, Some b) \<Rightarrow> Some (min a b) | _ \<Rightarrow> None))"

definition min_decode_fps :: "'f threads \<Rightarrow> nat option" where
  "min_decode_fps ts =
     Option.bind (min_option (map (\<lambda>(k, v). vt_decode_fps v) (filter (\<lambda>(k, v). vt_inactive v < INACTIVE_THRESHOLD) ts))) (\<lambda>x. x)"

definition limit_fps :: "bool \<Rightarrow> nat \<Rightarrow> nat \<Rightarrow> nat" where
  "limit_fps direct custom decode =
     (let l = (if direct then decode * 9 div 10 else decode * 4 div 5) in if l > custom then custom else l)"

text \<open>\<open>fps_trending\<close> of one display: slower, faster or neither.\<close>

definition fps_trending :: "nat \<Rightarrow> nat \<Rightarrow> nat option \<Rightarrow> 'f video_thread \<Rightarrow> 'f video_thread \<times> bool option" where
  "fps_trending limited custom last_auto v =
     (case vt_decode_fps v of
        None \<Rightarrow> (v, None)
      | Some decode \<Rightarrow>
          let len = length (vt_queue v);
              auto = (case last_auto of Some a \<Rightarrow> a | None \<Rightarrow> custom)
          in if vt_inactive v > INACTIVE_THRESHOLD then (v, None)
             else if len > 1 \<and> auto > limited \<or> len > max 1 (decode div 2) then (v\<lparr>vt_idle := 0\<rparr>, Some False)
             else if len \<le> 1 then
               let v1 = v\<lparr>vt_idle := vt_idle v + 1\<rparr>
               in (v1, if vt_idle v1 > 3 \<and> auto + 3 \<le> limited then Some True else None)
             else (v\<lparr>vt_idle := 0\<rparr>, None))"

definition send_refresh :: "nat \<Rightarrow> nat \<Rightarrow> nat \<times> 'f video_thread \<Rightarrow> (nat \<times> 'f video_thread) \<times> fps_act list" where
  "send_refresh now decode = (\<lambda>(k, v).
     if vt_refresh_times v < 20
        \<and> length (vt_queue v) > min decode (VIDEO_QUEUE_SIZE div 2)
        \<and> (vt_refresh_times v = 0 \<or> (case vt_last_refresh v of Some t \<Rightarrow> (now - t) div 1000 > 10 | None \<Rightarrow> False))
     then ((k, v\<lparr>vt_refresh_times := vt_refresh_times v + 1, vt_last_refresh := Some now\<rparr>), [RefreshVideo k])
     else ((k, v), []))"

definition choose_auto_fps :: "nat \<Rightarrow> nat \<Rightarrow> nat option \<Rightarrow> bool option list \<Rightarrow> nat option" where
  "choose_auto_fps limited max_queue last_auto trends =
     (let decrease = (Some False \<in> set trends);
          increase = (\<not> decrease \<and> Some True \<in> set trends)
      in if last_auto = None \<or> decrease \<or> increase then
           let auto = (if decrease \<and> limited < max_queue then limited div 2 else limited);
               auto = (if auto < 1 then 1 else auto)
           in if Some auto \<noteq> last_auto then Some auto else None
         else None)"

definition fps_control ::
  "nat \<Rightarrow> bool \<Rightarrow> (nat \<Rightarrow> int) \<Rightarrow> fps_lc \<Rightarrow> 'f threads \<Rightarrow> fps_lc \<times> 'f threads \<times> fps_act list" where
  "fps_control now direct fps lc ts0 =
     (let ts = count_inactive fps ts0;
          custom = effective_custom_fps (lc_custom_fps lc);
          max_queue = fold max (map (\<lambda>(k, v). length (vt_queue v)) ts) 0
      in case min_decode_fps ts of
           None \<Rightarrow> (lc, ts, [])
         | Some decode \<Rightarrow>
             let limited = limit_fps direct custom decode;
                 trended = map (\<lambda>(k, v). (k, fps_trending limited custom (lc_last_auto_fps lc) v)) ts;
                 ts1 = map (\<lambda>(k, v, t). (k, v)) trended;
                 choice = choose_auto_fps limited max_queue (lc_last_auto_fps lc) (map (\<lambda>(k, v, t). t) trended);
                 lc1 = (case choice of Some a \<Rightarrow> lc\<lparr>lc_last_auto_fps := Some a\<rparr> | None \<Rightarrow> lc);
                 refreshed = map (send_refresh now decode) ts1
             in (lc1, map fst refreshed, (case choice of Some a \<Rightarrow> [SetFps a] | None \<Rightarrow> []) @ concat (map snd refreshed)))"

text \<open>The tick of the status timer: the rates are read, the counts set back, the rate controlled.\<close>

definition status_tick ::
  "nat \<Rightarrow> nat \<Rightarrow> bool \<Rightarrow> fps_lc \<Rightarrow> 'f threads \<Rightarrow> (fps_lc \<times> 'f threads \<times> fps_act list) option" where
  "status_tick now elapsed direct lc ts =
     (if elapsed < 1000 then Some (lc, ts, [])
      else if ts \<noteq> [] \<and> real_fps elapsed 0 = None then None
      else
        let fps = (\<lambda>k. case map_of ts k of Some v \<Rightarrow> the (real_fps elapsed (vt_frame_count v)) | None \<Rightarrow> 0);
            ts1 = map (\<lambda>(k, v). (k, v\<lparr>vt_frame_count := 0\<rparr>)) ts
        in Some (fps_control now direct fps lc ts1))"


section \<open>The decoder threads\<close>

definition MAX_DECODE_FAIL_COUNTER :: nat where "MAX_DECODE_FAIL_COUNTER = 3"

record 'c video_handler =
  vh_format :: 'c
  vh_fail :: nat
  vh_first_frame :: bool
  vh_record :: bool

definition video_handler_new :: "'c \<Rightarrow> 'c video_handler" where
  "video_handler_new fmt = \<lparr>vh_format = fmt, vh_fail = 0, vh_first_frame = True, vh_record = False\<rparr>"

definition reset_handler :: "'c option \<Rightarrow> 'c video_handler \<Rightarrow> 'c video_handler" where
  "reset_handler fmt h =
     h\<lparr>vh_format := (case fmt of Some f \<Rightarrow> f | None \<Rightarrow> vh_format h), vh_fail := 0, vh_first_frame := True\<rparr>"

definition record_screen :: "bool \<Rightarrow> 'c video_handler \<Rightarrow> 'c video_handler" where
  "record_screen start h = h\<lparr>vh_record := start\<rparr>"

text \<open>
  One frame: its format, whether it carries data, and the decoder's answer (an error, or
  whether a picture came out). The second result tells whether the frame was recorded.
\<close>

record 'c frame_obs =
  ob_format :: 'c
  ob_union :: bool
  ob_decoded :: "string + bool"
  ob_valid :: bool                       \<comment> \<open>the decoder is valid afterwards\<close>

definition handle_frame :: "'c frame_obs \<Rightarrow> 'c video_handler \<Rightarrow> 'c video_handler \<times> (string + bool) \<times> bool" where
  "handle_frame ob h0 =
     (let h = (if ob_format ob \<noteq> vh_format h0 then reset_handler (Some (ob_format ob)) h0 else h0) in
      if \<not> ob_union ob then (h, Inr False, False)
      else
        let fails = (if ob_decoded ob = Inr True then 0
                     else if vh_fail h < u64_max then
                       (if vh_first_frame h \<and> vh_fail h < MAX_DECODE_FAIL_COUNTER then MAX_DECODE_FAIL_COUNTER else vh_fail h + 1)
                     else vh_fail h)
        in (h\<lparr>vh_fail := fails, vh_first_frame := False\<rparr>, ob_decoded ob, vh_record h))"

record 'c decoder_state =
  ds_handler :: "'c video_handler option"
  ds_meter :: fps_meter
  ds_unsupported :: "'c list"            \<comment> \<open>\<open>mark_unsupported\<close>, shared by the displays\<close>

datatype decoder_act = Shown | Recorded | AskRefresh | UpdateSupportedDecodings

text \<open>The body of the loop for a frame; \<open>rec\<close> is \<open>record_state && record_permission\<close> as read when a handler is made.\<close>

definition decode_frame :: "bool \<Rightarrow> nat \<Rightarrow> 'c frame_obs \<Rightarrow> 'c decoder_state \<Rightarrow> 'c decoder_state \<times> decoder_act list" where
  "decode_frame rec elapsed ob d =
     (let h0 = (case ds_handler d of
                  Some h \<Rightarrow> h
                | None \<Rightarrow> let h = video_handler_new (ob_format ob) in if rec then record_screen True h else h);
          changed = (vh_format h0 \<noteq> ob_format ob);
          (h, res, recorded) = handle_frame ob h0;
          meter = (if res = Inr True then fps_calculate changed elapsed (ds_meter d) else ds_meter d);
          bad = (\<not> ob_valid ob \<or> vh_fail h \<ge> MAX_DECODE_FAIL_COUNTER);
          mark = (bad \<and> vh_format h \<notin> set (ds_unsupported d))
      in (d\<lparr>ds_handler := Some h, ds_meter := meter,
            ds_unsupported := (if mark then ds_unsupported d @ [vh_format h] else ds_unsupported d)\<rparr>,
          (if recorded then [Recorded] else [])
          @ (case res of Inr True \<Rightarrow> [Shown] | Inr False \<Rightarrow> [] | Inl _ \<Rightarrow> [AskRefresh])
          @ (if mark then [UpdateSupportedDecodings] else [])))"

definition decoder_order :: "'f media \<Rightarrow> 'c decoder_state \<Rightarrow> 'c decoder_state" where
  "decoder_order m d =
     (case m of
        MediaReset \<Rightarrow> d\<lparr>ds_handler := map_option (reset_handler None) (ds_handler d)\<rparr>
      | RecordScreen start \<Rightarrow> d\<lparr>ds_handler := map_option (record_screen start) (ds_handler d)\<rparr>
      | _ \<Rightarrow> d)"

text \<open>One turn of the thread's loop.\<close>

definition decoder_turn ::
  "bool \<Rightarrow> nat \<Rightarrow> ('f \<Rightarrow> 'c frame_obs) \<Rightarrow> 'f video_thread \<times> 'c decoder_state \<Rightarrow> ('f video_thread \<times> 'c decoder_state) \<times> decoder_act list" where
  "decoder_turn rec elapsed obs = (\<lambda>(v, d).
     case take_media v of
       (Frame f, v1) \<Rightarrow> let (d1, as) = decode_frame rec elapsed (obs f) d in ((v1, d1), as)
     | (Order m, v1) \<Rightarrow> ((v1, decoder_order m d), [])
     | (_, v1) \<Rightarrow> ((v1, d), []))"


section \<open>Recording\<close>

record 'f recording =
  rc_state :: bool                       \<comment> \<open>\<open>lc.record_state\<close>\<close>
  rc_permission :: bool                  \<comment> \<open>\<open>lc.record_permission\<close>\<close>
  rc_last :: bool                        \<comment> \<open>\<open>last_record_state\<close>\<close>
  rc_threads :: "'f threads"
  rc_told :: "bool list"                 \<comment> \<open>\<open>client_record_status\<close> sent to the peer, the last one first\<close>

definition update_record_state :: "'f recording \<Rightarrow> 'f recording" where
  "update_record_state r0 =
     (let r = (if rc_permission r0 then r0 else r0\<lparr>rc_state := False\<rparr>);
          start = (rc_state r \<and> rc_permission r)
      in if rc_last r = start then r
         else r\<lparr>rc_last := start, rc_threads := map (\<lambda>(k, v). (k, send_media (RecordScreen start) v)) (rc_threads r),
                rc_told := start # rc_told r\<rparr>)"

definition on_record_screen :: "bool \<Rightarrow> 'f recording \<Rightarrow> 'f recording" where
  "on_record_screen start r = update_record_state (r\<lparr>rc_state := start\<rparr>)"

definition on_record_permission :: "bool \<Rightarrow> 'f recording \<Rightarrow> 'f recording" where
  "on_record_permission enabled r = update_record_state (r\<lparr>rc_permission := enabled\<rparr>)"

definition new_video_thread :: "bool \<Rightarrow> nat \<Rightarrow> 'f recording \<Rightarrow> 'f recording" where
  "new_video_thread auto_record display r =
     (let r1 = r\<lparr>rc_threads := (display, video_thread_new) # rc_threads r\<rparr>
      in if length (rc_threads r1) = 1 then update_record_state (r1\<lparr>rc_state := auto_record\<rparr>) else r1)"

definition on_video_frame :: "bool \<Rightarrow> nat \<Rightarrow> bool \<Rightarrow> 'f \<Rightarrow> 'f recording \<Rightarrow> 'f recording \<times> bool" where
  "on_video_frame auto_record display has_key f r =
     (let r1 = (if map_of (rc_threads r) display = None then new_video_thread auto_record display r else r)
      in case map_of (rc_threads r1) display of
           None \<Rightarrow> (r1, False)
         | Some v \<Rightarrow> let (v1, refresh) = push_frame has_key f v
                     in (r1\<lparr>rc_threads := AList.update display v1 (rc_threads r1)\<rparr>, refresh))"


section \<open>The audio buffer\<close>

definition AUDIO_BUFFER_MS :: nat where "AUDIO_BUFFER_MS = 3000"

record audio_buffer =
  ab_cap :: nat
  ab_len :: nat                          \<comment> \<open>samples in the ring\<close>
  ab_rate :: nat                         \<comment> \<open>samples per second, all channels\<close>
  ab_marks :: "nat list"
  ab_tms :: int

definition audio_buffer_new :: audio_buffer where
  "audio_buffer_new = \<lparr>ab_cap = 48000 * 2 * AUDIO_BUFFER_MS div 1000, ab_len = 0, ab_rate = 48000 * 2, ab_marks = replicate 30 0, ab_tms = 0\<rparr>"

definition resize_audio :: "nat \<Rightarrow> nat \<Rightarrow> audio_buffer \<Rightarrow> audio_buffer" where
  "resize_audio sample_rate channels b =
     (let cap = sample_rate * channels * AUDIO_BUFFER_MS div 1000
      in if cap \<noteq> ab_cap b then b\<lparr>ab_cap := cap, ab_len := 0, ab_rate := sample_rate * channels\<rparr> else b)"

definition append_pcm2 :: "nat \<Rightarrow> audio_buffer \<Rightarrow> audio_buffer \<times> nat" where
  "append_pcm2 n b =
     (if n > ab_cap b then (b\<lparr>ab_len := ab_cap b\<rparr>, ab_cap b)
      else let having = ab_len b + n; len = min having (ab_cap b) in (b\<lparr>ab_len := len\<rparr>, len))"

text \<open>The scan of the water marks: the leading empty ones, and the index and the marks that are left.\<close>

definition scan_mark :: "nat \<Rightarrow> nat \<times> nat \<times> nat list \<Rightarrow> nat \<times> nat \<times> nat list" where
  "scan_mark i = (\<lambda>(zero, top, ms).
     (if ms ! i = 0 \<and> zero = i then zero + 1 else zero,
      if ms ! i > ms ! top then i else top,
      if ms ! i > ms ! top then ms[top := 0] else ms[i := 0]))"

definition scan_marks :: "nat list \<Rightarrow> nat \<times> nat \<times> nat list" where
  "scan_marks ms = fold scan_mark [0..<30] (0, 0, ms)"

text \<open>\<open>try_shrink\<close>; \<open>None\<close> is a division by zero. \<open>tms\<close> is one static for all buffers.\<close>

definition try_shrink :: "int \<Rightarrow> nat \<Rightarrow> audio_buffer \<Rightarrow> audio_buffer option" where
  "try_shrink dt having b =
     (if ab_rate b = 0 then None
      else
        let i = min (having * 10 div ab_rate b) 29;
            marks = (ab_marks b)[i := ab_marks b ! i + 1];
            b1 = b\<lparr>ab_marks := marks\<rparr>
        in if ab_tms b = 0 then Some (b1\<lparr>ab_tms := dt\<rparr>)
           else if dt < ab_tms b + 12000 then Some b1
           else
             let (zero0, top0, ms) = scan_marks marks;
                 zero = zero0 * 2 div 3;
                 b2 = b1\<lparr>ab_tms := dt, ab_marks := ms[top0 := 0]\<rparr>
             in if top0 < 6 then Some b2
                else
                  let top = min top0 (zero * 4);
                      n = ab_cap b * top div 120 + 1;
                      skip = n - n mod 2
                  in Some (if ab_len b2 > skip * 3 \<and> skip > 0 then b2\<lparr>ab_len := ab_len b2 - skip\<rparr> else b2))"

definition append_pcm :: "int \<Rightarrow> nat \<Rightarrow> audio_buffer \<Rightarrow> audio_buffer option" where
  "append_pcm dt n b = (let (b1, having) = append_pcm2 n b in try_shrink dt having b1)"

text \<open>The length of the buffer a format makes the decoder allocate, when the decoder accepts it.\<close>

definition handle_format :: "(nat \<Rightarrow> bool \<Rightarrow> bool) \<Rightarrow> nat \<Rightarrow> nat \<Rightarrow> nat option" where
  "handle_format accepts sample_rate channels =
     (if accepts sample_rate (channels > 1) then Some (sample_rate * channels) else None)"



section \<open>The measured speed\<close>

definition meter_inv :: "fps_meter \<Rightarrow> bool" where
  "meter_inv m \<longleftrightarrow> skip_beginning m \<le> 3 \<and> fm_count m < 30 \<and> (\<forall>f. fm_fps m = Some f \<longrightarrow> f \<le> 30000)"

lemma div_le_mono1: "n \<le> k \<Longrightarrow> n div m \<le> (k :: nat)"
  by (meson div_le_dividend le_trans)

lemma fps_calculate_inv: "meter_inv m \<Longrightarrow> meter_inv (fps_calculate c e m)"
  by (auto simp: meter_inv_def fps_calculate_def Let_def intro: div_le_mono1)

interpretation meter: machine "\<lambda>m. m = fps_meter_new" "\<lambda>m (c, e). fps_calculate c e m" "\<lambda>_. True" meter_inv
  by unfold_locales (auto simp: fps_calculate_inv, auto simp: meter_inv_def fps_meter_new_def)


section \<open>Frames in order\<close>

definition tokens :: "'f media list \<Rightarrow> nat" where
  "tokens c = length (filter (\<lambda>m. m = VideoQueue) c)"

lemma tokens_simps [simp]:
  "tokens [] = 0" "tokens (VideoQueue # c) = Suc (tokens c)" "tokens (VideoFrame f # c) = tokens c"
  "tokens (MediaReset # c) = tokens c" "tokens (RecordScreen b # c) = tokens c" "tokens (c @ d) = tokens c + tokens d"
  by (simp_all add: tokens_def)

definition queue_inv :: "'f video_thread \<Rightarrow> bool" where
  "queue_inv v \<longleftrightarrow> tokens (vt_chan v) = length (vt_queue v) \<and> length (vt_queue v) \<le> VIDEO_QUEUE_SIZE"

text \<open>The one queue the two ways of a frame stand for.\<close>

fun waiting :: "'f media list \<Rightarrow> 'f list \<Rightarrow> 'f list" where
  "waiting [] q = []"
| "waiting (VideoFrame f # c) q = f # waiting c q"
| "waiting (VideoQueue # c) [] = waiting c []"
| "waiting (VideoQueue # c) (f # q) = f # waiting c q"
| "waiting (m # c) q = waiting c q"

abbreviation waiting_frames :: "'f video_thread \<Rightarrow> 'f list" where
  "waiting_frames v \<equiv> waiting (vt_chan v) (vt_queue v)"

lemma waiting_key: "waiting (c @ [VideoFrame f]) q = waiting c q @ [f]"
  by (induction c q rule: waiting.induct) simp_all

lemma waiting_order: "m \<in> {MediaReset, RecordScreen b} \<Longrightarrow> waiting (c @ [m]) q = waiting c q"
  by (induction c q rule: waiting.induct) auto

lemma waiting_token: "tokens c = length q \<Longrightarrow> waiting (c @ [VideoQueue]) (q @ [f]) = waiting c q @ [f]"
proof (induction c q rule: waiting.induct)
  case (1 q)
  then show ?case by simp
qed simp_all

datatype 'f thread_event = Arrives bool 'f | Takes | Sends "'f media" | Discards

fun thread_step :: "'f video_thread \<Rightarrow> 'f thread_event \<Rightarrow> 'f video_thread" where
  "thread_step v (Arrives k f) = fst (push_frame k f v)"
| "thread_step v Takes = snd (take_media v)"
| "thread_step v (Sends m) = send_media m v"
| "thread_step v Discards = refresh_discards v"

fun order_event :: "'f thread_event \<Rightarrow> bool" where
  "order_event (Sends m) \<longleftrightarrow> (case m of MediaReset \<Rightarrow> True | RecordScreen b \<Rightarrow> True | _ \<Rightarrow> False)"
| "order_event _ \<longleftrightarrow> True"

lemma queue_inv_step: "queue_inv v \<Longrightarrow> order_event e \<Longrightarrow> queue_inv (thread_step v e)"
  by (cases e) (auto simp: queue_inv_def push_frame_def take_media_def send_media_def refresh_discards_def VIDEO_QUEUE_SIZE_def
      split: list.splits media.splits)

interpretation thread: machine "\<lambda>v. v = video_thread_new" thread_step order_event queue_inv
  by unfold_locales (auto simp: queue_inv_step, auto simp: queue_inv_def video_thread_new_def)

text \<open>A frame the thread gets hold of, and whether an arriving frame pushes another one out.\<close>

definition taken_frame :: "'f taken \<Rightarrow> 'f list" where
  "taken_frame t = (case t of Frame f \<Rightarrow> [f] | Dropped f \<Rightarrow> [f] | _ \<Rightarrow> [])"

fun arrived :: "'f thread_event \<Rightarrow> 'f list" where
  "arrived (Arrives k f) = [f]"
| "arrived _ = []"

fun got :: "'f video_thread \<Rightarrow> 'f thread_event \<Rightarrow> 'f list" where
  "got v Takes = taken_frame (fst (take_media v))"
| "got v _ = []"

fun evicts :: "'f video_thread \<Rightarrow> 'f thread_event \<Rightarrow> bool" where
  "evicts v (Arrives k f) = snd (push_frame k f v)"
| "evicts v _ = False"

lemma thread_step_waiting:
  assumes "queue_inv v" "order_event e" "\<not> evicts v e"
  shows "got v e @ waiting_frames (thread_step v e) = waiting_frames v @ arrived e"
proof (cases e)
  case (Arrives k f)
  with assms(1,3) show ?thesis
    by (auto simp: push_frame_def send_media_def waiting_key waiting_token queue_inv_def split: if_splits)
next
  case Takes
  with assms(1) show ?thesis
    by (auto simp: take_media_def taken_frame_def queue_inv_def split: list.splits media.splits)
next
  case (Sends m)
  with assms(2) show ?thesis
    by (cases m) (auto simp: send_media_def waiting_order)
qed (simp add: refresh_discards_def)

fun thread_run :: "'f video_thread \<Rightarrow> 'f thread_event list \<Rightarrow> 'f video_thread \<times> 'f list \<times> bool" where
  "thread_run v [] = (v, [], False)"
| "thread_run v (e # es) =
     (let (v1, fs, lost) = thread_run (thread_step v e) es in (v1, got v e @ fs, evicts v e \<or> lost))"

lemma thread_run_waiting:
  assumes "queue_inv v" "list_all order_event es" "thread_run v es = (v', fs, False)"
  shows "fs @ waiting_frames v' = waiting_frames v @ concat (map arrived es)"
  using assms
proof (induction es arbitrary: v v' fs)
  case (Cons e es)
  obtain v1 gs lost where r: "thread_run (thread_step v e) es = (v1, gs, lost)"
    by (metis prod_cases3)
  with Cons.prems have e: "\<not> evicts v e" "\<not> lost" "v' = v1" "fs = got v e @ gs" "order_event e" "list_all order_event es"
    by auto
  with Cons.IH [OF queue_inv_step [OF Cons.prems(1) e(5)] e(6)] r
  have "gs @ waiting_frames v1 = waiting_frames (thread_step v e) @ concat (map arrived es)"
    by simp
  with thread_step_waiting [OF Cons.prems(1) e(5,1)] e(3,4) show ?case
    by (metis append.assoc concat.simps(2) list.simps(9))
qed simp

text \<open>
  C18. The channel with its tokens and the bounded queue beside it implement one first-in
  first-out queue: in every history of a display in which nothing is evicted, the decoder
  thread gets the frames in the order in which they arrived, key frames or not, and the rest
  is still waiting in that order; never does it find a token without its frame.
\<close>

theorem frames_in_order:
  assumes "list_all order_event es" "thread_run video_thread_new es = (v, fs, False)"
  shows "fs @ waiting_frames v = concat (map arrived es) \<and> tokens (vt_chan v) = length (vt_queue v)
    \<and> length (vt_queue v) \<le> VIDEO_QUEUE_SIZE"
proof -
  have "queue_inv (video_thread_new :: 'a video_thread)"
    by (rule thread.start_inv) simp
  note w = thread_run_waiting [OF this assms]
  have "v = run thread_step video_thread_new es"
  proof -
    have "fst (thread_run u ds) = run thread_step u ds" for u :: "'a video_thread" and ds
      by (induction ds arbitrary: u) (auto split: prod.splits, metis fst_conv)
    from this [of video_thread_new es] assms(2) show ?thesis by simp
  qed
  with thread.run_inv [OF refl assms(1)] w show ?thesis
    by (simp add: queue_inv_def video_thread_new_def)
qed

lemma waiting_has_front: "0 < tokens c \<Longrightarrow> f \<in> set (waiting c (f # q))"
proof (induction c)
  case (Cons m c)
  then show ?case by (cases m) simp_all
qed simp

text \<open>
  An eviction breaks the order: with a full queue and a key frame in the channel behind a
  token, the next frame makes the thread decode a frame that waited behind the key frame
  before it.
\<close>

theorem eviction_reorders:
  assumes "queue_inv v" "vt_queue v = f1 # f2 # q" "length (vt_queue v) = VIDEO_QUEUE_SIZE"
    and "vt_chan v = VideoQueue # VideoFrame key # c" "\<not> vt_discard v"
  shows "\<exists>behind rest. waiting_frames v = f1 # key # behind \<and> f2 \<in> set behind
    \<and> waiting_frames (fst (push_frame False g v)) = f2 # key # rest
    \<and> fst (take_media (fst (push_frame False g v))) = Frame f2"
proof -
  from assms(1,2,4) have "0 < tokens c"
    by (simp add: queue_inv_def)
  with assms(2-5) show ?thesis
    by (simp add: push_frame_def take_media_def waiting_has_front)
qed


section \<open>Bounds of the requested rate\<close>

lemma effective_custom_fps_range: "5 \<le> effective_custom_fps c \<and> effective_custom_fps c \<le> 120"
  by (auto simp: effective_custom_fps_def split: option.splits)

lemma limit_fps_le: "limit_fps direct custom decode \<le> custom"
  by (simp add: limit_fps_def Let_def)

lemma choose_auto_fps_bounds:
  "choose_auto_fps limited mq last_auto trends = Some a \<Longrightarrow> 1 \<le> a \<and> a \<le> max 1 limited \<and> Some a \<noteq> last_auto"
  by (auto simp: choose_auto_fps_def Let_def split: if_splits)

lemma send_refresh_acts: "SetFps a \<notin> set (concat (map snd (map (send_refresh now d) kvs)))"
  by (auto simp: send_refresh_def split: prod.splits if_splits)

text \<open>
  The automatic control of the frame rate. Whatever the queues, the counters and the
  measurements are, the rate it requests is at least one and at most the rate the user chose
  (thirty when the setting is out of range), stays below what the slowest active display can
  decode, and is sent only when it is a change. The rates the user sets by hand are sent as
  they are (\<open>set_custom_fps\<close>), and the host keeps them in its own limits.
\<close>

theorem requested_fps_bounds:
  assumes "fps_control now direct fps lc ts = (lc', ts', as)" "SetFps a \<in> set as"
  shows "1 \<le> a \<and> a \<le> effective_custom_fps (lc_custom_fps lc) \<and> effective_custom_fps (lc_custom_fps lc) \<le> 120
    \<and> lc_last_auto_fps lc' = Some a \<and> lc_last_auto_fps lc \<noteq> Some a
    \<and> (\<exists>d. min_decode_fps (count_inactive fps ts) = Some d \<and> a \<le> max 1 (d * 9 div 10))"
proof -
  let ?custom = "effective_custom_fps (lc_custom_fps lc)"
  let ?ts = "count_inactive fps ts"
  from assms obtain d where d: "min_decode_fps ?ts = Some d"
    by (cases "min_decode_fps ?ts") (auto simp: fps_control_def Let_def)
  define l where "l = limit_fps direct ?custom d"
  define mq where "mq = fold max (map (\<lambda>(k, v). length (vt_queue v)) ?ts) 0"
  define tr where "tr = map (\<lambda>(k, v). (k, fps_trending l ?custom (lc_last_auto_fps lc) v)) ?ts"
  define ch where "ch = choose_auto_fps l mq (lc_last_auto_fps lc) (map (\<lambda>(k, v, t). t) tr)"
  have "lc' = (case ch of Some a \<Rightarrow> lc\<lparr>lc_last_auto_fps := Some a\<rparr> | None \<Rightarrow> lc)"
    "as = (case ch of Some a \<Rightarrow> [SetFps a] | None \<Rightarrow> [])
       @ concat (map snd (map (send_refresh now d) (map (\<lambda>(k, v, t). (k, v)) tr)))"
    using assms(1) d unfolding fps_control_def ch_def l_def mq_def tr_def Let_def by simp_all
  with assms(2) send_refresh_acts [of a now d "map (\<lambda>(k, v, t). (k, v)) tr"]
  have c: "choose_auto_fps l mq (lc_last_auto_fps lc) (map (\<lambda>(k, v, t). t) tr) = Some a" "lc' = lc\<lparr>lc_last_auto_fps := Some a\<rparr>"
    unfolding ch_def [symmetric] by (cases ch; simp)+
  note b = choose_auto_fps_bounds [OF c(1)]
  have "l \<le> ?custom" "l \<le> d * 9 div 10"
    by (auto simp: l_def limit_fps_def Let_def)
  moreover note effective_custom_fps_range [of "lc_custom_fps lc"]
  ultimately have "1 \<le> a" "a \<le> ?custom" "?custom \<le> 120" "lc_last_auto_fps lc' = Some a" "lc_last_auto_fps lc \<noteq> Some a"
    using b c(2) by auto
  moreover have "\<exists>d. min_decode_fps ?ts = Some d \<and> a \<le> max 1 (d * 9 div 10)"
    using d b \<open>l \<le> d * 9 div 10\<close> by (auto simp: max_def split: if_splits)
  ultimately show ?thesis
    by blast
qed

text \<open>An active display whose speed is not measured yet suspends the control of all of them.\<close>

lemma min_option_None: "None \<in> set xs \<Longrightarrow> min_option xs = Some None"
  by (induction xs) (auto split: option.splits)

lemma unmeasured_display_suspends:
  assumes "(k, v) \<in> set (count_inactive fps ts)" "vt_inactive v < INACTIVE_THRESHOLD" "vt_decode_fps v = None"
  shows "fps_control now direct fps lc ts = (lc, count_inactive fps ts, [])"
proof -
  have "None \<in> set (map (\<lambda>(k, v). vt_decode_fps v) (filter (\<lambda>(k, v). vt_inactive v < INACTIVE_THRESHOLD) (count_inactive fps ts)))"
    using assms by force
  then show ?thesis
    by (simp add: fps_control_def min_decode_fps_def min_option_None)
qed


section \<open>Recording needs the permission\<close>

text \<open>
  The session's side of the recording together with the decoder threads of the displays. The
  measured speed is shared with the display's entry, the list of formats that cannot be
  decoded with all displays.
\<close>

record ('f, 'c) media_state =
  ms_rec :: "'f recording"
  ms_handlers :: "nat \<Rightarrow> 'c video_handler option"
  ms_meters :: "nat \<Rightarrow> fps_meter"
  ms_unsupported :: "'c list"

datatype ('f, 'c) media_event =
    UserRecords bool
  | HostPermits bool
  | FrameArrives bool nat bool 'f
  | Decodes nat nat "'f \<Rightarrow> 'c frame_obs"

definition recording_start :: "'f recording" where
  "recording_start = \<lparr>rc_state = False, rc_permission = True, rc_last = False, rc_threads = [], rc_told = []\<rparr>"

definition media_start :: "('f, 'c) media_state" where
  "media_start = \<lparr>ms_rec = recording_start, ms_handlers = (\<lambda>k. None), ms_meters = (\<lambda>k. fps_meter_new), ms_unsupported = []\<rparr>"

definition decoder_of :: "('f, 'c) media_state \<Rightarrow> nat \<Rightarrow> 'c decoder_state" where
  "decoder_of m k = \<lparr>ds_handler = ms_handlers m k, ds_meter = ms_meters m k, ds_unsupported = ms_unsupported m\<rparr>"

definition display_turn ::
  "nat \<Rightarrow> nat \<Rightarrow> ('f \<Rightarrow> 'c frame_obs) \<Rightarrow> ('f, 'c) media_state \<Rightarrow> ('f, 'c) media_state \<times> decoder_act list" where
  "display_turn k elapsed obs m =
     (case map_of (rc_threads (ms_rec m)) k of
        None \<Rightarrow> (m, [])
      | Some v \<Rightarrow>
          let r = ms_rec m;
              ((v1, d), as) = decoder_turn (rc_state r \<and> rc_permission r) elapsed obs (v, decoder_of m k);
              v2 = v1\<lparr>vt_decode_fps := fm_fps (ds_meter d), vt_frame_count := (if Shown \<in> set as then vt_frame_count v1 + 1 else vt_frame_count v1)\<rparr>
          in (\<lparr>ms_rec = r\<lparr>rc_threads := AList.update k v2 (rc_threads r)\<rparr>,
               ms_handlers = (ms_handlers m)(k := ds_handler d), ms_meters = (ms_meters m)(k := ds_meter d),
               ms_unsupported = ds_unsupported d\<rparr>, as))"

fun media_step :: "('f, 'c) media_state \<Rightarrow> ('f, 'c) media_event \<Rightarrow> ('f, 'c) media_state" where
  "media_step m (UserRecords b) = m\<lparr>ms_rec := on_record_screen b (ms_rec m)\<rparr>"
| "media_step m (HostPermits b) = m\<lparr>ms_rec := on_record_permission b (ms_rec m)\<rparr>"
| "media_step m (FrameArrives auto k key f) = m\<lparr>ms_rec := fst (on_video_frame auto k key f (ms_rec m))\<rparr>"
| "media_step m (Decodes k elapsed obs) = fst (display_turn k elapsed obs m)"

text \<open>The last recording order in a channel, if there is one, and the state a display will be in behind it.\<close>

fun last_order :: "'f media list \<Rightarrow> bool option" where
  "last_order [] = None"
| "last_order (RecordScreen b # c) = (case last_order c of None \<Rightarrow> Some b | o' \<Rightarrow> o')"
| "last_order (_ # c) = last_order c"

lemma last_order_append: "last_order (c @ d) = (case last_order d of None \<Rightarrow> last_order c | o' \<Rightarrow> o')"
  by (induction c rule: last_order.induct) (auto split: option.splits)

definition display_agrees :: "bool \<Rightarrow> 'f video_thread \<Rightarrow> 'c video_handler option \<Rightarrow> bool" where
  "display_agrees recording v h \<longleftrightarrow>
     (case last_order (vt_chan v) of Some b \<Rightarrow> b = recording | None \<Rightarrow> (\<forall>x. h = Some x \<longrightarrow> vh_record x = recording))"

definition record_flags :: "'f recording \<Rightarrow> bool" where
  "record_flags r \<longleftrightarrow> rc_last r = rc_state r \<and> (rc_state r \<longrightarrow> rc_permission r)"

definition media_inv :: "('f, 'c) media_state \<Rightarrow> bool" where
  "media_inv m \<longleftrightarrow> record_flags (ms_rec m)
     \<and> (\<forall>k v. map_of (rc_threads (ms_rec m)) k = Some v \<longrightarrow> display_agrees (rc_last (ms_rec m)) v (ms_handlers m k))
     \<and> (\<forall>k. map_of (rc_threads (ms_rec m)) k = None \<longrightarrow> ms_handlers m k = None)"

definition displays_agree :: "'f recording \<Rightarrow> (nat \<Rightarrow> 'c video_handler option) \<Rightarrow> bool" where
  "displays_agree r hs \<longleftrightarrow> (\<forall>k v. map_of (rc_threads r) k = Some v \<longrightarrow> display_agrees (rc_last r) v (hs k))
     \<and> (\<forall>k. map_of (rc_threads r) k = None \<longrightarrow> hs k = None)"

lemma media_inv_iff: "media_inv m \<longleftrightarrow> record_flags (ms_rec m) \<and> displays_agree (ms_rec m) (ms_handlers m)"
  by (simp add: media_inv_def displays_agree_def)

lemma map_of_map_snd: "map_of (map (\<lambda>(k, v). (k, f v)) xs) k = map_option f (map_of xs k)"
  by (induction xs) auto

lemma update_record_state_inv:
  assumes "displays_agree r hs"
  shows "record_flags (update_record_state r)" "displays_agree (update_record_state r) hs"
proof -
  show "record_flags (update_record_state r)"
    by (auto simp: update_record_state_def record_flags_def Let_def)
  have *: "display_agrees b (send_media (RecordScreen b) v) h" for b and v :: "'a video_thread" and h :: "'b video_handler option"
    by (simp add: display_agrees_def send_media_def last_order_append)
  show "displays_agree (update_record_state r) hs"
    using assms * by (auto simp: update_record_state_def displays_agree_def map_of_map_snd Let_def)
qed

lemma push_frame_order: "last_order (vt_chan (fst (push_frame key f v))) = last_order (vt_chan v)"
  by (simp add: push_frame_def send_media_def last_order_append)

lemma on_video_frame_inv:
  assumes "record_flags r" "displays_agree r hs"
  shows "record_flags (fst (on_video_frame auto k key f r))" "displays_agree (fst (on_video_frame auto k key f r)) hs"
proof -
  have push: "displays_agree (r'\<lparr>rc_threads := AList.update k (fst (push_frame key f v)) (rc_threads r')\<rparr>) hs"
    if "displays_agree r' hs" "map_of (rc_threads r') k = Some v" for r' v
    using that push_frame_order [of key f v]
    by (auto simp: displays_agree_def update_conv' display_agrees_def split: if_splits)
  have new: "displays_agree (new_video_thread auto k r) hs \<and> record_flags (new_video_thread auto k r)"
    if "map_of (rc_threads r) k = None"
  proof -
    let ?r = "r\<lparr>rc_threads := (k, video_thread_new) # rc_threads r\<rparr>"
    have "displays_agree ?r hs"
      using assms(2) that by (auto simp: displays_agree_def display_agrees_def video_thread_new_def)
    moreover then have "displays_agree (?r\<lparr>rc_state := auto\<rparr>) hs"
      by (simp add: displays_agree_def)
    ultimately show ?thesis
      using assms(1) update_record_state_inv [of "?r\<lparr>rc_state := auto\<rparr>" hs]
      by (cases "rc_threads r = []") (simp_all add: new_video_thread_def record_flags_def Let_def)
  qed
  show "record_flags (fst (on_video_frame auto k key f r))" "displays_agree (fst (on_video_frame auto k key f r)) hs"
    using assms push new
    by (auto simp: on_video_frame_def Let_def record_flags_def split: option.splits prod.splits if_splits)
      (metis fst_conv)+
qed


text \<open>A turn of a decoder: where the recording flag of its handler comes from.\<close>

lemma handle_frame_record: "handle_frame ob h = (h', res, recorded) \<Longrightarrow> vh_record h' = vh_record h \<and> (recorded \<longrightarrow> vh_record h)"
  by (auto simp: handle_frame_def reset_handler_def Let_def split: if_splits)

lemma decode_frame_record:
  assumes "decode_frame rec elapsed ob d = (d', as)"
  shows "\<exists>h. ds_handler d' = Some h \<and> vh_record h = (case ds_handler d of Some x \<Rightarrow> vh_record x | None \<Rightarrow> rec)
    \<and> (Recorded \<in> set as \<longrightarrow> vh_record h)"
proof -
  let ?h0 = "case ds_handler d of Some h \<Rightarrow> h
    | None \<Rightarrow> let h = video_handler_new (ob_format ob) in if rec then record_screen True h else h"
  obtain h res recorded where f: "handle_frame ob ?h0 = (h, res, recorded)"
    by (metis prod_cases3)
  have "vh_record ?h0 = (case ds_handler d of Some x \<Rightarrow> vh_record x | None \<Rightarrow> rec)"
    by (auto simp: video_handler_new_def record_screen_def Let_def split: option.splits)
  with handle_frame_record [OF f] assms f show ?thesis
    by (auto simp: decode_frame_def Let_def split: sum.splits bool.splits if_splits)
qed

lemma decoder_turn_agrees:
  assumes "decoder_turn recording elapsed obs (v, d) = ((v', d'), as)" "display_agrees recording v (ds_handler d)"
  shows "display_agrees recording v' (ds_handler d')"
    and "Recorded \<in> set as \<Longrightarrow> recording \<or> last_order (vt_chan v) = Some False"
proof -
  have *: "display_agrees recording v' (ds_handler d')
    \<and> (Recorded \<in> set as \<longrightarrow> recording \<or> last_order (vt_chan v) = Some False)"
  proof (cases "take_media v")
    case (Pair t v1)
    show ?thesis
    proof (cases t)
      case (Frame f)
      have o: "last_order (vt_chan v1) = last_order (vt_chan v)"
        using Pair Frame by (auto simp: take_media_def split: list.splits media.splits if_splits)
      obtain d1 bs where df: "decode_frame recording elapsed (obs f) d = (d1, bs)"
        by fastforce
      with assms(1) Pair Frame have "v' = v1" "d' = d1" "as = bs"
        by (simp_all add: decoder_turn_def)
      with decode_frame_record [OF df] o assms(2) show ?thesis
        by (auto simp: display_agrees_def split: option.splits)
    next
      case (Order m)
      then have "vt_chan v = m # vt_chan v1" "m \<noteq> VideoQueue" "\<forall>f. m \<noteq> VideoFrame f"
        using Pair by (auto simp: take_media_def split: list.splits media.splits if_splits)
      with assms Pair Order show ?thesis
        by (cases m) (auto simp: decoder_turn_def decoder_order_def display_agrees_def reset_handler_def record_screen_def
            split: option.splits)
    qed (use Pair assms in \<open>auto simp: decoder_turn_def take_media_def display_agrees_def
          split: list.splits media.splits if_splits option.splits\<close>)
  qed
  then show "display_agrees recording v' (ds_handler d')"
    "Recorded \<in> set as \<Longrightarrow> recording \<or> last_order (vt_chan v) = Some False"
    by blast+
qed

lemma display_turn_inv:
  assumes "media_inv m" "display_turn k elapsed obs m = (m', as)"
  shows "media_inv m'"
    and "Recorded \<in> set as \<Longrightarrow> \<exists>v. map_of (rc_threads (ms_rec m)) k = Some v
      \<and> (rc_last (ms_rec m) \<or> last_order (vt_chan v) = Some False)"
proof -
  let ?r = "ms_rec m"
  from assms(1) have rec: "(rc_state ?r \<and> rc_permission ?r) = rc_last ?r" and d: "displays_agree ?r (ms_handlers m)"
    and fl: "record_flags ?r"
    by (auto simp: media_inv_iff record_flags_def)
  have *: "media_inv m' \<and> (Recorded \<in> set as \<longrightarrow> (\<exists>v. map_of (rc_threads ?r) k = Some v
      \<and> (rc_last ?r \<or> last_order (vt_chan v) = Some False)))"
  proof (cases "map_of (rc_threads ?r) k")
    case None
    with assms show ?thesis by (simp add: display_turn_def)
  next
    case (Some v)
    obtain v1 d1 bs where t: "decoder_turn (rc_last ?r) elapsed obs (v, decoder_of m k) = ((v1, d1), bs)"
      by (metis prod_cases3 surj_pair)
    have a: "display_agrees (rc_last ?r) v (ds_handler (decoder_of m k))"
      using d Some by (simp add: displays_agree_def decoder_of_def)
    note n = decoder_turn_agrees [OF t a]
    have "display_agrees (rc_last ?r) (v1\<lparr>vt_decode_fps := x, vt_frame_count := y\<rparr>) (ds_handler d1)" for x y
      using n(1) by (simp add: display_agrees_def)
    moreover obtain x y where "m' = \<lparr>ms_rec = ?r\<lparr>rc_threads := AList.update k (v1\<lparr>vt_decode_fps := x, vt_frame_count := y\<rparr>) (rc_threads ?r)\<rparr>,
        ms_handlers = (ms_handlers m)(k := ds_handler d1), ms_meters = (ms_meters m)(k := ds_meter d1),
        ms_unsupported = ds_unsupported d1\<rparr>" and "as = bs"
      using assms(2) Some t unfolding display_turn_def rec Let_def by auto
    ultimately show ?thesis
      using d fl Some n(2)
      by (auto simp: media_inv_iff displays_agree_def record_flags_def update_conv' split: if_splits)
  qed
  then show "media_inv m'" "Recorded \<in> set as \<Longrightarrow> \<exists>v. map_of (rc_threads ?r) k = Some v
      \<and> (rc_last ?r \<or> last_order (vt_chan v) = Some False)"
    by blast+
qed

lemma displays_agree_flags [simp]:
  "displays_agree (r\<lparr>rc_state := b\<rparr>) hs = displays_agree r hs"
  "displays_agree (r\<lparr>rc_permission := b\<rparr>) hs = displays_agree r hs"
  by (simp_all add: displays_agree_def)

lemma media_step_inv: "media_inv m \<Longrightarrow> media_inv (media_step m e)"
proof (cases e)
  case (Decodes k elapsed obs)
  assume "media_inv m"
  with Decodes display_turn_inv(1) [of m k elapsed obs] show ?thesis
    by (metis media_step.simps(4) prod.collapse)
qed (auto simp: media_inv_iff on_record_screen_def on_record_permission_def intro!: update_record_state_inv on_video_frame_inv)

interpretation media: machine "\<lambda>m. m = media_start" media_step "\<lambda>_. True" media_inv
  by unfold_locales (auto simp: media_step_inv, auto simp: media_inv_def media_start_def recording_start_def record_flags_def)

text \<open>
  What the technician and the host want, read off a history alone (the latest event first):
  the host permits recording until it says otherwise, and its last word counts. Recording is
  wanted by the technician's last word on it, or by the setting for automatic recording, which
  speaks when the first display opens; neither counts while the permission is away, and a wish
  ends when the permission is taken back.
\<close>

fun permits :: "('f, 'c) media_event list \<Rightarrow> bool" where
  "permits [] = True"
| "permits (HostPermits b # es) = b"
| "permits (_ # es) = permits es"

fun opens_display :: "('f, 'c) media_event \<Rightarrow> bool" where
  "opens_display (FrameArrives auto k key f) = True"
| "opens_display _ = False"

fun wants :: "('f, 'c) media_event list \<Rightarrow> bool" where
  "wants [] = False"
| "wants (UserRecords b # es) = (b \<and> permits es)"
| "wants (HostPermits b # es) = (b \<and> wants es)"
| "wants (FrameArrives auto k key f # es) = (if list_ex opens_display es then wants es else auto \<and> permits es)"
| "wants (Decodes k elapsed obs # es) = wants es"

definition flags_follow :: "('f, 'c) media_event list \<Rightarrow> 'f recording \<Rightarrow> bool" where
  "flags_follow es r \<longleftrightarrow> rc_permission r = permits (rev es) \<and> rc_state r = wants (rev es)
     \<and> (rc_threads r = [] \<longleftrightarrow> \<not> list_ex opens_display es)"

lemma update_record_state_flags:
  "rc_permission (update_record_state r) = rc_permission r" "rc_state (update_record_state r) = (rc_state r \<and> rc_permission r)"
  "rc_threads (update_record_state r) = [] \<longleftrightarrow> rc_threads r = []"
  by (auto simp: update_record_state_def Let_def)

lemma update_nonempty [simp]: "AList.update k v xs \<noteq> []"
  by (cases xs) auto

lemma on_video_frame_flags:
  "rc_permission (fst (on_video_frame auto k key f r)) = rc_permission r"
  "rc_state (fst (on_video_frame auto k key f r)) = (if rc_threads r = [] then auto \<and> rc_permission r else rc_state r)"
  "rc_threads (fst (on_video_frame auto k key f r)) \<noteq> []"
proof -
  show "rc_permission (fst (on_video_frame auto k key f r)) = rc_permission r"
    "rc_state (fst (on_video_frame auto k key f r)) = (if rc_threads r = [] then auto \<and> rc_permission r else rc_state r)"
    "rc_threads (fst (on_video_frame auto k key f r)) \<noteq> []"
    by (auto simp: on_video_frame_def new_video_thread_def update_record_state_flags Let_def split: option.splits prod.splits)
qed

lemma display_turn_flags:
  "display_turn k elapsed obs m = (m', as) \<Longrightarrow> rc_permission (ms_rec m') = rc_permission (ms_rec m)
    \<and> rc_state (ms_rec m') = rc_state (ms_rec m) \<and> (rc_threads (ms_rec m') = [] \<longleftrightarrow> rc_threads (ms_rec m) = [])"
  by (auto simp: display_turn_def Let_def split: option.splits prod.splits)

lemma flags_follow_step: "flags_follow es (ms_rec m) \<Longrightarrow> flags_follow (es @ [e]) (ms_rec (media_step m e))"
proof (cases e)
  case (UserRecords b)
  assume "flags_follow es (ms_rec m)"
  with UserRecords show ?thesis
    by (simp add: flags_follow_def on_record_screen_def update_record_state_flags)
next
  case (HostPermits b)
  assume "flags_follow es (ms_rec m)"
  with HostPermits show ?thesis
    by (auto simp: flags_follow_def on_record_permission_def update_record_state_flags)
next
  case (FrameArrives auto k key f)
  assume "flags_follow es (ms_rec m)"
  with FrameArrives show ?thesis
    by (simp add: flags_follow_def on_video_frame_flags)
next
  case (Decodes k elapsed obs)
  assume f: "flags_follow es (ms_rec m)"
  obtain m' as where t: "display_turn k elapsed obs m = (m', as)"
    by fastforce
  with f Decodes display_turn_flags [OF t] show ?thesis
    by (simp add: flags_follow_def)
qed

lemma flags_follow_run: "flags_follow es (ms_rec (run media_step media_start es))"
proof (induction es rule: rev_induct)
  case Nil
  show ?case by (simp add: flags_follow_def media_start_def recording_start_def)
qed (simp add: flags_follow_step)

text \<open>
  C25. Recording follows the host and the technician: in every interleaving of the session with
  the decoder threads, a frame is recorded only while the host permits it and the technician
  wants it, by the last word of both, except for frames that were in a display's channel when
  the order to stop was put behind them.
\<close>

theorem recording_follows_permission:
  assumes "display_turn k elapsed obs (run media_step media_start es) = (m', as)" "Recorded \<in> set as"
  shows "\<exists>v. map_of (rc_threads (ms_rec (run media_step media_start es))) k = Some v
    \<and> (permits (rev es) \<and> wants (rev es) \<or> last_order (vt_chan v) = Some False)"
proof -
  have i: "media_inv (run media_step media_start es)"
    by (rule media.run_inv) (simp_all add: list_all_iff)
  then have "rc_last (ms_rec (run media_step media_start es)) = (rc_state (ms_rec (run media_step media_start es))
      \<and> rc_permission (ms_rec (run media_step media_start es)))"
    by (auto simp: media_inv_def record_flags_def)
  with display_turn_inv(2) [OF i assms] flags_follow_run [of es] show ?thesis
    by (auto simp: flags_follow_def)
qed


section \<open>Sound\<close>

definition audio_inv :: "audio_buffer \<Rightarrow> bool" where
  "audio_inv b \<longleftrightarrow> length (ab_marks b) = 30 \<and> ab_cap b = 3 * ab_rate b \<and> ab_len b \<le> ab_cap b \<and> 0 < ab_rate b"

lemma audio_buffer_new_inv: "audio_inv audio_buffer_new"
  by (simp add: audio_inv_def audio_buffer_new_def AUDIO_BUFFER_MS_def)

lemma resize_audio_inv: "audio_inv b \<Longrightarrow> 0 < rate \<Longrightarrow> 0 < channels \<Longrightarrow> audio_inv (resize_audio rate channels b)"
  by (auto simp: audio_inv_def resize_audio_def AUDIO_BUFFER_MS_def Let_def)

lemma scan_marks_shape:
  assumes "fold scan_mark is (z, t, ms) = (z', t', ms')" "t < 30" "length ms = 30" "\<forall>i \<in> set is. i < 30"
  shows "t' < 30 \<and> length ms' = 30"
  using assms
proof (induction "is" arbitrary: z t ms)
  case (Cons i "is")
  have "fst (snd (scan_mark i (z, t, ms))) < 30" "length (snd (snd (scan_mark i (z, t, ms)))) = 30"
    using Cons.prems(2-4) by (auto simp: scan_mark_def)
  with Cons.IH [of "fst (scan_mark i (z, t, ms))" "fst (snd (scan_mark i (z, t, ms)))" "snd (snd (scan_mark i (z, t, ms)))"] Cons.prems
  show ?case by simp
qed simp

lemma scan_marks_zero:
  assumes "0 \<notin> set is" "fold scan_mark is (0, t, ms) = (z', t', ms')"
  shows "z' = 0"
  using assms
proof (induction "is" arbitrary: t ms)
  case (Cons i "is")
  then show ?case by (auto simp: scan_mark_def)
qed simp

lemma scan_marks_first:
  assumes "scan_marks ms = (z, t, ms')" "ms ! 0 \<noteq> 0"
  shows "z = 0"
proof -
  have u: "[0..<30] = 0 # [1..<30::nat]"
    by (simp add: upt_rec)
  have "fold scan_mark [1..<30] (0, 0, ms[0 := 0]) = (z, t, ms')"
    using assms unfolding scan_marks_def u by (simp add: scan_mark_def)
  then show ?thesis
    by (rule scan_marks_zero [rotated]) simp
qed

text \<open>The last case of \<open>try_shrink\<close>: a marked second and enough sound.\<close>

lemma try_shrink_cases:
  assumes "audio_inv b" "having \<le> ab_cap b"
  obtains b' where "try_shrink dt having b = Some b'" "length (ab_marks b') = 30" "ab_cap b' = ab_cap b" "ab_rate b' = ab_rate b"
    "ab_len b' = ab_len b \<or> (3 * (ab_len b - ab_len b') < ab_len b \<and> ab_len b' \<le> ab_len b \<and> ab_marks b ! 0 = 0)"
proof -
  define i where "i = min (having * 10 div ab_rate b) 29"
  define marks where "marks = (ab_marks b)[i := ab_marks b ! i + 1]"
  obtain z t ms where sc: "scan_marks marks = (z, t, ms)"
    by (metis prod_cases3)
  have "length marks = 30"
    using assms(1) by (simp add: marks_def audio_inv_def)
  with sc have sh: "t < 30" "length ms = 30"
    using scan_marks_shape [of "[0..<30]" 0 0 marks z t ms] by (simp_all add: scan_marks_def)
  have m0: "ab_marks b ! 0 = 0 \<or> z = 0"
  proof (rule disjCI)
    assume "z \<noteq> 0"
    with scan_marks_first [OF sc] have "marks ! 0 = 0" by blast
    then show "ab_marks b ! 0 = 0"
      using assms(1) by (cases "i = 0") (simp_all add: marks_def audio_inv_def)
  qed
  define skip where "skip = (let n = ab_cap b * min t (z * 2 div 3 * 4) div 120 + 1 in n - n mod 2)"
  have sk: "skip = 0" if "z = 0"
    using that by (simp add: skip_def)
  have "try_shrink dt having b = Some
     (if ab_tms b = 0 then b\<lparr>ab_marks := marks, ab_tms := dt\<rparr>
      else if dt < ab_tms b + 12000 then b\<lparr>ab_marks := marks\<rparr>
      else if t < 6 \<or> \<not> (ab_len b > skip * 3 \<and> skip > 0) then b\<lparr>ab_tms := dt, ab_marks := ms[t := 0]\<rparr>
      else b\<lparr>ab_tms := dt, ab_marks := ms[t := 0], ab_len := ab_len b - skip\<rparr>)"
    using assms(1)
    unfolding try_shrink_def Let_def i_def [symmetric] marks_def [symmetric] sc prod.case skip_def [unfolded Let_def, symmetric]
    by (simp add: audio_inv_def)
  with m0 sk sh(2) \<open>length marks = 30\<close> show thesis
    by (intro that [of "the (try_shrink dt having b)"]) auto
qed

text \<open>
  The sound buffer never fails and never exceeds three seconds, and a cut of it, which
  keeps the delay small, drops less than a third of what is there; nothing is dropped when
  the buffer has been nearly empty since the last cut.
\<close>

theorem sound_cut_bounds:
  assumes "audio_inv b"
  shows "\<exists>b'. append_pcm dt n b = Some b' \<and> audio_inv b'
    \<and> (let len = min (ab_len b + n) (ab_cap b)
       in ab_len b' \<le> len \<and> (ab_len b' = len \<or> 3 * (len - ab_len b') < len \<and> ab_marks b ! 0 = 0))"
proof -
  obtain b1 having where a: "append_pcm2 n b = (b1, having)"
    by fastforce
  then have b1: "ab_len b1 = min (ab_len b + n) (ab_cap b)" "having = ab_len b1" "ab_cap b1 = ab_cap b" "ab_rate b1 = ab_rate b"
    "ab_marks b1 = ab_marks b" "ab_tms b1 = ab_tms b"
    by (auto simp: append_pcm2_def Let_def split: if_splits)
  with assms have "audio_inv b1" "having \<le> ab_cap b1"
    by (auto simp: audio_inv_def)
  then obtain b' where s: "try_shrink dt having b1 = Some b'" "length (ab_marks b') = 30" "ab_cap b' = ab_cap b1" "ab_rate b' = ab_rate b1"
    "ab_len b' = ab_len b1 \<or> (3 * (ab_len b1 - ab_len b') < ab_len b1 \<and> ab_len b' \<le> ab_len b1 \<and> ab_marks b1 ! 0 = 0)"
    by (rule try_shrink_cases)
  moreover have "audio_inv b'"
    using s(2-5) b1 assms by (auto simp: audio_inv_def)
  ultimately show ?thesis
    using a b1 by (auto simp: append_pcm_def Let_def)
qed

text \<open>
  The peer chooses how much memory the viewer allocates for sound: the number of channels of
  a format is not checked, the decoder only sees whether it is more than one.
\<close>

lemma format_allocates_any_amount:
  assumes "accepts 48000 True"
  shows "\<exists>channels. \<exists>len \<ge> bound. handle_format accepts 48000 channels = Some len"
  by (rule exI [of _ "bound + 2"]) (simp add: handle_format_def assms)


section \<open>Runs\<close>

theorem frames_in_order_witness:
  "\<exists>v fs. thread_run video_thread_new [Arrives True (1 :: nat), Arrives False 2, Sends MediaReset, Takes, Arrives False 3, Takes, Takes] = (v, fs, False)
     \<and> fs @ waiting_frames v = [1, 2, 3]"
proof -
  let ?es = "[Arrives True (1 :: nat), Arrives False 2, Sends MediaReset, Takes, Arrives False 3, Takes, Takes]"
  obtain v fs where r: "thread_run video_thread_new ?es = (v, fs, False)"
    by (simp add: push_frame_def send_media_def take_media_def video_thread_new_def VIDEO_QUEUE_SIZE_def taken_frame_def)
  from frames_in_order [OF _ r] r show ?thesis
    by simp
qed

definition full_thread :: "nat video_thread" where
  "full_thread = video_thread_new\<lparr>vt_queue := [1..<121], vt_chan := VideoQueue # VideoFrame 0 # replicate 119 VideoQueue\<rparr>"

theorem eviction_reorders_witness:
  "fst (take_media (fst (push_frame False 121 full_thread))) = Frame 2"
proof -
  have "tokens (replicate n VideoQueue :: nat media list) = n" for n
    by (induction n) simp_all
  then have "queue_inv full_thread"
    by (simp add: full_thread_def queue_inv_def VIDEO_QUEUE_SIZE_def video_thread_new_def)
  moreover have "vt_queue full_thread = 1 # 2 # [3..<121]"
    using upt_conv_Cons [of 1 121] upt_conv_Cons [of 2 121] by (simp add: full_thread_def numeral_2_eq_2 numeral_3_eq_3 del: upt_Suc)
  ultimately show ?thesis
    using eviction_reorders [of full_thread 1 2 "[3..<121]" 0 "replicate 119 VideoQueue" 121]
    by (auto simp: full_thread_def VIDEO_QUEUE_SIZE_def video_thread_new_def)
qed

definition two_displays :: "nat threads" where
  "two_displays = [(0, video_thread_new\<lparr>vt_decode_fps := Some 20, vt_queue := [1, 2, 3]\<rparr>), (1, video_thread_new\<lparr>vt_decode_fps := Some 40\<rparr>)]"

theorem requested_fps_bounds_witness:
  "\<exists>lc' ts' as. fps_control 0 True (\<lambda>k. 20) \<lparr>lc_custom_fps = Some 15, lc_last_auto_fps = Some 30\<rparr> two_displays = (lc', ts', as)
     \<and> SetFps 15 \<in> set as \<and> lc_last_auto_fps lc' = Some 15"
proof -
  obtain lc' ts' as where r: "fps_control 0 True (\<lambda>k. 20) \<lparr>lc_custom_fps = Some 15, lc_last_auto_fps = Some 30\<rparr> two_displays = (lc', ts', as)"
    by (metis prod_cases3)
  then have "SetFps 15 \<in> set as"
    by (auto simp: fps_control_def two_displays_def count_inactive_def effective_custom_fps_def min_decode_fps_def INACTIVE_THRESHOLD_def
        video_thread_new_def limit_fps_def fps_trending_def choose_auto_fps_def send_refresh_def VIDEO_QUEUE_SIZE_def Let_def)
  with requested_fps_bounds [OF r] r show ?thesis
    by blast
qed

definition shown_obs :: "nat \<Rightarrow> nat frame_obs" where
  "shown_obs f = \<lparr>ob_format = 9, ob_union = True, ob_decoded = Inr True, ob_valid = True\<rparr>"

definition recorded_session :: "(nat, nat) media_event list" where
  "recorded_session = [FrameArrives True 0 True 7, Decodes 0 1 shown_obs]"

definition recording_display :: "(nat, nat) media_state" where
  "recording_display = run media_step media_start recorded_session"

theorem recording_follows_permission_witness:
  "\<exists>m' as. display_turn 0 1 shown_obs recording_display = (m', as) \<and> Recorded \<in> set as
    \<and> permits (rev recorded_session) \<and> wants (rev recorded_session)"
proof -
  note defs = media_start_def recording_start_def on_video_frame_def new_video_thread_def update_record_state_def push_frame_def
    send_media_def video_thread_new_def display_turn_def decoder_turn_def decoder_of_def take_media_def decode_frame_def handle_frame_def
    shown_obs_def video_handler_new_def record_screen_def decoder_order_def
  have m: "recording_display = \<lparr>ms_rec = \<lparr>rc_state = True, rc_permission = True, rc_last = True,
        rc_threads = [(0, video_thread_new\<lparr>vt_chan := [VideoFrame 7]\<rparr>)], rc_told = [True]\<rparr>,
      ms_handlers = (\<lambda>k. None), ms_meters = (\<lambda>k. fps_meter_new), ms_unsupported = []\<rparr>"
    by (simp add: recording_display_def recorded_session_def defs fps_meter_new_def Let_def fun_eq_iff)
  have "\<exists>m' as. display_turn 0 1 shown_obs recording_display = (m', as) \<and> Recorded \<in> set as"
    unfolding m by (simp add: defs Let_def)
  then obtain m' as where r: "display_turn 0 1 shown_obs recording_display = (m', as)" "Recorded \<in> set as"
    by blast
  from recording_follows_permission [OF r [unfolded recording_display_def]] r show ?thesis
    unfolding recording_display_def [symmetric] by (auto simp: m video_thread_new_def)
qed

theorem sound_cut_bounds_witness:
  "\<exists>b'. append_pcm 5 480 audio_buffer_new = Some b' \<and> audio_inv b' \<and> ab_len b' \<le> 480"
  using sound_cut_bounds [OF audio_buffer_new_inv, of 5 480]
  by (auto simp: Let_def audio_buffer_new_def AUDIO_BUFFER_MS_def)

end
