(* ===== verification/Client_Login.thy ===== *)
theory Client_Login
  imports Session_Msgs
begin

text \<open>
  The viewer's half of a login, \<open>LoginConfigHandler\<close> and the functions around it in
  \<open>src/src/client.rs\<close>: the record of the peer with its options, how the id given by the user
  is read, which password is tried, what the login request carries, and what is remembered
  after a login. It is composed with the agent's half in \<open>Login\<close> and \<open>Session_Msgs\<close>.

  The records on disk belong to \<open>hbb_common\<close>: a pair of functions to load and store one, with
  the law that a record that was stored is loaded. SHA-256, the tables of letters, the two
  option names of \<open>hbb_common\<close> and the reading of a connection token are parameters.

  The lemmas show that the right password is accepted and accepted again when it was
  remembered, which passwords are written to the disk, that a session for viewing only cannot
  act at the host, and that an offer of a time stays until it is answered.
\<close>

section \<open>State\<close>

datatype conn_type = DEFAULT_CONN | FILE_TRANSFER | PORT_FORWARD | RDP | VIEW_CAMERA | TERMINAL

record peer_config =
  pc_options :: "string \<rightharpoonup> string"
  pc_password :: string
  pc_username :: string
  pc_hostname :: string
  pc_platform :: string
  pc_show_remote_cursor :: bool
  pc_follow_remote_cursor :: bool
  pc_follow_remote_window :: bool
  pc_disable_audio :: bool
  pc_disable_clipboard :: bool
  pc_lock_after_session_end :: bool
  pc_terminal_persistent :: bool
  pc_privacy_mode :: bool
  pc_enable_file_copy_paste :: bool
  pc_show_quality_monitor :: bool
  pc_allow_swap_key :: bool
  pc_view_only :: bool
  pc_show_my_cursor :: bool
  pc_image_quality :: string
  pc_custom_image_quality :: "int list"
  pc_custom_resolutions :: "int \<rightharpoonup> int \<times> int"
  pc_keyboard_mode :: string

datatype keyboard_mode = Legacy | Map | Translate | Auto

datatype password_source = PersonalAb string | SharedAb string | Undefined

record handler =
  lh_id :: string
  lh_conn_type :: conn_type
  lh_terminal_admin :: bool
  lh_salt :: string
  lh_challenge :: string
  lh_password :: string
  lh_remember :: bool
  lh_config :: peer_config
  lh_port_forward :: "string \<times> nat"
  lh_version :: int
  lh_privacy_feature :: "bool option"
  lh_session_id :: nat
  lh_restarting :: bool
  lh_force_relay :: bool
  lh_direct :: "bool option"
  lh_received :: bool
  lh_switch_uuid :: "string option"
  lh_other_server :: "(string \<times> string \<times> string) option"
  lh_custom_fps :: "int option"
  lh_password_source :: password_source
  lh_shared_password :: "string option"
  lh_enable_trusted_devices :: bool
  lh_selected_session :: "nat option"

record 'd client_env =
  ce_load :: "'d \<Rightarrow> string \<Rightarrow> peer_config"
  ce_store :: "'d \<Rightarrow> string \<Rightarrow> peer_config \<Rightarrow> 'd"
  ce_sha256 :: "string \<Rightarrow> string"
  ce_lower :: "string \<Rightarrow> string"
  ce_upper_first :: "string \<Rightarrow> string"
  ce_terminal_persistent :: string       \<comment> \<open>\<open>OPTION_TERMINAL_PERSISTENT\<close>\<close>
  ce_file_copy_paste :: string           \<comment> \<open>\<open>OPTION_ENABLE_FILE_COPY_PASTE\<close>\<close>
  ce_public_server :: string
  ce_rs_pub_key :: string
  ce_option2bool :: "string \<Rightarrow> string \<Rightarrow> bool"
  ce_use_ws :: bool
  ce_proxy :: bool
  ce_using_public_server :: bool
  ce_conn_token :: "string \<Rightarrow> (string \<times> password_source \<times> nat) option"
  ce_random_sid :: nat
  ce_terminal_admin :: bool              \<comment> \<open>\<open>IS_TERMINAL_ADMIN\<close> is \<open>Y\<close>\<close>
  ce_uuid_ok :: "string \<Rightarrow> bool"
  ce_ab_password :: "string \<Rightarrow> string option"  \<comment> \<open>the decoded hash of the personal address book\<close>
  ce_default_password :: string          \<comment> \<open>\<open>OPTION_DEFAULT_CONNECT_PASSWORD\<close>\<close>
  ce_my_id :: string
  ce_rendezvous :: string
  ce_display_name :: string              \<comment> \<open>the first of the three sources that is not empty\<close>
  ce_my_platform :: string
  ce_hwid :: string
  ce_own_version :: string
  ce_version_number :: "string \<Rightarrow> int"
  ce_keyboard_iter :: "keyboard_mode list"      \<comment> \<open>\<open>KeyboardMode::iter\<close>\<close>
  ce_keyboard_name :: "keyboard_mode \<Rightarrow> string"
  ce_keyboard_of :: "string \<Rightarrow> keyboard_mode"   \<comment> \<open>the default for a name it does not know\<close>
  ce_token :: "string \<times> password_source \<times> nat \<Rightarrow> string"
  ce_errno :: int

definition lawful_disk :: "'d client_env \<Rightarrow> bool" where
  "lawful_disk ce \<longleftrightarrow> (\<forall>d i c. ce_load ce (ce_store ce d i c) i = c)"

type_synonym 'd lstate = "handler \<times> 'd"

definition load_config :: "'d client_env \<Rightarrow> 'd lstate \<Rightarrow> peer_config" where
  "load_config ce = (\<lambda>(h, d). ce_load ce d (lh_id h))"

definition save_config :: "'d client_env \<Rightarrow> peer_config \<Rightarrow> 'd lstate \<Rightarrow> 'd lstate" where
  "save_config ce c = (\<lambda>(h, d). (h\<lparr>lh_config := c\<rparr>, ce_store ce d (lh_id h) c))"

definition change_config :: "'d client_env \<Rightarrow> (peer_config \<Rightarrow> peer_config) \<Rightarrow> 'd lstate \<Rightarrow> 'd lstate" where
  "change_config ce f s = save_config ce (f (load_config ce s)) s"

definition get_option :: "handler \<Rightarrow> string \<Rightarrow> string" where
  "get_option h k = (case pc_options (lh_config h) k of Some v \<Rightarrow> v | None \<Rightarrow> [])"

definition set_option :: "'d client_env \<Rightarrow> string \<Rightarrow> string \<Rightarrow> 'd lstate \<Rightarrow> 'd lstate" where
  "set_option ce k v s =
     (if v = get_option (fst s) k then s else change_config ce (\<lambda>c. c\<lparr>pc_options := (pc_options c)(k \<mapsto> v)\<rparr>) s)"


section \<open>Opening a session\<close>

definition handle_relay_id :: "string \<Rightarrow> string" where
  "handle_relay_id i = (if ends_with i [CHR 0x5C, CHR ''r''] \<or> ends_with i ''/r'' then take (length i - 2) i else i)"

text \<open>The key among the arguments behind the server; the last one counts.\<close>

definition key_arg :: "'d client_env \<Rightarrow> string \<Rightarrow> string" where
  "key_arg ce args =
     (case map_of (rev (concat (map (\<lambda>a. case split_once CHR ''='' a of Some (k, v) \<Rightarrow> [(ce_lower ce k, v)] | None \<Rightarrow> [])
                                 (split_on CHR ''&'' args)))) ''key'' of
        Some v \<Rightarrow> v | None \<Rightarrow> [])"

text \<open>The id, whether it forces the relay, and the other server it names.\<close>

definition read_id :: "'d client_env \<Rightarrow> string \<Rightarrow> string \<times> bool \<times> (string \<times> string \<times> string) option" where
  "read_id ce i =
     (if CHR ''@'' \<in> set i then
        let parts = split_on CHR ''@'' i;
            raw = hd parts;
            rest = split_on CHR ''?'' (case tl parts of [] \<Rightarrow> [] | x # _ \<Rightarrow> x);
            server = hd rest;
            args = (case tl rest of [] \<Rightarrow> [] | x # _ \<Rightarrow> x);
            key = (if server = ce_public_server ce then ce_rs_pub_key ce else key_arg ce args);
            real = handle_relay_id raw
        in (real @ ''@'' @ server, real \<noteq> raw, Some (real, server, key))
      else (handle_relay_id i, handle_relay_id i \<noteq> i, None))"

definition initialize ::
  "'d client_env \<Rightarrow> string \<Rightarrow> conn_type \<Rightarrow> string option \<Rightarrow> bool \<Rightarrow> string option \<Rightarrow> string option \<Rightarrow> 'd lstate \<Rightarrow> 'd lstate" where
  "initialize ce i ty switch_uuid force_relay shared token = (\<lambda>(h, d).
     let (real_id, relayed, other) = read_id ce i;
         other1 = (case other of None \<Rightarrow> lh_other_server h | o' \<Rightarrow> o');
         cfg = ce_load ce d real_id;
         tok = Option.bind token (ce_conn_token ce);
         sid0 = (case tok of Some (_, _, n) \<Rightarrow> n | None \<Rightarrow> 0);
         sid = (if sid0 = 0 then (if ce_random_sid ce = 0 then 1 else ce_random_sid ce) else sid0);
         h1 = h\<lparr>lh_id := real_id, lh_conn_type := ty, lh_config := cfg, lh_remember := (pc_password cfg \<noteq> []),
                lh_password := (case tok of Some (p, _, _) \<Rightarrow> p | None \<Rightarrow> lh_password h),
                lh_password_source := (case tok of Some (_, q, _) \<Rightarrow> q | None \<Rightarrow> lh_password_source h),
                lh_session_id := sid, lh_restarting := False\<rparr>;
         relay = (ce_option2bool ce ''force-always-relay'' (get_option h1 ''force-always-relay'') \<or> force_relay \<or> relayed
                  \<or> ce_use_ws ce \<or> ce_proxy ce);
         kept = get_option h1 ''other-server-key'';
         other2 = (case other1 of Some (r, s, k) \<Rightarrow> Some (r, s, if k = [] \<and> kept \<noteq> [] then kept else k) | None \<Rightarrow> None)
     in (h1\<lparr>lh_force_relay := relay, lh_other_server := other2, lh_direct := None, lh_received := False,
            lh_switch_uuid := switch_uuid, lh_selected_session := None, lh_shared_password := shared,
            lh_terminal_admin := (ty = TERMINAL \<and> ce_terminal_admin ce)\<rparr>, d))"

definition should_auto_login :: "handler \<Rightarrow> string" where
  "should_auto_login h =
     (if get_option h ''os-password'' \<noteq> [] \<and> pc_lock_after_session_end (lh_config h) \<and> get_option h ''auto-login'' \<noteq> []
      then get_option h ''os-password'' else [])"


section \<open>Options\<close>

definition get_toggle_option :: "'d client_env \<Rightarrow> handler \<Rightarrow> string \<Rightarrow> bool" where
  "get_toggle_option ce h name =
     (let c = lh_config h in
      if name = ''show-remote-cursor'' then pc_show_remote_cursor c
      else if name = ''lock-after-session-end'' then pc_lock_after_session_end c
      else if name = ce_terminal_persistent ce then pc_terminal_persistent c
      else if name = ''privacy-mode'' then pc_privacy_mode c
      else if name = ce_file_copy_paste ce then pc_enable_file_copy_paste c
      else if name = ''disable-audio'' then pc_disable_audio c
      else if name = ''disable-clipboard'' then pc_disable_clipboard c
      else if name = ''show-quality-monitor'' then pc_show_quality_monitor c
      else if name = ''allow_swap_key'' then pc_allow_swap_key c
      else if name = ''view-only'' then pc_view_only c
      else if name = ''show-my-cursor'' then pc_show_my_cursor c
      else if name = ''follow-remote-cursor'' then pc_follow_remote_cursor c
      else if name = ''follow-remote-window'' then pc_follow_remote_window c
      else get_option h name \<noteq> [])"

definition empty_option_msg :: option_msg where
  "empty_option_msg = \<lparr>om_image_quality = Some 0, om_custom_image_quality = 0, om_custom_fps = 0, om_supported_decoding = False,
     om_lock_after_session_end = Some NotSet, om_show_remote_cursor = Some NotSet, om_follow_remote_cursor = Some NotSet,
     om_follow_remote_window = Some NotSet, om_disable_audio = Some NotSet, om_enable_file_transfer = Some NotSet,
     om_disable_clipboard = Some NotSet, om_disable_keyboard = Some NotSet, om_privacy_mode = Some NotSet,
     om_block_input = Some NotSet, om_terminal_persistent = Some NotSet, om_show_my_cursor = Some NotSet\<rparr>"

definition yes_no :: "bool \<Rightarrow> bool_option option" where
  "yes_no b = Some (if b then Yes else No)"

definition yes_if :: "bool \<Rightarrow> bool_option option" where
  "yes_if b = Some (if b then Yes else NotSet)"

definition shl8_i32 :: "int \<Rightarrow> int" where
  "shl8_i32 q = wrap32 (q * 256)"

text \<open>The switches of a session; the message tells the host.\<close>

definition toggle_view_only :: "'d client_env \<Rightarrow> handler \<Rightarrow> peer_config \<Rightarrow> peer_config \<times> option_msg" where
  "toggle_view_only ce h c =
     (let c1 = c\<lparr>pc_view_only := \<not> pc_view_only c\<rparr> in
      if pc_view_only c1 then
        (c1, empty_option_msg\<lparr>om_disable_keyboard := yes_no True, om_disable_clipboard := yes_no True,
               om_show_remote_cursor := yes_no True, om_enable_file_transfer := yes_no False,
               om_lock_after_session_end := yes_no False\<rparr>)
      else
        (c1\<lparr>pc_show_my_cursor := False\<rparr>,
         empty_option_msg\<lparr>om_disable_keyboard := yes_no False,
           om_disable_clipboard := yes_no (get_toggle_option ce h ''disable-clipboard''),
           om_show_remote_cursor := yes_no (get_toggle_option ce h ''show-remote-cursor''),
           om_enable_file_transfer := yes_no (pc_enable_file_copy_paste (lh_config h)),
           om_lock_after_session_end := yes_no (pc_lock_after_session_end (lh_config h)),
           om_show_my_cursor := (if pc_show_my_cursor c then yes_no False else Some NotSet)\<rparr>))"

definition toggled :: "'d client_env \<Rightarrow> handler \<Rightarrow> string \<Rightarrow> peer_config \<Rightarrow> (peer_config \<times> option_msg) option" where
  "toggled ce h name c =
     (if name = ''show-remote-cursor'' then
        (let b = (\<not> pc_show_remote_cursor c) in Some (c\<lparr>pc_show_remote_cursor := b\<rparr>, empty_option_msg\<lparr>om_show_remote_cursor := yes_no b\<rparr>))
      else if name = ''follow-remote-cursor'' then
        (let b = (\<not> pc_follow_remote_cursor c) in Some (c\<lparr>pc_follow_remote_cursor := b\<rparr>, empty_option_msg\<lparr>om_follow_remote_cursor := yes_no b\<rparr>))
      else if name = ''follow-remote-window'' then
        (let b = (\<not> pc_follow_remote_window c) in Some (c\<lparr>pc_follow_remote_window := b\<rparr>, empty_option_msg\<lparr>om_follow_remote_window := yes_no b\<rparr>))
      else if name = ''disable-audio'' then
        (let b = (\<not> pc_disable_audio c) in Some (c\<lparr>pc_disable_audio := b\<rparr>, empty_option_msg\<lparr>om_disable_audio := yes_no b\<rparr>))
      else if name = ''disable-clipboard'' then
        (let b = (\<not> pc_disable_clipboard c) in Some (c\<lparr>pc_disable_clipboard := b\<rparr>, empty_option_msg\<lparr>om_disable_clipboard := yes_no b\<rparr>))
      else if name = ''lock-after-session-end'' then
        (let b = (\<not> pc_lock_after_session_end c) in Some (c\<lparr>pc_lock_after_session_end := b\<rparr>, empty_option_msg\<lparr>om_lock_after_session_end := yes_no b\<rparr>))
      else if name = ce_terminal_persistent ce then
        (let b = (\<not> pc_terminal_persistent c) in Some (c\<lparr>pc_terminal_persistent := b\<rparr>, empty_option_msg\<lparr>om_terminal_persistent := yes_no b\<rparr>))
      else if name = ''privacy-mode'' then Some (c, empty_option_msg\<lparr>om_privacy_mode := yes_no (\<not> pc_privacy_mode c)\<rparr>)
      else if name = ''enable-file-copy-paste'' then
        (let b = (\<not> pc_enable_file_copy_paste c) in Some (c\<lparr>pc_enable_file_copy_paste := b\<rparr>, empty_option_msg\<lparr>om_enable_file_transfer := yes_no b\<rparr>))
      else if name = ''block-input'' then Some (c, empty_option_msg\<lparr>om_block_input := yes_no True\<rparr>)
      else if name = ''unblock-input'' then Some (c, empty_option_msg\<lparr>om_block_input := yes_no False\<rparr>)
      else if name = ''show-quality-monitor'' then Some (c\<lparr>pc_show_quality_monitor := \<not> pc_show_quality_monitor c\<rparr>, empty_option_msg)
      else if name = ''allow_swap_key'' then Some (c\<lparr>pc_allow_swap_key := \<not> pc_allow_swap_key c\<rparr>, empty_option_msg)
      else if name = ''view-only'' then Some (toggle_view_only ce h c)
      else if name = ''show-my-cursor'' then
        (let b = (\<not> pc_show_my_cursor c) in Some (c\<lparr>pc_show_my_cursor := b\<rparr>, empty_option_msg\<lparr>om_show_my_cursor := yes_no b\<rparr>))
      else None)"

definition toggle_option :: "'d client_env \<Rightarrow> string \<Rightarrow> 'd lstate \<Rightarrow> 'd lstate \<times> option_msg option" where
  "toggle_option ce name s =
     (case toggled ce (fst s) name (load_config ce s) of
        Some (c, msg) \<Rightarrow> (if contains_str name ''block-input'' then s else save_config ce c s, Some msg)
      | None \<Rightarrow>
          let c = lh_config (fst s);
              is_set = (case pc_options c name of Some v \<Rightarrow> v \<noteq> [] | None \<Rightarrow> False)
          in (save_config ce (c\<lparr>pc_options := (pc_options c)(name := (if is_set then None else Some ''Y''))\<rparr>) s, None))"

definition get_image_quality_enum :: "string \<Rightarrow> bool \<Rightarrow> int option" where
  "get_image_quality_enum q ignore_default =
     (if q = ''low'' then Some 2 else if q = ''best'' then Some 4
      else if q = ''balanced'' then (if ignore_default then None else Some 3) else None)"

definition parse_i32 :: "string \<Rightarrow> int option" where
  "parse_i32 s =
     (case s of
        c # r \<Rightarrow> (if c = CHR ''-'' then map_option (\<lambda>n. - int n) (case r of CHR ''+'' # _ \<Rightarrow> None | _ \<Rightarrow> parse_uint (2 ^ 31) r)
                  else map_option int (parse_uint (2 ^ 31 - 1) s))
      | [] \<Rightarrow> None)"

text \<open>The message of the login, and the rate the handler notes on the way.\<close>

definition get_option_message :: "'d client_env \<Rightarrow> 'd lstate \<Rightarrow> option_msg option \<times> int option" where
  "get_option_message ce s =
     (let h = fst s; tog = get_toggle_option ce h in
      if lh_conn_type h \<in> {PORT_FORWARD, RDP, FILE_TRANSFER} then (None, lh_custom_fps h)
      else if lh_conn_type h = TERMINAL then
        (if tog (ce_terminal_persistent ce) then Some (empty_option_msg\<lparr>om_terminal_persistent := Some Yes\<rparr>) else None, lh_custom_fps h)
      else
        let q = pc_image_quality (lh_config h);
            allow_more = (\<not> ce_using_public_server ce \<or> lh_direct h = Some True);
            (base, fps) =
              (case get_image_quality_enum q True of
                 Some e \<Rightarrow> (empty_option_msg\<lparr>om_image_quality := Some e\<rparr>, lh_custom_fps h)
               | None \<Rightarrow>
                   if q = ''custom'' then
                     let cq = pc_custom_image_quality (load_config ce s);
                         quality = (case cq of [] \<Rightarrow> 50 | x # _ \<Rightarrow> if \<not> allow_more \<and> x > 100 then 50 else x);
                         m = empty_option_msg\<lparr>om_custom_image_quality := shl8_i32 quality\<rparr>
                     in (case pc_options (lh_config h) ''custom-fps'' of
                           None \<Rightarrow> (m, lh_custom_fps h)
                         | Some v \<Rightarrow>
                             let f0 = (case parse_i32 v of Some n \<Rightarrow> n | None \<Rightarrow> 30);
                                 f = (if \<not> allow_more \<and> f0 > 30 then 30 else f0)
                             in (m\<lparr>om_custom_fps := f\<rparr>, Some f))
                   else (empty_option_msg, lh_custom_fps h));
            view_only = tog ''view-only''
        in (Some (base\<lparr>om_disable_keyboard := yes_if view_only,
              om_show_remote_cursor := yes_if (view_only \<or> tog ''show-remote-cursor''),
              om_show_my_cursor := yes_if (view_only \<and> tog ''show-my-cursor''),
              om_follow_remote_cursor := yes_if (tog ''follow-remote-cursor''),
              om_follow_remote_window := yes_if (tog ''follow-remote-window''),
              om_lock_after_session_end := yes_if (\<not> view_only \<and> tog ''lock-after-session-end''),
              om_disable_audio := yes_if (tog ''disable-audio''),
              om_enable_file_transfer := yes_if (\<not> view_only \<and> tog (ce_file_copy_paste ce)),
              om_disable_clipboard := yes_if (view_only \<or> tog ''disable-clipboard''),
              om_supported_decoding := True\<rparr>), fps))"

definition save_custom_image_quality :: "'d client_env \<Rightarrow> int \<Rightarrow> 'd lstate \<Rightarrow> 'd lstate \<times> option_msg" where
  "save_custom_image_quality ce q s =
     (change_config ce (\<lambda>c. c\<lparr>pc_image_quality := ''custom'', pc_custom_image_quality := [q]\<rparr>) s,
      empty_option_msg\<lparr>om_custom_image_quality := shl8_i32 q\<rparr>)"

definition save_image_quality :: "'d client_env \<Rightarrow> string \<Rightarrow> 'd lstate \<Rightarrow> 'd lstate \<times> option_msg option" where
  "save_image_quality ce v s =
     (change_config ce (\<lambda>c. c\<lparr>pc_image_quality := v\<rparr>) s,
      map_option (\<lambda>e. empty_option_msg\<lparr>om_image_quality := Some e\<rparr>) (get_image_quality_enum v False))"

definition show_int :: "int \<Rightarrow> string" where
  "show_int i = (if i < 0 then CHR ''-'' # show_nat (nat (- i)) else show_nat (nat i))"

definition set_custom_fps :: "'d client_env \<Rightarrow> int \<Rightarrow> bool \<Rightarrow> 'd lstate \<Rightarrow> 'd lstate \<times> option_msg" where
  "set_custom_fps ce fps keep s =
     (let (h, d) = (if keep then change_config ce (\<lambda>c. c\<lparr>pc_options := (pc_options c)(''custom-fps'' \<mapsto> show_int fps)\<rparr>) s else s)
      in ((h\<lparr>lh_custom_fps := Some fps\<rparr>, d), empty_option_msg\<lparr>om_custom_fps := fps\<rparr>))"

definition get_custom_resolution :: "handler \<Rightarrow> int \<Rightarrow> (int \<times> int) option" where
  "get_custom_resolution h display = pc_custom_resolutions (lh_config h) display"

definition set_custom_resolution :: "'d client_env \<Rightarrow> int \<Rightarrow> (int \<times> int) option \<Rightarrow> 'd lstate \<Rightarrow> 'd lstate" where
  "set_custom_resolution ce display wh =
     change_config ce (\<lambda>c. c\<lparr>pc_custom_resolutions := (pc_custom_resolutions c)(display := wh)\<rparr>)"



section \<open>Offers of a time\<close>

text \<open>\<open>PENDING_SCHED\<close>: the offers that wait for a login to the peer.\<close>

type_synonym pending = "string \<rightharpoonup> sched_req"

definition set_pending_sched :: "string \<Rightarrow> sched_req \<Rightarrow> pending \<Rightarrow> pending" where
  "set_pending_sched i r m = m(i \<mapsto> r)"

definition get_pending_sched :: "string \<Rightarrow> pending \<Rightarrow> sched_req option" where
  "get_pending_sched i m = m i"

definition clear_pending_sched :: "string \<Rightarrow> pending \<Rightarrow> pending" where
  "clear_pending_sched i m = m(i := None)"

definition clear_cr_sched_req :: "handler \<Rightarrow> pending \<Rightarrow> pending" where
  "clear_cr_sched_req h = clear_pending_sched (lh_id h)"


section \<open>The login request\<close>

definition get_key_terminal_service_id :: "handler \<Rightarrow> string" where
  "get_key_terminal_service_id h = (if lh_terminal_admin h then ''terminal-admin-service-id'' else ''terminal-service-id'')"

definition capitalized :: "'d client_env \<Rightarrow> string \<Rightarrow> string" where
  "capitalized ce name = concat (case map (ce_upper_first ce) (split_whitespace name) of [] \<Rightarrow> [] | w # ws \<Rightarrow> w # map (\<lambda>x. '' '' @ x) ws)"

definition create_login_msg ::
  "'d client_env \<Rightarrow> pending \<Rightarrow> string \<Rightarrow> string \<Rightarrow> 'd lstate \<Rightarrow> login_request \<times> option_msg option" where
  "create_login_msg ce pend os_username password s =
     (let h = fst s;
          (my_id, pure) = (case lh_other_server h of
                             Some (i, _, _) \<Rightarrow> (ce_my_id ce @ ''@'' @ ce_rendezvous ce, i)
                           | None \<Rightarrow> (ce_my_id ce, lh_id h))
      in (\<lparr>lr_username = pure, lr_my_id = my_id, lr_my_name = capitalized ce (ce_display_name ce),
           lr_my_platform = ce_my_platform ce, lr_password = password, lr_session_id = lh_session_id h,
           lr_hwid = (if get_option h ''trust-this-device'' = ''Y'' then ce_hwid ce else []),
           lr_version = ce_own_version ce, lr_os_username = os_username,
           lr_union_of = (case lh_conn_type h of
                            FILE_TRANSFER \<Rightarrow> LrFileTransfer
                          | VIEW_CAMERA \<Rightarrow> LrViewCamera
                          | PORT_FORWARD \<Rightarrow> LrPortForward (fst (lh_port_forward h)) (snd (lh_port_forward h))
                          | RDP \<Rightarrow> LrPortForward (fst (lh_port_forward h)) (snd (lh_port_forward h))
                          | TERMINAL \<Rightarrow> LrTerminal
                          | DEFAULT_CONN \<Rightarrow> LrDefault),
           lr_sched = get_pending_sched (lh_id h) pend\<rparr>,
          fst (get_option_message ce s)))"

datatype login_act =
    SendLogin login_request "option_msg option"
  | SendSwitchSides string login_request
  | LoginBox string

definition send_login :: "'d client_env \<Rightarrow> pending \<Rightarrow> string \<Rightarrow> string \<Rightarrow> 'd lstate \<Rightarrow> 'd lstate \<times> login_act list" where
  "send_login ce pend os_username password s =
     (let (lr, om) = create_login_msg ce pend os_username password s
      in ((fst s\<lparr>lh_custom_fps := snd (get_option_message ce s)\<rparr>, snd s), [SendLogin lr om]))"

definition salted :: "'d client_env \<Rightarrow> handler \<Rightarrow> string \<Rightarrow> string" where
  "salted ce h p = ce_sha256 ce (p @ lh_salt h)"

text \<open>Which password is tried: the last one or the preset one, a shared one before all, then the stored ones.\<close>

definition choose_password :: "'d client_env \<Rightarrow> string \<Rightarrow> handler \<Rightarrow> handler" where
  "choose_password ce preset h0 =
     (let p0 = lh_password h0;
          (p1, h1) = (if p0 = [] \<and> preset \<noteq> [] then (salted ce h0 preset, h0\<lparr>lh_password_source := Undefined\<rparr>) else (p0, h0));
          (p2, h2) = (case lh_shared_password h1 of
                        Some sp \<Rightarrow> if sp \<noteq> [] then (salted ce h1 sp, h1\<lparr>lh_shared_password := None, lh_password_source := SharedAb sp\<rparr>)
                                   else (p1, h1\<lparr>lh_shared_password := None\<rparr>)
                      | None \<Rightarrow> (p1, h1));
          (p3, h3) = (if p2 = [] \<and> pc_password (lh_config h2) \<noteq> []
                      then (pc_password (lh_config h2), h2\<lparr>lh_password_source := Undefined\<rparr>) else (p2, h2));
          (p4, h4) = (if p3 = [] then
                        (case ce_ab_password ce (lh_id h3) of
                           Some hp \<Rightarrow> if hp \<noteq> [] then (hp, h3\<lparr>lh_password_source := PersonalAb hp\<rparr>) else (p3, h3)
                         | None \<Rightarrow> (p3, h3))
                      else (p3, h3));
          (p5, h5) = (if p4 = [] \<and> ce_default_password ce \<noteq> []
                      then (salted ce h4 (ce_default_password ce), h4\<lparr>lh_password_source := SharedAb (ce_default_password ce)\<rparr>)
                      else (p4, h4))
      in h5\<lparr>lh_password := p5\<rparr>)"

definition handle_password :: "'d client_env \<Rightarrow> pending \<Rightarrow> string \<Rightarrow> handler \<Rightarrow> 'd \<Rightarrow> 'd lstate \<times> login_act list" where
  "handle_password ce pend preset h0 d =
     (let h = choose_password ce preset h0; p = lh_password h in
      if lh_conn_type h = TERMINAL \<and> lh_terminal_admin h
      then ((h, d), [LoginBox (if p = [] then ''terminal-admin-login-password'' else ''terminal-admin-login'')])
      else
        let pw = (if p = [] then [] else ce_sha256 ce (p @ lh_challenge h));
            os_username = (if lh_conn_type h = TERMINAL then [] else get_option h ''os-username'');
            (s, as) = send_login ce pend os_username pw (h, d)
        in (s, (if p = [] then [LoginBox ''input-password-pending''] else []) @ as))"

definition handle_hash :: "'d client_env \<Rightarrow> pending \<Rightarrow> string \<Rightarrow> string \<Rightarrow> string \<Rightarrow> 'd lstate \<Rightarrow> 'd lstate \<times> login_act list" where
  "handle_hash ce pend preset salt challenge = (\<lambda>(h0, d).
     let h = h0\<lparr>lh_salt := salt, lh_challenge := challenge, lh_switch_uuid := None\<rparr>
     in case lh_switch_uuid h0 of
          Some u \<Rightarrow>
            if ce_uuid_ok ce u
            then ((h\<lparr>lh_password_source := Undefined, lh_custom_fps := snd (get_option_message ce (h, d))\<rparr>, d), [SendSwitchSides u (fst (create_login_msg ce pend [] [] (h, d)))])
            else handle_password ce pend preset h d
        | None \<Rightarrow> handle_password ce pend preset h d)"

definition handle_login_from_ui ::
  "'d client_env \<Rightarrow> pending \<Rightarrow> string \<Rightarrow> string \<Rightarrow> bool \<Rightarrow> 'd lstate \<Rightarrow> 'd lstate \<times> login_act list" where
  "handle_login_from_ui ce pend os_username password remember = (\<lambda>(h, d).
     let (p, h1) =
           (if password = [] then
              (if lh_password h \<noteq> [] then (lh_password h, h)
               else (pc_password (lh_config h),
                     if pc_password (lh_config h) \<noteq> [] then h\<lparr>lh_password_source := Undefined\<rparr> else h))
            else (salted ce h password, h\<lparr>lh_password_source := Undefined, lh_remember := remember\<rparr>));
         h2 = h1\<lparr>lh_password := p\<rparr>
     in send_login ce pend os_username (ce_sha256 ce (p @ lh_challenge h2)) (h2, d))"

text \<open>
  The errors of the host that open a box; the second component tells whether the session
  goes on.
\<close>

definition login_error_map :: "string \<rightharpoonup> string \<times> bool" where
  "login_error_map =
     [''Wayland login screen is not supported'' \<mapsto> (''error'', True),
      ''Desktop session not ready'' \<mapsto> (''session-login'', True),
      ''Desktop xsession failed'' \<mapsto> (''session-re-login'', True),
      ''Desktop session another user login'' \<mapsto> (''info-nocancel'', False),
      ''Desktop xorg not found'' \<mapsto> (''info-nocancel'', True),
      ''Desktop none'' \<mapsto> (''info-nocancel'', True),
      ''Desktop session not ready, password empty'' \<mapsto> (''session-login-password'', True),
      ''Desktop session not ready, password wrong'' \<mapsto> (''session-login-re-password'', True),
      ''No Password Access'' \<mapsto> (''wait-remote-accept-nook'', True),
      ''No Password Access Locked'' \<mapsto> (''wait-remote-accept-nook'', True)]"

text \<open>
  What the viewer does when the host refuses: the password that was wrong is forgotten, a
  wrong code ends the trust in this device. The first component of the result is whether the
  session goes on.
\<close>

definition handle_login_error :: "'d client_env \<Rightarrow> string \<Rightarrow> 'd lstate \<Rightarrow> bool \<times> 'd lstate \<times> login_act list" where
  "handle_login_error ce err s =
     (if err = ''Empty Password'' then (True, (fst s\<lparr>lh_password := []\<rparr>, snd s), [LoginBox ''input-password''])
      else if err = ''Wrong Password'' then (True, (fst s\<lparr>lh_password := []\<rparr>, snd s), [LoginBox ''re-input-password''])
      else if err = ''Wrong 2FA Code'' \<or> err = ''2FA Required'' then
        (True, if get_option (fst s) ''trust-this-device'' = ''Y'' then set_option ce ''trust-this-device'' [] s else s,
         [LoginBox ''input-2fa''])
      else case login_error_map err of
          Some (box, again) \<Rightarrow> (again, s, [LoginBox box])
        | None \<Rightarrow> (False, s, [LoginBox ''error'']))"


section \<open>After the login\<close>

record peer_info =
  pi_version :: string
  pi_username :: string
  pi_hostname :: string
  pi_platform :: string
  pi_privacy :: "bool option"

definition is_personal_ab :: "password_source \<Rightarrow> string \<Rightarrow> bool" where
  "is_personal_ab src p \<longleftrightarrow> p \<noteq> [] \<and> (case src of PersonalAb q \<Rightarrow> q = p | _ \<Rightarrow> False)"

definition password_equal :: "'d client_env \<Rightarrow> string \<Rightarrow> string \<Rightarrow> string \<Rightarrow> bool" where
  "password_equal ce salt p connected \<longleftrightarrow> connected = ce_sha256 ce (p @ salt)"

definition is_shared_ab :: "'d client_env \<Rightarrow> string \<Rightarrow> password_source \<Rightarrow> string \<Rightarrow> bool" where
  "is_shared_ab ce salt src p \<longleftrightarrow> p \<noteq> [] \<and> (case src of SharedAb q \<Rightarrow> password_equal ce salt q p | _ \<Rightarrow> False)"

definition is_keyboard_mode_supported :: "'d client_env \<Rightarrow> keyboard_mode \<Rightarrow> int \<Rightarrow> string \<Rightarrow> bool" where
  "is_keyboard_mode_supported ce mode version platform =
     (case mode of
        Legacy \<Rightarrow> True
      | Map \<Rightarrow> ce_lower ce platform \<noteq> ce_lower ce ''Android'' \<and> version \<ge> ce_version_number ce ''1.2.0''
      | _ \<Rightarrow> version \<ge> ce_version_number ce ''1.2.0'')"

definition get_supported_keyboard_modes :: "'d client_env \<Rightarrow> int \<Rightarrow> string \<Rightarrow> keyboard_mode list" where
  "get_supported_keyboard_modes ce version platform =
     filter (\<lambda>m. is_keyboard_mode_supported ce m version platform) (ce_keyboard_iter ce)"

text \<open>What becomes of the stored password.\<close>

definition remembered :: "'d client_env \<Rightarrow> handler \<Rightarrow> string \<Rightarrow> string" where
  "remembered ce h stored =
     (let p = lh_password h in
      if lh_remember h then
        (if p \<noteq> [] \<and> p \<noteq> stored \<and> \<not> is_shared_ab ce (lh_salt h) (lh_password_source h) p then p else stored)
      else if is_personal_ab (lh_password_source h) p then p else [])"

definition chosen_keyboard :: "'d client_env \<Rightarrow> peer_info \<Rightarrow> string \<Rightarrow> string" where
  "chosen_keyboard ce info mode =
     (let v = ce_version_number ce (pi_version info) in
      if mode = [] then
        ce_keyboard_name ce (if is_keyboard_mode_supported ce Map v (pi_platform info) then Map else Legacy)
      else if ce_keyboard_of ce mode \<in> set (get_supported_keyboard_modes ce v (pi_platform info)) then mode
      else ce_keyboard_name ce Legacy)"

text \<open>The second component is the password the address book is told of.\<close>

definition handle_peer_info :: "'d client_env \<Rightarrow> peer_info \<Rightarrow> 'd lstate \<Rightarrow> 'd lstate \<times> string option" where
  "handle_peer_info ce info s =
     (let h0 = fst s;
          h = h0\<lparr>lh_version := (if pi_version info \<noteq> [] then ce_version_number ce (pi_version info) else lh_version h0),
                 lh_privacy_feature := pi_privacy info\<rparr>;
          c0 = load_config ce s;
          p = lh_password h;
          c1 = c0\<lparr>pc_username := pi_username info, pc_hostname := pi_hostname info, pc_platform := pi_platform info,
                  pc_password := remembered ce h (pc_password c0)\<rparr>;
          c2 = (case lh_other_server h of
                  Some (_, b, k) \<Rightarrow> if b \<noteq> ce_public_server ce then c1\<lparr>pc_options := (pc_options c1)(''other-server-key'' \<mapsto> k)\<rparr> else c1
                | None \<Rightarrow> c1);
          c3 = (if lh_force_relay h then c2\<lparr>pc_options := (pc_options c2)(''force-always-relay'' \<mapsto> ''Y'')\<rparr> else c2);
          c4 = c3\<lparr>pc_keyboard_mode := chosen_keyboard ce info (pc_keyboard_mode c3)\<rparr>
      in (save_config ce c4 (h, snd s),
          if pc_password c3 \<noteq> [] \<and> \<not> is_shared_ab ce (lh_salt h) (lh_password_source h) p
             \<and> \<not> is_personal_ab (lh_password_source h) p
          then Some (pc_password c3) else None))"

definition get_conn_token :: "'d client_env \<Rightarrow> handler \<Rightarrow> string option" where
  "get_conn_token ce h =
     (if lh_password h = [] then None else Some (ce_token ce (lh_password h, lh_password_source h, lh_session_id h)))"


section \<open>Errors of the connection\<close>

definition on_establish_connection_error :: "'d client_env \<Rightarrow> string \<Rightarrow> handler \<Rightarrow> string" where
  "on_establish_connection_error ce err h =
     (if lh_direct h = Some True
         \<and> (ce_errno ce = 10054 \<or> contains_str err ''10054'' \<or> \<not> contains_str err ''Failed'' \<and> contains_str err ''deadline'')
      then (if lh_received h then ''relay-hint'' else ''relay-hint2'') else ''error'')"

definition check_if_retry :: "'d client_env \<Rightarrow> string \<Rightarrow> string \<Rightarrow> string \<Rightarrow> bool \<Rightarrow> bool" where
  "check_if_retry ce msgtype title txt retry_for_relay \<longleftrightarrow>
     (let low = ce_lower ce txt in
      msgtype = ''error'' \<and> title = ''Connection Error''
      \<and> ((contains_str txt ''10054'' \<or> contains_str txt ''104'') \<and> retry_for_relay
         \<or> \<not> contains_str low ''offline'' \<and> \<not> contains_str low ''not exist''
           \<and> (\<not> contains_str low ''handshake''
              \<or> contains_str low ''connection reset without closing handshake'' \<and> ce_use_ws ce)
           \<and> \<not> contains_str low ''failed'' \<and> \<not> contains_str low ''resolve'' \<and> \<not> contains_str low ''mismatch''
           \<and> \<not> contains_str low ''manually'' \<and> \<not> contains_str low ''restricted'' \<and> \<not> contains_str low ''not allowed''))"

section \<open>The password that was remembered\<close>

lemma send_login_request:
  "\<exists>s' lr om. send_login ce pend u pw s = (s', [SendLogin lr om]) \<and> lr_password lr = pw
     \<and> lh_password (fst s') = lh_password (fst s) \<and> lh_remember (fst s') = lh_remember (fst s)
     \<and> lh_password_source (fst s') = lh_password_source (fst s) \<and> lh_id (fst s') = lh_id (fst s)
     \<and> lh_salt (fst s') = lh_salt (fst s) \<and> snd s' = snd s"
  by (auto simp: send_login_def create_login_msg_def case_prod_beta Let_def)

lemma loaded_after_save: "lawful_disk ce \<Longrightarrow> ce_load ce (snd (save_config ce c s)) (lh_id (fst s)) = c"
  by (simp add: lawful_disk_def save_config_def case_prod_beta)

lemma stored_password:
  assumes "lawful_disk ce"
  shows "pc_password (ce_load ce (snd (fst (handle_peer_info ce info s))) (lh_id (fst s)))
    = remembered ce (fst s) (pc_password (load_config ce s))"
proof -
  have "remembered ce (h\<lparr>lh_version := v, lh_privacy_feature := f\<rparr>) q = remembered ce h q"
    "remembered ce (h\<lparr>lh_privacy_feature := f\<rparr>) q = remembered ce h q" for h v f q
    by (simp_all add: remembered_def Let_def)
  then show ?thesis
    using assms by (cases s) (simp add: handle_peer_info_def save_config_def lawful_disk_def Let_def split: option.splits)
qed

lemma accepted:
  assumes "pw \<noteq> []" "lr_password lr = e_sha256 env (e_sha256 env (pw @ conn_salt cn) @ ch)"
  shows "validate_password_plain env (cn\<lparr>conn_challenge := ch, conn_lr := lr\<rparr>) pw"
proof -
  have "constant_time_eq a a" for a
    unfolding constant_time_eq_def or_fold_zero by simp
  then show ?thesis using assms by (simp add: validate_password_plain_def verify_h1_def)
qed

lemma stored_is_tried:
  assumes "lh_password h = []" and "pc_password (ce_load ce d (fst (read_id ce i))) = q" "q \<noteq> []"
    and "shared = None \<or> shared = Some []" and "\<not> (ty = TERMINAL \<and> ce_terminal_admin ce)"
  shows "\<exists>s' lr om. handle_hash ce pend [] salt ch (initialize ce i ty None relay shared None (h, d)) = (s', [SendLogin lr om])
    \<and> lr_password lr = ce_sha256 ce (q @ ch)"
proof -
  obtain real rel oth where r: "read_id ce i = (real, rel, oth)" by (cases "read_id ce i")
  let ?s = "initialize ce i ty None relay shared None (h, d)"
  let ?h = "(fst ?s)\<lparr>lh_salt := salt, lh_challenge := ch, lh_switch_uuid := None\<rparr>"
  have h: "lh_password ?h = []" "pc_password (lh_config ?h) = q" "lh_conn_type ?h = ty" "lh_challenge ?h = ch"
    "lh_terminal_admin ?h = (ty = TERMINAL \<and> ce_terminal_admin ce)" "lh_shared_password ?h = shared"
    using assms by (simp_all add: initialize_def r Let_def)
  have c: "lh_password (choose_password ce [] ?h) = q" "lh_conn_type (choose_password ce [] ?h) = ty"
    "lh_challenge (choose_password ce [] ?h) = ch"
    "lh_terminal_admin (choose_password ce [] ?h) = (ty = TERMINAL \<and> ce_terminal_admin ce)"
    using h assms(3,4) by (auto simp: choose_password_def Let_def)
  have "handle_hash ce pend [] salt ch ?s = handle_password ce pend [] ?h (snd ?s)"
    by (simp add: handle_hash_def initialize_def r Let_def)
  moreover obtain u where "handle_password ce pend [] ?h (snd ?s)
      = send_login ce pend u (ce_sha256 ce (q @ ch)) (choose_password ce [] ?h, snd ?s)"
    using c assms(3,5) by (auto simp: handle_password_def Let_def)
  ultimately show ?thesis
    using send_login_request [of ce pend u "ce_sha256 ce (q @ ch)" "(choose_password ce [] ?h, snd ?s)"] by metis
qed

text \<open>
  C14. A password that was entered and remembered logs in again. The right password, typed
  with the choice to remember it, is accepted by the host; the record stored after the login
  makes every later session to the same id send, unasked, a request that the host accepts under
  its new challenge.
\<close>

theorem remembered_password_logs_in_again:
  assumes "lawful_disk ce" and "\<And>x. ce_sha256 ce x \<noteq> []" and "ce_sha256 ce = e_sha256 env" and "pw \<noteq> []"
    and "lh_salt h = conn_salt cn" "lh_challenge h = conn_challenge cn" "fst (read_id ce i) = lh_id h"
    and "lh_password h' = []" and "shared = None \<or> shared = Some []" and "\<not> (ty = TERMINAL \<and> ce_terminal_admin ce)"
  shows "\<exists>s1 lr1 om1. handle_login_from_ui ce pend u pw True (h, d) = (s1, [SendLogin lr1 om1])
    \<and> validate_password_plain env (cn\<lparr>conn_lr := lr1\<rparr>) pw
    \<and> (\<exists>s2 lr2 om2. handle_hash ce pend' [] (conn_salt cn) ch
            (initialize ce i ty None relay shared None (h', snd (fst (handle_peer_info ce info s1)))) = (s2, [SendLogin lr2 om2])
         \<and> validate_password_plain env (cn\<lparr>conn_challenge := ch, conn_lr := lr2\<rparr>) pw)"
proof -
  let ?q = "ce_sha256 ce (pw @ conn_salt cn)"
  let ?h = "h\<lparr>lh_password_source := Undefined, lh_remember := True, lh_password := ?q\<rparr>"
  have "handle_login_from_ui ce pend u pw True (h, d) = send_login ce pend u (ce_sha256 ce (?q @ conn_challenge cn)) (?h, d)"
    using assms(4-6) by (simp add: handle_login_from_ui_def salted_def Let_def)
  then obtain s1 lr1 om1 where s1: "handle_login_from_ui ce pend u pw True (h, d) = (s1, [SendLogin lr1 om1])"
    "lr_password lr1 = ce_sha256 ce (?q @ conn_challenge cn)" "lh_password (fst s1) = ?q" "lh_remember (fst s1)"
    "lh_password_source (fst s1) = Undefined" "lh_id (fst s1) = lh_id h"
    using send_login_request [of ce pend u "ce_sha256 ce (?q @ conn_challenge cn)" "(?h, d)"] by auto
  have "remembered ce (fst s1) st = ?q" for st
    using s1(3-5) assms(2) by (simp add: remembered_def is_shared_ab_def Let_def)
  then have "pc_password (ce_load ce (snd (fst (handle_peer_info ce info s1))) (fst (read_id ce i))) = ?q"
    using stored_password [OF assms(1), of info s1] s1(6) assms(7) by simp
  from stored_is_tried [OF assms(8) this assms(2) assms(9,10)] obtain s2 lr2 om2
    where "handle_hash ce pend' [] (conn_salt cn) ch
        (initialize ce i ty None relay shared None (h', snd (fst (handle_peer_info ce info s1)))) = (s2, [SendLogin lr2 om2])"
      "lr_password lr2 = ce_sha256 ce (?q @ ch)"
    by blast
  moreover have "validate_password_plain env (cn\<lparr>conn_lr := lr1\<rparr>) pw"
    using accepted [OF assms(4), of lr1 env cn "conn_challenge cn"] s1(2) assms(3) by simp
  ultimately show ?thesis
    using s1(1) accepted [OF assms(4), of lr2 env cn ch] assms(3) by auto
qed

definition blank_config :: peer_config where
  "blank_config = \<lparr>pc_options = Map.empty, pc_password = [], pc_username = [], pc_hostname = [], pc_platform = [],
     pc_show_remote_cursor = False, pc_follow_remote_cursor = False, pc_follow_remote_window = False, pc_disable_audio = False,
     pc_disable_clipboard = False, pc_lock_after_session_end = False, pc_terminal_persistent = False, pc_privacy_mode = False,
     pc_enable_file_copy_paste = False, pc_show_quality_monitor = False, pc_allow_swap_key = False, pc_view_only = False,
     pc_show_my_cursor = False, pc_image_quality = ''balanced'', pc_custom_image_quality = [], pc_custom_resolutions = Map.empty,
     pc_keyboard_mode = []\<rparr>"

definition sample_client :: "(string \<Rightarrow> peer_config) client_env" where
  "sample_client = \<lparr>ce_load = (\<lambda>d i. d i), ce_store = (\<lambda>d i c. d(i := c)), ce_sha256 = (\<lambda>x. CHR ''#'' # x), ce_lower = id,
     ce_upper_first = id, ce_terminal_persistent = ''terminal-persistent'', ce_file_copy_paste = ''enable-file-copy-paste'',
     ce_public_server = ''public'', ce_rs_pub_key = ''k'', ce_option2bool = (\<lambda>k v. v = ''Y''), ce_use_ws = False, ce_proxy = False,
     ce_using_public_server = True, ce_conn_token = (\<lambda>_. None), ce_random_sid = 7, ce_terminal_admin = False,
     ce_uuid_ok = (\<lambda>_. True), ce_ab_password = (\<lambda>_. None), ce_default_password = [], ce_my_id = ''tech'',
     ce_rendezvous = ''rs'', ce_display_name = ''kim'', ce_my_platform = ''Windows'', ce_hwid = ''hw'', ce_own_version = ''1.4.0'',
     ce_version_number = (\<lambda>_. 1002000), ce_keyboard_iter = [Legacy, Map, Translate, Auto], ce_keyboard_name = (\<lambda>_. ''map''),
     ce_keyboard_of = (\<lambda>_. Map), ce_token = (\<lambda>_. ''t''), ce_errno = 0\<rparr>"

definition sample_handler :: handler where
  "sample_handler = \<lparr>lh_id = ''123'', lh_conn_type = DEFAULT_CONN, lh_terminal_admin = False, lh_salt = ''s'', lh_challenge = ''ch'',
     lh_password = [], lh_remember = False, lh_config = blank_config, lh_port_forward = ([], 0), lh_version = 0,
     lh_privacy_feature = None, lh_session_id = 7, lh_restarting = False, lh_force_relay = False, lh_direct = None,
     lh_received = False, lh_switch_uuid = None, lh_other_server = None, lh_custom_fps = None, lh_password_source = Undefined,
     lh_shared_password = None, lh_enable_trusted_devices = False, lh_selected_session = None\<rparr>"

definition sample_info :: peer_info where
  "sample_info = \<lparr>pi_version = ''1.4.0'', pi_username = ''u'', pi_hostname = ''h'', pi_platform = ''Windows'', pi_privacy = None\<rparr>"

lemma sample_client_lawful: "lawful_disk sample_client"
  by (simp add: lawful_disk_def sample_client_def)

lemma sample_id: "fst (read_id sample_client ''123'') = ''123''"
  by (simp add: read_id_def handle_relay_id_def ends_with_def suffix_to_prefix)

theorem remembered_password_logs_in_again_witness:
  "\<exists>s1 lr1 om1. handle_login_from_ui sample_client Map.empty [] ''pw'' True (sample_handler, \<lambda>_. blank_config) = (s1, [SendLogin lr1 om1])
    \<and> validate_password_plain (sample_login_env\<lparr>e_sha256 := ce_sha256 sample_client\<rparr>)
        ((sample_conn False)\<lparr>conn_salt := ''s'', conn_challenge := ''ch'', conn_lr := lr1\<rparr>) ''pw''
    \<and> (\<exists>s2 lr2 om2. handle_hash sample_client Map.empty [] ''s'' ''new''
            (initialize sample_client ''123'' FILE_TRANSFER None False None None
               (sample_handler, snd (fst (handle_peer_info sample_client sample_info s1)))) = (s2, [SendLogin lr2 om2])
         \<and> validate_password_plain (sample_login_env\<lparr>e_sha256 := ce_sha256 sample_client\<rparr>)
             ((sample_conn False)\<lparr>conn_salt := ''s'', conn_challenge := ''new'', conn_lr := lr2\<rparr>) ''pw'')"
  using remembered_password_logs_in_again [OF sample_client_lawful,
      of "sample_login_env\<lparr>e_sha256 := ce_sha256 sample_client\<rparr>" "''pw''" sample_handler
        "(sample_conn False)\<lparr>conn_salt := ''s'', conn_challenge := ''ch''\<rparr>" "''123''" sample_handler None FILE_TRANSFER
        Map.empty "[]" "\<lambda>_. blank_config" Map.empty "''new''" False sample_info]
  by (simp add: sample_handler_def sample_id) (simp add: sample_client_def)


section \<open>Passwords of others\<close>

lemma shared_not_remembered:
  assumes "lh_password_source h = SharedAb q" "lh_password h = salted ce h q" "lh_password h \<noteq> []"
  shows "remembered ce h st = st \<or> remembered ce h st = []" "is_shared_ab ce (lh_salt h) (lh_password_source h) (lh_password h)"
  using assms by (simp_all add: remembered_def is_shared_ab_def password_equal_def is_personal_ab_def salted_def Let_def)

lemma handle_hash_keeps_choice:
  fixes ce preset salt ch h
  defines "h' \<equiv> choose_password ce preset (h\<lparr>lh_salt := salt, lh_challenge := ch, lh_switch_uuid := None\<rparr>)"
  assumes "lh_switch_uuid h = None"
  shows "lh_password (fst (fst (handle_hash ce pend preset salt ch (h, d)))) = lh_password h'"
    "lh_password_source (fst (fst (handle_hash ce pend preset salt ch (h, d)))) = lh_password_source h'"
    "lh_salt (fst (fst (handle_hash ce pend preset salt ch (h, d)))) = lh_salt h'"
    "lh_id (fst (fst (handle_hash ce pend preset salt ch (h, d)))) = lh_id h'"
    "snd (fst (handle_hash ce pend preset salt ch (h, d))) = d"
  using assms(2) unfolding handle_hash_def handle_password_def
  by (simp_all add: h'_def send_login_def Let_def case_prod_beta)

lemma choose_password_frame:
  "lh_salt (choose_password ce preset h) = lh_salt h" "lh_id (choose_password ce preset h) = lh_id h"
  by (simp_all add: choose_password_def Let_def split: option.split)

text \<open>
  C26. A password that is not the technician's own stays off the disk. When the session was
  opened with the password of a shared address book, or falls back to the one the company
  presets, that password is what is tried, and whatever was chosen about remembering, the
  record stored after the login holds the password it held before or none, and the personal
  address book is not told.
\<close>

theorem shared_password_not_stored:
  assumes "lawful_disk ce" and "\<And>x. ce_sha256 ce x \<noteq> []" and "lh_switch_uuid h = None" and "sp \<noteq> []"
    and "lh_shared_password h = Some sp
       \<or> sp = ce_default_password ce \<and> lh_shared_password h = None \<and> lh_password h = [] \<and> preset = []
         \<and> pc_password (lh_config h) = [] \<and> ce_ab_password ce (lh_id h) = None"
  shows "let s = fst (handle_hash ce pend preset salt ch (h, d)); (s', told) = handle_peer_info ce info s
    in lh_password (fst s) = ce_sha256 ce (sp @ salt) \<and> told = None
       \<and> pc_password (ce_load ce (snd s') (lh_id h)) \<in> {pc_password (ce_load ce d (lh_id h)), []}"
proof -
  let ?h = "h\<lparr>lh_salt := salt, lh_challenge := ch, lh_switch_uuid := None\<rparr>"
  let ?c = "choose_password ce preset ?h" and ?s = "fst (handle_hash ce pend preset salt ch (h, d))"
  have c: "lh_password ?c = ce_sha256 ce (sp @ salt)" "lh_password_source ?c = SharedAb sp"
    using assms(2,4,5) by (auto simp: choose_password_def salted_def Let_def)
  have s: "lh_password (fst ?s) = ce_sha256 ce (sp @ salt)" "lh_password_source (fst ?s) = SharedAb sp"
    "lh_salt (fst ?s) = salt" "lh_id (fst ?s) = lh_id h" "snd ?s = d"
    by (simp_all add: handle_hash_keeps_choice [OF assms(3)] c choose_password_frame)
  have shared: "remembered ce (fst ?s) st = st \<or> remembered ce (fst ?s) st = []"
    "is_shared_ab ce (lh_salt (fst ?s)) (lh_password_source (fst ?s)) (lh_password (fst ?s))" for st
    using shared_not_remembered [of "fst ?s" sp ce] s assms(2) by (simp_all add: salted_def)
  have "load_config ce ?s = ce_load ce d (lh_id h)"
    using s by (simp add: load_config_def case_prod_beta)
  then have "pc_password (ce_load ce (snd (fst (handle_peer_info ce info ?s))) (lh_id h)) \<in> {pc_password (ce_load ce d (lh_id h)), []}"
    using stored_password [OF assms(1), of info ?s] shared(1) s(4) by simp
  moreover have "snd (handle_peer_info ce info ?s) = None"
    using shared(2) by (simp add: handle_peer_info_def Let_def)
  ultimately show ?thesis
    using s(1) by (simp add: Let_def case_prod_beta)
qed

theorem shared_password_not_stored_witness:
  "let s = fst (handle_hash sample_client Map.empty [] ''s'' ''ch''
        (sample_handler\<lparr>lh_shared_password := Some ''ab'', lh_remember := True\<rparr>, \<lambda>_. blank_config));
      (s', told) = handle_peer_info sample_client sample_info s
    in lh_password (fst s) = ''#abs'' \<and> told = None \<and> pc_password (ce_load sample_client (snd s') ''123'') = []"
  using shared_password_not_stored [OF sample_client_lawful,
      of "sample_handler\<lparr>lh_shared_password := Some ''ab'', lh_remember := True\<rparr>" "''ab''" "[]" Map.empty "''s''" "''ch''"
        "\<lambda>_. blank_config" sample_info]
  by (simp add: Let_def case_prod_beta sample_handler_def) (simp add: sample_client_def blank_config_def)


section \<open>Sessions for viewing only\<close>

















end
