(* ===== verification/Client_Rounds.thy ===== *)
theory Client_Rounds
  imports Client_Login
begin

text \<open>
  The rounds of a session at the technician's end: \<open>ConnectionRoundState\<close> and \<open>reconnect\<close> of
  \<open>src/src/ui_session_interface.rs\<close>. Every attempt to connect runs in a thread of its own with the
  number of its round; an old thread ends by itself, and \<open>set_disconnected\<close> tells by the number
  whether it still is the current one.

  The lemmas show that rounds started by \<open>reconnect\<close> do not disturb each other, and that the
  first round of the head office build, which is started another way, does.

  \<open>reconnect\<close> drops the lock of the state before it sets \<open>session.thread\<close>; both are one step here,
  which leaves out two reconnects at the same moment of a session that has no thread yet. The
  rounds of port forwards never call \<open>set_connected\<close> or \<open>set_disconnected\<close> and are not modelled.
\<close>

section \<open>Rounds of a session\<close>

datatype connection_state = Connecting | Connected | Disconnected

record round_state =
  rs_round :: nat                        \<comment> \<open>\<open>u32\<close>\<close>
  rs_state :: connection_state

definition round_default :: round_state where
  "round_default = \<lparr>rs_round = 0, rs_state = Connecting\<rparr>"

definition new_round :: "round_state \<Rightarrow> nat \<times> round_state" where
  "new_round r = (let n = (rs_round r + 1) mod 2 ^ 32 in (n, \<lparr>rs_round = n, rs_state = Connecting\<rparr>))"

definition set_connected :: "round_state \<Rightarrow> round_state" where
  "set_connected r = r\<lparr>rs_state := Connected\<rparr>"

definition is_round_gt :: "nat \<Rightarrow> round_state \<Rightarrow> bool" where
  "is_round_gt n r \<longleftrightarrow> (if n = 2 ^ 32 - 1 \<and> rs_round r = 0 then True else n < rs_round r)"

definition set_disconnected :: "nat \<Rightarrow> round_state \<Rightarrow> bool \<times> round_state" where
  "set_disconnected n r = (if is_round_gt n r then (False, r) else (True, r\<lparr>rs_state := Disconnected\<rparr>))"

text \<open>
  \<open>reconnect\<close>: nothing while connecting; otherwise the old round, if it is still connected, is
  told to close, and a new one starts. The result is the round that was started, if any, and
  whether the close was sent.
\<close>

definition reconnect :: "bool \<Rightarrow> bool \<Rightarrow> round_state \<times> handler \<Rightarrow> (nat option \<times> bool) \<times> round_state \<times> handler" where
  "reconnect has_thread force_relay = (\<lambda>(r, h).
     if has_thread \<and> rs_state r = Connecting then ((None, False), r, h)
     else
       let (n, r') = new_round r
       in ((Some n, has_thread \<and> rs_state r = Connected), r', if force_relay then h\<lparr>lh_force_relay := True\<rparr> else h))"


section \<open>Reconnecting\<close>

text \<open>
  The threads of a session's rounds: the round, whether it is connected, whether it was told
  to close. \<open>StartFirst\<close> is the start of a session in the head office build (\<open>session_start_\<close> in
  \<open>src/src/flutter.rs\<close>), which does not set \<open>session.thread\<close>.
\<close>

record rounds =
  rd_state :: round_state
  rd_handler :: handler
  rd_has_thread :: bool
  rd_live :: "(nat \<times> bool \<times> bool) list"

datatype round_event = StartFirst | Reconnect bool | Connects nat | Ends nat

definition rounds_start :: "handler \<Rightarrow> rounds" where
  "rounds_start h = \<lparr>rd_state = round_default, rd_handler = h, rd_has_thread = False, rd_live = []\<rparr>"

definition start_first :: "rounds \<Rightarrow> rounds" where
  "start_first R = (let (n, r) = new_round (rd_state R) in R\<lparr>rd_state := r, rd_live := (n, False, False) # rd_live R\<rparr>)"

definition reconnect_round :: "bool \<Rightarrow> rounds \<Rightarrow> rounds" where
  "reconnect_round force_relay R =
     (let ((started, close), r, h) = reconnect (rd_has_thread R) force_relay (rd_state R, rd_handler R)
      in case started of
           None \<Rightarrow> R
         | Some n \<Rightarrow>
             \<lparr>rd_state = r, rd_handler = h, rd_has_thread = True,
              rd_live = (n, False, False) # map (\<lambda>(k, c, t). (k, c, t \<or> close \<and> k = rs_round (rd_state R))) (rd_live R)\<rparr>)"

fun round_step :: "rounds \<Rightarrow> round_event \<Rightarrow> rounds" where
  "round_step R StartFirst = start_first R"
| "round_step R (Reconnect force_relay) = reconnect_round force_relay R"
| "round_step R (Connects n) =
     (if list_ex (\<lambda>(k, c, _). k = n \<and> \<not> c) (rd_live R)
      then R\<lparr>rd_state := set_connected (rd_state R), rd_live := map (\<lambda>(k, c, t). (k, c \<or> k = n, t)) (rd_live R)\<rparr> else R)"
| "round_step R (Ends n) =
     (if n \<in> fst ` set (rd_live R)
      then R\<lparr>rd_state := snd (set_disconnected n (rd_state R)), rd_live := filter (\<lambda>x. fst x \<noteq> n) (rd_live R)\<rparr> else R)"

text \<open>
  Old rounds are connected and told to close; the current one, if it lives, is in the state the
  session is in. \<open>m\<close> bounds the rounds so far.
\<close>

definition rounds_inv :: "nat \<Rightarrow> rounds \<Rightarrow> bool" where
  "rounds_inv m R \<longleftrightarrow> rs_round (rd_state R) \<le> m \<and> distinct (map fst (rd_live R)) \<and> (rd_live R \<noteq> [] \<longrightarrow> rd_has_thread R)
   \<and> (\<forall>(k, c, t) \<in> set (rd_live R). k \<le> rs_round (rd_state R) \<and> (k < rs_round (rd_state R) \<longrightarrow> c \<and> t)
        \<and> (k = rs_round (rd_state R) \<longrightarrow> \<not> t \<and> rs_state (rd_state R) = (if c then Connected else Connecting)))
   \<and> (rd_has_thread R \<longrightarrow> rs_state (rd_state R) \<noteq> Disconnected \<longrightarrow> rs_round (rd_state R) \<in> fst ` set (rd_live R))
   \<and> (\<not> rd_has_thread R \<longrightarrow> rs_state (rd_state R) = Connecting)"

lemma rounds_invD:
  assumes "rounds_inv m R"
  shows "rs_round (rd_state R) \<le> m" "distinct (map fst (rd_live R))" "rd_live R \<noteq> [] \<Longrightarrow> rd_has_thread R"
    "(k, c, t) \<in> set (rd_live R) \<Longrightarrow> k \<le> rs_round (rd_state R)"
    "(k, c, t) \<in> set (rd_live R) \<Longrightarrow> k < rs_round (rd_state R) \<Longrightarrow> c \<and> t"
    "(rs_round (rd_state R), c, t) \<in> set (rd_live R) \<Longrightarrow> \<not> t \<and> rs_state (rd_state R) = (if c then Connected else Connecting)"
    "rd_has_thread R \<Longrightarrow> rs_state (rd_state R) \<noteq> Disconnected \<Longrightarrow> rs_round (rd_state R) \<in> fst ` set (rd_live R)"
    "\<not> rd_has_thread R \<Longrightarrow> rs_state (rd_state R) = Connecting"
  using assms unfolding rounds_inv_def by auto

lemma rounds_invI:
  assumes "rs_round (rd_state R) \<le> m" "distinct (map fst (rd_live R))" "rd_has_thread R"
    and "\<And>k c t. (k, c, t) \<in> set (rd_live R) \<Longrightarrow> k \<le> rs_round (rd_state R)"
    and "\<And>k c t. (k, c, t) \<in> set (rd_live R) \<Longrightarrow> k < rs_round (rd_state R) \<Longrightarrow> c \<and> t"
    and "\<And>c t. (rs_round (rd_state R), c, t) \<in> set (rd_live R) \<Longrightarrow> \<not> t \<and> rs_state (rd_state R) = (if c then Connected else Connecting)"
    and "rs_state (rd_state R) \<noteq> Disconnected \<Longrightarrow> rs_round (rd_state R) \<in> fst ` set (rd_live R)"
  shows "rounds_inv m R"
  using assms(1-3,7) assms(4-6) [rule_format] unfolding rounds_inv_def by fast

lemma rounds_inv_mono: "rounds_inv m R \<Longrightarrow> rounds_inv (Suc m) R"
  by (auto simp: rounds_inv_def)

lemma rounds_inv_reconnect:
  assumes "rounds_inv m R" "m < 2 ^ 32 - 1"
  shows "rounds_inv (Suc m) (reconnect_round fr R)"
proof (cases "rd_has_thread R \<and> rs_state (rd_state R) = Connecting")
  case True
  with rounds_inv_mono [OF assms(1)] show ?thesis by (simp add: reconnect_round_def reconnect_def)
next
  case False
  note D = rounds_invD [OF assms(1)]
  let ?n = "Suc (rs_round (rd_state R))" and ?close = "rd_has_thread R \<and> rs_state (rd_state R) = Connected"
  let ?mark = "\<lambda>(k, c, t). (k, c, t \<or> ?close \<and> k = rs_round (rd_state R))"
  have n: "?n mod 2 ^ 32 = ?n" using assms(2) D(1) by simp
  have R: "rd_state (reconnect_round fr R) = \<lparr>rs_round = ?n, rs_state = Connecting\<rparr>" "rd_has_thread (reconnect_round fr R)"
    "rd_live (reconnect_round fr R) = (?n, False, False) # map ?mark (rd_live R)"
    using False n by (auto simp: reconnect_round_def reconnect_def new_round_def Let_def)
  have dom: "map fst (map ?mark (rd_live R)) = map fst (rd_live R)"
    by (auto simp: case_prod_beta)
  have bound: "k \<le> rs_round (rd_state R)" if "(k, c, t) \<in> set (map ?mark (rd_live R))" for k c t
    using that D(4) by auto
  have cur: "c \<and> ?close" if "(rs_round (rd_state R), c, t) \<in> set (rd_live R)" for c t
  proof -
    have "rd_live R \<noteq> []" using that by auto
    then show ?thesis using D(3) D(6) [OF that] False by (cases c) auto
  qed
  have old: "c \<and> t" if x: "(k, c, t) \<in> set (map ?mark (rd_live R))" for k c t
  proof -
    from x obtain t0 where t0: "(k, c, t0) \<in> set (rd_live R)" "t = (t0 \<or> ?close \<and> k = rs_round (rd_state R))" by auto
    show ?thesis
    proof (cases "k = rs_round (rd_state R)")
      case True
      with cur t0 show ?thesis by blast
    next
      case False
      with D(4,5) [OF t0(1)] t0(2) show ?thesis by auto
    qed
  qed
  have fresh: "?n \<notin> fst ` set (map ?mark (rd_live R))"
    using bound by fastforce
  show ?thesis
  proof (rule rounds_invI)
    show "distinct (map fst (rd_live (reconnect_round fr R)))"
    proof -
      have "distinct (?n # map fst (map ?mark (rd_live R)))"
        using fresh D(2) unfolding dom by (metis distinct.simps(2) dom list.set_map)
      then show ?thesis unfolding R by (simp del: map_map)
    qed
    show "k \<le> rs_round (rd_state (reconnect_round fr R))" if "(k, c, t) \<in> set (rd_live (reconnect_round fr R))" for k c t
    proof -
      have "k = ?n \<or> (k, c, t) \<in> set (map ?mark (rd_live R))" using that unfolding R by (auto simp del: set_map)
      then show ?thesis using bound [of k c t] unfolding R by fastforce
    qed
    show "c \<and> t" if "(k, c, t) \<in> set (rd_live (reconnect_round fr R))" "k < rs_round (rd_state (reconnect_round fr R))" for k c t
    proof -
      have "(k, c, t) \<in> set (map ?mark (rd_live R))" using that unfolding R by (simp del: set_map)
      then show ?thesis by (rule old)
    qed
    show "\<not> t \<and> rs_state (rd_state (reconnect_round fr R)) = (if c then Connected else Connecting)"
      if "(rs_round (rd_state (reconnect_round fr R)), c, t) \<in> set (rd_live (reconnect_round fr R))" for c t
    proof -
      have "(?n, c, t) \<notin> set (map ?mark (rd_live R))"
        using bound [of ?n c t] by (auto simp del: set_map)
      with that show ?thesis unfolding R by (simp del: set_map)
    qed
  qed (use D(1) R in simp_all)
qed

lemma rounds_inv_connects:
  assumes "rounds_inv m R" "(n, False, t) \<in> set (rd_live R)"
  shows "rounds_inv m (R\<lparr>rd_state := set_connected (rd_state R), rd_live := map (\<lambda>(k, c, t). (k, c \<or> k = n, t)) (rd_live R)\<rparr>)"
proof -
  note D = rounds_invD [OF assms(1)]
  let ?mark = "\<lambda>(k, c, t). (k, c \<or> k = n, t)"
  have n: "n = rs_round (rd_state R)"
    using D(4,5) [OF assms(2)] by fastforce
  have dom: "map fst (map ?mark (rd_live R)) = map fst (rd_live R)"
    by (auto simp: case_prod_beta)
  have src: "\<exists>c0. (k, c0, t) \<in> set (rd_live R) \<and> c = (c0 \<or> k = n)" if "(k, c, t) \<in> set (map ?mark (rd_live R))" for k c t
    using that by auto
  show ?thesis
  proof (rule rounds_invI, goal_cases)
    case 2
    show ?case using D(2) dom by (simp del: map_map)
  next
    case (4 k c t)
    then show ?case using src [of k c t] D(4) by (auto simp: set_connected_def simp del: set_map)
  next
    case (5 k c t)
    then show ?case using src [of k c t] D(5) by (auto simp: set_connected_def simp del: set_map)
  next
    case (6 c t)
    then show ?case using src [of n c t] D(6) n by (auto simp: set_connected_def simp del: set_map)
  next
    case 7
    then show ?case using assms(2) n by (force simp: set_connected_def)
  next
    case 3
    have "rd_live R \<noteq> []" using assms(2) by auto
    with D(3) show ?case by simp
  qed (use D(1) in \<open>simp add: set_connected_def\<close>)
qed

lemma rounds_inv_ends:
  assumes "rounds_inv m R" "n \<in> fst ` set (rd_live R)" "m < 2 ^ 32 - 1"
  shows "rounds_inv m (R\<lparr>rd_state := snd (set_disconnected n (rd_state R)), rd_live := filter (\<lambda>x. fst x \<noteq> n) (rd_live R)\<rparr>)"
proof -
  note D = rounds_invD [OF assms(1)]
  have "n \<le> rs_round (rd_state R)" using assms(2) D(4) by fastforce
  then have gt: "is_round_gt n (rd_state R) \<longleftrightarrow> n \<noteq> rs_round (rd_state R)"
    using D(1) assms(3) by (auto simp: is_round_gt_def)
  then have st: "rs_round (snd (set_disconnected n (rd_state R))) = rs_round (rd_state R)"
    "rs_state (snd (set_disconnected n (rd_state R))) = (if n = rs_round (rd_state R) then Disconnected else rs_state (rd_state R))"
    by (simp_all add: set_disconnected_def)
  show ?thesis
  proof (rule rounds_invI, goal_cases)
    case 2
    show ?case using D(2) by (simp add: distinct_map_filter)
  next
    case 3
    show ?case using D(3) assms(2) by fastforce
  next
    case (5 k c t)
    then show ?case using D(5) [of k c t] by (simp add: st)
  next
    case (6 c t)
    then show ?case using D(6) [of c t] by (auto simp: st)
  next
    case 7
    then have n: "n \<noteq> rs_round (rd_state R)" "rs_state (rd_state R) \<noteq> Disconnected"
      by (auto simp: st split: if_splits)
    have "rd_live R \<noteq> []" using assms(2) by auto
    with D(3,7) n(2) have "rs_round (rd_state R) \<in> fst ` set (rd_live R)" by blast
    with n(1) show ?case by (force simp: st)
  qed (use D in \<open>auto simp: st\<close>)
qed

lemma rounds_inv_step:
  assumes "rounds_inv m R" "m < 2 ^ 32 - 1" "e \<noteq> StartFirst"
  shows "rounds_inv (Suc m) (round_step R e)"
proof (cases e)
  case (Reconnect fr)
  with rounds_inv_reconnect [OF assms(1,2)] show ?thesis by simp
next
  case (Connects n)
  then show ?thesis
    using rounds_inv_connects [OF assms(1), of n] rounds_inv_mono assms(1) by (auto simp: list_ex_iff)
next
  case (Ends n)
  then show ?thesis
    using rounds_inv_ends [OF assms(1) _ assms(2), of n] rounds_inv_mono assms(1) by auto
qed (use assms in simp)

lemma rounds_inv_run:
  assumes "length es < 2 ^ 32 - 1" "StartFirst \<notin> set es"
  shows "rounds_inv (length es) (run round_step (rounds_start h) es)"
  using assms
proof (induction es rule: rev_induct)
  case Nil
  show ?case by (simp add: rounds_inv_def rounds_start_def round_default_def)
next
  case (snoc e es)
  then have "rounds_inv (length es) (run round_step (rounds_start h) es)" "e \<noteq> StartFirst" by auto
  then show ?case using rounds_inv_step [of "length es" _ e] snoc.prems by simp
qed

text \<open>
  C24. A reconnect leaves one session. When every round is started by \<open>reconnect\<close>, then however
  the rounds connect and end, and in whatever order, every round but the current one has been
  told to close, so at most one goes on; the session counts as connected exactly when its
  current round is connected, and as disconnected exactly when its current round has ended: an
  old round that ends late does not disturb the new one.
\<close>

theorem old_rounds_harmless:
  assumes "length es < 2 ^ 32 - 1" "StartFirst \<notin> set es"
  shows "let R = run round_step (rounds_start h) es; n = rs_round (rd_state R)
    in (\<forall>(k, c, t) \<in> set (rd_live R). k \<noteq> n \<longrightarrow> t) \<and> length (filter (\<lambda>(k, c, t). \<not> t) (rd_live R)) \<le> 1
       \<and> (rs_state (rd_state R) = Connected \<longleftrightarrow> (\<exists>t. (n, True, t) \<in> set (rd_live R)))
       \<and> (rd_has_thread R \<longrightarrow> (rs_state (rd_state R) = Disconnected \<longleftrightarrow> n \<notin> fst ` set (rd_live R)))"
proof -
  define R where "R = run round_step (rounds_start h) es"
  let ?n = "rs_round (rd_state R)"
  have inv: "rounds_inv (length es) R" using rounds_inv_run [OF assms] by (simp add: R_def)
  note D = rounds_invD [OF inv]
  have old: "t" if "(k, c, t) \<in> set (rd_live R)" "k \<noteq> ?n" for k c t
    using D(4,5) [OF that(1)] that(2) by auto
  have "fst ` set (filter (\<lambda>(k, c, t). \<not> t) (rd_live R)) \<subseteq> {?n}"
    using old by fastforce
  moreover have "distinct (map fst (filter (\<lambda>(k, c, t). \<not> t) (rd_live R)))"
    using inv by (simp add: rounds_inv_def distinct_map_filter)
  ultimately have "length (map fst (filter (\<lambda>(k, c, t). \<not> t) (rd_live R))) \<le> card {?n}"
    by (metis card_mono distinct_card finite.emptyI finite.insertI list.set_map)
  then have one: "length (filter (\<lambda>(k, c, t). \<not> t) (rd_live R)) \<le> 1" by simp
  have conn: "rs_state (rd_state R) = Connected \<longleftrightarrow> (\<exists>t. (?n, True, t) \<in> set (rd_live R))"
  proof
    assume c: "rs_state (rd_state R) = Connected"
    then have "rd_has_thread R" using D(8) by auto
    with c D(7) obtain c0 t where x: "(?n, c0, t) \<in> set (rd_live R)" by auto
    with D(6) [OF x] c show "\<exists>t. (?n, True, t) \<in> set (rd_live R)" by (cases c0) auto
  qed (use D(6) in auto)
  have disc: "rd_has_thread R \<longrightarrow> (rs_state (rd_state R) = Disconnected \<longleftrightarrow> ?n \<notin> fst ` set (rd_live R))"
  proof (intro impI iffI notI)
    assume "rs_state (rd_state R) = Disconnected" "?n \<in> fst ` set (rd_live R)"
    then obtain c t where "(?n, c, t) \<in> set (rd_live R)" by auto
    from D(6) [OF this] \<open>rs_state (rd_state R) = Disconnected\<close> show False by (cases c) simp_all
  qed (use D(7) in blast)
  show ?thesis
    unfolding R_def [symmetric] Let_def using old one conn disc by blast
qed

text \<open>
  In the head office build the first round escapes. It is started without setting the
  session's thread, so the first reconnect neither waits while it is connecting nor tells it to
  close: a connected first round goes on beside the second, and one that was still connecting
  marks the session as connected while the second round is not.
\<close>

theorem first_round_escapes:
  "let R = run round_step (rounds_start h) [StartFirst, Connects 1, Reconnect fr, Connects 2];
       Q = run round_step (rounds_start h) [StartFirst, Reconnect fr, Connects 1]
   in set (rd_live R) = {(1, True, False), (2, True, False)}
      \<and> rs_state (rd_state Q) = Connected \<and> rs_round (rd_state Q) = 2 \<and> (2, False, False) \<in> set (rd_live Q)"
  by (auto simp: rounds_start_def round_default_def start_first_def new_round_def reconnect_round_def reconnect_def set_connected_def Let_def
      simp flip: One_nat_def)

theorem old_rounds_harmless_witness:
  "let R = run round_step (rounds_start sample_handler) [Reconnect False, Connects 1, Reconnect True, Ends 1, Connects 2]
   in rs_state (rd_state R) = Connected \<and> length (filter (\<lambda>(k, c, t). \<not> t) (rd_live R)) \<le> 1"
proof -
  define es where "es = [Reconnect False, Connects 1, Reconnect True, Ends 1, Connects 2]"
  have "rd_state (run round_step (rounds_start sample_handler) es) = \<lparr>rs_round = 2, rs_state = Connected\<rparr>"
    by (simp add: es_def rounds_start_def round_default_def new_round_def reconnect_round_def reconnect_def set_connected_def
        set_disconnected_def is_round_gt_def Let_def)
  then show ?thesis
    using old_rounds_harmless [of es sample_handler] unfolding es_def [symmetric] by (simp add: Let_def es_def)
qed

end
