(* ===== verification/Client_Session.thy ===== *)
theory Client_Session
  imports Client_Files Client_Media Client_Rounds
begin

text \<open>
  The session at the technician's end: \<open>Remote\<close> of \<open>src/src/client/io_loop.rs\<close> with the part of
  \<open>Session\<close> in \<open>src/src/ui_session_interface.rs\<close> it drives, as the head office build runs it on
  Windows. The file jobs, the video threads and the login are the components \<open>Client_Files\<close>,
  \<open>Client_Media\<close> and \<open>Client_Login\<close>; here they are composed with the rest of the loop's state:
  the permissions the host announced, voice calls, the close reason, the offers of a time.

  A handler returns the state, what it did, and whether the loop goes on. A call of the user
  interface that only shows something is \<open>Shown\<close> with its name. Messages the code puts into the
  session's own queue come back as events.

  The lemmas show when the microphone is opened, that the host is told about the end at most
  once, that a silent peer ends the session, that an offer of a time is kept until it is
  answered, and that a call the technician has hung up can still start.
\<close>

section \<open>State and messages\<close>

record parsed_peer_info =
  pp_platform :: string
  pp_is_installed :: bool
  pp_idd_impl :: string
  pp_support_view_camera :: bool
  pp_support_terminal :: bool

record change_display =
  cd_time :: "nat option"                \<comment> \<open>\<^const>\<open>None\<close>: long ago, as at the start\<close>
  cd_display :: int
  cd_width :: int
  cd_height :: int

record login_info =
  li_base :: peer_info
  li_displays :: nat
  li_current_display :: int
  li_sessions :: "nat list"
  li_current_sid :: nat
  li_terminal :: "bool option"
  li_additions :: string

record ('d, 'x, 'f) client_session =
  cs_login :: "'d lstate"
  cs_pending :: pending
  cs_files :: "'x client_files"
  cs_media :: "'f recording"
  cs_keyboard :: bool                    \<comment> \<open>\<open>server_keyboard_enabled\<close>\<close>
  cs_clipboard :: bool
  cs_file_transfer :: bool
  cs_stop_voice :: bool                  \<comment> \<open>\<open>stop_voice_call_sender\<close> is there\<close>
  cs_voice_request :: "int option"
  cs_is_connected :: bool
  cs_first_frame :: bool
  cs_elevation_requested :: bool
  cs_peer :: parsed_peer_info
  cs_sent_close_reason :: bool
  cs_last_recv :: nat
  cs_received :: bool
  cs_last_change :: change_display
  cs_info :: "login_info option"         \<comment> \<open>\<open>lc.peer_info\<close>\<close>

record ('d, 'x) session_env =
  se_client :: "'d client_env"
  se_fs :: "'x fs_ops"
  se_now :: nat                          \<comment> \<open>milliseconds\<close>
  se_time :: int                         \<comment> \<open>\<open>get_time\<close>\<close>
  se_preset :: string                    \<comment> \<open>\<open>handler.password\<close>\<close>
  se_auto_record :: bool
  se_helper_url :: "string \<rightharpoonup> string"
  se_additions :: "string \<Rightarrow> (bool \<times> string \<times> bool) option"
    \<comment> \<open>\<open>is_installed\<close>, \<open>idd_impl\<close> and \<open>support_view_camera\<close> of the platform additions\<close>
  se_own_clip_conn :: bool               \<comment> \<open>the session is the one in front\<close>
  se_printer_action :: string
  se_allow_auto_print :: bool
  se_selected_printer :: string
  se_next_job_id :: int
  se_temp_path :: "int \<Rightarrow> string"
  se_sync_init_clipboard :: bool
  se_clipboard_msg :: bool               \<comment> \<open>there is something in the clipboard\<close>

definition files_env_of :: "('d, 'x) session_env \<Rightarrow> handler \<Rightarrow> 'x files_env" where
  "files_env_of env h = \<lparr>fe_fs = se_fs env, fe_now = se_now env, fe_version = lh_version h,
     fe_peer_platform = pc_platform (lh_config h)\<rparr>"

datatype ui_msg = UiRefreshVideo | UiRefreshVideoDisplay int | UiClipboard | UiResolution "int option" int int
  | UiSelectedSid nat | UiAuth2fa string | UiOther

datatype ui_data =
    UiClose
  | UiLogin string string bool
  | UiMessage ui_msg
  | UiFile file_cmd
  | UiRecord bool
  | UiElevate bool                       \<comment> \<open>directly, or with a logon\<close>
  | UiNewVoiceCall
  | UiCloseVoiceCall
  | UiResetDecoder "nat option"
  | UiScreenshot int string
  | UiIgnored

datatype client_msg =
    MCloseReason string
  | MLogin login_act
  | MUser ui_msg
  | MElevation bool
  | MVoiceRequest bool int
  | MScreenshot int string
  | MVirtualDisplay int
  | MPrivacyMode string
  | MTestDelay
  | MClipFile

datatype client_act =
    Send client_msg
  | Queue ui_data
  | FileAct file_act
  | LoginUi string
  | Msgbox string string string string bool  \<comment> \<open>kind, title, text, link, retry\<close>
  | CancelMsgbox string
  | OpenMicrophone
  | StopMicrophone
  | UpdateClipboardOwn
  | ClipFileOwn
  | ClipStopped
  | StartClipboard
  | StopClipboard
  | EmptyClipFiles
  | ToAudioThread bool                   \<comment> \<open>a format, or a frame\<close>
  | InputOsPassword string
  | PasswordToAddressBook string
  | NoteSchedSession string
  | SetPermissionUi string bool
  | PrinterRequest int string
  | SchedResult bool int
  | SchedStateUi int
  | SchedAckUi
  | Shown string


section \<open>What the host announces\<close>

datatype permission_kind = PKeyboard | PClipboard | PAudio | PFile | PRestart | PRecording | PBlockInput

datatype sched_kind = SkAnswer | SkReceived | SkState

datatype block_state = BlkOnSucceeded | BlkOnFailed | BlkOffSucceeded | BlkOffFailed | BlkUnknown

datatype privacy_state = PrvOnByOther | PrvNotSupported | PrvOnSucceeded | PrvOnFailedDenied | PrvOnFailedPlugin
  | PrvOnFailed | PrvOffSucceeded | PrvOffByPeer | PrvOffFailed | PrvOffUnknown | PrvUnknown

record switch_display_msg =
  sd_display :: int
  sd_width :: int
  sd_height :: int
  sd_original :: "int \<times> int"

datatype misc_in =
    InAudioFormat
  | InChat string
  | InSched sched_kind bool int bool     \<comment> \<open>kind, accepted, open until, through the window\<close>
  | InPermission "permission_kind option" bool
  | InSwitchDisplay switch_display_msg
  | InCloseReason string
  | InBlock block_state string
  | InPrivacy privacy_state string string
  | InUac bool
  | InForegroundElevated bool
  | InElevation string
  | InPortableService bool
  | InSwitchBack
  | InFollowDisplay int
  | InMiscOther

datatype 'f peer_in =
    InVideo nat bool 'f
  | InHash string string
  | InLoginError string bool
  | InLoginInfo login_info
  | InCursor
  | InClipboard
  | InCliprdr bool bool bool             \<comment> \<open>a list of formats, it decodes, it begins a transfer\<close>
  | InFile file_resp
  | InMisc misc_in
  | InTestDelay bool
  | InAudioFrame
  | InPrint string
  | InSendConfirm confirm_req
  | InMessageBox string string string string
  | InVoiceRequest bool
  | InVoiceResponse int bool
  | InPeerInfo
  | InScreenshot string
  | InTerminal bool string               \<comment> \<open>a terminal opened, its service id\<close>
  | InOther

text \<open>\<open>Interface::msgbox\<close> of the session: whether the interface may try again is decided here.\<close>

definition msgbox :: "('d, 'x) session_env \<Rightarrow> handler \<Rightarrow> string \<Rightarrow> string \<Rightarrow> string \<Rightarrow> string \<Rightarrow> client_act" where
  "msgbox env h kind title txt link =
     Msgbox kind title txt link (check_if_retry (se_client env) kind title txt (lh_direct h = Some True \<and> \<not> lh_received h))"

type_synonym ('d, 'x, 'f) session_step = "('d, 'x, 'f) client_session \<Rightarrow> ('d, 'x, 'f) client_session \<times> client_act list"

abbreviation handler_of :: "('d, 'x, 'f) client_session \<Rightarrow> handler" where
  "handler_of s \<equiv> fst (cs_login s)"

definition set_handler :: "handler \<Rightarrow> ('d, 'x, 'f) client_session \<Rightarrow> ('d, 'x, 'f) client_session" where
  "set_handler h s = s\<lparr>cs_login := (h, snd (cs_login s))\<rparr>"

definition on_error :: "('d, 'x) session_env \<Rightarrow> handler \<Rightarrow> string \<Rightarrow> client_act" where
  "on_error env h txt = msgbox env h ''error'' ''Error'' txt []"

definition is_support_multi_ui_session_num :: "'d client_env \<Rightarrow> int \<Rightarrow> bool" where
  "is_support_multi_ui_session_num ce v \<longleftrightarrow> v \<ge> ce_version_number ce ''1.2.4''"

definition refresh_video :: "'d client_env \<Rightarrow> handler \<Rightarrow> int \<Rightarrow> client_act" where
  "refresh_video ce h display =
     Queue (UiMessage (if is_support_multi_ui_session_num ce (lh_version h) then UiRefreshVideoDisplay display else UiRefreshVideo))"

definition is_text_clipboard_required :: "('d, 'x, 'f) client_session \<Rightarrow> bool" where
  "is_text_clipboard_required s \<longleftrightarrow> cs_clipboard s \<and> cs_keyboard s \<and> \<not> pc_disable_clipboard (lh_config (handler_of s))"

definition is_file_clipboard_required :: "('d, 'x, 'f) client_session \<Rightarrow> bool" where
  "is_file_clipboard_required s \<longleftrightarrow> cs_keyboard s \<and> cs_file_transfer s \<and> pc_enable_file_copy_paste (lh_config (handler_of s))"


section \<open>Resolutions\<close>

definition CHANGE_RESOLUTION_VALID_TIMEOUT_SECS :: nat where "CHANGE_RESOLUTION_VALID_TIMEOUT_SECS = 15"

definition is_the_same_record :: "nat \<Rightarrow> int \<Rightarrow> int \<Rightarrow> int \<Rightarrow> change_display \<Rightarrow> bool" where
  "is_the_same_record now display w h c \<longleftrightarrow>
     (case cd_time c of None \<Rightarrow> False | Some t \<Rightarrow> (now - t) div 1000 < CHANGE_RESOLUTION_VALID_TIMEOUT_SECS)
     \<and> cd_display c = display \<and> cd_width c = w \<and> cd_height c = h"

definition change_resolution :: "('d, 'x) session_env \<Rightarrow> int \<Rightarrow> int \<Rightarrow> int \<Rightarrow> ('d, 'x, 'f) session_step" where
  "change_resolution env display w h s =
     (s\<lparr>cs_last_change := \<lparr>cd_time = Some (se_now env), cd_display = display, cd_width = w, cd_height = h\<rparr>\<rparr>,
      [Queue (UiMessage (UiResolution
         (if is_support_multi_ui_session_num (se_client env) (lh_version (handler_of s)) then Some display else None) w h))])"

definition try_change_init_resolution :: "('d, 'x) session_env \<Rightarrow> int \<Rightarrow> ('d, 'x, 'f) session_step" where
  "try_change_init_resolution env display s =
     (case get_custom_resolution (handler_of s) display of
        None \<Rightarrow> (s, [])
      | Some (w, h) \<Rightarrow> change_resolution env display w h s)"

definition note_resolution :: "('d, 'x) session_env \<Rightarrow> switch_display_msg \<Rightarrow> ('d, 'x, 'f) client_session \<Rightarrow> ('d, 'x, 'f) client_session" where
  "note_resolution env d s =
     (if (sd_width d, sd_height d) = sd_original d
      then s\<lparr>cs_login := set_custom_resolution (se_client env) (sd_display d) None (cs_login s)\<rparr>
      else if cd_display (cs_last_change s) = sd_display d then
        s\<lparr>cs_login := set_custom_resolution (se_client env) (sd_display d)
            (if is_the_same_record (se_now env) (sd_display d) (sd_width d) (sd_height d) (cs_last_change s)
             then Some (sd_width d, sd_height d) else None) (cs_login s)\<rparr>
      else s)"

definition handle_peer_switch_display :: "('d, 'x) session_env \<Rightarrow> switch_display_msg \<Rightarrow> ('d, 'x, 'f) session_step" where
  "handle_peer_switch_display env d s = (note_resolution env d s, [Shown ''switch_display''])"


section \<open>The login, seen from the session\<close>

definition of_login :: "login_act list \<Rightarrow> client_act list" where
  "of_login as = map (\<lambda>a. case a of LoginBox k \<Rightarrow> LoginUi k | _ \<Rightarrow> Send (MLogin a)) as"

definition send_selected_session_id :: "('d, 'x) session_env \<Rightarrow> nat \<Rightarrow> ('d, 'x, 'f) session_step" where
  "send_selected_session_id env sid s =
     (let h = handler_of s in
      (set_handler (h\<lparr>lh_selected_session := Some sid\<rparr>) s,
       Queue (UiMessage (UiSelectedSid sid)) #
       (case cs_info s of
          Some pi \<Rightarrow>
            if li_current_sid pi = sid then
              (if lh_conn_type h = FILE_TRANSFER then
                 (if pi_username (li_base pi) = []
                  then [on_error env h ''No active console user logged on, please connect and logon first.''] else [])
               else if lh_conn_type h \<noteq> TERMINAL then [msgbox env h ''success'' ''Successful'' ''Connected, waiting for image...'' []]
               else [])
            else []
        | None \<Rightarrow> [])))"

definition remember_peer :: "('d, 'x) session_env \<Rightarrow> login_info \<Rightarrow> ('d, 'x, 'f) session_step" where
  "remember_peer env pi s =
     (let (l, told) = handle_peer_info (se_client env) (li_base pi) (cs_login s)
      in (s\<lparr>cs_login := l\<rparr>, case told of Some p \<Rightarrow> [PasswordToAddressBook p] | None \<Rightarrow> []))"

text \<open>The choice of the user's session at the host, when it has several.\<close>

definition offer_sessions :: "('d, 'x) session_env \<Rightarrow> login_info \<Rightarrow> ('d, 'x, 'f) session_step" where
  "offer_sessions env pi s =
     (if li_sessions pi = [] then (s, [])
      else if lh_selected_session (handler_of s) = Some (li_current_sid pi) then send_selected_session_id env (li_current_sid pi) s
      else (s, [Shown ''set_multiple_windows_session'']))"

definition peer_info_ui :: "('d, 'x) session_env \<Rightarrow> login_info \<Rightarrow> ('d, 'x, 'f) session_step" where
  "peer_info_ui env pi0 s0 =
     (let ce = se_client env;
          pi = (if int (li_displays pi0) \<le> li_current_display pi0 \<or> li_current_display pi0 < 0 then pi0\<lparr>li_current_display := 0\<rparr> else pi0);
          s = s0\<lparr>cs_info := Some pi0\<rparr>;
          h = handler_of s;
          old = (if ce_version_number ce (pi_version (li_base pi)) < ce_version_number ce ''1.1.10'' then [SetPermissionUi ''restart'' False] else []);
          screen = (lh_conn_type h \<in> {DEFAULT_CONN, VIEW_CAMERA})
      in if lh_conn_type h = FILE_TRANSFER \<and> pi_username (li_base pi) = [] \<and> li_sessions pi = []
         then (s, old @ [on_error env h ''No active console user logged on, please connect and logon first.''])
         else if screen \<and> li_displays pi = 0 then
           (let (s1, a1) = remember_peer env pi s
            in (s1, old @ a1 @ [Shown ''update_privacy_mode'', msgbox env h ''error'' ''Error''
                  (if lh_conn_type h = VIEW_CAMERA then ''No cameras'' else ''No displays'') []]))
         else
           let (s1, a1) = (if screen then try_change_init_resolution env (li_current_display pi) s else (s, []));
               os = (if screen then should_auto_login h else []);
               (s2, a2) = remember_peer env pi s1;
               (s3, a3) = offer_sessions env pi s2
           in (s3, old @ a1 @ (if os \<noteq> [] then [InputOsPassword os] else []) @ (if screen then [Shown ''set_display''] else [])
                 @ Shown ''update_privacy_mode'' # a2 @ Shown ''set_peer_info''
                 # (if lh_conn_type h = FILE_TRANSFER then [Shown ''close_success'']
                    else if screen then [msgbox env h ''success'' ''Successful'' ''Connected, waiting for image...'' []] else [])
                 @ Shown ''on_connected'' # a3))"

definition set_peer_info :: "('d, 'x) session_env \<Rightarrow> login_info \<Rightarrow> parsed_peer_info \<Rightarrow> parsed_peer_info" where
  "set_peer_info env pi pp =
     (let pp1 = pp\<lparr>pp_platform := pi_platform (li_base pi)\<rparr>;
          pp2 = (case li_terminal pi of Some t \<Rightarrow> pp1\<lparr>pp_support_terminal := t\<rparr> | None \<Rightarrow> pp1)
      in case se_additions env (li_additions pi) of
           Some (inst, idd, cam) \<Rightarrow> pp2\<lparr>pp_is_installed := inst, pp_idd_impl := idd, pp_support_view_camera := cam\<rparr>
         | None \<Rightarrow> pp2)"

definition is_support_virtual_display :: "parsed_peer_info \<Rightarrow> bool" where
  "is_support_virtual_display pp \<longleftrightarrow>
     pp_is_installed pp \<and> pp_platform pp = ''Windows'' \<and> (pp_idd_impl pp = ''rustdesk_idd'' \<or> pp_idd_impl pp = ''amyuni_idd'')"

definition check_view_camera_support :: "('d, 'x) session_env \<Rightarrow> peer_info \<Rightarrow> ('d, 'x, 'f) client_session \<Rightarrow> client_act option" where
  "check_view_camera_support env pi s =
     (if pp_support_view_camera (cs_peer s) then None
      else if ce_version_number (se_client env) (pi_version pi) < ce_version_number (se_client env) ''1.3.9''
              \<and> (pi_platform pi = ''Windows'' \<or> pi_platform pi = ''Linux'')
      then Some (msgbox env (handler_of s) ''error'' ''Download new version'' ''upgrade_remote_rustdesk_client_to_{1.3.9}_tip'' [])
      else Some (on_error env (handler_of s) ''view_camera_unsupported_tip''))"

definition check_terminal_support :: "('d, 'x) session_env \<Rightarrow> peer_info \<Rightarrow> ('d, 'x, 'f) client_session \<Rightarrow> client_act option" where
  "check_terminal_support env pi s =
     (if pp_support_terminal (cs_peer s) then None
      else if ce_version_number (se_client env) (pi_version pi) < ce_version_number (se_client env) ''1.4.1''
      then Some (msgbox env (handler_of s) ''error'' ''Remote terminal not supported''
        ''Remote terminal is not supported by the remote side. Please upgrade to version 1.4.1 or higher.'' [])
      else Some (on_error env (handler_of s) ''Remote terminal is not supported by the remote side''))"

text \<open>\<^const>\<open>False\<close> as the last component ends the loop.\<close>

definition on_login_info :: "('d, 'x) session_env \<Rightarrow> login_info \<Rightarrow> ('d, 'x, 'f) client_session
    \<Rightarrow> (('d, 'x, 'f) client_session \<times> client_act list) \<times> bool" where
  "on_login_info env pi s0 =
     (let s = s0\<lparr>cs_peer := set_peer_info env pi (cs_peer s0)\<rparr>;
          ty = lh_conn_type (handler_of s);
          refused = (if ty = VIEW_CAMERA then check_view_camera_support env (li_base pi) s
                     else if ty = TERMINAL then check_terminal_support env (li_base pi) s else None)
      in case refused of
           Some a \<Rightarrow> (let (s1, a1) = remember_peer env pi s in ((s1, a # a1), False))
         | None \<Rightarrow>
             let (s1, a1) = peer_info_ui env pi s;
                 a2 = (if ty = DEFAULT_CONN
                       then StartClipboard # (if se_sync_init_clipboard env \<and> se_clipboard_msg env \<and> is_text_clipboard_required s1
                                              then [Queue (UiMessage UiClipboard)] else [])
                       else []);
                 a3 = (if ty = FILE_TRANSFER then [Shown ''load_last_jobs''] else [])
             in ((s1\<lparr>cs_is_connected := True\<rparr>, a1 @ a2 @ a3), True))"

definition on_login_error :: "('d, 'x) session_env \<Rightarrow> string \<Rightarrow> bool \<Rightarrow> ('d, 'x, 'f) client_session
    \<Rightarrow> (('d, 'x, 'f) client_session \<times> client_act list) \<times> bool" where
  "on_login_error env err trusted s0 =
     (let s = (if err = ''2FA Required'' then set_handler ((handler_of s0)\<lparr>lh_enable_trusted_devices := trusted\<rparr>) s0 else s0);
          (go, l, as) = handle_login_error (se_client env) err (cs_login s)
      in ((s\<lparr>cs_login := l\<rparr>, of_login as), go))"

section \<open>Voice calls and the close reason\<close>

definition start_voice_call :: "handler \<Rightarrow> bool" where
  "start_voice_call h \<longleftrightarrow> lh_conn_type h \<notin> {FILE_TRANSFER, PORT_FORWARD, RDP, TERMINAL}"

definition stop_voice_call :: "('d, 'x, 'f) session_step" where
  "stop_voice_call s = (s\<lparr>cs_stop_voice := False\<rparr>, if cs_stop_voice s then [StopMicrophone] else [])"

definition on_voice_request :: "bool \<Rightarrow> ('d, 'x, 'f) session_step" where
  "on_voice_request is_connect s =
     (if is_connect then (s, [])
      else if cs_stop_voice s then (s\<lparr>cs_stop_voice := False\<rparr>, [StopMicrophone, Shown ''on_voice_call_closed'']) else (s, []))"

text \<open>A new sender replaces the old one, whose thread ends with it.\<close>

definition on_voice_response :: "int \<Rightarrow> bool \<Rightarrow> ('d, 'x, 'f) session_step" where
  "on_voice_response ts accepted s =
     (let s1 = s\<lparr>cs_voice_request := None\<rparr>
      in case cs_voice_request s of
           None \<Rightarrow> (s1, [])
         | Some t \<Rightarrow>
             if ts \<noteq> t then (s1, [])
             else if accepted then
               (let mic = start_voice_call (handler_of s)
                in (s1\<lparr>cs_stop_voice := mic\<rparr>, Shown ''on_voice_call_started'' # (if mic then [OpenMicrophone] else [])
                      @ (if cs_stop_voice s then [StopMicrophone] else [])))
             else (s1, [Shown ''on_voice_call_closed'']))"

definition send_close_reason :: "string \<Rightarrow> ('d, 'x, 'f) session_step" where
  "send_close_reason reason s =
     (if cs_sent_close_reason s then (s, []) else (s\<lparr>cs_sent_close_reason := True\<rparr>, [Send (MCloseReason reason)]))"


section \<open>Notices of the host\<close>

definition failed_text :: "string \<Rightarrow> string" where
  "failed_text details = (if details = [] then ''Failed'' else details)"

definition handle_back_msg_block_input :: "('d, 'x) session_env \<Rightarrow> block_state \<Rightarrow> string \<Rightarrow> handler \<Rightarrow> client_act list" where
  "handle_back_msg_block_input env st details h =
     (case st of
        BlkOnSucceeded \<Rightarrow> [Shown ''block_input on'']
      | BlkOnFailed \<Rightarrow> [msgbox env h ''custom-error'' ''Block user input'' (failed_text details) [], Shown ''block_input off'']
      | BlkOffSucceeded \<Rightarrow> [Shown ''block_input off'']
      | BlkOffFailed \<Rightarrow> [msgbox env h ''custom-error'' ''Unblock user input'' (failed_text details) []]
      | BlkUnknown \<Rightarrow> [])"

definition update_privacy_mode :: "('d, 'x) session_env \<Rightarrow> string \<Rightarrow> bool \<Rightarrow> ('d, 'x, 'f) session_step" where
  "update_privacy_mode env impl_key on s =
     (s\<lparr>cs_login := change_config (se_client env)
         (\<lambda>c. let c1 = c\<lparr>pc_privacy_mode := on\<rparr>
              in if on then c1\<lparr>pc_options := (pc_options c1)(''privacy-mode-impl-key'' \<mapsto>
                        (if impl_key = [] then ''privacy_mode_impl_mag'' else impl_key))\<rparr> else c1) (cs_login s)\<rparr>,
      [Shown ''update_privacy_mode''])"

definition privacy_notice :: "privacy_state \<Rightarrow> string \<Rightarrow> (string \<times> string \<times> bool option) option" where
  "privacy_notice st details =
     (case st of
        PrvNotSupported \<Rightarrow> Some (''custom-error'', ''Unsupported'', Some False)
      | PrvOnSucceeded \<Rightarrow> Some (''custom-nocancel'', ''Enter privacy mode'', Some True)
      | PrvOnFailedDenied \<Rightarrow> Some (''custom-error'', ''Peer denied'', Some False)
      | PrvOnFailedPlugin \<Rightarrow> Some (''custom-error'', ''Please install plugins'', Some False)
      | PrvOnFailed \<Rightarrow> Some (''custom-error'', failed_text details, Some False)
      | PrvOffSucceeded \<Rightarrow> Some (''custom-nocancel'', ''Exit privacy mode'', Some False)
      | PrvOffByPeer \<Rightarrow> Some (''custom-error'', ''Peer exit'', Some False)
      | PrvOffFailed \<Rightarrow> Some (''custom-error'', if details = [] then ''Failed to turn off'' else details, None)
      | PrvOffUnknown \<Rightarrow> Some (''custom-error'', ''Turned off'', Some False)
      | _ \<Rightarrow> None)"

definition handle_back_msg_privacy_mode :: "('d, 'x) session_env \<Rightarrow> privacy_state \<Rightarrow> string \<Rightarrow> string
    \<Rightarrow> ('d, 'x, 'f) client_session \<Rightarrow> (('d, 'x, 'f) client_session \<times> client_act list) \<times> bool" where
  "handle_back_msg_privacy_mode env st details impl_key s =
     (if st = PrvOnByOther
      then ((s, [msgbox env (handler_of s) ''error'' ''Connecting...'' ''Someone turns on privacy mode, exit'' []]), False)
      else case privacy_notice st details of
          None \<Rightarrow> ((s, []), True)
        | Some (kind, txt, on) \<Rightarrow>
            let (s1, a1) = (case on of Some b \<Rightarrow> update_privacy_mode env impl_key b s | None \<Rightarrow> (s, []))
            in ((s1, msgbox env (handler_of s) kind ''Privacy mode'' txt [] # a1), True))"

definition on_permission :: "permission_kind option \<Rightarrow> bool \<Rightarrow> ('d, 'x, 'f) session_step" where
  "on_permission k enabled s =
     (case k of
        Some PKeyboard \<Rightarrow> (s\<lparr>cs_keyboard := enabled\<rparr>, [SetPermissionUi ''keyboard'' enabled])
      | Some PClipboard \<Rightarrow> (s\<lparr>cs_clipboard := enabled\<rparr>, [SetPermissionUi ''clipboard'' enabled])
      | Some PAudio \<Rightarrow> (s, [SetPermissionUi ''audio'' enabled])
      | Some PFile \<Rightarrow> (s\<lparr>cs_file_transfer := enabled\<rparr>,
          if \<not> enabled \<and> lh_conn_type (handler_of s) = FILE_TRANSFER then [] else [SetPermissionUi ''file'' enabled])
      | Some PRestart \<Rightarrow> (s, [SetPermissionUi ''restart'' enabled])
      | Some PRecording \<Rightarrow> (s\<lparr>cs_media := on_record_permission enabled (cs_media s)\<rparr>, [SetPermissionUi ''recording'' enabled])
      | Some PBlockInput \<Rightarrow> (s, [SetPermissionUi ''block_input'' enabled])
      | None \<Rightarrow> (s, []))"

text \<open>The answer of the host's owner to an offer of a time.\<close>

definition on_sched_resp :: "sched_kind \<Rightarrow> bool \<Rightarrow> int \<Rightarrow> bool \<Rightarrow> ('d, 'x, 'f) session_step" where
  "on_sched_resp kind accepted open_until via_window s =
     (case kind of
        SkReceived \<Rightarrow> (s, [SchedAckUi])
      | SkState \<Rightarrow> (s, SchedStateUi open_until # (if via_window then [NoteSchedSession (lh_id (handler_of s))] else []))
      | SkAnswer \<Rightarrow>
          (s\<lparr>cs_pending := clear_cr_sched_req (handler_of s) (cs_pending s)\<rparr>, [SchedResult accepted open_until, SchedStateUi open_until]))"

definition to_threads :: "nat option \<Rightarrow> ('f video_thread \<Rightarrow> 'f video_thread) \<Rightarrow> ('d, 'x, 'f) client_session \<Rightarrow> ('d, 'x, 'f) client_session" where
  "to_threads display f s =
     s\<lparr>cs_media := (cs_media s)\<lparr>rc_threads :=
        map (\<lambda>(k, v). (k, if display = None \<or> display = Some k then f v else v)) (rc_threads (cs_media s))\<rparr>\<rparr>"

definition elevation_prompt :: "('d, 'x) session_env \<Rightarrow> string \<Rightarrow> string \<Rightarrow> bool \<Rightarrow> ('d, 'x, 'f) client_session \<Rightarrow> client_act list" where
  "elevation_prompt env kind txt raised s =
     (if raised \<and> cs_keyboard s then [msgbox env (handler_of s) kind ''Prompt'' txt []]
      else [CancelMsgbox kind, CancelMsgbox ''wait-uac'', CancelMsgbox ''elevation-error''])"

text \<open>The title of the box for a session the host's owner ended, Korean in the code.\<close>

definition CLOSED_TITLE :: string where "CLOSED_TITLE = ''session closed''"

definition on_misc_in :: "('d, 'x) session_env \<Rightarrow> misc_in \<Rightarrow> ('d, 'x, 'f) client_session
    \<Rightarrow> (('d, 'x, 'f) client_session \<times> client_act list) \<times> bool" where
  "on_misc_in env m s =
     (let h = handler_of s in
      case m of
        InAudioFormat \<Rightarrow> ((s, [ToAudioThread True]), True)
      | InChat t \<Rightarrow> ((s, [Shown ''new_message'']), True)
      | InSched kind accepted open_until via \<Rightarrow> (on_sched_resp kind accepted open_until via s, True)
      | InPermission k enabled \<Rightarrow> (on_permission k enabled s, True)
      | InSwitchDisplay d \<Rightarrow>
          (let (s1, a1) = handle_peer_switch_display env d s
           in ((if sd_display d \<ge> 0 then to_threads (Some (nat (sd_display d))) (send_media MediaReset) s1 else s1,
                a1 @ (if sd_width d > 0 \<and> sd_height d > 0 then [Shown ''set_display''] else [])), True))
      | InCloseReason c \<Rightarrow>
          ((s\<lparr>cs_sent_close_reason := True\<rparr>,
            [if c = ''Closed manually by the peer'' then msgbox env h ''info-nocancel'' CLOSED_TITLE c []
             else msgbox env h ''error'' ''Connection Error'' c []]), False)
      | InBlock st details \<Rightarrow> ((s, handle_back_msg_block_input env st details h), True)
      | InPrivacy st details key \<Rightarrow> handle_back_msg_privacy_mode env st details key s
      | InUac raised \<Rightarrow> ((s, elevation_prompt env ''on-uac'' ''Please wait for confirmation of UAC...'' raised s), True)
      | InForegroundElevated raised \<Rightarrow>
          ((s, elevation_prompt env ''on-foreground-elevated'' ''elevated_foreground_window_tip'' raised s), True)
      | InElevation err \<Rightarrow>
          ((s, if err = [] then [msgbox env h ''wait-uac'' [] [] []]
               else [CancelMsgbox ''wait-uac'', msgbox env h ''elevation-error'' ''Elevation Error'' err []]), True)
      | InPortableService b \<Rightarrow>
          ((s, Shown ''portable_service_running''
               # (if cs_elevation_requested s \<and> b
                  then [msgbox env h ''custom-nocancel-success'' ''Successful'' ''Elevate successfully'' []] else [])), True)
      | InSwitchBack \<Rightarrow> ((s, [Shown ''switch_back'']), True)
      | InFollowDisplay i \<Rightarrow> ((s, [Shown ''set_current_display'']), True)
      | InMiscOther \<Rightarrow> ((s, []), True))"


section \<open>Messages of the host\<close>

fun parse_displays :: "string list \<Rightarrow> int list" where
  "parse_displays [] = []"
| "parse_displays (x # xs) = (case parse_i32 x of Some n \<Rightarrow> n # parse_displays xs | None \<Rightarrow> parse_displays xs)"

definition send_toggle_virtual_display_msg :: "('d, 'x, 'f) client_session \<Rightarrow> client_act list" where
  "send_toggle_virtual_display_msg s =
     (if is_support_virtual_display (cs_peer s)
      then map (\<lambda>i. Send (MVirtualDisplay i)) (parse_displays (split_on CHR '','' (get_option (handler_of s) ''virtual-display''))) else [])"

definition send_toggle_privacy_mode_msg :: "('d, 'x) session_env \<Rightarrow> ('d, 'x, 'f) client_session \<Rightarrow> client_act list" where
  "send_toggle_privacy_mode_msg env s =
     (let h = handler_of s; key = get_option h ''privacy-mode-impl-key'' in
      if lh_version h \<ge> ce_version_number (se_client env) ''1.2.4'' \<and> get_toggle_option (se_client env) h ''privacy-mode''
         \<and> \<not> (key = ''privacy_mode_impl_virtual_display'' \<and> \<not> is_support_virtual_display (cs_peer s))
      then [Send (MPrivacyMode key)] else [])"

definition on_video :: "('d, 'x) session_env \<Rightarrow> nat \<Rightarrow> bool \<Rightarrow> 'f \<Rightarrow> ('d, 'x, 'f) session_step" where
  "on_video env display has_key f s =
     (let first = (if cs_first_frame s then []
                   else [Shown ''close_success'', Shown ''adapt_size''] @ send_toggle_virtual_display_msg s
                        @ send_toggle_privacy_mode_msg env s);
          (r, again) = on_video_frame (se_auto_record env) display has_key f (cs_media s)
      in (s\<lparr>cs_first_frame := True, cs_media := r\<rparr>,
          first @ (if again then [refresh_video (se_client env) (handler_of s) (int display)] else [])))"

definition handle_cliprdr_msg :: "('d, 'x) session_env \<Rightarrow> bool \<Rightarrow> bool \<Rightarrow> bool \<Rightarrow> ('d, 'x, 'f) client_session \<Rightarrow> client_act list" where
  "handle_cliprdr_msg env is_format_list decodes begins s =
     (if is_format_list \<and> \<not> se_own_clip_conn env then []
      else if \<not> decodes then []
      else if begins \<and> \<not> is_file_clipboard_required s then [] else [ClipFileOwn])"

definition printer_response :: "('d, 'x) session_env \<Rightarrow> int \<Rightarrow> string \<Rightarrow> string \<Rightarrow> ('d, 'x, 'f) session_step" where
  "printer_response env i path name s =
     (s\<lparr>cs_files := (cs_files s)\<lparr>printer_names := (printer_names (cs_files s))(i \<mapsto> name)\<rparr>\<rparr>,
      [Queue (UiFile (SendFiles i Printer path (se_temp_path env i) 0 False True))])"

definition on_print :: "('d, 'x) session_env \<Rightarrow> string \<Rightarrow> ('d, 'x, 'f) session_step" where
  "on_print env path s =
     (if se_printer_action env = ''dismiss'' then (s, [])
      else if se_allow_auto_print env
      then printer_response env (se_next_job_id env) path (if se_printer_action env = [] then [] else se_selected_printer env) s
      else (s, [PrinterRequest (se_next_job_id env) path]))"

definition of_files :: "'x client_files \<times> file_act list \<Rightarrow> ('d, 'x, 'f) session_step" where
  "of_files r s = (s\<lparr>cs_files := fst r\<rparr>, map FileAct (snd r))"

definition on_terminal :: "('d, 'x) session_env \<Rightarrow> bool \<Rightarrow> string \<Rightarrow> ('d, 'x, 'f) session_step" where
  "on_terminal env opened sid s =
     (if opened \<and> sid \<noteq> []
      then s\<lparr>cs_login := set_option (se_client env) (get_key_terminal_service_id (handler_of s)) sid (cs_login s)\<rparr> else s,
      [Shown ''handle_terminal_response''])"

definition handle_msg_from_peer :: "('d, 'x) session_env \<Rightarrow> 'f peer_in \<Rightarrow> ('d, 'x, 'f) client_session
    \<Rightarrow> (('d, 'x, 'f) client_session \<times> client_act list) \<times> bool" where
  "handle_msg_from_peer env m s =
     (let h = handler_of s; fe = files_env_of env h in
      case m of
        InVideo display has_key f \<Rightarrow> (on_video env display has_key f s, True)
      | InHash salt challenge \<Rightarrow>
          (let (l, as) = handle_hash (se_client env) (cs_pending s) (se_preset env) salt challenge (cs_login s)
           in ((s\<lparr>cs_login := l\<rparr>, of_login as), True))
      | InLoginError err trusted \<Rightarrow> on_login_error env err trusted s
      | InLoginInfo pi \<Rightarrow> on_login_info env pi s
      | InCursor \<Rightarrow> ((s, [Shown ''set_cursor'']), True)
      | InClipboard \<Rightarrow> ((s, if pc_disable_clipboard (lh_config h) then [] else [UpdateClipboardOwn]), True)
      | InCliprdr fl decodes begins \<Rightarrow> ((s, handle_cliprdr_msg env fl decodes begins s), True)
      | InFile r \<Rightarrow> (of_files (handle_file_response fe r (cs_files s)) s, True)
      | InMisc mm \<Rightarrow> on_misc_in env mm s
      | InTestDelay from_client \<Rightarrow> ((s, if from_client then [] else [Shown ''update_quality_status'', Send MTestDelay]), True)
      | InAudioFrame \<Rightarrow> ((s, if pc_disable_audio (lh_config h) then [] else [ToAudioThread False]), True)
      | InPrint path \<Rightarrow> (on_print env path s, True)
      | InSendConfirm q \<Rightarrow> (of_files (on_send_confirm fe q (cs_files s)) s, True)
      | InMessageBox kind title txt link \<Rightarrow>
          ((s, [msgbox env h kind title txt (case se_helper_url env link of Some v \<Rightarrow> v | None \<Rightarrow> [])]), True)
      | InVoiceRequest is_connect \<Rightarrow> (on_voice_request is_connect s, True)
      | InVoiceResponse ts accepted \<Rightarrow> (on_voice_response ts accepted s, True)
      | InPeerInfo \<Rightarrow> ((s, [Shown ''set_displays'', Shown ''set_platform_additions'']), True)
      | InScreenshot sid \<Rightarrow> ((s, [Shown ''handle_screenshot_resp'']), True)
      | InTerminal opened sid \<Rightarrow> (on_terminal env opened sid s, True)
      | InOther \<Rightarrow> ((s, []), True))"


section \<open>Commands of the interface\<close>

definition on_ui_message :: "ui_msg \<Rightarrow> ('d, 'x, 'f) session_step" where
  "on_ui_message m s =
     (case m of
        UiRefreshVideo \<Rightarrow> to_threads None refresh_discards s
      | UiRefreshVideoDisplay d \<Rightarrow> if d \<ge> 0 then to_threads (Some (nat d)) refresh_discards s else s
      | _ \<Rightarrow> s, [Send (MUser m)])"

definition handle_msg_from_ui :: "('d, 'x) session_env \<Rightarrow> ui_data \<Rightarrow> ('d, 'x, 'f) client_session
    \<Rightarrow> (('d, 'x, 'f) client_session \<times> client_act list) \<times> bool" where
  "handle_msg_from_ui env d s =
     (case d of
        UiClose \<Rightarrow> (send_close_reason [] s, False)
      | UiLogin os_username password remember \<Rightarrow>
          (let (l, as) = handle_login_from_ui (se_client env) (cs_pending s) os_username password remember (cs_login s)
           in ((s\<lparr>cs_login := l\<rparr>, of_login as), True))
      | UiMessage m \<Rightarrow> (on_ui_message m s, True)
      | UiFile c \<Rightarrow> (of_files (handle_file_cmd (files_env_of env (handler_of s)) c (cs_files s)) s, True)
      | UiRecord start \<Rightarrow> ((s\<lparr>cs_media := on_record_screen start (cs_media s)\<rparr>, []), True)
      | UiElevate direct \<Rightarrow> ((s\<lparr>cs_elevation_requested := True\<rparr>, [Send (MElevation direct)]), True)
      | UiNewVoiceCall \<Rightarrow>
          ((s\<lparr>cs_voice_request := Some (se_time env)\<rparr>, [Send (MVoiceRequest True (se_time env)), Shown ''on_voice_call_waiting'']), True)
      | UiCloseVoiceCall \<Rightarrow>
          (let (s1, a1) = stop_voice_call s
           in ((s1, a1 @ [Shown ''on_voice_call_closed'', Send (MVoiceRequest False (se_time env))]), True))
      | UiResetDecoder display \<Rightarrow> ((to_threads display (send_media MediaReset) s, []), True)
      | UiScreenshot display sid \<Rightarrow> ((s, [Send (MScreenshot display sid)]), True)
      | UiIgnored \<Rightarrow> ((s, []), True))"

text \<open>What the system's clipboard reports: a notice, or a message with whether it may be stopped.\<close>

definition handle_local_clipboard_msg :: "('d, 'x) session_env \<Rightarrow> bool option \<Rightarrow> ('d, 'x, 'f) client_session \<Rightarrow> client_act list" where
  "handle_local_clipboard_msg env clip s =
     (case clip of
        None \<Rightarrow> [Shown ''msgbox'']
      | Some stoppable \<Rightarrow>
          let c = lh_config (handler_of s)
          in if stoppable \<and> (pc_view_only c \<or> \<not> cs_is_connected s \<or> \<not> (cs_file_transfer s \<and> pc_enable_file_copy_paste c))
             then [ClipStopped] else [Send MClipFile])"


section \<open>The loop\<close>

definition SEC30 :: nat where "SEC30 = 30000"

datatype 'f loop_event =
    FromPeer "'f peer_in"                \<comment> \<open>one that does not decode is \<open>InOther\<close>\<close>
  | PeerError string
  | PeerEnd
  | FromUi ui_data
  | FromClipboard "bool option"
  | TimerTick

definition on_timer_tick :: "('d, 'x) session_env \<Rightarrow> ('d, 'x, 'f) client_session
    \<Rightarrow> (('d, 'x, 'f) client_session \<times> client_act list) \<times> bool" where
  "on_timer_tick env s =
     (let h = handler_of s in
      if se_now env - cs_last_recv s \<ge> SEC30 then ((s, [msgbox env h ''error'' ''Connection Error'' ''Timeout'' []]), False)
      else case tick_read_jobs (files_env_of env h) (cs_files s) of
             Inl err \<Rightarrow> ((s, [msgbox env h ''error'' ''Connection Error'' err []]), False)
           | Inr r \<Rightarrow> (of_files r s, True))"

definition loop_step :: "('d, 'x) session_env \<Rightarrow> 'f loop_event \<Rightarrow> ('d, 'x, 'f) client_session
    \<Rightarrow> (('d, 'x, 'f) client_session \<times> client_act list) \<times> bool" where
  "loop_step env e s =
     (case e of
        FromPeer m \<Rightarrow>
          (let s1 = (if cs_received s then s else set_handler ((handler_of s)\<lparr>lh_received := True\<rparr>) s)
           in handle_msg_from_peer env m (s1\<lparr>cs_last_recv := se_now env, cs_received := True\<rparr>))
      | PeerError err \<Rightarrow>
          ((s, [msgbox env (handler_of s) (on_establish_connection_error (se_client env) err (handler_of s)) ''Connection Error'' err []]), False)
      | PeerEnd \<Rightarrow>
          ((s, [if lh_restarting (handler_of s) then msgbox env (handler_of s) ''restarting'' ''Restarting remote device'' ''remote_restarting_tip'' []
                else msgbox env (handler_of s) ''error'' ''Connection Error'' ''Reset by the peer'' []]), False)
      | FromUi d \<Rightarrow> handle_msg_from_ui env d s
      | FromClipboard c \<Rightarrow> ((s, handle_local_clipboard_msg env c s), True)
      | TimerTick \<Rightarrow> on_timer_tick env s)"

text \<open>After the loop: the microphone stops, and over KCP the host is told.\<close>

definition leave_loop :: "bool \<Rightarrow> ('d, 'x, 'f) session_step" where
  "leave_loop kcp s =
     (let (s1, a1) = stop_voice_call s;
          (s2, a2) = (if kcp then send_close_reason ''kcp'' s1 else (s1, []))
      in (s2, a1 @ a2))"

fun loop_run :: "bool \<Rightarrow> (('d, 'x) session_env \<times> 'f loop_event) list \<Rightarrow> ('d, 'x, 'f) client_session
    \<Rightarrow> ('d, 'x, 'f) client_session \<times> client_act list \<times> bool" where
  "loop_run kcp [] s = (s, [], True)"
| "loop_run kcp ((env, e) # es) s =
     (let ((s1, a1), go) = loop_step env e s
      in if go then let (s2, a2, b) = loop_run kcp es s1 in (s2, a1 @ a2, b)
         else let (s2, a2) = leave_loop kcp s1 in (s2, a1 @ a2, False))"

definition set_disconnected_acts :: "nat \<Rightarrow> handler \<Rightarrow> round_state \<Rightarrow> round_state \<times> client_act list" where
  "set_disconnected_acts n h r =
     (let (ok, r1) = set_disconnected n r
      in (r1, if lh_conn_type h = DEFAULT_CONN \<and> ok then [StopClipboard, EmptyClipFiles] else []))"

section \<open>What a handler leaves alone\<close>

text \<open>
  What a login request of the session carries, which links are shown, and the two acts only
  their own handlers do. \<open>U\<close> are the links that may be shown, \<open>q\<close> is the offer of a time.
\<close>

fun plain :: "string set \<Rightarrow> sched_req option \<Rightarrow> client_act \<Rightarrow> bool" where
  "plain U q OpenMicrophone = False"
| "plain U q (Send (MCloseReason _)) = False"
| "plain U q (Send (MLogin (SendLogin lr _))) = (lr_sched lr = q)"
| "plain U q (Send (MLogin (SendSwitchSides _ lr))) = (lr_sched lr = q)"
| "plain U q (Msgbox _ _ _ link _) = (link = [] \<or> link \<in> U)"
| "plain U q _ = True"

abbreviation offer_of :: "('d, 'x, 'f) client_session \<Rightarrow> sched_req option" where
  "offer_of s \<equiv> cs_pending s (lh_id (handler_of s))"

text \<open>The part of the state the properties below speak of.\<close>

definition core :: "('d, 'x, 'f) client_session \<Rightarrow> int option \<times> bool \<times> bool \<times> pending \<times> string \<times> conn_type \<times> nat" where
  "core s = (cs_voice_request s, cs_stop_voice s, cs_sent_close_reason s, cs_pending s, lh_id (handler_of s),
     lh_conn_type (handler_of s), cs_last_recv s)"

definition calm :: "string set \<Rightarrow> ('d, 'x, 'f) client_session \<Rightarrow> ('d, 'x, 'f) client_session \<times> client_act list \<Rightarrow> bool" where
  "calm U s r \<longleftrightarrow> core (fst r) = core s \<and> list_all (plain U (offer_of s)) (snd r)"

definition keeps_id :: "('d lstate \<Rightarrow> 'd lstate) \<Rightarrow> bool" where
  "keeps_id f \<longleftrightarrow> (\<forall>l. lh_id (fst (f l)) = lh_id (fst l) \<and> lh_conn_type (fst (f l)) = lh_conn_type (fst l))"

lemma keeps_id_config: "keeps_id (change_config ce f)" "keeps_id (set_option ce k v)" "keeps_id (set_custom_resolution ce i wh)"
  "keeps_id (\<lambda>l. fst (snd (handle_login_error ce err l)))" "keeps_id (\<lambda>l. fst (handle_peer_info ce info l))"
proof -
  show c: "keeps_id (change_config ce f)" for f
    by (simp add: keeps_id_def change_config_def save_config_def case_prod_beta)
  then show o: "keeps_id (set_option ce k v)" for k v
    by (simp add: keeps_id_def set_option_def)
  from c show "keeps_id (set_custom_resolution ce i wh)"
    by (simp add: set_custom_resolution_def)
  from o show "keeps_id (\<lambda>l. fst (snd (handle_login_error ce err l)))"
    by (simp add: keeps_id_def handle_login_error_def split: option.split)
  show "keeps_id (\<lambda>l. fst (handle_peer_info ce info l))"
    by (simp add: keeps_id_def handle_peer_info_def save_config_def Let_def split: option.split)
qed

lemma choose_password_conn: "lh_conn_type (choose_password ce preset h) = lh_conn_type h"
  by (simp add: choose_password_def Let_def split: option.split)

lemma keeps_id_login: "keeps_id (\<lambda>l. fst (send_login ce pend u pw l))" "keeps_id (\<lambda>l. fst (handle_hash ce pend preset salt ch l))"
  "keeps_id (\<lambda>l. fst (handle_login_from_ui ce pend u pw rem l))"
proof -
  show s: "keeps_id (\<lambda>l. fst (send_login ce pend u pw l))" for u pw
    by (simp add: keeps_id_def send_login_def case_prod_beta)
  have "lh_id (fst (fst (handle_password ce pend preset h d))) = lh_id h
      \<and> lh_conn_type (fst (fst (handle_password ce pend preset h d))) = lh_conn_type h" for h d
    using s by (simp add: keeps_id_def handle_password_def Let_def case_prod_beta choose_password_frame choose_password_conn)
  then show "keeps_id (\<lambda>l. fst (handle_hash ce pend preset salt ch l))"
    by (simp add: keeps_id_def handle_hash_def Let_def case_prod_beta split: option.split)
  show "keeps_id (\<lambda>l. fst (handle_login_from_ui ce pend u pw rem l))"
    using s by (simp add: keeps_id_def handle_login_from_ui_def Let_def case_prod_beta)
qed

lemma offer_in_login: "lr_sched (fst (create_login_msg ce pend u pw l)) = pend (lh_id (fst l))"
  by (simp add: create_login_msg_def get_pending_sched_def case_prod_beta Let_def)

lemma plain_login:
  "list_all (plain U (pend (lh_id (fst l)))) (of_login (snd (send_login ce pend u pw l)))"
  "list_all (plain U (pend (lh_id (fst l)))) (of_login (snd (handle_hash ce pend preset salt ch l)))"
  "list_all (plain U (pend (lh_id (fst l)))) (of_login (snd (handle_login_from_ui ce pend u pw rem l)))"
  "list_all (plain U q) (of_login (snd (snd (handle_login_error ce err l))))"
proof -
  show s: "list_all (plain U (pend (lh_id (fst l)))) (of_login (snd (send_login ce pend u pw l)))" for u pw l
    using offer_in_login [of ce pend u pw l] by (simp add: send_login_def of_login_def case_prod_beta)
  have s': "lh_id h = i \<Longrightarrow> list_all (plain U (pend i)) (of_login (snd (send_login ce pend u pw (h, d))))" for h d i u pw
    using s [of "(h, d)"] by auto
  have p: "list_all (plain U (pend (lh_id h))) (of_login (snd (handle_password ce pend preset h d)))" for h d
    using s [of "(choose_password ce preset h, d)"]
    by (simp add: handle_password_def Let_def case_prod_beta choose_password_frame of_login_def)
  show "list_all (plain U (pend (lh_id (fst l)))) (of_login (snd (handle_hash ce pend preset salt ch l)))"
    using p [of "(fst l)\<lparr>lh_salt := salt, lh_challenge := ch, lh_switch_uuid := None\<rparr>" "snd l"]
      offer_in_login [of ce pend "[]" "[]" "((fst l)\<lparr>lh_salt := salt, lh_challenge := ch, lh_switch_uuid := None\<rparr>, snd l)"]
    by (simp add: handle_hash_def Let_def case_prod_beta of_login_def split: option.split)
  show "list_all (plain U (pend (lh_id (fst l)))) (of_login (snd (handle_login_from_ui ce pend u pw rem l)))"
    by (simp add: handle_login_from_ui_def Let_def case_prod_beta s')
  show "list_all (plain U q) (of_login (snd (snd (handle_login_error ce err l))))"
    by (simp add: handle_login_error_def of_login_def split: option.split)
qed

named_theorems calmly "handlers that leave the core alone"

lemma plain_box [simp]: "plain U q (msgbox env h k t x [])" "plain U q (on_error env h x)"
  by (simp_all add: msgbox_def on_error_def)

lemma plain_acts [simp]: "list_all (plain U q) (map FileAct as)" "plain U q (refresh_video ce h i)"
  by (simp_all add: list_all_iff refresh_video_def)

lemma core_offer: "core s = core t \<Longrightarrow> offer_of s = offer_of t"
  by (simp add: core_def)

lemma calm_refl: "calm U s (s, as) \<longleftrightarrow> list_all (plain U (offer_of s)) as"
  by (simp add: calm_def)

lemma calm_trans: "calm U s (t, as) \<Longrightarrow> calm U t (u, bs) \<Longrightarrow> calm U s (u, as @ bs)"
  unfolding calm_def using core_offer [of t s] by simp

lemma core_login: "keeps_id f \<Longrightarrow> core (s\<lparr>cs_login := f (cs_login s)\<rparr>) = core s"
  unfolding keeps_id_def core_def by simp (metis prod.collapse)

lemma core_fields [simp]:
  "core (s\<lparr>cs_files := v1\<rparr>) = core s" "core (s\<lparr>cs_media := v2\<rparr>) = core s" "core (s\<lparr>cs_keyboard := v3\<rparr>) = core s"
  "core (s\<lparr>cs_clipboard := v4\<rparr>) = core s" "core (s\<lparr>cs_file_transfer := v5\<rparr>) = core s" "core (s\<lparr>cs_is_connected := v6\<rparr>) = core s"
  "core (s\<lparr>cs_first_frame := v7\<rparr>) = core s" "core (s\<lparr>cs_elevation_requested := v8\<rparr>) = core s" "core (s\<lparr>cs_peer := v9\<rparr>) = core s"
  "core (s\<lparr>cs_received := v10\<rparr>) = core s" "core (s\<lparr>cs_last_change := v11\<rparr>) = core s" "core (s\<lparr>cs_info := v12\<rparr>) = core s"
  by (simp_all add: core_def)

lemma calm_resolution [calmly]: "calm U s (Client_Session.change_resolution env i w h s)" "calm U s (try_change_init_resolution env i s)"
  "calm U s (handle_peer_switch_display env d s)"
  subgoal by (simp add: calm_def Client_Session.change_resolution_def)
  subgoal by (simp add: calm_def Client_Session.change_resolution_def try_change_init_resolution_def split: option.split)
  subgoal by (simp add: calm_def handle_peer_switch_display_def note_resolution_def core_login [OF keeps_id_config(3)])
  done

lemma calm_remember [calmly]: "calm U s (remember_peer env pi s)"
  by (simp add: calm_def remember_peer_def case_prod_beta core_login [OF keeps_id_config(5)] split: option.split)

lemma calm_sessions [calmly]: "calm U s (send_selected_session_id env sid s)" "calm U s (offer_sessions env pi s)"
proof -
  show c: "calm U s (send_selected_session_id env sid s)" for sid
    by (simp add: calm_def send_selected_session_id_def set_handler_def core_def Let_def split: option.split)
  then show "calm U s (offer_sessions env pi s)"
    by (simp add: offer_sessions_def calm_def)
qed

lemma calm_cons: "calm U s (t, as) \<Longrightarrow> plain U (offer_of s) a \<Longrightarrow> calm U s (t, a # as)"
  "calm U s (t, as) \<Longrightarrow> list_all (plain U (offer_of s)) bs \<Longrightarrow> calm U s (t, bs @ as)"
  "calm U s (t, as) \<Longrightarrow> list_all (plain U (offer_of s)) bs \<Longrightarrow> calm U s (t, as @ bs)"
  by (simp_all add: calm_def)

lemma calm_from: "core s = core t \<Longrightarrow> calm U s r \<longleftrightarrow> calm U t r"
  by (simp add: calm_def core_def)

lemma calm_peer_info [calmly]: "calm U s (peer_info_ui env pi s)"
proof -
  let ?s = "s\<lparr>cs_info := Some pi\<rparr>"
  let ?pi = "if int (li_displays pi) \<le> li_current_display pi \<or> li_current_display pi < 0 then pi\<lparr>li_current_display := 0\<rparr> else pi"
  obtain s1 a1 where r1: "(if lh_conn_type (handler_of ?s) \<in> {DEFAULT_CONN, VIEW_CAMERA}
      then try_change_init_resolution env (li_current_display ?pi) ?s else (?s, [])) = (s1, a1)" by fastforce
  obtain s2 a2 where r2: "remember_peer env ?pi s1 = (s2, a2)" by fastforce
  obtain s3 a3 where r3: "offer_sessions env ?pi s2 = (s3, a3)" by fastforce
  obtain t b where r4: "remember_peer env ?pi ?s = (t, b)" by fastforce
  have c1: "calm U ?s (s1, a1)"
    using calm_resolution(2) [of U ?s env "li_current_display ?pi"] r1 by (auto simp: calm_refl split: if_splits)
  have c2: "calm U s1 (s2, a2)" and c3: "calm U s2 (s3, a3)" and c4: "calm U ?s (t, b)"
    using calm_remember [of U s1 env ?pi] calm_sessions(2) [of U s2 env ?pi] calm_remember [of U ?s env ?pi]
    by (simp_all add: r2 r3 r4)
  have all: "core s3 = core s" "core t = core s" "list_all (plain U (offer_of s)) (a1 @ a2 @ a3)" "list_all (plain U (offer_of s)) b"
    using calm_trans [OF calm_trans [OF c1 c2] c3] c4 by (simp_all add: calm_def)
  show ?thesis
    unfolding peer_info_ui_def Let_def r1 r2 r3 r4 prod.case
    using all by (simp add: calm_def)
qed

lemma calm_login_info [calmly]: "calm U s (fst (on_login_info env pi s))" "calm U s (fst (on_login_error env err tr s))"
proof -
  let ?s = "s\<lparr>cs_peer := set_peer_info env pi (cs_peer s)\<rparr>"
  have c: "calm U s (remember_peer env pi ?s)" "calm U s (peer_info_ui env pi ?s)"
    using calm_remember [of U ?s env pi] calm_peer_info [of U ?s env pi] calm_from [of ?s s U] by simp_all
  have boxes: "check_view_camera_support env b ?s = Some a \<Longrightarrow> plain U q a" "check_terminal_support env b ?s = Some a \<Longrightarrow> plain U q a" for a b q
    by (auto simp: check_view_camera_support_def check_terminal_support_def split: if_splits)
  show "calm U s (fst (on_login_info env pi s))"
    using c boxes unfolding on_login_info_def Let_def case_prod_beta calm_def
    by (auto split: option.split)
  show "calm U s (fst (on_login_error env err tr s))"
    by (simp add: calm_def on_login_error_def Let_def case_prod_beta plain_login(4) core_login [OF keeps_id_config(4)])
      (auto simp: core_def set_handler_def handle_login_error_def set_option_def change_config_def save_config_def
        case_prod_beta split: option.split)
qed

lemma calm_media [calmly]: "calm U s (on_video env i k f s)"
  by (auto simp: calm_def on_video_def send_toggle_virtual_display_msg_def send_toggle_privacy_mode_msg_def Let_def
      case_prod_beta list_all_iff)

lemma calm_notices [calmly]: "calm U s (fst (handle_back_msg_privacy_mode env st de key s))" "calm U s (on_permission k b s)"
  "calm U s (on_print env path s)" "calm U s (on_terminal env b sid s)" "calm U s (of_files r s)"
  subgoal by (auto simp: calm_def handle_back_msg_privacy_mode_def privacy_notice_def update_privacy_mode_def Let_def
      core_login [OF keeps_id_config(1)] split: option.split privacy_state.split)
  subgoal by (simp add: calm_def on_permission_def split: option.split permission_kind.split)
  subgoal by (simp add: calm_def on_print_def printer_response_def)
  subgoal by (simp add: calm_def on_terminal_def core_login [OF keeps_id_config(2)])
  subgoal by (simp add: calm_def of_files_def)
  done

lemma core_threads [simp]: "core (to_threads d f s) = core s"
  by (simp add: to_threads_def)

fun answers_offer :: "'f peer_in \<Rightarrow> bool" where
  "answers_offer (InMisc (InSched SkAnswer _ _ _)) = True"
| "answers_offer _ = False"

fun ends_call :: "'f peer_in \<Rightarrow> bool" where
  "ends_call (InVoiceRequest b) = (\<not> b)"
| "ends_call (InVoiceResponse _ _) = True"
| "ends_call _ = False"

fun says_goodbye :: "'f peer_in \<Rightarrow> bool" where
  "says_goodbye (InMisc (InCloseReason _)) = True"
| "says_goodbye _ = False"

lemma calm_misc:
  assumes "\<not> answers_offer (InMisc m)" "\<not> says_goodbye (InMisc m)"
  shows "calm U s (fst (on_misc_in env m s))"
proof (cases m)
  case (InSched kind a o' v)
  with assms show ?thesis by (cases kind) (simp_all add: on_misc_in_def Let_def on_sched_resp_def calm_def)
next
  case (InPermission k e)
  then show ?thesis using calm_notices(2) by (simp add: on_misc_in_def Let_def)
next
  case (InSwitchDisplay d)
  then show ?thesis using calm_resolution(3) [of U s env d]
    by (simp add: on_misc_in_def Let_def case_prod_beta calm_def)
next
  case (InPrivacy st de key)
  then show ?thesis using calm_notices(1) by (simp add: on_misc_in_def Let_def)
next
  case (InBlock st de)
  then show ?thesis by (cases st) (simp_all add: on_misc_in_def Let_def calm_def handle_back_msg_block_input_def)
qed (use assms in \<open>simp_all add: on_misc_in_def Let_def calm_def elevation_prompt_def\<close>)

lemma calm_peer:
  assumes "\<not> answers_offer m" "\<not> ends_call m" "\<not> says_goodbye m" "ran (se_helper_url env) \<subseteq> U"
  shows "calm U s (fst (handle_msg_from_peer env m s))"
proof (cases m)
  case (InHash salt ch)
  show ?thesis
    by (simp add: InHash handle_msg_from_peer_def Let_def case_prod_beta calm_def plain_login(2) core_login [OF keeps_id_login(2)])
next
  case (InLoginError err tr)
  then show ?thesis using calm_login_info(2) by (simp add: handle_msg_from_peer_def Let_def)
next
  case (InLoginInfo pi)
  then show ?thesis using calm_login_info(1) by (simp add: handle_msg_from_peer_def Let_def)
next
  case (InMisc mm)
  then show ?thesis using assms calm_misc by (simp add: handle_msg_from_peer_def Let_def)
next
  case (InMessageBox k t x l)
  then show ?thesis using assms(4)
    by (auto simp: handle_msg_from_peer_def Let_def calm_def msgbox_def ran_def split: option.split)
next
  case (InVoiceRequest b)
  then show ?thesis using assms by (simp add: handle_msg_from_peer_def Let_def on_voice_request_def calm_def)
qed (use assms in \<open>simp_all add: handle_msg_from_peer_def Let_def calmly calm_refl handle_cliprdr_msg_def\<close>)

fun plain_ui :: "ui_data \<Rightarrow> bool" where
  "plain_ui UiClose = False"
| "plain_ui UiNewVoiceCall = False"
| "plain_ui UiCloseVoiceCall = False"
| "plain_ui _ = True"

lemma calm_ui:
  assumes "plain_ui d"
  shows "calm U s (fst (handle_msg_from_ui env d s))"
proof (cases d)
  case (UiLogin u pw re)
  show ?thesis
    by (simp add: UiLogin handle_msg_from_ui_def case_prod_beta calm_def plain_login(3) core_login [OF keeps_id_login(3)])
next
  case (UiMessage m)
  then show ?thesis by (cases m) (simp_all add: handle_msg_from_ui_def on_ui_message_def calm_def)
next
  case (UiFile c)
  then show ?thesis by (simp add: handle_msg_from_ui_def calmly)
qed (use assms in \<open>simp_all add: handle_msg_from_ui_def calm_def\<close>)

text \<open>The state after a message arrived, before it is handled.\<close>

definition touched :: "('d, 'x) session_env \<Rightarrow> ('d, 'x, 'f) client_session \<Rightarrow> ('d, 'x, 'f) client_session" where
  "touched env s = (if cs_received s then s else set_handler ((handler_of s)\<lparr>lh_received := True\<rparr>) s)
     \<lparr>cs_last_recv := se_now env, cs_received := True\<rparr>"

lemma core_touched: "core (touched env s) = core (s\<lparr>cs_last_recv := se_now env\<rparr>)"
  by (simp add: touched_def set_handler_def core_def)

lemma loop_step_peer: "loop_step env (FromPeer m) s = handle_msg_from_peer env m (touched env s)"
  by (simp add: loop_step_def touched_def Let_def)

text \<open>The events that do more than leave the core alone.\<close>

fun moves :: "'f loop_event \<Rightarrow> bool" where
  "moves (FromPeer m) = (answers_offer m \<or> ends_call m \<or> says_goodbye m)"
| "moves (FromUi d) = (\<not> plain_ui d)"
| "moves _ = False"

lemma moves_peer:
  "answers_offer m \<Longrightarrow> \<exists>a b c. m = InMisc (InSched SkAnswer a b c)" "ends_call m \<Longrightarrow> m = InVoiceRequest False \<or> (\<exists>ts acc. m = InVoiceResponse ts acc)"
  "says_goodbye m \<Longrightarrow> \<exists>c. m = InMisc (InCloseReason c)"
  subgoal by (cases m rule: answers_offer.cases) auto
  subgoal by (cases m rule: ends_call.cases) auto
  subgoal by (cases m rule: says_goodbye.cases) auto
  done

definition after :: "('d, 'x) session_env \<Rightarrow> 'f loop_event \<Rightarrow> ('d, 'x, 'f) client_session \<Rightarrow> ('d, 'x, 'f) client_session" where
  "after env e s = (case e of FromPeer _ \<Rightarrow> s\<lparr>cs_last_recv := se_now env\<rparr> | _ \<Rightarrow> s)"

lemma calm_step:
  assumes "\<not> moves e" "ran (se_helper_url env) \<subseteq> U"
  shows "calm U (after env e s) (fst (loop_step env e s))"
proof (cases e)
  case (FromPeer m)
  then have "calm U (touched env s) (fst (loop_step env e s))"
    using assms calm_peer [of m env U "touched env s"] by (simp add: loop_step_peer)
  then show ?thesis
    by (simp add: FromPeer after_def calm_from [OF core_touched])
next
  case (FromUi d)
  then show ?thesis using assms calm_ui by (simp add: loop_step_def after_def)
next
  case TimerTick
  then show ?thesis
    by (simp add: loop_step_def after_def on_timer_tick_def Let_def calm_def of_files_def split: sum.split)
qed (simp_all add: loop_step_def after_def calm_def handle_local_clipboard_msg_def Let_def split: option.split)

lemma after_core [simp]:
  "cs_voice_request (after env e s) = cs_voice_request s" "cs_sent_close_reason (after env e s) = cs_sent_close_reason s"
  "cs_pending (after env e s) = cs_pending s" "cs_login (after env e s) = cs_login s" "cs_stop_voice (after env e s) = cs_stop_voice s"
  by (simp_all add: after_def split: loop_event.split)

lemma calm_fields:
  assumes "calm U s (t, as)"
  shows "cs_voice_request t = cs_voice_request s" "cs_sent_close_reason t = cs_sent_close_reason s" "cs_pending t = cs_pending s"
    "lh_id (handler_of t) = lh_id (handler_of s)" "lh_conn_type (handler_of t) = lh_conn_type (handler_of s)"
    "cs_last_recv t = cs_last_recv s" "cs_stop_voice t = cs_stop_voice s"
  using assms by (simp_all add: calm_def core_def)


section \<open>Voice calls\<close>

text \<open>The request that waits for an answer after a sequence of events.\<close>

fun ask :: "int option \<Rightarrow> ('d, 'x) session_env \<times> 'f loop_event \<Rightarrow> int option" where
  "ask r (env, FromUi UiNewVoiceCall) = Some (se_time env)"
| "ask r (env, FromPeer (InVoiceResponse _ _)) = None"
| "ask r _ = r"

lemma ask_calm: "\<not> moves e \<Longrightarrow> ask r (env, e) = r"
  by (cases "(r, (env, e))" rule: ask.cases) auto

lemma step_voice:
  assumes "loop_step env e s = ((s1, as), go)"
  shows "cs_voice_request s1 = ask (cs_voice_request s) (env, e)"
    "lh_conn_type (handler_of s1) = lh_conn_type (handler_of s)"
    "OpenMicrophone \<in> set as \<Longrightarrow> \<exists>ts. e = FromPeer (InVoiceResponse ts True) \<and> cs_voice_request s = Some ts \<and> start_voice_call (handler_of s)"
proof -
  have calm: "calm UNIV (after env e s) (s1, as)" if "\<not> moves e"
    using calm_step [OF that subset_UNIV, of env s] assms by simp
  have no_mic: "OpenMicrophone \<notin> set as" if "calm UNIV (after env e s) (s1, as)"
    using that by (auto simp: calm_def list_all_iff)
  have tc: "cs_voice_request (touched env s) = cs_voice_request s" "lh_conn_type (handler_of (touched env s)) = lh_conn_type (handler_of s)"
    using core_touched [of env s] by (simp_all add: core_def)
  have all: "cs_voice_request s1 = ask (cs_voice_request s) (env, e) \<and> lh_conn_type (handler_of s1) = lh_conn_type (handler_of s)
    \<and> (OpenMicrophone \<in> set as \<longrightarrow> (\<exists>ts. e = FromPeer (InVoiceResponse ts True) \<and> cs_voice_request s = Some ts
         \<and> start_voice_call (handler_of s)))"
  proof (cases "moves e")
    case False
    with calm no_mic calm_fields [of UNIV "after env e s" s1 as] show ?thesis by (simp add: ask_calm)
  next
    case True
    show ?thesis
    proof (cases e)
      case (FromPeer m)
      with True consider a b c where "m = InMisc (InSched SkAnswer a b c)" | "m = InVoiceRequest False"
        | ts acc where "m = InVoiceResponse ts acc" | c where "m = InMisc (InCloseReason c)"
        using moves_peer [of m] by auto
      then show ?thesis
      proof cases
        case (3 ts acc)
        then show ?thesis
          using assms tc unfolding FromPeer loop_step_peer
          by (auto simp: handle_msg_from_peer_def on_voice_response_def Let_def start_voice_call_def split: option.splits if_splits)
      qed (use assms tc in \<open>auto simp: FromPeer loop_step_peer handle_msg_from_peer_def on_misc_in_def on_sched_resp_def
            on_voice_request_def msgbox_def Let_def split: if_splits\<close>)
    next
      case (FromUi d)
      with True assms show ?thesis
        by (cases d) (auto simp: loop_step_def handle_msg_from_ui_def send_close_reason_def stop_voice_call_def Let_def split: if_splits)
    qed (use True in simp_all)
  qed
  then show "cs_voice_request s1 = ask (cs_voice_request s) (env, e)" "lh_conn_type (handler_of s1) = lh_conn_type (handler_of s)"
    "OpenMicrophone \<in> set as \<Longrightarrow> \<exists>ts. e = FromPeer (InVoiceResponse ts True) \<and> cs_voice_request s = Some ts \<and> start_voice_call (handler_of s)"
    by blast+
qed

lemma leave_no_mic: "OpenMicrophone \<notin> set (snd (leave_loop kcp s))"
  by (simp add: leave_loop_def stop_voice_call_def send_close_reason_def Let_def)

lemma outstanding_last:
  assumes "foldl ask None es = Some ts"
  shows "\<exists>fs env gs. es = fs @ (env, FromUi UiNewVoiceCall) # gs \<and> se_time env = ts
    \<and> (\<forall>x \<in> set gs. \<forall>t a. snd x \<noteq> FromPeer (InVoiceResponse t a)) \<and> (\<forall>x \<in> set gs. snd x \<noteq> FromUi UiNewVoiceCall)"
  using assms
proof (induction es rule: rev_induct)
  case (snoc x es)
  obtain env e where x: "x = (env, e)" by (cases x)
  show ?case
  proof (cases "e = FromUi UiNewVoiceCall")
    case True
    with snoc.prems x have "es @ [x] = es @ (env, FromUi UiNewVoiceCall) # [] \<and> se_time env = ts" by simp
    then show ?thesis by (metis empty_iff list.set(1))
  next
    case False
    have no: "e \<noteq> FromPeer (InVoiceResponse t a)" for t a
      using snoc.prems x by auto
    then have "ask r (env, e) = r" for r
      using False by (cases "(r, (env, e))" rule: ask.cases) auto
    with snoc.prems x have "foldl ask None es = Some ts" by simp
    from snoc.IH [OF this] obtain fs env1 gs where g: "es = fs @ (env1, FromUi UiNewVoiceCall) # gs" "se_time env1 = ts"
      "\<forall>y \<in> set gs. \<forall>t a. snd y \<noteq> FromPeer (InVoiceResponse t a)" "\<forall>y \<in> set gs. snd y \<noteq> FromUi UiNewVoiceCall"
      by blast
    have "es @ [x] = fs @ (env1, FromUi UiNewVoiceCall) # (gs @ [x])" using g(1) by simp
    moreover have "\<forall>y \<in> set (gs @ [x]). \<forall>t a. snd y \<noteq> FromPeer (InVoiceResponse t a)" "\<forall>y \<in> set (gs @ [x]). snd y \<noteq> FromUi UiNewVoiceCall"
      using g(3,4) no False x by auto
    ultimately show ?thesis using g(2) by blast
  qed
qed simp

lemma microphone_opened:
  assumes "OpenMicrophone \<in> set (fst (snd (loop_run kcp es s)))"
  shows "\<exists>es1 env es2 ts. es = es1 @ (env, FromPeer (InVoiceResponse ts True)) # es2
    \<and> foldl ask (cs_voice_request s) es1 = Some ts \<and> start_voice_call (handler_of s)"
  using assms
proof (induction es arbitrary: s)
  case (Cons x es)
  obtain env e where x: "x = (env, e)" by (cases x)
  obtain s1 a1 go where st: "loop_step env e s = ((s1, a1), go)" by (metis surj_pair)
  note v = step_voice [OF st]
  show ?case
  proof (cases "OpenMicrophone \<in> set a1")
    case True
    from v(3) [OF this] obtain ts where "e = FromPeer (InVoiceResponse ts True)" "cs_voice_request s = Some ts" "start_voice_call (handler_of s)"
      by blast
    then have "x # es = [] @ (env, FromPeer (InVoiceResponse ts True)) # es \<and> foldl ask (cs_voice_request s) [] = Some ts
        \<and> start_voice_call (handler_of s)"
      by (simp add: x)
    then show ?thesis by blast
  next
    case False
    with Cons.prems st have "OpenMicrophone \<in> set (fst (snd (loop_run kcp es s1)))"
      using leave_no_mic [of kcp s1] by (auto simp: x case_prod_beta split: if_splits)
    from Cons.IH [OF this] obtain es1 env' es2 ts where r: "es = es1 @ (env', FromPeer (InVoiceResponse ts True)) # es2"
      "foldl ask (cs_voice_request s1) es1 = Some ts" "start_voice_call (handler_of s1)"
      by blast
    have "x # es = (x # es1) @ (env', FromPeer (InVoiceResponse ts True)) # es2 \<and> foldl ask (cs_voice_request s) (x # es1) = Some ts
        \<and> start_voice_call (handler_of s)"
      using r v(1,2) by (simp add: x start_voice_call_def)
    then show ?thesis by blast
  qed
qed simp

text \<open>
  C10. The technician's microphone is opened only for a call the technician asked for. In any
  run of the loop that begins with no call pending, when the microphone is opened there was a
  request of the technician and, after it, an acceptance of the host that carries the time of
  that very request; between the two there was neither a newer request nor another answer, so
  an answer counts once. No file transfer, port forward or terminal opens it.
\<close>

theorem microphone_needs_own_request:
  assumes "OpenMicrophone \<in> set (fst (snd (loop_run kcp es s)))" and "cs_voice_request s = None"
  shows "lh_conn_type (handler_of s) \<in> {DEFAULT_CONN, VIEW_CAMERA}
    \<and> (\<exists>fs env1 gs env2 hs. es = fs @ (env1, FromUi UiNewVoiceCall) # gs @ (env2, FromPeer (InVoiceResponse (se_time env1) True)) # hs
         \<and> (\<forall>x \<in> set gs. \<forall>t a. snd x \<noteq> FromPeer (InVoiceResponse t a)) \<and> (\<forall>x \<in> set gs. snd x \<noteq> FromUi UiNewVoiceCall))"
proof -
  from microphone_opened [OF assms(1)] obtain es1 env es2 ts where r: "es = es1 @ (env, FromPeer (InVoiceResponse ts True)) # es2"
    "foldl ask (cs_voice_request s) es1 = Some ts" "start_voice_call (handler_of s)"
    by blast
  from outstanding_last [of es1 ts] r(2) assms(2) obtain fs env1 gs where "es1 = fs @ (env1, FromUi UiNewVoiceCall) # gs"
    "se_time env1 = ts" "\<forall>x \<in> set gs. \<forall>t a. snd x \<noteq> FromPeer (InVoiceResponse t a)" "\<forall>x \<in> set gs. snd x \<noteq> FromUi UiNewVoiceCall"
    by auto
  moreover from this r(1) have "es = fs @ (env1, FromUi UiNewVoiceCall) # gs @ (env, FromPeer (InVoiceResponse (se_time env1) True)) # es2"
    by simp
  moreover from r(3) have "lh_conn_type (handler_of s) \<in> {DEFAULT_CONN, VIEW_CAMERA}"
    by (cases "lh_conn_type (handler_of s)") (simp_all add: start_voice_call_def)
  ultimately show ?thesis by blast
qed

text \<open>
  C33. Hanging up does not take the request back. When the host's owner accepts a call and the
  technician hangs up before the answer arrives, the host ends the call, and the answer
  opens the technician's microphone: the host's side is out of the call, the technician's is in
  it.
\<close>

theorem hung_up_call_starts:
  assumes "lh_conn_type (handler_of s) \<in> {DEFAULT_CONN, VIEW_CAMERA}" "\<not> cs_stop_voice s" "se_time env1 \<noteq> 0"
  shows "let ((s1, a1), _) = handle_msg_from_ui env1 UiNewVoiceCall s;
      (p1, _) = on_voice_call_request menv True (se_time env1) p;
      (p2, e2) = handle_voice_call menv True p1;
      ((s2, a2), _) = handle_msg_from_ui env2 UiCloseVoiceCall s1;
      (p3, _) = on_voice_call_request menv False (se_time env2) p2;
      ((s3, a3), _) = handle_msg_from_peer env3 (InVoiceResponse (the (voice_call_request p1)) True) s2
    in VoiceCallAnswer True \<in> set e2 \<and> Send (MVoiceRequest False (se_time env2)) \<in> set a2 \<and> \<not> voice_calling p3
       \<and> OpenMicrophone \<in> set a3 \<and> cs_stop_voice s3"
  using assms
  by (auto simp: handle_msg_from_ui_def on_voice_call_request_def handle_voice_call_def stop_voice_call_def close_voice_call_def
      handle_msg_from_peer_def on_voice_response_def start_voice_call_def Let_def)


section \<open>The end of a session\<close>

definition is_close_reason :: "client_act \<Rightarrow> bool" where
  "is_close_reason a \<longleftrightarrow> (\<exists>r. a = Send (MCloseReason r))"

definition goodbyes :: "client_act list \<Rightarrow> nat" where
  "goodbyes as = length (filter is_close_reason as)"

lemma goodbyes_simps [simp]: "goodbyes [] = 0" "goodbyes (as @ bs) = goodbyes as + goodbyes bs"
  "goodbyes (a # as) = (if is_close_reason a then Suc (goodbyes as) else goodbyes as)"
  by (simp_all add: goodbyes_def)

lemma calm_goodbyes: "calm U s (t, as) \<Longrightarrow> goodbyes as = 0"
  by (auto simp: calm_def goodbyes_def is_close_reason_def list_all_iff filter_empty_conv)

definition told :: "('d, 'x, 'f) client_session \<Rightarrow> nat" where
  "told s = (if cs_sent_close_reason s then 1 else 0)"

lemma step_goodbyes:
  assumes "loop_step env e s = ((s1, as), go)"
  shows "told s + goodbyes as \<le> told s1 \<and> told s1 \<le> 1"
proof (cases "moves e")
  case False
  with calm_step [OF False subset_UNIV, of env s] assms have c: "calm UNIV (after env e s) (s1, as)" by simp
  then show ?thesis using calm_goodbyes [OF c] calm_fields(2) [OF c] by (simp add: told_def)
next
  case True
  have tc: "cs_sent_close_reason (touched env s) = cs_sent_close_reason s"
    using core_touched [of env s] by (simp add: core_def)
  show ?thesis
  proof (cases e)
    case (FromPeer m)
    with True consider a b c where "m = InMisc (InSched SkAnswer a b c)" | "m = InVoiceRequest False"
      | ts acc where "m = InVoiceResponse ts acc" | c where "m = InMisc (InCloseReason c)"
      using moves_peer [of m] by auto
    then show ?thesis
      using assms tc by cases (auto simp: FromPeer loop_step_peer handle_msg_from_peer_def on_misc_in_def on_sched_resp_def on_voice_request_def
          on_voice_response_def msgbox_def told_def is_close_reason_def Let_def split: if_splits option.splits)
  next
    case (FromUi d)
    with True assms show ?thesis
      by (cases d) (auto simp: loop_step_def handle_msg_from_ui_def send_close_reason_def stop_voice_call_def told_def
          is_close_reason_def Let_def split: if_splits)
  qed (use True in simp_all)
qed

lemma leave_goodbyes: "told s + goodbyes (snd (leave_loop kcp s)) \<le> told (fst (leave_loop kcp s))
    \<and> told (fst (leave_loop kcp s)) \<le> 1 \<and> (kcp \<longrightarrow> cs_sent_close_reason (fst (leave_loop kcp s)))"
  by (simp add: leave_loop_def stop_voice_call_def send_close_reason_def told_def is_close_reason_def Let_def)

text \<open>
  The host is told about the end at most once, and over KCP always: however the session
  runs and ends, at most one close reason is sent, none after the host itself has said that it
  closes, and when the loop has ended over KCP either side has told the other.
\<close>

theorem goodbye_once:
  "goodbyes (fst (snd (loop_run kcp es s))) \<le> (if cs_sent_close_reason s then 0 else 1)
   \<and> (\<not> snd (snd (loop_run kcp es s)) \<and> kcp \<longrightarrow> cs_sent_close_reason (fst (loop_run kcp es s)))"
proof -
  have "told s + goodbyes (fst (snd (loop_run kcp es s))) \<le> 1
    \<and> (\<not> snd (snd (loop_run kcp es s)) \<and> kcp \<longrightarrow> cs_sent_close_reason (fst (loop_run kcp es s)))"
  proof (induction es arbitrary: s)
    case Nil
    show ?case by (simp add: told_def)
  next
    case (Cons x es)
    obtain env e where x: "x = (env, e)" by (cases x)
    obtain s1 a1 go where st: "loop_step env e s = ((s1, a1), go)" by (metis surj_pair)
    show ?case
      using step_goodbyes [OF st] Cons.IH [of s1] leave_goodbyes [of s1 kcp] st by (auto simp: x case_prod_beta)
  qed
  then show ?thesis by (auto simp: told_def split: if_splits)
qed

fun from_peer :: "'f loop_event \<Rightarrow> bool" where
  "from_peer (FromPeer _) = True"
| "from_peer _ = False"

lemma step_last_recv:
  assumes "loop_step env e s = ((s1, as), go)" "\<not> from_peer e"
  shows "cs_last_recv s1 = cs_last_recv s"
proof (cases "moves e")
  case False
  have "after env e s = s" using assms(2) by (cases e) (simp_all add: after_def)
  with calm_step [OF False subset_UNIV, of env s] assms have "calm UNIV s (s1, as)" by simp
  then show ?thesis by (rule calm_fields(6))
next
  case True
  then obtain d where "e = FromUi d" "\<not> plain_ui d" using assms(2) by (cases e) auto
  then show ?thesis using assms(1)
    by (cases d) (auto simp: loop_step_def handle_msg_from_ui_def send_close_reason_def stop_voice_call_def Let_def split: if_splits)
qed

lemma elapsed_iff: "SEC30 \<le> a - b \<longleftrightarrow> b + SEC30 \<le> a"
  by (auto simp: SEC30_def)

lemma silent_ends:
  assumes "list_all (\<lambda>(_, e). \<not> from_peer e) es" "(env, TimerTick) \<in> set es" "cs_last_recv s + SEC30 \<le> se_now env"
  shows "\<not> snd (snd (loop_run kcp es s))"
  using assms
proof (induction es arbitrary: s)
  case (Cons x es)
  obtain env1 e where x: "x = (env1, e)" by (cases x)
  obtain s1 a1 go where st: "loop_step env1 e s = ((s1, a1), go)" by (metis surj_pair)
  have t: "cs_last_recv s1 = cs_last_recv s"
    using step_last_recv [OF st] Cons.prems(1) by (simp add: x)
  show ?case
  proof (cases "(env, TimerTick) = x")
    case True
    with st have "\<not> go"
      using Cons.prems(3) by (auto simp: x loop_step_def on_timer_tick_def Let_def elapsed_iff)
    then show ?thesis by (simp add: x st case_prod_beta)
  next
    case False
    then have "\<not> snd (snd (loop_run kcp es s1))"
      using Cons.IH [of s1] Cons.prems t by auto
    then show ?thesis by (simp add: x st case_prod_beta)
  qed
qed simp

text \<open>
  C27. A silent peer ends the session within a minute, and only silence does. When nothing has
  come from the host since the last message, whatever the technician does meanwhile, the loop
  has ended by the first tick of its timer that comes thirty seconds or more after that
  message, and as the timer ticks every thirty seconds that is before sixty. The timeout is
  never reported earlier than thirty seconds after the last message.
\<close>

theorem silent_peer_times_out:
  assumes "list_all (\<lambda>(_, e). \<not> from_peer e) es"
    and "(env, TimerTick) \<in> set es" "cs_last_recv s + SEC30 \<le> se_now env" "se_now env \<le> cs_last_recv s + 2 * SEC30"
    and "es' = filter (\<lambda>(env', _). se_now env' \<le> cs_last_recv s + 2 * SEC30) es"
  shows "\<not> snd (snd (loop_run kcp es' s))
    \<and> (\<forall>env'. se_now env' < cs_last_recv s + SEC30 \<longrightarrow>
         msgbox env' (handler_of s) ''error'' ''Connection Error'' ''Timeout'' [] \<notin> set (snd (fst (loop_step env' TimerTick s)))
         \<or> tick_read_jobs (files_env_of env' (handler_of s)) (cs_files s) = Inl ''Timeout'')"
proof -
  have "list_all (\<lambda>(_, e). \<not> from_peer e) es'" "(env, TimerTick) \<in> set es'"
    using assms by (auto simp: list_all_iff)
  from silent_ends [OF this assms(3)] show ?thesis
    by (auto simp: loop_step_def on_timer_tick_def Let_def of_files_def msgbox_def elapsed_iff split: sum.splits)
qed


section \<open>Offers and links\<close>

fun answers :: "'f loop_event \<Rightarrow> bool" where
  "answers (FromPeer m) = answers_offer m"
| "answers _ = False"

fun carries :: "sched_req option \<Rightarrow> client_act \<Rightarrow> bool" where
  "carries q (Send (MLogin (SendLogin lr _))) = (lr_sched lr = q)"
| "carries q (Send (MLogin (SendSwitchSides _ lr))) = (lr_sched lr = q)"
| "carries q _ = True"

lemma plain_carries: "plain U q a \<Longrightarrow> carries q a"
  by (cases "(q, a)" rule: carries.cases) auto

lemma step_offer:
  assumes "loop_step env e s = ((s1, as), go)" "\<not> answers e"
  shows "cs_pending s1 = cs_pending s \<and> lh_id (handler_of s1) = lh_id (handler_of s) \<and> list_all (carries (offer_of s)) as"
proof (cases "moves e")
  case False
  with calm_step [OF False subset_UNIV, of env s] assms have c: "calm UNIV (after env e s) (s1, as)" by simp
  then have "list_all (plain UNIV (offer_of s)) as" by (simp add: calm_def)
  then have "list_all (carries (offer_of s)) as"
    by (rule list.pred_mono_strong) (rule plain_carries)
  with calm_fields [OF c] show ?thesis by simp
next
  case True
  have tc: "cs_pending (touched env s) = cs_pending s" "lh_id (handler_of (touched env s)) = lh_id (handler_of s)"
    using core_touched [of env s] by (simp_all add: core_def)
  show ?thesis
  proof (cases e)
    case (FromPeer m)
    with True assms(2) consider "m = InVoiceRequest False" | ts acc where "m = InVoiceResponse ts acc" | c where "m = InMisc (InCloseReason c)"
      using moves_peer [of m] by auto
    then show ?thesis
      using assms tc by cases (auto simp: FromPeer loop_step_peer handle_msg_from_peer_def on_misc_in_def on_voice_request_def
          on_voice_response_def msgbox_def Let_def split: if_splits option.splits)
  next
    case (FromUi d)
    with True assms show ?thesis
      by (cases d) (auto simp: loop_step_def handle_msg_from_ui_def send_close_reason_def stop_voice_call_def Let_def split: if_splits)
  qed (use True in simp_all)
qed

lemma leave_offer: "cs_pending (fst (leave_loop kcp s)) = cs_pending s \<and> list_all (carries q) (snd (leave_loop kcp s))"
  by (simp add: leave_loop_def stop_voice_call_def send_close_reason_def Let_def)

text \<open>
  An offer of a time is made with every login until it is answered. As long as the host's
  owner has not answered, the offer is kept, whatever else the session does, and every login
  request of the session carries it; only an answer, neither the receipt nor a report on the
  window, takes it away.
\<close>

theorem offer_kept_until_answered:
  assumes "list_all (\<lambda>(_, e). \<not> answers e) es"
  shows "cs_pending (fst (loop_run kcp es s)) = cs_pending s
    \<and> list_all (carries (cs_pending s (lh_id (handler_of s)))) (fst (snd (loop_run kcp es s)))"
  using assms
proof (induction es arbitrary: s)
  case (Cons x es)
  obtain env e where x: "x = (env, e)" by (cases x)
  obtain s1 a1 go where st: "loop_step env e s = ((s1, a1), go)" by (metis surj_pair)
  show ?case
    using step_offer [OF st] Cons.IH [of s1] Cons.prems leave_offer [of kcp s1 "offer_of s"] st by (auto simp: x case_prod_beta)
qed simp

text \<open>
  No link of the host's choosing is shown. Every box a message of the host opens has no
  link or one of the program's own list of help pages.
\<close>

theorem links_are_own:
  "Msgbox kind title txt link retry \<in> set (snd (fst (handle_msg_from_peer env m s))) \<longrightarrow> link = [] \<or> link \<in> ran (se_helper_url env)"
proof (cases "answers_offer m \<or> ends_call m \<or> says_goodbye m")
  case False
  then have "calm (ran (se_helper_url env)) s (fst (handle_msg_from_peer env m s))"
    by (simp add: calm_peer)
  then show ?thesis by (auto simp: calm_def list_all_iff)
next
  case True
  then consider a b c where "m = InMisc (InSched SkAnswer a b c)" | "m = InVoiceRequest False"
    | ts acc where "m = InVoiceResponse ts acc" | c where "m = InMisc (InCloseReason c)"
    using moves_peer [of m] by auto
  then show ?thesis
    by cases (auto simp: handle_msg_from_peer_def on_misc_in_def on_sched_resp_def on_voice_request_def on_voice_response_def
        msgbox_def Let_def split: if_splits option.splits)
qed

section \<open>Witnesses\<close>

definition sample_senv :: "nat \<Rightarrow> (string \<Rightarrow> peer_config, bool option) session_env" where
  "sample_senv now = \<lparr>se_client = sample_client, se_fs = sample_fs, se_now = now, se_time = 5, se_preset = [], se_auto_record = False,
     se_helper_url = [''help'' \<mapsto> ''https://help''], se_additions = (\<lambda>_. None), se_own_clip_conn = True, se_printer_action = [],
     se_allow_auto_print = False, se_selected_printer = [], se_next_job_id = 1, se_temp_path = (\<lambda>_. []),
     se_sync_init_clipboard = False, se_clipboard_msg = False\<rparr>"

definition sample_session :: "(string \<Rightarrow> peer_config, bool option, nat) client_session" where
  "sample_session = \<lparr>cs_login = (sample_handler, \<lambda>_. blank_config), cs_pending = Map.empty, cs_files = new_client_files 0,
     cs_media = recording_start, cs_keyboard = True, cs_clipboard = True, cs_file_transfer = True, cs_stop_voice = False,
     cs_voice_request = None, cs_is_connected = True, cs_first_frame = True, cs_elevation_requested = False,
     cs_peer = \<lparr>pp_platform = [], pp_is_installed = False, pp_idd_impl = [], pp_support_view_camera = False, pp_support_terminal = False\<rparr>,
     cs_sent_close_reason = False, cs_last_recv = 0, cs_received = True,
     cs_last_change = \<lparr>cd_time = None, cd_display = 0, cd_width = 0, cd_height = 0\<rparr>, cs_info = None\<rparr>"

lemmas sample_simps = sample_senv_def sample_session_def sample_handler_def

theorem microphone_needs_own_request_witness:
  "let es = [(sample_senv 1, FromUi UiNewVoiceCall), (sample_senv 2, FromPeer (InVoiceResponse 5 True))]
   in OpenMicrophone \<in> set (fst (snd (loop_run False es sample_session)))
      \<and> (\<exists>fs env1 gs env2 hs. es = fs @ (env1, FromUi UiNewVoiceCall) # gs
            @ (env2, FromPeer (InVoiceResponse (se_time env1) True)) # hs)"
proof -
  define es :: "((string \<Rightarrow> peer_config, bool option) session_env \<times> nat loop_event) list"
    where "es = [(sample_senv 1, FromUi UiNewVoiceCall), (sample_senv 2, FromPeer (InVoiceResponse 5 True))]"
  have o: "OpenMicrophone \<in> set (fst (snd (loop_run False es sample_session)))"
    by (simp add: es_def sample_simps loop_step_def handle_msg_from_ui_def handle_msg_from_peer_def on_voice_response_def
        start_voice_call_def Let_def)
  moreover have "cs_voice_request sample_session = None" by (simp add: sample_session_def)
  ultimately show ?thesis
    using microphone_needs_own_request [OF o] unfolding es_def [symmetric] Let_def by blast
qed

theorem hung_up_call_starts_witness:
  "OpenMicrophone \<in> set (snd (fst (handle_msg_from_peer (sample_senv 3) (InVoiceResponse 5 True)
     (fst (fst (handle_msg_from_ui (sample_senv 2) UiCloseVoiceCall
       (fst (fst (handle_msg_from_ui (sample_senv 1) UiNewVoiceCall sample_session)))))))))"
  using hung_up_call_starts [of sample_session "sample_senv 1" Session_Msgs.sample_env "sample_peer Remote" "sample_senv 2" "sample_senv 3"]
  by (simp add: Let_def case_prod_beta on_voice_call_request_def) (simp add: sample_simps)

theorem goodbye_once_witness:
  "goodbyes (fst (snd (loop_run True [(sample_senv 1, FromUi UiClose)] sample_session))) \<le> 1
   \<and> cs_sent_close_reason (fst (loop_run True [(sample_senv 1, FromUi UiClose)] sample_session))"
proof -
  have "\<not> snd (snd (loop_run True [(sample_senv 1, FromUi UiClose)] sample_session))"
    by (simp add: loop_step_def handle_msg_from_ui_def case_prod_beta)
  with goodbye_once [of True "[(sample_senv 1, FromUi UiClose)]" sample_session] show ?thesis
    by (simp add: sample_session_def split: if_splits)
qed

theorem silent_peer_times_out_witness:
  "\<not> snd (snd (loop_run False [(sample_senv 1000, FromUi (UiRecord False)), (sample_senv 31000, TimerTick)] sample_session))"
  by (rule conjunct1 [OF silent_peer_times_out [where env = "sample_senv 31000"
      and es = "[(sample_senv 1000, FromUi (UiRecord False)), (sample_senv 31000, TimerTick)]"]])
    (simp_all add: sample_simps SEC30_def)

theorem offer_kept_until_answered_witness:
  "cs_pending (fst (loop_run False [(sample_senv 1, FromPeer (InHash ''s'' ''c'')), (sample_senv 2, FromUi UiClose)] sample_session))
    = cs_pending sample_session"
  by (rule conjunct1 [OF offer_kept_until_answered]) simp

theorem links_are_own_witness:
  "let acts = snd (fst (handle_msg_from_peer (sample_senv 1) (InMessageBox ''info'' ''t'' ''x'' ''https://evil'') sample_session))
   in acts = [Msgbox ''info'' ''t'' ''x'' [] False] \<and> ''https://evil'' \<notin> ran (se_helper_url (sample_senv 1))"
proof -
  have e: "snd (fst (handle_msg_from_peer (sample_senv 1) (InMessageBox ''info'' ''t'' ''x'' ''https://evil'') sample_session))
      = [Msgbox ''info'' ''t'' ''x'' [] False]"
    by (simp add: handle_msg_from_peer_def Let_def msgbox_def check_if_retry_def sample_senv_def)
  have "''https://evil'' \<notin> ran (se_helper_url (sample_senv 1))"
    by (auto simp: sample_senv_def ran_def split: if_splits)
  with e links_are_own [of "''info''" "''t''" "''x''" "[]" False "sample_senv 1" "InMessageBox ''info'' ''t'' ''x'' ''https://evil''" sample_session]
  show ?thesis by simp
qed

end
