(* ===== verification/Service_Process.thy ===== *)
theory Service_Process
  imports Updater Conn_Registry
begin

text \<open>
  The two processes of the installed program on Windows. \<open>run_service\<close> of
  \<open>src/src/platform/windows.rs\<close> is the body of the process \<open>--service\<close>: it starts the threads of
  \<open>chainremote_push_agent.rs\<close> and \<open>chainremote_updater.rs\<close> and launches the process \<open>--server\<close>, in
  which \<open>start_server\<close> of \<open>src/src/server.rs\<close> accepts the connections. The registries of
  \<open>src/src/server/connection.rs\<close> are statics, so each process has its own.

  The connections of \<open>Conn_Registry\<close>, the polls of \<open>Push_Agent\<close> and the passes of \<open>Updater\<close> are
  put together here: what the threads see of the connections, and what they do while a
  technician is connected.
\<close>

section \<open>The processes\<close>











section \<open>Histories\<close>






section \<open>Lemmas\<close>








section \<open>Properties\<close>





end
