(* ===== verification/Spec2Isabelle.thy ===== *)
theory Spec2Isabelle
  imports Sched Update_Common Client_Connect Van Push_Agent Video_Qos Login_Throttle Login Updater Firewall Upnp Heartbeat
    Term_Buffer Term_Helper Terminal Auth Session_Msgs Conn_Registry Services Served Rendezvous Incoming Conn_Manager
    Migrate Probe Custom_Server Client_Files Client_Media Client_Login Client_Rounds Client_Session
    Service_Process
begin

text \<open>
  Verification of ChainRemote, a remote support program (a fork of RustDesk in Rust).

  \<^bold>\<open>The program.\<close> A technician at a head office connects to point-of-sale machines of
  customers. On the customer's machine an agent runs as a Windows service with a server
  process: it registers at a rendezvous server, lets connections in, authorizes them with the
  owner's answers from the connection manager, serves their messages, keeps shells for remote
  terminals and scheduled access windows, reports to a panel by heartbeat, carries out what
  the panel orders (firewall watch, payment daemon watch, port opening at the router, disk
  cleanup, closing of an access window) and updates itself on pushes of the panel. The head
  office build signs in at the panel, connects to peers and updates itself from a release
  manifest.

  \<^bold>\<open>Theories and sources\<close> (paths under \<open>src/src/\<close> of the repository). The properties are
  numbered by importance; the other lemmas of a theory carry their proofs or complete the
  picture of the component.
  \<^item> \<open>Prelude\<close>: what the sources use of Rust (wrapping integers, strings as UTF-8 bytes,
    number parsing and printing) and the interfaces as locales: a machine with an invariant,
    an encoder with its decoder, the option store of \<open>hbb_common\<close>, a report latch.
  \<^item> \<open>Sched\<close>: \<open>chainremote_sched.rs\<close>, the answer of the shop owner in
    \<open>ui_cm_interface.rs\<close>, the status message of \<open>server/connection.rs\<close>. The state is the
    marker file; an access without the accept card needs an accepted answer at most a day
    old (C1), the window admitted is exactly the agreed one
    (C35), the idle close (\<open>sched_idle_close\<close>), the redundant day
    check (C36), the idle clock with two sessions
    (\<open>sched_second_session_starts_idle_clock\<close>).
  \<^item> \<open>Update_Common\<close>: \<open>chainremote_update_common.rs\<close>. Version strings are read back
    (\<open>parse_version_roundtrip\<close>); the hash check on every outcome.
  \<^item> \<open>Client_Connect\<close>: \<open>chainremote_direct.rs\<close> and the connection set-up of \<open>client.rs\<close>:
    spacing of direct attempts (\<open>direct_retry_spacing\<close>), the key exchange
    (\<open>secure_connection_key\<close>), waiting windows and the choice of transport.
  \<^item> \<open>Van\<close>: \<open>chainremote_van.rs\<close>. The watchdog of the card payment daemon kills only a
    daemon that is down with no payment in progress (C17), but restarts a
    daemon that never listens without end (\<open>van_restarts_deaf_daemon_forever\<close>); also that
    it waits for two findings in a row and gives up for good.
  \<^item> \<open>Push_Agent\<close>: \<open>chainremote_push_agent.rs\<close>. Guards of an installation by push
    (C16), no second launch before the deadline
    (\<open>push_no_relaunch_before_deadline\<close>); reports that survive failures, counted
    retries of a download.
  \<^item> \<open>Video_Qos\<close>: \<open>server/video_qos.rs\<close>, with single precision rounding. No panic and values
    in range in every history (C39); limits of the frame rate.
  \<^item> \<open>Login_Throttle\<close>, \<open>Login\<close>: the authorization of a connection in
    \<open>server/connection.rs\<close>: the check and the update of the counters as steps of
    interleaved connections, bounds on guesses by the number of those side by side
    (C13), the lost updates; the grounds on which a login request is authorized
    (C3), the second factor alone
    (C37), the trusted id of a file transfer
    (\<open>file_transfer_trusts_named_id\<close>), the restart grace, the comparison of passwords and
    the rotation of temporary ones.
  \<^item> \<open>Session_Msgs\<close>: what an authorized peer sends, in \<open>server/connection.rs\<close>: \<open>on_message\<close>
    from the authorized branch on, with its handlers, on a Windows host. The state is the part
    of \<open>Connection\<close> the messages touch, the effects on services, files and devices are a
    datatype. Every effect is covered by what the host granted
    (C5), also after a permission was taken back
    (\<open>keyboard_revoked\<close>), a cancelled file job stays silent
    (\<open>cancelled_job_silent\<close>), and what is served whatever the kind of the
    connection (\<open>kind_not_enforced\<close>).
  \<^item> \<open>Services\<close>: \<open>server/service.rs\<close> and the \<open>Server\<close> of \<open>server.rs\<close>: who receives video,
    audio, clipboard and cursor. The detailed services implement a relation between names and
    connections (C7); a snapshot comes first
    (\<open>snapshot_first\<close>), except for a connection that subscribes while one is being
    sent (\<open>late_subscriber_misses_snapshot\<close>); a removed connection gets nothing more
    (\<open>removed_connection_silent\<close>); the modes of choosing displays
    (\<open>capture_modes\<close>), the loops of the service threads.
  \<^item> \<open>Served\<close>: the effects of \<open>Session_Msgs\<close> carried out on \<open>Services\<close>: a permission taken
    back keeps the connection out of the service (C9), and a
    peer changes its own subscriptions only (\<open>served_isolated\<close>).
  \<^item> \<open>Rendezvous\<close>: the registration of \<open>rendezvous_mediator.rs\<close> over UDP and TCP as step
    functions on the configuration and the state of a loop. A renewed id is not announced
    before a confirmation (C23), a lost registration is
    repeated (\<open>registration_repeated\<close>), bounds of the reported latency
    (\<open>reported_latency_bounds\<close>); the confirmation of an id the server has not seen
    (\<open>late_conflict_announces_unconfirmed_id\<close>) and the server that holds up the
    others (\<open>conflict_blocks_other_servers\<close>).
  \<^item> \<open>Incoming\<close>: the agent's half of the key exchange and the accepting of connections in
    \<open>server.rs\<close>, the requests to meet a peer and the direct server of
    \<open>rendezvous_mediator.rs\<close>. Together with the viewer's half of \<open>Client_Connect\<close> both ends
    agree on the key (C4); what arranged connections carry
    (\<open>arranged_connections\<close>); that a peer can have the agent talk in the clear
    (C34); when the direct door is open (\<open>direct_door\<close>),
    the bind that is not tried again (\<open>direct_bind_failure_sticks\<close>), the race of the
    guard against repeated requests (\<open>duplicate_guard_race\<close>).
  \<^item> \<open>Conn_Manager\<close>: \<open>ui_cm_interface.rs\<close>, the table of clients at the customer, the buttons,
    the task of each connection and its file jobs, on top of \<open>Sched\<close>. Nobody is let in but by
    the owner (C2), the effect of the time card
    (\<open>card_answer_effect\<close>), file clips after the permission was taken back
    (\<open>revoked_file_clips_stop\<close>); the waiting job that blocks the others
    (\<open>waiting_job_blocks\<close>) and the uploads lost to a second press
    (\<open>authorize_again_drops_uploads\<close>).
  \<^item> \<open>Conn_Registry\<close>: the registries of live and authorized connections, control permissions
    and the wake lock of \<open>server/connection.rs\<close> (module \<open>raii\<close>), as a step relation over the
    registries and the users of \<open>Video_Qos\<close>, which stay consistent
    (C22); the wake lock follows them.
  \<^item> \<open>Term_Buffer\<close>, \<open>Term_Helper\<close>, \<open>Terminal\<close>: \<open>server/terminal_service.rs\<close> and
    \<open>server/terminal_helper.rs\<close>. The replay buffer with its 64-bit counter: when trimming
    returns (\<open>trim_buffer_returns_iff\<close>), that appending returns within the limits
    (C30), and when it never does (C31).
    The pipe protocol between service and helper process
    (C20). The registry of services and sessions as a step
    relation with its well-formedness (C29), what a returning client gets
    (C11, \<open>reconnect_replay\<close>), the end of the window size
    signals (\<open>sigwinch_ends\<close>), and the removal of a service that still prints
    (\<open>streaming_service_removed\<close>).
  \<^item> \<open>Auth\<close>: \<open>chainremote_auth.rs\<close>, the account of the technician. The folders of connection
    records refine one record store per account (C12), except when a
    folder cannot be renamed (\<open>rename_failure_leaks\<close>); the effect of a login
    (\<open>login_effect\<close>) and the expiry count that survives it
    (\<open>relogin_expires_at_once\<close>).
  \<^item> \<open>Updater\<close>: \<open>chainremote_updater.rs\<close>. Guards of a launch over whole runs of the thread
    (C19); the pause after a failure and the two cases in which a
    deferred cycle is not retried as announced.
  \<^item> \<open>Service_Process\<close>: the two processes of \<open>platform/windows.rs\<close>, with \<open>Push_Agent\<close> and
    \<open>Updater\<close> in one and the connections of \<open>Conn_Registry\<close> in the other. The guards against
    installing during a session look at the wrong one
    (C40).
  \<^item> \<open>Migrate\<close>: \<open>chainremote_migrate.rs\<close> on trees of files and registry keys: nothing is
    overwritten (C28), what can be copied is
    (\<open>migration_complete\<close>), and what cannot is lost (\<open>failed_copy_is_final\<close>).
  \<^item> \<open>Probe\<close>: \<open>chainremote_probe.rs\<close> on top of \<open>Client_Connect\<close>: the list of peers is left
    as it was (\<open>probe_leaves_peers\<close>), but the record of a session that starts meanwhile
    is deleted (\<open>probe_deletes_session_record\<close>).
  \<^item> \<open>Custom_Server\<close>: \<open>custom_server.rs\<close>, the server settings in the name of the installer,
    which are read back (\<open>file_name_roundtrip\<close>); the signature that is not
    required (\<open>unsigned_settings_accepted\<close>), and letters that change their length
    (\<open>capital_dotted_i_loses_host\<close>).
  \<^item> \<open>Firewall\<close>: \<open>chainremote_firewall.rs\<close>, with the report flag as a latch.
  \<^item> \<open>Upnp\<close>: \<open>chainremote_upnp.rs\<close> with its threads interleaved: the switch closes the door
    (\<open>upnp_off_bounded\<close>), and the address stored after it.
  \<^item> \<open>Heartbeat\<close>: \<open>chainremote_heartbeat.rs\<close>, which drives the four watches above. Reports
    wait for their delivery (C38), an ordered cleanup runs
    once (\<open>heartbeat_cleanup_once\<close>), an unreadable answer disarms the machine
    (\<open>heartbeat_unreadable_answer_disarms\<close>); further lemmas account for the cleanup
    of the disk and bound the nap between two ticks.

  \<^item> \<open>Client_Files\<close>: the file jobs of the technician's session in \<open>client/io_loop.rs\<close>:
    uploads, downloads and deletions of folders. A confirmed deletion visits every file and
    ends (C15), the host writes only where the technician asked
    for it (C6) and is told to overwrite only with
    consent (C21), but it can exchange the files of a deletion on
    the technician's disk (C32).
  \<^item> \<open>Client_Media\<close>: video and sound of the session in \<open>client.rs\<close> and \<open>client/io_loop.rs\<close>.
    The two queues before the decoder refine one (C18) until a
    frame is evicted (\<open>eviction_reorders\<close>); the rate asked for by the
    automatic control (\<open>requested_fps_bounds\<close>), recording as the host permits and
    the technician wants (C25), the cuts of the sound buffer
    (\<open>sound_cut_bounds\<close>).
  \<^item> \<open>Client_Login\<close>: \<open>LoginConfigHandler\<close> of \<open>client.rs\<close>, composed with the agent's half of
    \<open>Login\<close> and \<open>Session_Msgs\<close>: a remembered password logs in again
    (C14), one of a shared address book is not
    stored (C26), a session for viewing only cannot act
    (C8).
  \<^item> \<open>Client_Rounds\<close>: reconnecting in \<open>ui_session_interface.rs\<close>: old rounds do not disturb the
    new one (C24), except for the first one of the head office
    build (\<open>first_round_escapes\<close>).
  \<^item> \<open>Client_Session\<close>: the loop of \<open>client/io_loop.rs\<close> with what it calls in
    \<open>ui_session_interface.rs\<close>, composed of the four above. The microphone opens only for the
    technician's own call (C10), also one that was hung up
    (C33); a silent host ends the session
    (C27), the end is announced once
    (\<open>goodbye_once\<close>), an offer of a time is kept until it is answered
    (\<open>offer_kept_until_answered\<close>), and no link of the host is shown
    (\<open>links_are_own\<close>).

  \<^bold>\<open>How effects are modelled.\<close> Statics and files a component owns are records passed
  explicitly. What a step learns from outside (network answers, clock readings, outputs of
  system commands, registry values, contents read from files) is a record of observations,
  one field for each reading, so that two readings of a clock may differ; what a step does to
  the outside is a list of actions. Operations return errors as values. Histories are lists
  of steps, and the invariants hold for all of them by the locale \<open>machine\<close>; the registries
  of connections and of terminals are inductive step relations, with invariants by rule
  induction. Threads that share statics are interleaved explicitly in \<open>Upnp\<close>, in \<open>Services\<close>
  and in \<open>Conn_Manager\<close>, and in \<open>Heartbeat\<close> the watches turn between the reports; in
  \<open>Login_Throttle\<close> connections come between the check and the update of the counters, and
  \<open>Service_Process\<close> interleaves two processes; elsewhere a step is one critical section of the
  code, or several where the theory says so.

  \<^bold>\<open>Interfaces.\<close> Besides those of \<open>Prelude\<close>: \<open>sched_store\<close> (the marker file), \<open>account_store\<close>
  and \<open>account_switch\<close> (what a switch of accounts promises, refined by the folders of \<open>Auth\<close>),
  \<open>terminal_link\<close> (compression between the terminal service and the client), \<open>subscription\<close>
  (what the server relies on of a service), \<open>registration_loop\<close> (what both loops of the
  mediator promise of the id and its confirmation), \<open>failure_limit\<close> (what a limit on failures
  relies on, of all failures and of those within a minute).

  \<^bold>\<open>Parameters.\<close> The submodule \<open>hbb_common\<close> is not part of the sources: its option store
  is a record of operations with the law that a read returns the last value written
  (\<open>option_store\<close>, with a concrete store for the runs), its configuration flags, identifier
  check and password storage are arguments. SHA-256, signatures and boxes, \<open>serde_json\<close>, the
  standard hasher, compression and TOTP are function parameters; the laws used of them are
  stated as hypotheses (what was serialized is read back) and are witnessed by concrete
  functions.

  \<^bold>\<open>Bounds.\<close> No definition uses fuel: loops over received data recurse on the data, the
  nap of the heartbeat, the reads of the helper's pipe and the string functions have
  termination proofs with a measure. The trimming loop of the terminal buffer may run forever
  and is a partial function whose value is then \<^const>\<open>None\<close>; so is the queue of commands of the
  technician's session, whose handlers put new commands into it. Arithmetic that can overflow
  wraps at its width, as in the release profile of the build.

  \<^bold>\<open>Not modelled.\<close> Codecs, capture, input, clipboard, audio and the platform layer (system
  calls), the callbacks of the single services, the user interfaces and generated bridges,
  translations, discovery on the local network, the panel data client, the keyboard and mouse of the
  technician, log texts, and the description of the machine sent after an authorization. They
  are system calls, generated code or forwarding to interfaces whose behaviour is outside the
  sources.

  \<^bold>\<open>What could follow.\<close> The panel data client, the callbacks of the clipboard and audio
  services beneath \<open>Services\<close>, the port forwards; for the modelled parts, an abstract
  specification of the access window and of the authorization that \<open>Sched\<close>, \<open>Conn_Manager\<close> and
  \<open>Login\<close> together refine.
\<close>

end
